(* ===== verification/Rust_Str.thy ===== *)
theory Rust_Str
  imports Prelude
begin

text \<open>
  The part of Rust's standard library on \<open>str\<close>, \<open>char\<close> and integer parsing that the program
  calls, as executable functions on UTF-8 byte lists: ASCII classes and case folding, the
  division of a byte list into characters, trimming and splitting at Unicode white space,
  \<open>split\<close>, \<open>split_once\<close>, \<open>lines\<close>, \<open>join\<close>, \<open>parse::<uN>\<close>, \<open>from_str_radix\<close> and the decimal
  rendering of an unsigned integer; and the lemmas on them that the components share.
\<close>

subsection \<open>Bytes and ASCII classes\<close>

abbreviation byte :: "char \<Rightarrow> nat" where "byte c \<equiv> of_char c"

definition is_ascii_lowercase :: "char \<Rightarrow> bool" where
  "is_ascii_lowercase c = (97 \<le> byte c \<and> byte c \<le> 122)"

definition is_ascii_uppercase :: "char \<Rightarrow> bool" where
  "is_ascii_uppercase c = (65 \<le> byte c \<and> byte c \<le> 90)"

definition is_ascii_digit :: "char \<Rightarrow> bool" where
  "is_ascii_digit c = (48 \<le> byte c \<and> byte c \<le> 57)"

definition is_ascii_whitespace :: "char \<Rightarrow> bool" where
  "is_ascii_whitespace c = (byte c \<in> {9, 10, 12, 13, 32})"

definition to_ascii_lower :: "char \<Rightarrow> char" where
  "to_ascii_lower c = (if is_ascii_uppercase c then char_of (byte c + 32) else c)"

definition to_ascii_lowercase :: "str \<Rightarrow> str" where
  "to_ascii_lowercase s = map to_ascii_lower s"

definition eq_ignore_ascii_case :: "str \<Rightarrow> str \<Rightarrow> bool" where
  "eq_ignore_ascii_case a b = (to_ascii_lowercase a = to_ascii_lowercase b)"

lemma byte_lt_256 [simp]: "byte c < 256"
  using of_char_mod_256 [of c, where 'a = nat] by (metis mod_less_divisor zero_less_numeral)

lemma byte_inject [simp]: "byte c = byte d \<longleftrightarrow> c = d"
  by (metis of_char_eq_iff)

lemma to_ascii_lower_idem [simp]: "to_ascii_lower (to_ascii_lower c) = to_ascii_lower c"
  by (auto simp: to_ascii_lower_def is_ascii_uppercase_def)

lemma to_ascii_lowercase_idem [simp]:
  "to_ascii_lowercase (to_ascii_lowercase s) = to_ascii_lowercase s"
  by (simp add: to_ascii_lowercase_def)

lemma to_ascii_lower_not_upper: "\<not> is_ascii_uppercase (to_ascii_lower c)"
  by (auto simp: to_ascii_lower_def is_ascii_uppercase_def)

subsection \<open>Characters of a byte list\<close>

text \<open>A UTF-8 continuation byte is \<open>10xxxxxx\<close>; every other byte starts a character.\<close>

definition is_cont :: "char \<Rightarrow> bool" where
  "is_cont c = (128 \<le> byte c \<and> byte c < 192)"

function chars :: "str \<Rightarrow> str list" where
  "chars [] = []"
| "chars (c # s) = (c # takeWhile is_cont s) # chars (dropWhile is_cont s)"
  by pat_completeness auto
termination
  by (relation "measure length") (auto simp: le_imp_less_Suc length_dropWhile_le)

definition char_len :: "str \<Rightarrow> nat" where
  "char_len s = length (chars s)"

definition cut_chars :: "str \<Rightarrow> nat \<Rightarrow> str" where
  "cut_chars s n = concat (take n (chars s))"

definition is_char_boundary :: "str \<Rightarrow> nat \<Rightarrow> bool" where
  "is_char_boundary s i = (i = 0 \<or> i = length s \<or> (i < length s \<and> \<not> is_cont (s ! i)))"

lemma concat_chars [simp]: "concat (chars s) = s"
  by (induction s rule: chars.induct) simp_all

lemma chars_nonempty: "x \<in> set (chars s) \<Longrightarrow> x \<noteq> []"
  by (induction s rule: chars.induct) auto

lemma chars_eq_Nil [simp]: "chars s = [] \<longleftrightarrow> s = []"
  by (cases s) simp_all

lemma char_len_le: "char_len s \<le> length s"
  by (induction s rule: chars.induct)
    (auto simp: char_len_def intro: order_trans [OF _ length_dropWhile_le])

lemma cut_chars_all: "char_len s \<le> n \<Longrightarrow> cut_chars s n = s"
  by (simp add: cut_chars_def char_len_def)

lemma chars_cut:
  "chars (concat (take n (chars s))) = take n (chars s)"
proof (induction s arbitrary: n rule: chars.induct)
  case (2 c s)
  show ?case
  proof (cases n)
    case (Suc m)
    let ?r = "concat (take m (chars (dropWhile is_cont s)))"
    have stop: "?r = [] \<or> \<not> is_cont (hd ?r)"
    proof (cases "dropWhile is_cont s")
      case (Cons d t)
      then have "\<not> is_cont d" using hd_dropWhile [of is_cont s] by simp
      with Cons show ?thesis by (cases m) simp_all
    next
      case Nil
      show ?thesis unfolding Nil by simp
    qed
    have all: "list_all is_cont (takeWhile is_cont s)"
      by (auto simp: list_all_iff dest: set_takeWhileD)
    show ?thesis
      by (simp only: Suc chars.simps take_Suc_Cons concat.simps append_Cons 2
          takeWhile_append_stop [OF all stop] dropWhile_append_stop [OF all stop])
  qed simp
qed simp

lemma char_len_cut: "char_len (cut_chars s n) = min (char_len s) n"
  by (simp add: char_len_def cut_chars_def chars_cut)

lemma cut_chars_short: "cut_chars s n = k \<Longrightarrow> char_len k < n \<Longrightarrow> s = k"
  using char_len_cut [of s n] by (cases "char_len s \<le> n") (auto simp: cut_chars_all)

definition ascii_only :: "str \<Rightarrow> bool" where
  "ascii_only s = list_all (\<lambda>c. byte c < 128) s"

lemma chars_ascii: "ascii_only s \<Longrightarrow> chars s = map (\<lambda>c. [c]) s"
proof (induction s rule: chars.induct)
  case (2 c s)
  then have "takeWhile is_cont s = [] \<and> dropWhile is_cont s = s"
    by (cases s) (auto simp: ascii_only_def is_cont_def)
  with 2 show ?case by (simp add: ascii_only_def)
qed simp

lemma char_len_ascii: "ascii_only s \<Longrightarrow> char_len s = length s"
  by (simp add: char_len_def chars_ascii)

subsection \<open>Prefixes, suffixes, substrings\<close>

definition starts_with :: "str \<Rightarrow> str \<Rightarrow> bool" where
  "starts_with s p = prefix p s"

definition ends_with :: "str \<Rightarrow> str \<Rightarrow> bool" where
  "ends_with s p = suffix p s"

definition strip_prefix :: "str \<Rightarrow> str \<Rightarrow> str option" where
  "strip_prefix s p = (if prefix p s then Some (drop (length p) s) else None)"

definition strip_suffix :: "str \<Rightarrow> str \<Rightarrow> str option" where
  "strip_suffix s p = (if suffix p s then Some (take (length s - length p) s) else None)"

fun contains_str :: "str \<Rightarrow> str \<Rightarrow> bool" where
  "contains_str [] p = (p = [])"
| "contains_str (c # s) p = (prefix p (c # s) \<or> contains_str s p)"

abbreviation contains_char :: "str \<Rightarrow> char \<Rightarrow> bool" where
  "contains_char s c \<equiv> c \<in> set s"

lemma strip_prefix_eq_Some [simp]: "strip_prefix s p = Some r \<longleftrightarrow> s = p @ r"
  by (auto simp: strip_prefix_def prefix_def)

lemma strip_prefix_append [simp]: "strip_prefix (p @ r) p = Some r"
  by simp

lemma strip_prefix_eq_None: "strip_prefix s p = None \<longleftrightarrow> \<not> prefix p s"
  by (simp add: strip_prefix_def)

lemma contains_str_iff: "contains_str s p \<longleftrightarrow> (\<exists>u v. s = u @ p @ v)"
proof (induction s)
  case (Cons c s)
  show ?case
  proof
    assume "contains_str (c # s) p"
    with Cons show "\<exists>u v. c # s = u @ p @ v"
      by (metis append_Cons append_Nil contains_str.simps(2) prefix_def)
  next
    assume "\<exists>u v. c # s = u @ p @ v"
    then obtain u v where uv: "c # s = u @ p @ v" by blast
    show "contains_str (c # s) p"
    proof (cases u)
      case Nil
      with uv have "prefix p (c # s)" by (simp add: prefix_def)
      then show ?thesis by simp
    next
      case (Cons d u')
      with uv have "s = u' @ p @ v" by simp
      with Cons.IH show ?thesis by auto
    qed
  qed
qed simp

subsection \<open>White space\<close>

text \<open>The UTF-8 encodings of the characters with the Unicode property \<open>White_Space\<close>.\<close>

definition ws_encodings :: "str list" where
  "ws_encodings =
    [[CHR 0x20], [CHR 0x09], [CHR 0x0A], [CHR 0x0B], [CHR 0x0C], [CHR 0x0D],
     [CHR 0xC2, CHR 0x85], [CHR 0xC2, CHR 0xA0], [CHR 0xE1, CHR 0x9A, CHR 0x80],
     [CHR 0xE2, CHR 0x80, CHR 0x80], [CHR 0xE2, CHR 0x80, CHR 0x81],
     [CHR 0xE2, CHR 0x80, CHR 0x82], [CHR 0xE2, CHR 0x80, CHR 0x83],
     [CHR 0xE2, CHR 0x80, CHR 0x84], [CHR 0xE2, CHR 0x80, CHR 0x85],
     [CHR 0xE2, CHR 0x80, CHR 0x86], [CHR 0xE2, CHR 0x80, CHR 0x87],
     [CHR 0xE2, CHR 0x80, CHR 0x88], [CHR 0xE2, CHR 0x80, CHR 0x89],
     [CHR 0xE2, CHR 0x80, CHR 0x8A], [CHR 0xE2, CHR 0x80, CHR 0xA8],
     [CHR 0xE2, CHR 0x80, CHR 0xA9], [CHR 0xE2, CHR 0x80, CHR 0xAF],
     [CHR 0xE2, CHR 0x81, CHR 0x9F], [CHR 0xE3, CHR 0x80, CHR 0x80]]"

definition ws_len :: "str list \<Rightarrow> str \<Rightarrow> nat" where
  "ws_len encs s = (case find (\<lambda>e. prefix e s) encs of None \<Rightarrow> 0 | Some e \<Rightarrow> length e)"

lemma ws_len_le: "ws_len encs s \<le> length s"
  by (auto simp: ws_len_def split: option.split dest!: find_Some_iff_prefix prefix_length_le)

function trim_by :: "str list \<Rightarrow> str \<Rightarrow> str" where
  "trim_by encs s = (if ws_len encs s = 0 then s else trim_by encs (drop (ws_len encs s) s))"
  by pat_completeness auto
termination
proof (relation "measure (\<lambda>(encs, s). length s)", goal_cases)
  case (2 encs s)
  then show ?case using ws_len_le [of encs s] by auto
qed simp

declare trim_by.simps [simp del]

definition trim_start :: "str \<Rightarrow> str" where
  "trim_start s = trim_by ws_encodings s"

definition trim_end :: "str \<Rightarrow> str" where
  "trim_end s = rev (trim_by (map rev ws_encodings) (rev s))"

definition trim :: "str \<Rightarrow> str" where
  "trim s = trim_end (trim_start s)"

definition trim_end_matches :: "str \<Rightarrow> char \<Rightarrow> str" where
  "trim_end_matches s c = rev (dropWhile (\<lambda>d. d = c) (rev s))"

definition trim_start_matches :: "str \<Rightarrow> str \<Rightarrow> str" where
  "trim_start_matches s p = trim_by [p] s"

function split_ws_from :: "str \<Rightarrow> str \<Rightarrow> str list" where
  "split_ws_from cur [] = (if cur = [] then [] else [cur])"
| "split_ws_from cur (c # s) =
     (if ws_len ws_encodings (c # s) = 0 then split_ws_from (cur @ [c]) s
      else (if cur = [] then [] else [cur]) @
        split_ws_from [] (drop (ws_len ws_encodings (c # s)) (c # s)))"
  by pat_completeness auto
termination
proof (relation "measure (\<lambda>(cur, s). length s)", goal_cases)
  case (3 cur c s)
  then show ?case using ws_len_le [of ws_encodings "c # s"] by auto
qed auto

definition split_whitespace :: "str \<Rightarrow> str list" where
  "split_whitespace s = split_ws_from [] s"

lemma split_ws_from_nonempty: "x \<in> set (split_ws_from cur s) \<Longrightarrow> x \<noteq> []"
  by (induction cur s rule: split_ws_from.induct) (auto split: if_splits)

lemma split_whitespace_nonempty: "x \<in> set (split_whitespace s) \<Longrightarrow> x \<noteq> []"
  unfolding split_whitespace_def by (rule split_ws_from_nonempty)

text \<open>A byte that cannot start a white-space character: printable ASCII.\<close>

definition is_graph :: "char \<Rightarrow> bool" where
  "is_graph c = (33 \<le> byte c \<and> byte c < 127)"

lemma ws_encodings_not_graph:
  "list_all (\<lambda>e. e \<noteq> [] \<and> \<not> is_graph (hd e)) ws_encodings"
  "list_all (\<lambda>e. e \<noteq> [] \<and> \<not> is_graph (hd e)) (map rev ws_encodings)"
  by code_simp+

lemma ws_len_graph:
  "list_all (\<lambda>e. e \<noteq> [] \<and> \<not> is_graph (hd e)) encs \<Longrightarrow> is_graph c \<Longrightarrow> ws_len encs (c # s) = 0"
  by (induction encs) (auto simp: ws_len_def neq_Nil_conv)

lemma graph_not_ws: "is_graph c \<Longrightarrow> ws_len ws_encodings (c # s) = 0"
  and graph_not_ws_rev: "is_graph c \<Longrightarrow> ws_len (map rev ws_encodings) (c # s) = 0"
  by (simp_all add: ws_len_graph ws_encodings_not_graph)

lemma space_ws: "ws_len ws_encodings (CHR '' '' # s) = 1"
  by (simp add: ws_len_def ws_encodings_def)

lemma ws_len_Nil [simp]: "ws_len ws_encodings [] = 0" "ws_len (map rev ws_encodings) [] = 0"
  by code_simp+

lemma trim_start_graph: "s = [] \<or> is_graph (hd s) \<Longrightarrow> trim_start s = s"
  by (cases s) (auto simp: trim_start_def trim_by.simps graph_not_ws)

lemma trim_end_graph: "s = [] \<or> is_graph (last s) \<Longrightarrow> trim_end s = s"
  by (cases s rule: rev_cases) (auto simp: trim_end_def trim_by.simps graph_not_ws_rev)

lemma trim_graph:
  "s = [] \<or> (is_graph (hd s) \<and> is_graph (last s)) \<Longrightarrow> trim s = s"
  by (auto simp: trim_def trim_start_graph trim_end_graph)

lemma split_ws_from_word:
  "list_all is_graph w \<Longrightarrow> split_ws_from cur (w @ s) = split_ws_from (cur @ w) s"
  by (induction w arbitrary: cur) (simp_all add: graph_not_ws)

lemma split_whitespace_word:
  "list_all is_graph w \<Longrightarrow> w \<noteq> [] \<Longrightarrow> split_whitespace (w @ CHR '' '' # s) = w # split_whitespace s"
  by (simp add: split_whitespace_def split_ws_from_word space_ws)

lemma split_whitespace_last:
  "list_all is_graph w \<Longrightarrow> w \<noteq> [] \<Longrightarrow> split_whitespace w = [w]"
  using split_ws_from_word [of w "[]" "[]"] by (simp add: split_whitespace_def)

text \<open>No encoding of a white-space character is a prefix of another, so a text that trims to nothing has no words.\<close>

lemma ws_encodings_prefix_free:
  "list_all (\<lambda>e. list_all (\<lambda>f. prefix e f \<longrightarrow> e = f) ws_encodings) ws_encodings"
  "list_all (\<lambda>e. e \<noteq> []) ws_encodings"
  by code_simp+

lemma ws_len_encoding:
  assumes "e \<in> set ws_encodings"
  shows "ws_len ws_encodings (e @ s) = length e"
proof (cases "find (\<lambda>f. prefix f (e @ s)) ws_encodings")
  case None
  with assms show ?thesis by (auto simp: find_None_iff)
next
  case (Some f)
  then have f: "f \<in> set ws_encodings" "prefix f (e @ s)" by (auto dest: find_Some_iff_prefix)
  then have "prefix f e \<or> prefix e f" by (meson prefix_same_cases prefixI)
  with assms f ws_encodings_prefix_free(1) have "f = e" by (auto simp: list_all_iff)
  with Some show ?thesis by (simp add: ws_len_def)
qed

lemma trim_by_Nil: "trim_by encs s = [] \<Longrightarrow> \<exists>es. set es \<subseteq> set encs \<and> s = concat es"
proof (induction encs s rule: trim_by.induct)
  case (1 encs s)
  show ?case
  proof (cases "ws_len encs s = 0")
    case True
    with "1.prems" show ?thesis by (intro exI [of _ "[]"]) (simp add: trim_by.simps)
  next
    case False
    then obtain e where e: "e \<in> set encs" "prefix e s" "ws_len encs s = length e"
      by (auto simp: ws_len_def split: option.splits dest!: find_Some_iff_prefix)
    from False "1.prems" have "trim_by encs (drop (ws_len encs s) s) = []"
      by (simp add: trim_by.simps [of encs s])
    with "1.IH" False obtain es where "set es \<subseteq> set encs" "drop (length e) s = concat es"
      using e(3) by auto
    with e show ?thesis
      by (intro exI [of _ "e # es"]) (auto simp: prefix_def)
  qed
qed

lemma trim_by_stops: "ws_len encs (trim_by encs s) = 0"
  by (induction encs s rule: trim_by.induct) (simp add: trim_by.simps)

lemma trim_Nil_concat:
  assumes "trim s = []"
  shows "\<exists>es. set es \<subseteq> set ws_encodings \<and> s = concat es"
proof -
  let ?t = "trim_start s"
  from assms have "trim_by (map rev ws_encodings) (rev ?t) = []"
    by (simp add: trim_def trim_end_def)
  then obtain es where es: "set es \<subseteq> set (map rev ws_encodings)" "rev ?t = concat es"
    using trim_by_Nil by blast
  have "?t = []"
  proof (cases es rule: rev_cases)
    case Nil
    with es(2) show ?thesis by simp
  next
    case (snoc es' e)
    from es(2) snoc have "?t = rev e @ rev (concat es')" by (metis concat_append concat.simps rev_append rev_rev_ident append_Nil2)
    moreover from es(1) snoc have "rev e \<in> set ws_encodings" by auto
    ultimately have "ws_len ws_encodings ?t = length e \<and> e \<noteq> []"
      using ws_len_encoding [of "rev e"] ws_encodings_prefix_free(2) by (auto simp: list_all_iff)
    then show ?thesis using trim_by_stops [of ws_encodings s] by (simp add: trim_start_def)
  qed
  then show ?thesis unfolding trim_start_def by (rule trim_by_Nil)
qed

lemma trim_Nil_no_words:
  assumes "trim s = []"
  shows "split_whitespace s = []"
proof -
  have "set es \<subseteq> set ws_encodings \<Longrightarrow> split_ws_from [] (concat es) = []" for es
  proof (induction es)
    case (Cons e es)
    then have "e \<noteq> []" "ws_len ws_encodings (e @ concat es) = length e"
      using ws_encodings_prefix_free(2) ws_len_encoding [of e] by (auto simp: list_all_iff)
    with Cons show ?case by (cases e) simp_all
  qed simp
  with trim_Nil_concat [OF assms] show ?thesis by (auto simp: split_whitespace_def)
qed

lemma split_ws_from_Cons_nonempty: "cur \<noteq> [] \<Longrightarrow> split_ws_from cur s \<noteq> []"
  by (induction cur s rule: split_ws_from.induct) auto

text \<open>A trimmed text that is not empty starts with a word.\<close>

lemma ws_len_prefix: "prefix p s \<Longrightarrow> ws_len encs s = 0 \<Longrightarrow> \<forall>e \<in> set encs. e \<noteq> [] \<Longrightarrow> ws_len encs p = 0"
proof (cases "find (\<lambda>e. prefix e p) encs")
  case (Some e)
  assume h: "prefix p s" "ws_len encs s = 0" "\<forall>e \<in> set encs. e \<noteq> []"
  from Some have e: "e \<in> set encs" "prefix e p" by (auto dest: find_Some_iff_prefix)
  with h(1) have "prefix e s" using prefix_order.trans by blast
  with e(1) have "find (\<lambda>e. prefix e s) encs \<noteq> None" by (auto simp: find_None_iff)
  then obtain f where "find (\<lambda>e. prefix e s) encs = Some f" by auto
  with h(2,3) have False by (auto simp: ws_len_def dest!: find_Some_iff_prefix)
  then show ?thesis ..
qed (simp add: ws_len_def)

lemma trim_by_suffix: "suffix (trim_by encs s) s"
proof (induction encs s rule: trim_by.induct)
  case (1 encs s)
  show ?case
  proof (cases "ws_len encs s = 0")
    case True
    then show ?thesis by (simp add: trim_by.simps)
  next
    case False
    with 1 have "suffix (trim_by encs (drop (ws_len encs s) s)) (drop (ws_len encs s) s)" by simp
    then show ?thesis using False suffix_drop suffix_order.trans
      by (simp add: trim_by.simps [of encs s]) blast
  qed
qed

lemma trim_starts_clean: "ws_len ws_encodings (trim s) = 0"
proof -
  have "suffix (rev (trim s)) (rev (trim_start s))"
    using trim_by_suffix [of "map rev ws_encodings" "rev (trim_start s)"] by (simp add: trim_def trim_end_def)
  then have "prefix (trim s) (trim_start s)" by (simp add: suffix_to_prefix)
  then show ?thesis
  proof (rule ws_len_prefix)
    show "ws_len ws_encodings (trim_start s) = 0" unfolding trim_start_def by (rule trim_by_stops)
    show "\<forall>e \<in> set ws_encodings. e \<noteq> []" using ws_encodings_prefix_free(2) by (simp add: list_all_iff)
  qed
qed

lemma trim_idem [simp]: "trim (trim s) = trim s"
proof -
  have "ws_len (map rev ws_encodings) (rev (trim s)) = 0"
    using trim_by_stops by (simp add: trim_def trim_end_def)
  then have "trim_end (trim s) = trim s" by (simp add: trim_end_def trim_by.simps)
  moreover have "trim_start (trim s) = trim s" using trim_starts_clean by (simp add: trim_start_def trim_by.simps)
  ultimately show ?thesis by (simp add: trim_def [of "trim s"])
qed

lemma trim_first_word: "trim s \<noteq> [] \<Longrightarrow> split_whitespace (trim s) \<noteq> []"
proof -
  assume ne: "trim s \<noteq> []"
  then obtain c t where ct: "trim s = c # t" by (cases "trim s") auto
  then have "ws_len ws_encodings (c # t) = 0" using trim_starts_clean [of s] by simp
  then have "split_whitespace (c # t) = split_ws_from [c] t" by (simp add: split_whitespace_def)
  then show ?thesis unfolding ct using split_ws_from_Cons_nonempty [of "[c]" t] by simp
qed

subsection \<open>Splitting at a character, joining\<close>

fun split_char :: "char \<Rightarrow> str \<Rightarrow> str list" where
  "split_char d [] = [[]]"
| "split_char d (c # s) =
     (if c = d then [] # split_char d s
      else (case split_char d s of [] \<Rightarrow> [[c]] | p # ps \<Rightarrow> (c # p) # ps))"

definition split_once :: "str \<Rightarrow> char \<Rightarrow> (str \<times> str) option" where
  "split_once s d =
     (if d \<in> set s then Some (takeWhile (\<lambda>c. c \<noteq> d) s, tl (dropWhile (\<lambda>c. c \<noteq> d) s)) else None)"

definition rsplit_once :: "str \<Rightarrow> char \<Rightarrow> (str \<times> str) option" where
  "rsplit_once s d =
     (case split_once (rev s) d of None \<Rightarrow> None | Some (a, b) \<Rightarrow> Some (rev b, rev a))"

definition find_char :: "str \<Rightarrow> char \<Rightarrow> nat option" where
  "find_char s c = (if c \<in> set s then Some (length (takeWhile (\<lambda>d. d \<noteq> c) s)) else None)"

definition rfind_char :: "str \<Rightarrow> char \<Rightarrow> nat option" where
  "rfind_char s c =
     (case find_char (rev s) c of None \<Rightarrow> None | Some i \<Rightarrow> Some (length s - 1 - i))"

definition trim_matches :: "str \<Rightarrow> char \<Rightarrow> str" where
  "trim_matches s c = trim_end_matches (dropWhile (\<lambda>d. d = c) s) c"

fun join :: "str \<Rightarrow> str list \<Rightarrow> str" where
  "join sep [] = []"
| "join sep [x] = x"
| "join sep (x # y # xs) = x @ sep @ join sep (y # xs)"

lemma split_char_nonempty [simp]: "split_char d s \<noteq> []"
  by (induction s) (auto split: list.split)

lemma split_char_no_sep: "x \<in> set (split_char d s) \<Longrightarrow> d \<notin> set x"
  by (induction s arbitrary: x) (fastforce split: list.splits if_splits)+

lemma split_char_parts: "x \<in> set (split_char d s) \<Longrightarrow> set x \<subseteq> set s"
  by (induction s arbitrary: x) (fastforce split: list.splits if_splits)+

lemma split_char_id: "d \<notin> set x \<Longrightarrow> split_char d x = [x]"
  by (induction x) auto

lemma split_char_append: "d \<notin> set x \<Longrightarrow> split_char d (x @ d # s) = x # split_char d s"
  by (induction x) auto

lemma split_char_join:
  "xs \<noteq> [] \<Longrightarrow> \<forall>x \<in> set xs. d \<notin> set x \<Longrightarrow> split_char d (join [d] xs) = xs"
  by (induction "[d]" xs rule: join.induct) (simp_all add: split_char_id split_char_append)

lemma join_split_char [simp]: "join [d] (split_char d s) = s"
proof (induction s)
  case (Cons c s)
  show ?case
  proof (cases "split_char d s")
    case Nil
    then show ?thesis by simp
  next
    case (Cons p ps)
    with Cons.IH show ?thesis by (cases ps) auto
  qed
qed simp

lemma split_once_append: "d \<notin> set a \<Longrightarrow> split_once (a @ d # b) d = Some (a, b)"
  by (subst split_once_def, subst takeWhile_append_stop, auto simp: list_all_iff,
      subst dropWhile_append_stop, auto simp: list_all_iff)

lemma split_once_eq_Some:
  "split_once s d = Some (a, b) \<longleftrightarrow> s = a @ d # b \<and> d \<notin> set a"
proof
  assume h: "split_once s d = Some (a, b)"
  then have "d \<in> set s" by (auto simp: split_once_def split: if_splits)
  then obtain u v where "s = u @ d # v" and "d \<notin> set u" by (meson split_list_first)
  with h show "s = a @ d # b \<and> d \<notin> set a" by (simp add: split_once_append)
qed (auto simp: split_once_append)

lemma split_once_eq_None: "split_once s d = None \<longleftrightarrow> d \<notin> set s"
  by (simp add: split_once_def)

lemma rsplit_once_append: "d \<notin> set b \<Longrightarrow> rsplit_once (a @ d # b) d = Some (a, b)"
  using split_once_append [of d "rev b" "rev a"] by (simp add: rsplit_once_def)

lemma find_char_append: "c \<notin> set a \<Longrightarrow> find_char (a @ c # b) c = Some (length a)"
  by (subst find_char_def, subst takeWhile_append_stop, auto simp: list_all_iff)

lemma rfind_char_append: "c \<notin> set b \<Longrightarrow> rfind_char (a @ c # b) c = Some (length a)"
  using find_char_append [of c "rev b" "rev a"] by (simp add: rfind_char_def)

lemma set_join: "set (join sep xs) \<subseteq> set sep \<union> (\<Union>x \<in> set xs. set x)"
  by (induction sep xs rule: join.induct) auto

lemma join_eq_Nil: "\<forall>x \<in> set xs. x \<noteq> [] \<Longrightarrow> join sep xs = [] \<longleftrightarrow> xs = []"
  by (cases "(sep, xs)" rule: join.cases) auto

text \<open>
  \<open>str::lines\<close>: pieces end at a line feed, a carriage return right before it is dropped too, and
  an empty piece after the last line feed is no line.
\<close>

definition strip_cr :: "str \<Rightarrow> str" where
  "strip_cr l = (if l \<noteq> [] \<and> last l = CHR 0x0D then butlast l else l)"

definition lines :: "str \<Rightarrow> str list" where
  "lines s = (let ps = split_char CHR 0x0A s
     in map strip_cr (butlast ps) @ (if last ps = [] then [] else [last ps]))"

subsection \<open>Integers as text\<close>

definition digit_value :: "char \<Rightarrow> nat option" where
  "digit_value c =
     (let n = byte c in
      if 48 \<le> n \<and> n \<le> 57 then Some (n - 48)
      else if 97 \<le> n \<and> n \<le> 122 then Some (n - 87)
      else if 65 \<le> n \<and> n \<le> 90 then Some (n - 55) else None)"

fun radix_value :: "nat \<Rightarrow> nat \<Rightarrow> nat \<Rightarrow> str \<Rightarrow> nat option" where
  "radix_value r bound acc [] = Some acc"
| "radix_value r bound acc (c # s) =
     (case digit_value c of None \<Rightarrow> None
      | Some d \<Rightarrow> if d < r \<and> acc * r + d < bound then radix_value r bound (acc * r + d) s else None)"

text \<open>
  \<open>uN::from_str_radix\<close> with \<open>bound = 2 ^ N\<close>: an optional plus sign, at least one digit, and
  no value beyond the type. \<open>parse::<uN>\<close> is radix ten.
\<close>

definition from_str_radix :: "nat \<Rightarrow> nat \<Rightarrow> str \<Rightarrow> nat option" where
  "from_str_radix r bound s =
     (let ds = (case s of c # t \<Rightarrow> if c = CHR ''+'' then t else s | [] \<Rightarrow> s)
      in if ds = [] then None else radix_value r bound 0 ds)"

abbreviation u8_bound :: nat where "u8_bound \<equiv> 256"
abbreviation u16_bound :: nat where "u16_bound \<equiv> 65536"
abbreviation u32_bound :: nat where "u32_bound \<equiv> 4294967296"
abbreviation u64_bound :: nat where "u64_bound \<equiv> 18446744073709551616"
abbreviation u64_max :: nat where "u64_max \<equiv> 18446744073709551615"

definition parse_u32 :: "str \<Rightarrow> nat option" where
  "parse_u32 s = from_str_radix 10 u32_bound s"

definition parse_u64 :: "str \<Rightarrow> nat option" where
  "parse_u64 s = from_str_radix 10 u64_bound s"

fun show_nat :: "nat \<Rightarrow> str" where
  "show_nat n = (if n < 10 then [char_of (48 + n)] else show_nat (n div 10) @ [char_of (48 + n mod 10)])"

declare show_nat.simps [simp del]

lemma radix_value_bound: "acc < bound \<Longrightarrow> radix_value r bound acc s = Some n \<Longrightarrow> n < bound"
  by (induction s arbitrary: acc) (auto split: option.splits if_splits)

lemma from_str_radix_bound: "0 < bound \<Longrightarrow> from_str_radix r bound s = Some n \<Longrightarrow> n < bound"
  by (auto simp: from_str_radix_def Let_def simp del: radix_value.simps split: if_splits list.splits
      dest: radix_value_bound [rotated])

lemma parse_u32_bound: "parse_u32 s = Some n \<Longrightarrow> n < u32_bound"
  by (auto simp: parse_u32_def dest: from_str_radix_bound [rotated])

lemma parse_u64_bound: "parse_u64 s = Some n \<Longrightarrow> n < u64_bound"
  by (auto simp: parse_u64_def dest: from_str_radix_bound [rotated])

lemma digit_value_digit: "d < 10 \<Longrightarrow> digit_value (char_of (48 + d)) = Some d"
  by (simp add: digit_value_def Let_def)

lemma radix_value_append:
  "radix_value r bound acc (s @ t) =
     (case radix_value r bound acc s of None \<Rightarrow> None | Some a \<Rightarrow> radix_value r bound a t)"
  by (induction s arbitrary: acc) (auto split: option.splits)

lemma show_nat_value: "n < bound \<Longrightarrow> radix_value 10 bound 0 (show_nat n) = Some n"
proof (induction n rule: show_nat.induct)
  case (1 n)
  show ?case
  proof (cases "n < 10")
    case True
    with 1 show ?thesis by (simp add: show_nat.simps [of n] digit_value_digit)
  next
    case False
    with 1 have "radix_value 10 bound 0 (show_nat (n div 10)) = Some (n div 10)" by simp
    with False "1.prems" show ?thesis
      by (simp add: show_nat.simps [of n] radix_value_append digit_value_digit)
  qed
qed

lemma show_nat_digits: "list_all is_ascii_digit (show_nat n)"
proof (induction n rule: show_nat.induct)
  case (1 n)
  then show ?case
    by (cases "n < 10") (simp_all add: show_nat.simps [of n] is_ascii_digit_def)
qed

lemma show_nat_nonempty [simp]: "show_nat n \<noteq> []"
  by (simp add: show_nat.simps [of n])

lemma digit_not_plus: "is_ascii_digit c \<Longrightarrow> c \<noteq> CHR ''+''"
  by (auto simp: is_ascii_digit_def)

lemma from_str_radix_show_nat: "n < bound \<Longrightarrow> from_str_radix 10 bound (show_nat n) = Some n"
  using show_nat_digits [of n] show_nat_value [of n bound]
  by (cases "show_nat n") (auto simp: from_str_radix_def Let_def dest: digit_not_plus)

lemma parse_u32_show_nat [simp]: "n < u32_bound \<Longrightarrow> parse_u32 (show_nat n) = Some n"
  by (simp add: parse_u32_def from_str_radix_show_nat)

lemma parse_u64_show_nat [simp]: "n < u64_bound \<Longrightarrow> parse_u64 (show_nat n) = Some n"
  by (simp add: parse_u64_def from_str_radix_show_nat)

lemma digit_graph: "is_ascii_digit c \<Longrightarrow> is_graph c"
  by (simp add: is_ascii_digit_def is_graph_def)

lemma show_nat_graph: "list_all is_graph (show_nat n)"
  using show_nat_digits [of n] by (auto simp: list_all_iff digit_graph)

subsection \<open>Saturating arithmetic on \<open>u64\<close>\<close>

text \<open>\<open>char::from\<close> a byte, pushed to a \<open>String\<close>: the UTF-8 encoding of U+0000 to U+00FF.\<close>

definition char_from_byte :: "nat \<Rightarrow> str" where
  "char_from_byte v =
     (if v < 128 then [char_of v] else [char_of (192 + v div 64), char_of (128 + v mod 64)])"

definition sat_add :: "nat \<Rightarrow> nat \<Rightarrow> nat" where "sat_add a b = min (a + b) u64_max"
definition sat_mul :: "nat \<Rightarrow> nat \<Rightarrow> nat" where "sat_mul a b = min (a * b) u64_max"
definition sat_sub :: "nat \<Rightarrow> nat \<Rightarrow> nat" where "sat_sub a b = a - b"

text \<open>Rust's \<open>/\<close> on \<open>i64\<close> with a positive divisor truncates.\<close>

definition i64_div :: "int \<Rightarrow> int \<Rightarrow> int" where
  "i64_div a b = (if 0 \<le> a then a div b else - ((- a) div b))"

end
