(* ===== verification/Schedule.thy ===== *)
theory Schedule
  imports Rust_Str
begin

text \<open>
  \<open>crates/novbot-core/src/schedule.rs\<close>: center-authored schedules. The records, the interval
  deserializer, \<open>due_specs\<close> with the interval and cron rules, the five-field cron matcher and
  the conversion of unix seconds into a UTC calendar date. A \<open>u64\<close> or \<open>u32\<close> is a \<open>nat\<close> below
  its bound, an \<open>i64\<close> an \<open>int\<close>; narrowing casts are written out. \<open>serde_json::from_str\<close> is a
  parameter.
\<close>

subsection \<open>Schedules\<close>

record schedule =
  spec_id :: str
  interval_secs :: "nat option"
  cron :: "str option"
  enabled :: bool

text \<open>What \<open>deserialize_any\<close> hands to the visitor of \<open>deser_opt_u64\<close>.\<close>

datatype serde_value = VNone | VUnit | VU64 nat | VI64 int | VStr str

datatype interval_error = NegativeInterval | NotAnInteger

fun deser_opt_u64 :: "serde_value \<Rightarrow> (nat option, interval_error) result" where
  "deser_opt_u64 VNone = Ok None"
| "deser_opt_u64 VUnit = Ok None"
| "deser_opt_u64 (VU64 v) = Ok (Some v)"
| "deser_opt_u64 (VI64 v) = (if v < 0 then Err NegativeInterval else Ok (Some (nat v)))"
| "deser_opt_u64 (VStr s) =
     (case parse_u64 s of None \<Rightarrow> Err NotAnInteger | Some v \<Rightarrow> Ok (Some v))"

definition interval :: "schedule \<Rightarrow> nat option" where
  "interval s = map_option (\<lambda>i. max i 1) (interval_secs s)"

definition parse_schedules_json ::
    "(str \<Rightarrow> (schedule list, 'e) result) \<Rightarrow> str \<Rightarrow> (schedule list, 'e) result" where
  "parse_schedules_json from_str raw = (if trim raw = [] then Ok [] else from_str raw)"

subsection \<open>Calendar\<close>

text \<open>\<open>as i32\<close> keeps the low 32 bits.\<close>

definition as_i32 :: "int \<Rightarrow> int" where
  "as_i32 x = (x + 2 ^ 31) mod 2 ^ 32 - 2 ^ 31"

definition year_of_era :: "nat \<Rightarrow> nat" where
  "year_of_era doe = (doe - doe div 1460 + doe div 36524 - doe div 146096) div 365"

definition day_of_year :: "nat \<Rightarrow> nat" where
  "day_of_year doe = (let yoe = year_of_era doe in doe - (365 * yoe + yoe div 4 - yoe div 100))"

definition month_day :: "nat \<Rightarrow> nat \<times> nat" where
  "month_day doy =
     (let mp = (5 * doy + 2) div 153
      in (if mp < 10 then mp + 3 else mp - 9, doy - (153 * mp + 2) div 5 + 1))"

definition civil_from_days :: "int \<Rightarrow> int \<times> nat \<times> nat" where
  "civil_from_days z =
     (let era = i64_div (if 0 \<le> z then z else z - 146096) 146097;
          doe = nat (z - era * 146097);
          y = as_i32 (int (year_of_era doe) + era * 400);
          md = month_day (day_of_year doe)
      in (if fst md \<le> 2 then y + 1 else y, fst md, snd md))"

text \<open>Minute, hour, day of month, month and week day (0 is Sunday).\<close>

definition utc_parts :: "nat \<Rightarrow> nat \<times> nat \<times> nat \<times> nat \<times> nat" where
  "utc_parts unix_secs =
     (let days = int (unix_secs div 86400);
          secs_of_day = unix_secs mod 86400;
          hour = secs_of_day div 3600;
          minute = secs_of_day mod 3600 div 60;
          weekday = nat ((days + 4) mod 7);
          civil = civil_from_days (days + 719468)
      in (minute, hour, snd (snd civil), fst (snd civil), weekday))"

subsection \<open>Cron\<close>

text \<open>One comma-separated part of a cron field, already trimmed and not empty.\<close>

definition part_match :: "str \<Rightarrow> nat \<Rightarrow> nat \<Rightarrow> nat \<Rightarrow> bool" where
  "part_match part val lo hi =
     (case strip_prefix part ''*/'' of
        Some step_str \<Rightarrow>
          (case parse_u32 step_str of
             Some step \<Rightarrow> step > 0 \<and> val \<ge> lo \<and> step dvd (val - lo)
           | None \<Rightarrow> False)
      | None \<Rightarrow>
          (case split_once part CHR ''-'' of
             Some (a, b) \<Rightarrow>
               (case (parse_u32 a, parse_u32 b) of
                  (Some l, Some h) \<Rightarrow> val \<ge> l \<and> val \<le> h
                | _ \<Rightarrow> False)
           | None \<Rightarrow>
               (case split_once part CHR ''/'' of
                  Some (base, step_str) \<Rightarrow>
                    (if base = ''*'' then False
                     else (case (parse_u32 base, parse_u32 step_str) of
                             (Some start, Some step) \<Rightarrow>
                               step > 0 \<and> val \<ge> start \<and> step dvd (val - start) \<and> val \<le> hi
                           | _ \<Rightarrow> False))
                | None \<Rightarrow>
                    (case parse_u32 part of Some n \<Rightarrow> n = val | None \<Rightarrow> False))))"

definition field_match :: "str \<Rightarrow> nat \<Rightarrow> nat \<Rightarrow> nat \<Rightarrow> bool" where
  "field_match field val lo hi =
     (field = ''*'' \<or>
      list_ex (\<lambda>raw. let part = trim raw in part \<noteq> [] \<and> part_match part val lo hi)
        (split_char CHR '','' field))"

definition cron_matches :: "str \<Rightarrow> nat \<Rightarrow> bool" where
  "cron_matches expr unix_secs =
     (case split_whitespace expr of
        [f0, f1, f2, f3, f4] \<Rightarrow>
          (let (minute, hour, day, month, weekday) = utc_parts unix_secs
           in field_match f0 minute 0 59 \<and> field_match f1 hour 0 23 \<and> field_match f2 day 1 31
              \<and> field_match f3 month 1 12 \<and> field_match f4 weekday 0 6)
      | _ \<Rightarrow> False)"

subsection \<open>Due schedules\<close>

definition schedule_due :: "schedule \<Rightarrow> (str \<rightharpoonup> nat) \<Rightarrow> nat \<Rightarrow> bool" where
  "schedule_due s last_run now_secs =
     (let last = (case last_run (spec_id s) of Some t \<Rightarrow> t | None \<Rightarrow> 0);
          due_interval = (case interval_secs s of
              Some i \<Rightarrow> now_secs - last \<ge> max i 1 | None \<Rightarrow> False);
          due_cron = (case cron s of
              Some expr \<Rightarrow> cron_matches expr now_secs \<and>
                (now_secs div 60 > last div 60 \<or> last = 0)
            | None \<Rightarrow> False)
      in if interval_secs s = None \<and>
            (case cron s of Some c \<Rightarrow> trim c = [] | None \<Rightarrow> True)
         then False else due_interval \<or> due_cron)"

text \<open>\<open>now\<close> is in seconds from the epoch; a clock before the epoch reads as 0.\<close>

definition due_specs :: "schedule list \<Rightarrow> (str \<rightharpoonup> nat) \<Rightarrow> int \<Rightarrow> str list" where
  "due_specs schedules last_run now =
     (let now_secs = (if now < 0 then 0 else nat now)
      in map spec_id (filter (\<lambda>s. enabled s \<and> schedule_due s last_run now_secs) schedules))"


subsection \<open>What a cron field denotes\<close>

text \<open>
  The field grammar the matcher documents, as data: a star, a step over the whole range, an
  inclusive range, a step from a start value, a single value.
\<close>

datatype cron_item = Every nat | Between nat nat | From nat nat | Exactly nat

datatype cron_field = AnyValue | Items "cron_item list"

fun render_item :: "cron_item \<Rightarrow> str" where
  "render_item (Every n) = ''*/'' @ show_nat n"
| "render_item (Between a b) = show_nat a @ ''-'' @ show_nat b"
| "render_item (From a n) = show_nat a @ ''/'' @ show_nat n"
| "render_item (Exactly n) = show_nat n"

fun render_field :: "cron_field \<Rightarrow> str" where
  "render_field AnyValue = ''*''"
| "render_field (Items is) = join '','' (map render_item is)"

fun item_denotes :: "nat \<Rightarrow> nat \<Rightarrow> cron_item \<Rightarrow> nat \<Rightarrow> bool" where
  "item_denotes lo hi (Every n) v = (n > 0 \<and> (\<exists>k \<le> v. v = lo + k * n))"
| "item_denotes lo hi (Between a b) v = (a \<le> v \<and> v \<le> b)"
| "item_denotes lo hi (From a n) v = (n > 0 \<and> v \<le> hi \<and> (\<exists>k \<le> v. v = a + k * n))"
| "item_denotes lo hi (Exactly n) v = (v = n)"

fun field_denotes :: "nat \<Rightarrow> nat \<Rightarrow> cron_field \<Rightarrow> nat \<Rightarrow> bool" where
  "field_denotes lo hi AnyValue v = True"
| "field_denotes lo hi (Items is) v = (\<exists>i \<in> set is. item_denotes lo hi i v)"

fun item_ok :: "cron_item \<Rightarrow> bool" where
  "item_ok (Every n) = (n < u32_bound)"
| "item_ok (Between a b) = (a < u32_bound \<and> b < u32_bound)"
| "item_ok (From a n) = (a < u32_bound \<and> n < u32_bound)"
| "item_ok (Exactly n) = (n < u32_bound)"

fun field_ok :: "cron_field \<Rightarrow> bool" where
  "field_ok AnyValue = True"
| "field_ok (Items is) = (is \<noteq> [] \<and> list_all item_ok is)"

lemma digits_exclude: "\<not> is_ascii_digit c \<Longrightarrow> c \<notin> set (show_nat n)"
  using show_nat_digits [of n] by (auto simp: list_all_iff)

lemma show_nat_no_sep [simp]:
  "CHR ''-'' \<notin> set (show_nat n)" "CHR ''/'' \<notin> set (show_nat n)" "CHR '','' \<notin> set (show_nat n)"
  "CHR ''*'' \<notin> set (show_nat n)"
  by (simp_all add: digits_exclude is_ascii_digit_def)

lemma show_nat_not_star [simp]: "\<not> prefix ''*/'' (show_nat n @ s)"
  using show_nat_no_sep(4) [of n] by (cases "show_nat n") auto

lemma show_nat_neq_star [simp]: "show_nat n \<noteq> ''*''"
  by (metis show_nat_no_sep(4) list.set_intros(1))

lemma step_dvd: "lo \<le> v \<and> n dvd (v - lo) \<longleftrightarrow> (\<exists>k \<le> v. v = lo + k * n)" if "0 < (n :: nat)"
proof
  assume h: "lo \<le> v \<and> n dvd (v - lo)"
  then obtain k where "v - lo = n * k" by (auto elim: dvdE)
  with h have "v = lo + k * n" by (simp add: mult.commute)
  moreover from this that have "k \<le> v" by (cases n) auto
  ultimately show "\<exists>k \<le> v. v = lo + k * n" by blast
qed auto

lemma part_match_render:
  "item_ok i \<Longrightarrow> part_match (render_item i) v lo hi = item_denotes lo hi i v"
proof (cases i)
  case (Every n)
  assume "item_ok i"
  with Every show ?thesis
    using step_dvd [of n lo v] by (cases "n = 0") (simp_all add: part_match_def strip_prefix_def)
next
  case (Between a b)
  assume "item_ok i"
  with Between show ?thesis
    by (simp add: part_match_def strip_prefix_def split_once_append)
next
  case (From a n)
  assume ok: "item_ok i"
  with ok From show ?thesis
    using step_dvd [of n a v]
    by (auto simp: part_match_def strip_prefix_def split_once_append
        split_once_eq_None [THEN iffD2])
next
  case (Exactly n)
  assume "item_ok i"
  with Exactly show ?thesis
    using show_nat_not_star [of n "[]"]
    by (auto simp: part_match_def strip_prefix_def split_once_eq_None [THEN iffD2])
qed

lemma render_item_graph: "list_all is_graph (render_item i)"
  by (cases i) (simp_all add: show_nat_graph is_graph_def)

lemma render_item_nonempty [simp]: "render_item i \<noteq> []"
  by (cases i) simp_all

lemma render_item_no_comma: "CHR '','' \<notin> set (render_item i)"
  by (cases i) simp_all

lemma trim_render_item [simp]: "trim (render_item i) = render_item i"
  using render_item_graph [of i] by (intro trim_graph) (simp add: list_all_iff)

lemma join_graph: "\<forall>x \<in> set xs. list_all is_graph x \<Longrightarrow> list_all is_graph sep \<Longrightarrow> list_all is_graph (join sep xs)"
  by (induction sep xs rule: join.induct) simp_all

lemma render_field_graph: "list_all is_graph (render_field f)"
  by (cases f) (auto intro!: join_graph simp: render_item_graph is_graph_def)

lemma render_field_nonempty: "field_ok f \<Longrightarrow> render_field f \<noteq> []"
  by (cases f) (auto simp: join_eq_Nil)

lemma render_items_not_star: "is \<noteq> [] \<Longrightarrow> join '','' (map render_item is) \<noteq> ''*''"
proof
  assume ne: "is \<noteq> []" and eq: "join '','' (map render_item is) = ''*''"
  have "split_char CHR '','' (join [CHR '',''] (map render_item is)) = map render_item is"
    using ne by (intro split_char_join) (auto simp: render_item_no_comma)
  with eq have "map render_item is = [''*'']" by simp
  then obtain i where "render_item i = ''*''" by (cases "is") auto
  then show False by (cases i) (auto simp: append_eq_Cons_conv)
qed

text \<open>
  A cron field matches a value exactly when the value belongs to the set the field denotes:
  for every field of the documented grammar with 32-bit numbers, the matcher on the rendered text
  decides membership in the denotation (any value, a step from the minimum, an inclusive range, a
  step from a start up to the maximum, a single value, and the union over a list).
\<close>

theorem field_match_denotes:
  "field_ok f \<Longrightarrow> field_match (render_field f) v lo hi \<longleftrightarrow> field_denotes lo hi f v"
proof (cases f)
  case (Items "is")
  assume ok: "field_ok f"
  with Items have "split_char CHR '','' (join [CHR '',''] (map render_item is)) = map render_item is"
    by (intro split_char_join) (auto simp: render_item_no_comma)
  with Items ok render_items_not_star [of "is"] show ?thesis
    by (auto simp: field_match_def list_ex_iff list_all_iff part_match_render)
qed (simp add: field_match_def)

theorem field_match_denotes_witness:
  "field_match ''0,10-20,30/15'' 45 0 59 \<and> \<not> field_match ''0,10-20,30/15'' 25 0 59"
proof -
  let ?f = "Items [Exactly 0, Between 10 20, From 30 15]"
  have r: "render_field ?f = ''0,10-20,30/15''"
    by code_simp
  have ok: "field_ok ?f" by simp
  have "field_denotes 0 59 ?f 45" by (auto intro: exI [of _ 1])
  moreover have "\<not> field_denotes 0 59 ?f 25" by simp
  ultimately show ?thesis
    using field_match_denotes [OF ok, of 45 0 59] field_match_denotes [OF ok, of 25 0 59] r by simp
qed

subsection \<open>When a schedule is due\<close>

lemma blank_cron_never_matches: "trim e = [] \<Longrightarrow> \<not> cron_matches e t"
  by (simp add: cron_matches_def trim_Nil_no_words)

abbreviation last_of :: "(str \<rightharpoonup> nat) \<Rightarrow> schedule \<Rightarrow> nat" where
  "last_of last_run s \<equiv> (case last_run (spec_id s) of Some t \<Rightarrow> t | None \<Rightarrow> 0)"

lemma schedule_due_iff:
  "schedule_due s last_run now \<longleftrightarrow>
     (\<exists>i. interval s = Some i \<and> i \<le> now - last_of last_run s) \<or>
     (\<exists>e. cron s = Some e \<and> cron_matches e now \<and>
        (last_of last_run s = 0 \<or> last_of last_run s div 60 < now div 60))"
  by (cases "interval_secs s"; cases "cron s")
    (auto simp: schedule_due_def Let_def interval_def dest: blank_cron_never_matches)


text \<open>
  A schedule with only a cron expression fires at most once in a UTC minute: once the node
  has recorded a run, no second reading of the clock in the same minute makes it due again.
\<close>

theorem cron_once_per_minute:
  assumes "interval_secs s = None" "0 < t" "t div 60 = now div 60"
  shows "\<not> schedule_due s (last_run(spec_id s \<mapsto> t)) now"
  using assms by (simp add: schedule_due_iff interval_def)

theorem cron_once_per_minute_witness:
  "\<not> schedule_due \<lparr>spec_id = ''cpu'', interval_secs = None, cron = Some ''* * * * *'', enabled = True\<rparr>
     (Map.empty(''cpu'' \<mapsto> 61)) 119"
  using cron_once_per_minute
    [of "\<lparr>spec_id = ''cpu'', interval_secs = None, cron = Some ''* * * * *'', enabled = True\<rparr>"
      61 119 Map.empty] by simp

end
