(* ===== verification/Calendar.thy ===== *)
theory Calendar
  imports Schedule
begin

text \<open>
  The calendar arithmetic of \<open>schedule.rs\<close> against the Gregorian calendar, stated independently by
  leap years, month lengths and the successor of a date. The proof follows the algorithm: eras of
  400 years that start on 1 March, the year within the era, the month within the year.
\<close>

subsection \<open>The calendar is the Gregorian one\<close>

text \<open>
  The reference: leap years, month lengths and the next calendar day. \<open>civil_from_days\<close> agrees
  with it when it maps the epoch to 1970-01-01 and every following day to the next date.
\<close>

definition leap_year :: "int \<Rightarrow> bool" where
  "leap_year y = (4 dvd y \<and> (\<not> 100 dvd y \<or> 400 dvd y))"

definition days_in_month :: "int \<Rightarrow> nat \<Rightarrow> nat" where
  "days_in_month y m =
     (if m = 2 then (if leap_year y then 29 else 28) else if m \<in> {4, 6, 9, 11} then 30 else 31)"

definition next_day :: "int \<times> nat \<times> nat \<Rightarrow> int \<times> nat \<times> nat" where
  "next_day date =
     (case date of (y, m, d) \<Rightarrow>
        if d < days_in_month y m then (y, m, d + 1)
        else if m < 12 then (y, m + 1, 1) else (y + 1, 1, 1))"

text \<open>The first day (counted within a 400-year era from 1 March) of year \<open>y\<close> of the era.\<close>

definition year_start :: "nat \<Rightarrow> nat" where
  "year_start y = 365 * y + y div 4 - y div 100 + y div 400"

definition shifted :: "nat \<Rightarrow> nat" where
  "shifted doe = doe - doe div 1460 + doe div 36524 - doe div 146096"

lemma step_sub: fixes a b c :: nat
  assumes "a' = a \<or> a' = Suc a" "b' = b \<or> b' = Suc b" "c' = c \<or> (c' = Suc c \<and> b' = Suc b)" "a \<le> n" "c \<le> b"
  shows "n - a + b - c \<le> Suc n - a' + b' - c'"
  using assms by auto

lemma shifted_Suc: "shifted n \<le> shifted (Suc n)"
proof -
  have d: "\<And>k. 0 < k \<Longrightarrow> Suc n div k = n div k \<or> Suc n div k = Suc (n div k)"
    by (simp add: div_Suc)
  have "Suc n div 146096 = n div 146096 \<or>
      (Suc n div 146096 = Suc (n div 146096) \<and> Suc n div 36524 = Suc (n div 36524))"
    using mod_mod_cancel [of 36524 146096 "Suc n"] by (auto simp: div_Suc)
  then show ?thesis unfolding shifted_def
    by (intro step_sub d) (simp_all add: div_le_mono2)
qed

lemma div_between: "k * q \<le> m \<Longrightarrow> m < k * q + k \<Longrightarrow> m div k = q" for k q m :: nat
  by (rule div_nat_eqI) simp_all

lemma shifted_start:
  assumes "y < 400"
  shows "shifted (year_start y) = 365 * y"
    "y > 0 \<Longrightarrow> shifted (year_start y - 1) div 365 = y - 1"
proof -
  define a where "a = y div 4"
  define b where "b = y div 100"
  define r where "r = y mod 4"
  define t where "t = y mod 100"
  have y4: "y = 4 * a + r" "r < 4" unfolding a_def r_def by simp_all
  have y100: "y = 100 * b + t" "t < 100" unfolding b_def t_def by simp_all
  have ab: "a = 25 * b + t div 4" unfolding a_def y100 by simp
  have y400: "y div 400 = 0" using assms by simp
  have t4: "4 * (t div 4) \<le> t" by simp
  have s: "year_start y = 365 * y + a - b" unfolding year_start_def y400 a_def b_def by simp
  have bound: "b < 4" using assms y100 by linarith
  have s1: "year_start y = 1460 * a + (365 * r + a - b)" using y4 ab s by simp
  have s2: "year_start y = 36524 * b + (365 * t + t div 4)" using y100 ab s by simp
  have d1: "year_start y div 1460 = a" 
    by (rule div_between) (use s1 y4 y100 assms in linarith)+
  have d2: "year_start y div 36524 = b"
    by (rule div_between) (use s2 y100 t4 in linarith)+
  have d3: "year_start y div 146096 = 0" using s2 bound y100 t4 by simp
  show "shifted (year_start y) = 365 * y"
    unfolding shifted_def d1 d2 d3 using s ab y100 by simp
  assume pos: "y > 0"
  have e1: "(year_start y - 1) div 1460 = a"
    by (rule div_between) (use s1 y4 y100 ab pos assms in linarith)+
  have e3: "(year_start y - 1) div 146096 = 0" using s2 bound y100 t4 by simp
  have e2: "(year_start y - 1) div 36524 = (if t = 0 then b - 1 else b)"
    by (rule div_between) (use s2 y100 t4 pos in \<open>auto split: if_splits\<close>)
  have "shifted (year_start y - 1) = (if t = 0 then 365 * y - 2 else 365 * y - 1)"
    unfolding shifted_def e1 e2 e3 using s ab y100 pos by auto
  then show "shifted (year_start y - 1) div 365 = y - 1"
    using pos by (intro div_between) (auto split: if_splits)
qed

lemma year_start_eq: "year_start y + y div 100 = 365 * y + y div 4 + y div 400"
proof -
  have "y div 100 \<le> y div 4" by (simp add: div_le_mono2)
  then show ?thesis by (simp add: year_start_def)
qed

lemma leap_mod: "leap_year (int y) \<longleftrightarrow> y mod 4 = 0 \<and> (y mod 100 \<noteq> 0 \<or> y mod 400 = 0)"
proof -
  have "(numeral k dvd int y) = (y mod numeral k = 0)" for k
    using int_dvd_int_iff [of "numeral k" y] by (simp only: of_nat_numeral dvd_eq_mod_eq_0)
  then show ?thesis by (simp only: leap_year_def)
qed

lemma year_start_Suc:
  "year_start (Suc y) = year_start y + (if leap_year (int (Suc y)) then 366 else 365)"
proof -
  have m: "Suc y mod 100 = 0 \<Longrightarrow> Suc y mod 4 = 0" "Suc y mod 400 = 0 \<Longrightarrow> Suc y mod 100 = 0"
    using mod_mod_cancel [of 4 100 "Suc y"] mod_mod_cancel [of 100 400 "Suc y"] by simp_all
  have "year_start (Suc y) + Suc y div 100 = 365 * Suc y + Suc y div 4 + Suc y div 400"
    by (rule year_start_eq)
  with m year_start_eq [of y] show ?thesis
    unfolding div_Suc leap_mod by (auto split: if_splits)
qed

lemma shifted_mono: "m \<le> n \<Longrightarrow> shifted m \<le> shifted n"
  by (rule lift_Suc_mono_le [of shifted, OF shifted_Suc])

lemma year_start_400: "year_start 400 = 146097"
  by (simp add: year_start_def)

lemma year_start_mono: "m \<le> n \<Longrightarrow> year_start m \<le> year_start n"
  by (rule lift_Suc_mono_le [of year_start]) (simp add: year_start_Suc)

lemma year_of_era_eq:
  assumes "y < 400" "year_start y \<le> doe" "doe < year_start (Suc y)"
  shows "year_of_era doe = y"
proof -
  have "shifted (year_start y) div 365 \<le> shifted doe div 365"
    by (intro div_le_mono shifted_mono assms)
  moreover have "shifted doe div 365 \<le> shifted (year_start (Suc y) - 1) div 365"
    using assms(3) by (intro div_le_mono shifted_mono) simp
  moreover have "shifted (year_start (Suc y) - 1) div 365 = y"
  proof (cases "Suc y < 400")
    case True
    then show ?thesis using shifted_start(2) [of "Suc y"] by simp
  next
    case False
    with assms(1) have "y = 399" by simp
    then show ?thesis using year_start_400 by (simp add: shifted_def)
  qed
  moreover have "shifted (year_start y) div 365 = y"
    by (simp add: shifted_start(1) [OF assms(1)])
  ultimately have "shifted doe div 365 = y" by linarith
  then show ?thesis by (simp only: year_of_era_def shifted_def)
qed

lemma day_of_year_eq:
  assumes "y < 400" "year_start y \<le> doe" "doe < year_start (Suc y)"
  shows "day_of_year doe = doe - year_start y"
proof -
  have "year_start y = 365 * y + y div 4 - y div 100" using assms(1) by (simp add: year_start_def)
  then show ?thesis by (simp add: day_of_year_def Let_def year_of_era_eq [OF assms])
qed

lemma year_exists: "doe < year_start n \<Longrightarrow> \<exists>y<n. year_start y \<le> doe \<and> doe < year_start (Suc y)"
proof (induction n)
  case (Suc n)
  then show ?case by (cases "doe < year_start n") (auto intro: less_SucI)
qed (simp add: year_start_def)

text \<open>The date \<open>n\<close> days into year \<open>y\<close> (from 1 March) of era \<open>e\<close>.\<close>

definition era_date :: "int \<Rightarrow> nat \<Rightarrow> nat \<Rightarrow> int \<times> nat \<times> nat" where
  "era_date e y n =
     (let (m, d) = month_day n in (400 * e + int y + (if m \<le> 2 then 1 else 0), m, d))"

lemma as_i32_id: "- (2 ^ 31) \<le> x \<Longrightarrow> x < 2 ^ 31 \<Longrightarrow> as_i32 x = x"
  by (simp add: as_i32_def)

lemma civil_from_days_era:
  assumes "0 \<le> e" "e \<le> 5000000" "y < 400" "year_start y \<le> doe" "doe < year_start (Suc y)"
  shows "civil_from_days (146097 * e + int doe) = era_date e y (doe - year_start y)"
proof -
  have "doe < 146097"
    using assms(3,5) year_start_mono [of "Suc y" 400] by (simp add: year_start_400)
  then have "(146097 * e + int doe) div 146097 = e" by (intro int_div_pos_eq) auto
  moreover have "as_i32 (int y + e * 400) = int y + e * 400"
    using assms by (intro as_i32_id) auto
  ultimately show ?thesis using assms
    by (auto simp: civil_from_days_def era_date_def i64_div_def Let_def year_of_era_eq
        day_of_year_eq split: prod.splits)
qed

lemma leap_year_era: "leap_year (400 * e + y) \<longleftrightarrow> leap_year y"
proof -
  have "k dvd 400 \<Longrightarrow> k dvd 400 * e + y \<longleftrightarrow> k dvd y" for k :: int
    by (simp add: dvd_add_right_iff)
  then show ?thesis by (simp add: leap_year_def)
qed

lemma leap_year_era_Suc: "leap_year (400 * e + int y + 1) \<longleftrightarrow> leap_year (int (Suc y))"
proof -
  have "400 * e + int y + 1 = 400 * e + int (Suc y)" by simp
  then show ?thesis by (simp only: leap_year_era)
qed

text \<open>Within a year that starts on 1 March, the month lengths do not depend on the year.\<close>

lemma month_day_mp:
  "153 * mp \<le> 5 * n + 2 \<Longrightarrow> 5 * n + 2 < 153 * mp + 153 \<Longrightarrow>
   month_day n = (if mp < 10 then mp + 3 else mp - 9, n - (153 * mp + 2) div 5 + 1)"
  by (simp only: month_day_def Let_def div_between)

lemma month_in:
  "0 \<le> n \<Longrightarrow> n < 31 \<Longrightarrow> month_day n = (3, n + 1 - 0)"
  "31 \<le> n \<Longrightarrow> n < 61 \<Longrightarrow> month_day n = (4, n + 1 - 31)"
  "61 \<le> n \<Longrightarrow> n < 92 \<Longrightarrow> month_day n = (5, n + 1 - 61)"
  "92 \<le> n \<Longrightarrow> n < 122 \<Longrightarrow> month_day n = (6, n + 1 - 92)"
  "122 \<le> n \<Longrightarrow> n < 153 \<Longrightarrow> month_day n = (7, n + 1 - 122)"
  "153 \<le> n \<Longrightarrow> n < 184 \<Longrightarrow> month_day n = (8, n + 1 - 153)"
  "184 \<le> n \<Longrightarrow> n < 214 \<Longrightarrow> month_day n = (9, n + 1 - 184)"
  "214 \<le> n \<Longrightarrow> n < 245 \<Longrightarrow> month_day n = (10, n + 1 - 214)"
  "245 \<le> n \<Longrightarrow> n < 275 \<Longrightarrow> month_day n = (11, n + 1 - 245)"
  "275 \<le> n \<Longrightarrow> n < 306 \<Longrightarrow> month_day n = (12, n + 1 - 275)"
  "306 \<le> n \<Longrightarrow> n < 337 \<Longrightarrow> month_day n = (1, n + 1 - 306)"
  "337 \<le> n \<Longrightarrow> n < 366 \<Longrightarrow> month_day n = (2, n + 1 - 337)"
  subgoal using month_day_mp [of 0 n] by simp
  subgoal using month_day_mp [of 1 n] by simp
  subgoal using month_day_mp [of 2 n] by simp
  subgoal using month_day_mp [of 3 n] by simp
  subgoal using month_day_mp [of 4 n] by simp
  subgoal using month_day_mp [of 5 n] by simp
  subgoal using month_day_mp [of 6 n] by simp
  subgoal using month_day_mp [of 7 n] by simp
  subgoal using month_day_mp [of 8 n] by simp
  subgoal using month_day_mp [of 9 n] by simp
  subgoal using month_day_mp [of 10 n] by simp
  subgoal using month_day_mp [of 11 n] by simp
  done

lemma month_step_within:
  assumes "lo \<le> n" "n < hi" "month_day n = (k, n + 1 - lo)" "month_day n = (m, d)"
    and "k \<noteq> 2 \<Longrightarrow> hi - lo = days_in_month 0 k" "k = 2 \<Longrightarrow> n + 1 < hi"
    and "n + 1 < hi \<Longrightarrow> month_day (n + 1) = (k, n + 1 + 1 - lo)"
    and "n + 1 = hi \<Longrightarrow> month_day (n + 1) = (if k < 12 then k + 1 else 1, 1)"
  shows "month_day (n + 1) =
    (if m = 2 \<or> d < days_in_month 0 m then (m, d + 1) else if m < 12 then (m + 1, 1) else (1, 1))"
proof -
  from assms(3,4) have "m = k" "d = n + 1 - lo" by simp_all
  with assms show ?thesis by (cases "n + 1 < hi"; cases "k = 2") auto
qed

lemma month_day_step:
  assumes "n < 365" "month_day n = (m, d)"
  shows "month_day (n + 1) =
    (if m = 2 \<or> d < days_in_month 0 m then (m, d + 1) else if m < 12 then (m + 1, 1) else (1, 1))"
proof -
  from assms(1) consider
      "n < 31"
    | "31 \<le> n" "n < 61"
    | "61 \<le> n" "n < 92"
    | "92 \<le> n" "n < 122"
    | "122 \<le> n" "n < 153"
    | "153 \<le> n" "n < 184"
    | "184 \<le> n" "n < 214"
    | "214 \<le> n" "n < 245"
    | "245 \<le> n" "n < 275"
    | "275 \<le> n" "n < 306"
    | "306 \<le> n" "n < 337"
    | "337 \<le> n" "n < 365"
    using linorder_not_less [of n 31] linorder_not_less [of n 61] linorder_not_less [of n 92] linorder_not_less [of n 122]
      linorder_not_less [of n 153] linorder_not_less [of n 184] linorder_not_less [of n 214] linorder_not_less [of n 245]
      linorder_not_less [of n 275] linorder_not_less [of n 306] linorder_not_less [of n 337] by blast
  then show ?thesis
  proof cases
    case 1
    then show ?thesis
      using month_in(1) [of n] month_in(1) [of "n + 1"] month_in(2) [of "n + 1"] assms
      by (intro month_step_within [of 0 n 31 3]) (simp_all add: days_in_month_def)
  next
    case 2
    then show ?thesis
      using month_in(2) [of n] month_in(2) [of "n + 1"] month_in(3) [of "n + 1"] assms
      by (intro month_step_within [of 31 n 61 4]) (simp_all add: days_in_month_def)
  next
    case 3
    then show ?thesis
      using month_in(3) [of n] month_in(3) [of "n + 1"] month_in(4) [of "n + 1"] assms
      by (intro month_step_within [of 61 n 92 5]) (simp_all add: days_in_month_def)
  next
    case 4
    then show ?thesis
      using month_in(4) [of n] month_in(4) [of "n + 1"] month_in(5) [of "n + 1"] assms
      by (intro month_step_within [of 92 n 122 6]) (simp_all add: days_in_month_def)
  next
    case 5
    then show ?thesis
      using month_in(5) [of n] month_in(5) [of "n + 1"] month_in(6) [of "n + 1"] assms
      by (intro month_step_within [of 122 n 153 7]) (simp_all add: days_in_month_def)
  next
    case 6
    then show ?thesis
      using month_in(6) [of n] month_in(6) [of "n + 1"] month_in(7) [of "n + 1"] assms
      by (intro month_step_within [of 153 n 184 8]) (simp_all add: days_in_month_def)
  next
    case 7
    then show ?thesis
      using month_in(7) [of n] month_in(7) [of "n + 1"] month_in(8) [of "n + 1"] assms
      by (intro month_step_within [of 184 n 214 9]) (simp_all add: days_in_month_def)
  next
    case 8
    then show ?thesis
      using month_in(8) [of n] month_in(8) [of "n + 1"] month_in(9) [of "n + 1"] assms
      by (intro month_step_within [of 214 n 245 10]) (simp_all add: days_in_month_def)
  next
    case 9
    then show ?thesis
      using month_in(9) [of n] month_in(9) [of "n + 1"] month_in(10) [of "n + 1"] assms
      by (intro month_step_within [of 245 n 275 11]) (simp_all add: days_in_month_def)
  next
    case 10
    then show ?thesis
      using month_in(10) [of n] month_in(10) [of "n + 1"] month_in(11) [of "n + 1"] assms
      by (intro month_step_within [of 275 n 306 12]) (simp_all add: days_in_month_def)
  next
    case 11
    then show ?thesis
      using month_in(11) [of n] month_in(11) [of "n + 1"] month_in(12) [of "n + 1"] assms
      by (intro month_step_within [of 306 n 337 1]) (simp_all add: days_in_month_def)
  next
    case 12
    then show ?thesis
      using month_in(12) [of n] month_in(12) [of "n + 1"] assms
      by (intro month_step_within [of 337 n 366 2]) (simp_all add: days_in_month_def)
  qed
qed

lemma month_day_february: "n < 366 \<Longrightarrow> month_day n = (2, d) \<Longrightarrow> n = d + 336"
proof -
  assume n: "n < 366" and md: "month_day n = (2, d)"
  from md have "(5 * n + 2) div 153 = 11" by (auto simp: month_day_def Let_def split: if_splits)
  then have "153 * 11 \<le> 5 * n + 2" by (metis div_times_less_eq_dividend mult.commute)
  then have "337 \<le> n" by simp
  with n md show "n = d + 336" by (simp add: month_in(12))
qed

lemma next_day_in_year:
  assumes "n + 1 < (if leap_year (int (Suc y)) then 366 else 365)"
  shows "next_day (era_date e y n) = era_date e y (n + 1)"
proof -
  obtain m d where md: "month_day n = (m, d)" by fastforce
  have n: "n < 365" using assms by (auto split: if_splits)
  note step = month_day_step [OF n md]
  show ?thesis
  proof (cases "m = 2")
    case True
    with md n have "n = d + 336" by (auto intro: month_day_february)
    with True assms show ?thesis
      unfolding era_date_def step md
      by (simp add: next_day_def days_in_month_def leap_year_era_Suc split: if_splits)
  next
    case False
    then show ?thesis
      unfolding era_date_def step md by (auto simp: next_day_def days_in_month_def)
  qed
qed

lemma next_day_year_end:
  "next_day (era_date e y (if leap_year (int (Suc y)) then 365 else 364))
     = (400 * e + int y + 1, 3, 1)"
proof -
  show ?thesis by (simp add: era_date_def month_in(12) next_day_def days_in_month_def leap_year_era_Suc)
qed

lemma era_date_0: "era_date e y 0 = (400 * e + int y, 3, 1)"
  by (simp add: era_date_def month_day_def)

lemma civil_step_in_year:
  assumes "0 \<le> e" "e \<le> 5000000" "y < 400" "year_start y \<le> doe" "doe + 1 < year_start (Suc y)"
  shows "civil_from_days (146097 * e + int doe + 1) = next_day (civil_from_days (146097 * e + int doe))"
proof -
  have "civil_from_days (146097 * e + int (doe + 1)) = era_date e y (doe + 1 - year_start y)"
    using assms by (intro civil_from_days_era) auto
  moreover have "civil_from_days (146097 * e + int doe) = era_date e y (doe - year_start y)"
    using assms by (intro civil_from_days_era) auto
  moreover have "next_day (era_date e y (doe - year_start y)) = era_date e y (doe - year_start y + 1)"
    using assms(4,5) by (intro next_day_in_year) (auto simp: year_start_Suc)
  moreover have "doe + 1 - year_start y = doe - year_start y + 1" using assms(4) by simp
  ultimately show ?thesis by (simp only: of_nat_add of_nat_1 add.assoc)
qed

lemma civil_year_end:
  assumes "0 \<le> e" "e \<le> 5000000" "y < 400" "doe + 1 = year_start (Suc y)"
  shows "next_day (civil_from_days (146097 * e + int doe)) = (400 * e + int y + 1, 3, 1)"
proof -
  have len: "doe - year_start y = (if leap_year (int (Suc y)) then 365 else 364)"
    using assms(4) by (auto simp: year_start_Suc)
  have "civil_from_days (146097 * e + int doe) = era_date e y (doe - year_start y)"
    using assms year_start_Suc [of y] by (intro civil_from_days_era) (auto split: if_splits)
  then show ?thesis by (simp only: len next_day_year_end)
qed

lemma civil_year_first:
  assumes "0 \<le> e" "e \<le> 4900000" "y < 400"
  shows "civil_from_days (146097 * e + int (year_start (Suc y))) = (400 * e + int y + 1, 3, 1)"
proof (cases "Suc y < 400")
  case True
  have "civil_from_days (146097 * e + int (year_start (Suc y)))
      = era_date e (Suc y) (year_start (Suc y) - year_start (Suc y))"
    using assms True by (intro civil_from_days_era) (simp_all add: year_start_Suc [of "Suc y"])
  then show ?thesis by (simp add: era_date_0)
next
  case False
  with assms(3) have y399: "y = 399" by simp
  have "civil_from_days (146097 * (e + 1) + int 0) = era_date (e + 1) 0 (0 - year_start 0)"
    using assms by (intro civil_from_days_era) (simp_all add: year_start_def)
  then show ?thesis by (simp add: y399 year_start_400 era_date_0 distrib_left)
qed

text \<open>
  C33. The calendar conversion is the proleptic Gregorian calendar: the unix epoch (day 719468 of
  the algorithm's count) is 1970-01-01, and the date of every following day is the next calendar
  day, leap years included, for as long as the year fits the code's \<open>i32\<close>.
\<close>

theorem civil_from_days_next_day:
  "civil_from_days 719468 = (1970, 1, 1) \<and>
   (\<forall>z. 0 \<le> z \<and> z < 700000000000 \<longrightarrow> civil_from_days (z + 1) = next_day (civil_from_days z))"
proof (intro conjI allI impI)
  show "civil_from_days 719468 = (1970, 1, 1)"
  proof -
    have "civil_from_days (146097 * 4 + int 135080) = era_date 4 369 (135080 - year_start 369)"
      by (rule civil_from_days_era) (simp_all add: year_start_def)
    then show ?thesis by (simp add: year_start_def era_date_def month_in(11))
  qed
next
  fix z :: int
  assume z: "0 \<le> z \<and> z < 700000000000"
  define e where "e = z div 146097"
  define doe where "doe = nat (z mod 146097)"
  have zed: "z = 146097 * e + int doe" unfolding e_def doe_def by simp
  have "doe < year_start 400" unfolding doe_def year_start_400 by (simp add: nat_less_iff)
  then obtain y where y: "y < 400" "year_start y \<le> doe" "doe < year_start (Suc y)"
    using year_exists by blast
  have e: "0 \<le> e" "e \<le> 4800000" using z unfolding e_def by auto
  show "civil_from_days (z + 1) = next_day (civil_from_days z)"
  proof (cases "doe + 1 < year_start (Suc y)")
    case True
    then show ?thesis unfolding zed using e y by (intro civil_step_in_year) auto
  next
    case False
    then have at_end: "doe + 1 = year_start (Suc y)" using y(3) by simp
    then have next_z: "z + 1 = 146097 * e + int (year_start (Suc y))" by (simp add: zed flip: at_end)
    have "civil_from_days (z + 1) = (400 * e + int y + 1, 3, 1)"
      unfolding next_z using e y by (intro civil_year_first) auto
    moreover have "next_day (civil_from_days z) = (400 * e + int y + 1, 3, 1)"
      unfolding zed using e y at_end by (intro civil_year_end) auto
    ultimately show ?thesis by simp
  qed
qed

theorem civil_from_days_next_day_witness: "civil_from_days 719469 = (1970, 1, 2)"
proof -
  have "civil_from_days (719468 + 1) = next_day (civil_from_days 719468)"
    by (rule civil_from_days_next_day [THEN conjunct2, rule_format]) simp
  then show ?thesis using civil_from_days_next_day by (simp add: next_day_def days_in_month_def)
qed

end
