(* ===== verification/Tags.thy ===== *)
theory Tags
  imports Rust_Str
begin

text \<open>
  \<open>crates/novbot-core/src/tags.rs\<close>, first half: the format of node tags. Keys and values, the
  reserved keys, the check of a center-written pair, the classification of node-declared pairs
  and the normalization of system values. A \<open>HashMap\<close> of declared pairs is an association list in
  some iteration order, with distinct keys.
\<close>

subsection \<open>Limits and the tag format\<close>

definition MAX_CENTER_TAGS :: nat where "MAX_CENTER_TAGS = 32"
definition MAX_NODE_TAGS :: nat where "MAX_NODE_TAGS = 32"
definition MAX_TAG_CHARS :: nat where "MAX_TAG_CHARS = 63"
definition MAX_STORED_CHARS :: nat where "MAX_STORED_CHARS = 255"

datatype center_tag_error = KeyInvalid | ValueInvalid | KeyReserved

record declared_tag =
  dt_key :: str
  dt_value :: str
  dt_valid :: bool
  dt_reason :: "str option"

definition is_reserved_key :: "str \<Rightarrow> bool" where
  "is_reserved_key key = (key = ''sys'' \<or> starts_with key ''sys.'')"

definition is_tag_char :: "char \<Rightarrow> bool" where
  "is_tag_char c = (is_ascii_lowercase c \<or> is_ascii_digit c \<or> c \<in> set ''._-'')"

text \<open>The loop of \<open>key_ok\<close>: \<open>n\<close> counts the characters seen.\<close>

fun key_tail_ok :: "nat \<Rightarrow> str list \<Rightarrow> bool" where
  "key_tail_ok n [] = True"
| "key_tail_ok n (c # cs) =
     (if n + 1 > MAX_TAG_CHARS \<or> \<not> (length c = 1 \<and> is_tag_char (hd c)) then False
      else key_tail_ok (n + 1) cs)"

definition key_ok :: "str \<Rightarrow> bool" where
  "key_ok key =
     (case chars key of
        c # cs \<Rightarrow> (if length c = 1 \<and> is_ascii_lowercase (hd c) then key_tail_ok 1 cs else False)
      | [] \<Rightarrow> False)"

definition value_ok :: "str \<Rightarrow> bool" where
  "value_ok v =
     (let n = char_len v
      in 1 \<le> n \<and> n \<le> MAX_TAG_CHARS \<and> list_all (\<lambda>c. length c = 1 \<and> is_tag_char (hd c)) (chars v))"

definition validate_center_tag :: "str \<Rightarrow> str \<Rightarrow> (unit, center_tag_error) result" where
  "validate_center_tag key v =
     (if \<not> key_ok key then Err KeyInvalid
      else if is_reserved_key key then Err KeyReserved
      else if \<not> value_ok v then Err ValueInvalid
      else Ok ())"

subsection \<open>Declared tags\<close>

record draft =
  d_sort_key :: str
  d_key :: str
  d_value :: str
  d_valid :: bool
  d_reason :: "str option"

definition classify_reason :: "str \<Rightarrow> str \<Rightarrow> str option" where
  "classify_reason key v =
     (if char_len key > MAX_TAG_CHARS \<or> char_len v > MAX_TAG_CHARS then Some ''too_long''
      else if \<not> key_ok key then Some ''key_invalid''
      else if is_reserved_key key then Some ''key_reserved''
      else if v = [] then Some ''value_empty''
      else if \<not> value_ok v then Some ''value_invalid''
      else None)"

definition classify_one :: "str \<Rightarrow> str \<Rightarrow> draft" where
  "classify_one key v =
     \<lparr>d_sort_key = key, d_key = cut_chars key MAX_STORED_CHARS,
      d_value = cut_chars v MAX_STORED_CHARS,
      d_valid = (classify_reason key v = None), d_reason = classify_reason key v\<rparr>"

fun mark_over_limit :: "nat \<Rightarrow> draft list \<Rightarrow> draft list" where
  "mark_over_limit seen [] = []"
| "mark_over_limit seen (d # ds) =
     (if d_valid d then
        (if seen \<ge> MAX_NODE_TAGS
         then d\<lparr>d_valid := False, d_reason := Some ''over_limit''\<rparr> # mark_over_limit seen ds
         else d # mark_over_limit (seen + 1) ds)
      else d # mark_over_limit seen ds)"

definition draft_tag :: "draft \<Rightarrow> declared_tag" where
  "draft_tag d = \<lparr>dt_key = d_key d, dt_value = d_value d, dt_valid = d_valid d, dt_reason = d_reason d\<rparr>"

fun emit_unique :: "str set \<Rightarrow> draft list \<Rightarrow> declared_tag list" where
  "emit_unique seen [] = []"
| "emit_unique seen (d # ds) =
     (if d_key d \<in> seen then emit_unique seen ds
      else draft_tag d # emit_unique (insert (d_key d) seen) ds)"

definition classify_declared_tags :: "(str \<times> str) list \<Rightarrow> declared_tag list" where
  "classify_declared_tags pairs =
     emit_unique {} (mark_over_limit 0
       (sort_key (\<lambda>d. (d_sort_key d, d_key d)) (map (\<lambda>(k, v). classify_one k v) pairs)))"

subsection \<open>System values\<close>

definition normalize_char :: "str \<Rightarrow> char" where
  "normalize_char ch =
     (let c = (if length ch = 1 then to_ascii_lower (hd ch) else CHR ''_'')
      in if is_tag_char c then c else CHR ''_'')"

definition normalize_system_value :: "str \<Rightarrow> str option" where
  "normalize_system_value raw =
     (if raw = [] then None
      else (let out = map normalize_char (take MAX_TAG_CHARS (chars raw))
            in if out = [] then None else Some out))"

subsection \<open>The format as one predicate on bytes\<close>

lemma tag_char_ascii: "is_tag_char c \<Longrightarrow> byte c < 128"
  by (auto simp: is_tag_char_def is_ascii_lowercase_def is_ascii_digit_def)

lemma tag_char_graph: "is_tag_char c \<Longrightarrow> is_graph c"
  by (auto simp: is_tag_char_def is_ascii_lowercase_def is_ascii_digit_def is_graph_def)

lemma tag_text_ascii: "list_all is_tag_char s \<Longrightarrow> ascii_only s"
  by (auto simp: ascii_only_def list_all_iff dest: tag_char_ascii)

lemma chars_all_single:
  "list_all (\<lambda>c. length c = 1 \<and> P (hd c)) (chars s) \<longleftrightarrow> chars s = map (\<lambda>c. [c]) s \<and> list_all P s"
proof (induction s rule: chars.induct)
  case (2 c s)
  show ?case
  proof (cases "takeWhile is_cont s = []")
    case True
    then have "dropWhile is_cont s = s" by (cases s) (auto split: if_splits)
    with True 2 show ?thesis by auto
  next
    case False
    then show ?thesis by simp
  qed
qed simp

lemma value_ok_iff: "value_ok v \<longleftrightarrow> v \<noteq> [] \<and> length v \<le> MAX_TAG_CHARS \<and> list_all is_tag_char v"
proof
  assume "value_ok v"
  then show "v \<noteq> [] \<and> length v \<le> MAX_TAG_CHARS \<and> list_all is_tag_char v"
    unfolding value_ok_def Let_def chars_all_single by (auto simp: char_len_def)
next
  assume "v \<noteq> [] \<and> length v \<le> MAX_TAG_CHARS \<and> list_all is_tag_char v"
  then show "value_ok v"
    using tag_text_ascii [of v] chars_ascii [of v] char_len_ascii [of v]
    unfolding value_ok_def Let_def chars_all_single by (cases v) auto
qed

lemma key_tail_ok_iff:
  "n \<le> MAX_TAG_CHARS \<Longrightarrow> key_tail_ok n cs \<longleftrightarrow>
     n + length cs \<le> MAX_TAG_CHARS \<and> list_all (\<lambda>c. length c = 1 \<and> is_tag_char (hd c)) cs"
  by (induction n cs rule: key_tail_ok.induct) auto

lemma lowercase_tag_char: "is_ascii_lowercase c \<Longrightarrow> is_tag_char c"
  by (simp add: is_tag_char_def)

lemma key_ok_iff:
  "key_ok key \<longleftrightarrow> key \<noteq> [] \<and> is_ascii_lowercase (hd key) \<and> length key \<le> MAX_TAG_CHARS
     \<and> list_all is_tag_char key"
proof (cases key)
  case (Cons c s)
  have one: "(1 :: nat) \<le> MAX_TAG_CHARS" by (simp add: MAX_TAG_CHARS_def)
  show ?thesis
  proof
    assume "key_ok key"
    then have *: "length (c # takeWhile is_cont s) = 1" "is_ascii_lowercase c"
        "list_all (\<lambda>c. length c = 1 \<and> is_tag_char (hd c)) (chars key)"
        "length (chars key) \<le> MAX_TAG_CHARS"
      using one by (auto simp: key_ok_def Cons key_tail_ok_iff lowercase_tag_char split: if_splits)
    from *(3) have "chars key = map (\<lambda>c. [c]) key" "list_all is_tag_char key"
      by (simp_all only: chars_all_single)
    with * Cons show "key \<noteq> [] \<and> is_ascii_lowercase (hd key) \<and> length key \<le> MAX_TAG_CHARS
        \<and> list_all is_tag_char key" by simp
  next
    assume h: "key \<noteq> [] \<and> is_ascii_lowercase (hd key) \<and> length key \<le> MAX_TAG_CHARS
        \<and> list_all is_tag_char key"
    then have "chars key = map (\<lambda>c. [c]) key" using tag_text_ascii chars_ascii by blast
    with h Cons one show "key_ok key"
      by (auto simp: key_ok_def key_tail_ok_iff list_all_iff simp del: chars.simps)
  qed
qed (simp add: key_ok_def)

lemma key_ok_char_len: "key_ok k \<Longrightarrow> char_len k = length k \<and> length k \<le> MAX_TAG_CHARS"
  by (simp add: key_ok_iff tag_text_ascii char_len_ascii)

subsection \<open>Declared tags: order, limit and format\<close>

lemma classify_reason_None: "classify_reason k v = None \<longleftrightarrow> validate_center_tag k v = Ok ()"
proof
  assume "validate_center_tag k v = Ok ()"
  then have "key_ok k" "value_ok v" "\<not> is_reserved_key k"
    by (auto simp: validate_center_tag_def split: if_splits)
  moreover from this have "char_len v = length v" "length v \<le> MAX_TAG_CHARS" "v \<noteq> []"
    by (simp_all add: value_ok_iff tag_text_ascii char_len_ascii)
  ultimately show "classify_reason k v = None"
    using key_ok_char_len [of k] by (simp add: classify_reason_def)
qed (auto simp: classify_reason_def validate_center_tag_def split: if_splits)

lemma mark_over_limit_keys:
  "map d_key (mark_over_limit n ds) = map d_key ds"
  "map d_sort_key (mark_over_limit n ds) = map d_sort_key ds"
  by (induction n ds rule: mark_over_limit.induct) auto

lemma mark_over_limit_split:
  "d_valid d \<Longrightarrow> mark_over_limit n ds = us @ d # vs \<Longrightarrow>
   \<exists>us' vs'. ds = us' @ d # vs' \<and> map d_key us' = map d_key us \<and>
     n + length (filter d_valid us') < MAX_NODE_TAGS"
proof (induction n ds arbitrary: us rule: mark_over_limit.induct)
  case (2 n x ds)
  show ?case
  proof (cases us)
    case Nil
    with 2 show ?thesis by (intro exI [of _ "[]"] exI [of _ ds]) (auto split: if_splits)
  next
    case (Cons u us1)
    let ?m = "if d_valid x \<and> n < MAX_NODE_TAGS then n + 1 else n"
    from Cons "2.prems" have rest: "mark_over_limit ?m ds = us1 @ d # vs" "d_key u = d_key x"
      by (auto split: if_splits)
    from rest(1) "2.IH" "2.prems"(1) obtain us' vs' where
        ih: "ds = us' @ d # vs'" "map d_key us' = map d_key us1"
          "?m + length (filter d_valid us') < MAX_NODE_TAGS"
      by (cases "d_valid x"; cases "n < MAX_NODE_TAGS") (simp_all, blast+)
    with rest(2) Cons show ?thesis
      by (intro exI [of _ "x # us'"] exI [of _ vs']) (auto split: if_splits)
  qed
qed simp

lemma mark_over_limit_valid:
  "d_valid d \<Longrightarrow> n + length (filter d_valid us) < MAX_NODE_TAGS \<Longrightarrow>
   \<exists>us' vs'. mark_over_limit n (us @ d # vs) = us' @ d # vs' \<and> map d_key us' = map d_key us"
proof (induction us arbitrary: n)
  case (Cons u us)
  let ?m = "if d_valid u then n + 1 else n"
  from Cons.prems have "?m + length (filter d_valid us) < MAX_NODE_TAGS" by auto
  with Cons obtain us' vs' where
      "mark_over_limit ?m (us @ d # vs) = us' @ d # vs'" "map d_key us' = map d_key us"
    by blast
  with Cons.prems show ?case by (intro exI [of _ "u # us'"] exI [of _ vs']) auto
qed auto

lemma valid_count_over_limit:
  "n \<le> MAX_NODE_TAGS \<Longrightarrow> length (filter d_valid (mark_over_limit n ds)) \<le> MAX_NODE_TAGS - n"
  by (induction n ds rule: mark_over_limit.induct) (auto simp: Suc_diff_le)

lemma emit_unique_split:
  "t \<in> set (emit_unique seen ds) \<longleftrightarrow>
     (\<exists>us d vs. ds = us @ d # vs \<and> t = draft_tag d \<and> d_key d \<notin> seen \<and> d_key d \<notin> d_key ` set us)"
proof (induction seen ds rule: emit_unique.induct)
  case (2 seen x ds)
  have split: "(\<exists>us d vs. x # ds = us @ d # vs \<and> P us d) \<longleftrightarrow>
      P [] x \<or> (\<exists>us d vs. ds = us @ d # vs \<and> P (x # us) d)" for P
    by (auto simp: Cons_eq_append_conv)
  show ?case
  proof (cases "d_key x \<in> seen")
    case True
    with 2(1) show ?thesis unfolding split by simp metis
  next
    case False
    with 2(2) show ?thesis unfolding split by auto
  qed
qed simp

lemma emit_unique_distinct:
  "distinct (map dt_key (emit_unique seen ds)) \<and>
   dt_key ` set (emit_unique seen ds) \<inter> seen = {}"
  by (induction seen ds rule: emit_unique.induct) (auto simp: draft_tag_def)

lemma emit_unique_valid_count:
  "length (filter dt_valid (emit_unique seen ds)) \<le> length (filter d_valid ds)"
  by (induction seen ds rule: emit_unique.induct) (auto simp: draft_tag_def)

definition sorted_drafts :: "(str \<times> str) list \<Rightarrow> draft list" where
  "sorted_drafts pairs =
     sort_key (\<lambda>d. (d_sort_key d, d_key d)) (map (\<lambda>(k, v). classify_one k v) pairs)"

lemma classify_declared_tags_alt:
  "classify_declared_tags pairs = emit_unique {} (mark_over_limit 0 (sorted_drafts pairs))"
  by (simp add: classify_declared_tags_def sorted_drafts_def)

lemma classify_one_valid:
  "d_valid (classify_one k v) \<Longrightarrow> draft_tag (classify_one k v) =
     \<lparr>dt_key = k, dt_value = v, dt_valid = True, dt_reason = None\<rparr> \<and> validate_center_tag k v = Ok ()"
proof -
  assume "d_valid (classify_one k v)"
  then have ok: "validate_center_tag k v = Ok ()" "classify_reason k v = None"
    by (simp_all add: classify_one_def classify_reason_None)
  then have "char_len k \<le> MAX_STORED_CHARS" "char_len v \<le> MAX_STORED_CHARS"
    by (auto simp: classify_reason_def MAX_TAG_CHARS_def MAX_STORED_CHARS_def split: if_splits)
  with ok show ?thesis by (simp add: draft_tag_def classify_one_def cut_chars_all)
qed

lemma set_sorted_drafts: "set (sorted_drafts pairs) = (\<lambda>(k, v). classify_one k v) ` set pairs"
  by (simp add: sorted_drafts_def)

lemma sorted_drafts_order:
  assumes "distinct (map fst pairs)"
  shows "sorted (map d_sort_key (sorted_drafts pairs))" "distinct (map d_sort_key (sorted_drafts pairs))"
proof -
  let ?f = "\<lambda>d. (d_sort_key d, d_key d)"
  have "sorted (map ?f (sorted_drafts pairs))" unfolding sorted_drafts_def by (rule sorted_sort_key)
  then show "sorted (map d_sort_key (sorted_drafts pairs))"
    by (auto simp: sorted_wrt_map less_eq_prod_def intro: sorted_wrt_mono_rel [rotated])
  have "mset (map d_sort_key (sorted_drafts pairs)) = mset (map fst pairs)"
    by (simp add: sorted_drafts_def mset_map multiset.map_comp comp_def case_prod_beta classify_one_def)
  with assms show "distinct (map d_sort_key (sorted_drafts pairs))"
    by (metis mset_eq_imp_distinct_iff)
qed

lemma count_before:
  assumes "distinct (map fst pairs)" "sorted_drafts pairs = us @ d # vs"
  shows "length (filter d_valid us) =
    length (filter (\<lambda>(k', v'). validate_center_tag k' v' = Ok () \<and> k' < d_sort_key d) pairs)"
proof -
  let ?Q = "\<lambda>x. d_valid x \<and> d_sort_key x < d_sort_key d"
  have srt: "sorted (map d_sort_key (us @ d # vs))" "distinct (map d_sort_key (us @ d # vs))"
    using sorted_drafts_order [OF assms(1)] assms(2) by simp_all
  note before = strictly_before [OF srt]
  have "filter ?Q us = filter d_valid us" using before(1) by (intro filter_cong) auto
  moreover have "filter ?Q vs = []" using before(2) by (auto simp: filter_empty_conv)
  ultimately have "filter ?Q (sorted_drafts pairs) = filter d_valid us" by (simp add: assms(2))
  moreover have "mset (filter ?Q (sorted_drafts pairs)) =
      mset (filter ?Q (map (\<lambda>(k, v). classify_one k v) pairs))"
    by (simp only: mset_filter mset_sort sorted_drafts_def)
  ultimately have "length (filter d_valid us) =
      length (filter ?Q (map (\<lambda>(k, v). classify_one k v) pairs))"
    using mset_eq_length by fastforce
  also have "\<dots> = length (filter (\<lambda>(k', v'). validate_center_tag k' v' = Ok () \<and> k' < d_sort_key d) pairs)"
    by (simp add: filter_map comp_def split_def classify_one_def classify_reason_None)
  finally show ?thesis .
qed

lemma valid_tag_split:
  assumes "distinct (map fst pairs)" "t \<in> set (classify_declared_tags pairs)" "dt_valid t"
  shows "\<exists>k v us vs. t = draft_tag (classify_one k v) \<and> d_valid (classify_one k v) \<and> (k, v) \<in> set pairs \<and>
    sorted_drafts pairs = us @ classify_one k v # vs \<and> length (filter d_valid us) < MAX_NODE_TAGS"
proof -
  from assms(2) obtain us d vs where d: "mark_over_limit 0 (sorted_drafts pairs) = us @ d # vs" "t = draft_tag d"
    by (auto simp: classify_declared_tags_alt emit_unique_split)
  with assms(3) have "d_valid d" by (simp add: draft_tag_def)
  from mark_over_limit_split [OF this d(1)] obtain us' vs' where
      u: "sorted_drafts pairs = us' @ d # vs'" "length (filter d_valid us') < MAX_NODE_TAGS" by auto
  then have "d \<in> set (sorted_drafts pairs)" by simp
  then obtain k v where "(k, v) \<in> set pairs" "d = classify_one k v"
    by (auto simp: set_sorted_drafts)
  with u d(2) \<open>d_valid d\<close> show ?thesis by blast
qed

lemma valid_tag_kept:
  assumes "distinct (map fst pairs)" "(k, v) \<in> set pairs" "d_valid (classify_one k v)"
    and "sorted_drafts pairs = us @ classify_one k v # vs" "length (filter d_valid us) < MAX_NODE_TAGS"
  shows "draft_tag (classify_one k v) \<in> set (classify_declared_tags pairs)"
proof -
  let ?d = "classify_one k v"
  obtain us' vs' where m: "mark_over_limit 0 (us @ ?d # vs) = us' @ ?d # vs'" "map d_key us' = map d_key us"
    using mark_over_limit_valid [OF assms(3), of 0 us vs] assms(5) by auto
  have keys: "distinct (map d_sort_key (us @ ?d # vs))"
    using sorted_drafts_order(2) [OF assms(1)] assms(4) by simp
  have srt: "sorted (map d_sort_key (us @ ?d # vs))"
    using sorted_drafts_order(1) [OF assms(1)] assms(4) by simp
  have "char_len k < MAX_STORED_CHARS"
    using assms(3) by (auto simp: classify_one_def classify_reason_def MAX_TAG_CHARS_def
        MAX_STORED_CHARS_def split: if_splits)
  moreover have dk: "d_key ?d = k"
    using classify_one_valid [OF assms(3)] by (simp add: draft_tag_def)
  ultimately have "d_key u \<noteq> d_key ?d" if "u \<in> set us" for u
  proof -
    from that assms(4) have "u \<in> set (sorted_drafts pairs)" by simp
    then obtain k' v' where "u = classify_one k' v'" by (auto simp: set_sorted_drafts)
    moreover have "d_sort_key u \<noteq> d_sort_key ?d"
      using strictly_before(1) [OF srt keys] that by auto
    ultimately show ?thesis
      using cut_chars_short [of k' MAX_STORED_CHARS k] \<open>char_len k < MAX_STORED_CHARS\<close> dk
      by (auto simp: classify_one_def)
  qed
  then have "d_key ?d \<notin> d_key ` set us" by (metis imageE)
  then have "d_key ?d \<notin> d_key ` set us'" by (metis m(2) set_map)
  then show ?thesis
    unfolding classify_declared_tags_alt emit_unique_split assms(4) m(1) by blast
qed

text \<open>
  C36. The classification does not depend on the iteration order of the \<open>HashMap\<close>: two listings of
  the same pairs, with distinct keys, give the same tags in the same order.
\<close>

theorem classify_order_independent:
  assumes "mset pairs = mset pairs'" "distinct (map fst pairs)"
  shows "classify_declared_tags pairs = classify_declared_tags pairs'"
proof -
  let ?f = "\<lambda>d. (d_sort_key d, d_key d)" and ?g = "\<lambda>(k, v). classify_one k v"
  have "inj_on ?f (set (map ?g pairs))"
    using assms(2) by (auto simp: inj_on_def classify_one_def dest: eq_key_imp_eq_value)
  moreover have "mset (map ?g pairs) = mset (sort_key ?f (map ?g pairs'))"
    using assms(1) by (simp add: mset_map)
  ultimately have "sort_key ?f (map ?g pairs) = sort_key ?f (map ?g pairs')"
    by (intro sort_key_inj_key_eq) simp_all
  then show ?thesis by (simp add: classify_declared_tags_def)
qed

theorem classify_order_independent_witness:
  "classify_declared_tags [(''role'', ''db''), (''Env'', ''Prod'')] =
   classify_declared_tags [(''Env'', ''Prod''), (''role'', ''db'')]"
  by (rule classify_order_independent) simp_all

text \<open>
  C31. What a node may declare: keys of the result are distinct, at most 32 tags are valid, and a
  pair is kept as valid exactly when it was declared, passes the center's own tag check and has
  fewer than 32 well-formed declared keys before it in key order.
\<close>

theorem classify_valid_exact:
  assumes "distinct (map fst pairs)"
  shows "distinct (map dt_key (classify_declared_tags pairs)) \<and>
    length (filter dt_valid (classify_declared_tags pairs)) \<le> MAX_NODE_TAGS \<and>
    ((\<exists>t \<in> set (classify_declared_tags pairs). dt_valid t \<and> dt_key t = k \<and> dt_value t = v) \<longleftrightarrow>
      (k, v) \<in> set pairs \<and> validate_center_tag k v = Ok () \<and>
      length (filter (\<lambda>(k', v'). validate_center_tag k' v' = Ok () \<and> k' < k) pairs) < MAX_NODE_TAGS)"
proof (intro conjI iffI)
  show "distinct (map dt_key (classify_declared_tags pairs))"
    unfolding classify_declared_tags_alt using emit_unique_distinct by blast
  show "length (filter dt_valid (classify_declared_tags pairs)) \<le> MAX_NODE_TAGS"
    using emit_unique_valid_count valid_count_over_limit [of 0] le_trans
    unfolding classify_declared_tags_alt by fastforce
next
  let ?ok = "\<lambda>k (k', v'). validate_center_tag k' v' = Ok () \<and> k' < k"
  assume "\<exists>t \<in> set (classify_declared_tags pairs). dt_valid t \<and> dt_key t = k \<and> dt_value t = v"
  then obtain t where t: "t \<in> set (classify_declared_tags pairs)" "dt_valid t" "dt_key t = k" "dt_value t = v"
    by blast
  from valid_tag_split [OF assms t(1,2)] obtain k0 v0 us vs where
      d: "t = draft_tag (classify_one k0 v0)" "d_valid (classify_one k0 v0)" "(k0, v0) \<in> set pairs"
        "sorted_drafts pairs = us @ classify_one k0 v0 # vs" "length (filter d_valid us) < MAX_NODE_TAGS"
    by blast
  from classify_one_valid [OF d(2)] d(1) t have "k0 = k" "v0 = v" "validate_center_tag k v = Ok ()" by auto
  with d count_before [OF assms d(4)] show "(k, v) \<in> set pairs" "validate_center_tag k v = Ok ()"
      "length (filter (?ok k) pairs) < MAX_NODE_TAGS"
    by (simp_all add: classify_one_def)
next
  assume h: "(k, v) \<in> set pairs \<and> validate_center_tag k v = Ok () \<and>
      length (filter (\<lambda>(k', v'). validate_center_tag k' v' = Ok () \<and> k' < k) pairs) < MAX_NODE_TAGS"
  then have valid: "d_valid (classify_one k v)" by (simp add: classify_one_def classify_reason_None)
  have "classify_one k v \<in> set (sorted_drafts pairs)" using h by (auto simp: set_sorted_drafts)
  then obtain us vs where us: "sorted_drafts pairs = us @ classify_one k v # vs" by (meson split_list)
  have "length (filter d_valid us) < MAX_NODE_TAGS"
    using count_before [OF assms us] h by (simp add: classify_one_def)
  with valid_tag_kept [OF assms _ valid us] h classify_one_valid [OF valid]
  show "\<exists>t \<in> set (classify_declared_tags pairs). dt_valid t \<and> dt_key t = k \<and> dt_value t = v"
    by (intro bexI [of _ "draft_tag (classify_one k v)"]) auto
qed

theorem classify_valid_exact_witness:
  "\<exists>t \<in> set (classify_declared_tags [(''Env'', ''Prod''), (''role'', ''db'')]).
     dt_valid t \<and> dt_key t = ''role'' \<and> dt_value t = ''db''"
proof -
  have d: "distinct (map fst [(''Env'', ''Prod''), (''role'', ''db'')])" by simp
  have v: "validate_center_tag ''role'' ''db'' = Ok ()" by code_simp
  have "length (filter (\<lambda>(k', v'). validate_center_tag k' v' = Ok () \<and> k' < ''role'')
      [(''Env'', ''Prod''), (''role'', ''db'')]) < MAX_NODE_TAGS"
    by (rule le_less_trans [OF length_filter_le]) (simp add: MAX_NODE_TAGS_def)
  then show ?thesis
    using classify_valid_exact [OF d, of "''role''" "''db''"] v by simp
qed

subsection \<open>System values\<close>

lemma normalize_char_tag: "is_tag_char (normalize_char ch)"
  by (simp add: normalize_char_def Let_def) (simp add: is_tag_char_def)

lemma normalize_char_id: "is_tag_char c \<Longrightarrow> normalize_char [c] = c"
  by (auto simp: normalize_char_def Let_def to_ascii_lower_def is_tag_char_def is_ascii_uppercase_def
      is_ascii_lowercase_def is_ascii_digit_def)

text \<open>
  A center-derived system value always passes the tag format: normalization yields nothing
  exactly for an empty input, otherwise a valid value of at most 63 characters, and it leaves a
  value that is already valid as it is (so it is idempotent).
\<close>

theorem normalize_system_value_valid:
  "(normalize_system_value raw = None \<longleftrightarrow> raw = []) \<and>
   (normalize_system_value raw = Some v \<longrightarrow> value_ok v \<and> normalize_system_value v = Some v) \<and>
   (value_ok raw \<longrightarrow> normalize_system_value raw = Some raw)"
proof (intro conjI impI)
  show "normalize_system_value raw = None \<longleftrightarrow> raw = []"
    by (simp add: normalize_system_value_def MAX_TAG_CHARS_def Let_def)
  have keep: "normalize_system_value r = Some r" if "value_ok r" for r
  proof -
    from that have r: "r \<noteq> []" "length r \<le> MAX_TAG_CHARS" "list_all is_tag_char r"
      by (simp_all add: value_ok_iff)
    then have "chars r = map (\<lambda>c. [c]) r" by (simp add: chars_ascii tag_text_ascii)
    moreover have "map (normalize_char \<circ> (\<lambda>c. [c])) r = r"
      using r(3) by (intro map_idI) (auto simp: list_all_iff normalize_char_id)
    ultimately show ?thesis using r by (simp add: normalize_system_value_def)
  qed
  show "value_ok raw \<Longrightarrow> normalize_system_value raw = Some raw" by (rule keep)
  assume "normalize_system_value raw = Some v"
  then have "v = map normalize_char (take MAX_TAG_CHARS (chars raw))" "v \<noteq> []"
    by (auto simp: normalize_system_value_def Let_def split: if_splits)
  then show "value_ok v" by (simp add: value_ok_iff list_all_iff normalize_char_tag)
  then show "normalize_system_value v = Some v" by (rule keep)
qed

theorem normalize_system_value_valid_witness:
  "normalize_system_value ''Linux'' = Some ''linux'' \<and> value_ok ''linux''"
proof -
  have "normalize_system_value ''Linux'' = Some ''linux''" by code_simp
  then show ?thesis using normalize_system_value_valid [of "''Linux''" "''linux''"] by simp
qed

end
