(* ===== verification/Selector.thy ===== *)
theory Selector
  imports Tags
begin

text \<open>
  \<open>crates/novbot-core/src/tags.rs\<close>, second half: the selector language. The requirements, the
  hand-written recursive-descent parser with its byte position and error positions, the rejection
  of conflicting equalities, the canonical text and the evaluation of a selector on a node's
  tags. The parser object \<open>Parser { input, i }\<close> is the pair of arguments \<open>inp i\<close>; an operation
  that moves the position returns the new one. The position only ever passes ASCII bytes, so it
  stays on a character boundary and the slices of the code do not panic.
\<close>

subsection \<open>Requirements and errors\<close>

definition MAX_SELECTOR_CHARS :: nat where "MAX_SELECTOR_CHARS = 1024"
definition MAX_REQUIREMENTS :: nat where "MAX_REQUIREMENTS = 16"
definition MAX_SET_VALUES :: nat where "MAX_SET_VALUES = 32"

datatype requirement =
    Eq str str
  | NotEq str str
  | In str "str list"
  | NotIn str "str list"
  | Exists str
  | NotExists str

record selector =
  requirements :: "requirement list"
  canonical :: str

datatype selector_parse = Empty | All | Filter selector

record selector_error =
  se_message :: str
  se_position :: nat

type_synonym 'a parse = "('a \<times> nat, selector_error) result"

subsection \<open>The parser\<close>

definition in_quotes :: "str \<Rightarrow> str" where
  "in_quotes s = CHR 0x27 # s @ [CHR 0x27]"

abbreviation sel_err :: "str \<Rightarrow> nat \<Rightarrow> selector_error" where
  "sel_err msg pos \<equiv> \<lparr>se_message = msg, se_position = pos\<rparr>"

definition eof :: "str \<Rightarrow> nat \<Rightarrow> bool" where
  "eof inp i = (i \<ge> length inp)"

definition rest :: "str \<Rightarrow> nat \<Rightarrow> str" where
  "rest inp i = drop i inp"

text \<open>The loop of \<open>skip_ws\<close> passes the leading ASCII white space, one byte each.\<close>

definition skip_ws :: "str \<Rightarrow> nat \<Rightarrow> nat" where
  "skip_ws inp i = i + length (takeWhile is_ascii_whitespace (rest inp i))"

definition eat :: "str \<Rightarrow> nat \<Rightarrow> char \<Rightarrow> nat option" where
  "eat inp i b = (case rest inp i of c # _ \<Rightarrow> if c = b then Some (i + 1) else None | [] \<Rightarrow> None)"

definition eat_word :: "str \<Rightarrow> nat \<Rightarrow> str \<Rightarrow> nat option" where
  "eat_word inp i word =
     (if \<not> starts_with (rest inp i) word then None
      else (case drop (length word) (rest inp i) of
          c # _ \<Rightarrow> if is_ascii_lowercase c \<or> is_ascii_digit c \<or> c = CHR ''_'' \<or> c = CHR ''.''
                   then None else Some (i + length word)
        | [] \<Rightarrow> Some (i + length word)))"

definition token :: "(char \<Rightarrow> bool) \<Rightarrow> str \<Rightarrow> nat \<Rightarrow> str parse" where
  "token ok inp i =
     (let t = takeWhile ok (rest inp i)
      in if length t = 0 then Err (sel_err ''expected a token'' i) else Ok (t, i + length t))"

definition p_key :: "str \<Rightarrow> nat \<Rightarrow> str parse" where
  "p_key inp i =
     and_then (token is_tag_char inp i) (\<lambda>(raw, j).
       if \<not> key_ok raw then Err (sel_err (''invalid selector key `'' @ raw @ ''`'') i) else Ok (raw, j))"

definition p_value :: "str \<Rightarrow> nat \<Rightarrow> str parse" where
  "p_value inp i =
     and_then (token is_tag_char inp i) (\<lambda>(raw, j).
       if \<not> value_ok raw then Err (sel_err (''invalid selector value `'' @ raw @ ''`'') i) else Ok (raw, j))"

function value_set_loop :: "str \<Rightarrow> nat \<Rightarrow> str list \<Rightarrow> str list parse" where
  "value_set_loop inp i0 values =
     (let i = skip_ws inp i0 in
      if length values \<ge> MAX_SET_VALUES
      then Err (sel_err (''value set exceeds '' @ show_nat MAX_SET_VALUES @ '' values'') i)
      else (case p_value inp i of
          Inl e \<Rightarrow> Err e
        | Inr (v, j) \<Rightarrow>
            (let k = skip_ws inp j in
             case eat inp k CHR '','' of
               Some k' \<Rightarrow> value_set_loop inp k' (values @ [v])
             | None \<Rightarrow>
                 (case eat inp k CHR '')'' of
                    Some k' \<Rightarrow> Ok (values @ [v], k')
                  | None \<Rightarrow> Err (sel_err (''expected '' @ in_quotes '','' @ '' or '' @ in_quotes '')'') k)))))"
  by pat_completeness auto
termination
  by (relation "measure (\<lambda>(inp, i, values). MAX_SET_VALUES - length values)") auto

declare value_set_loop.simps [simp del]

definition value_set :: "str \<Rightarrow> nat \<Rightarrow> str list parse" where
  "value_set inp i0 =
     (let i = skip_ws inp i0 in
      case eat inp i CHR ''('' of
        None \<Rightarrow> Err (sel_err (''expected '' @ in_quotes ''('') i)
      | Some j \<Rightarrow>
          and_then (value_set_loop inp j []) (\<lambda>(values, k).
            if values = [] then Err (sel_err ''value set is empty'' k) else Ok (values, k)))"

record parsed_req =
  pr_start :: nat
  pr_req :: requirement

definition p_requirement :: "str \<Rightarrow> nat \<Rightarrow> parsed_req parse" where
  "p_requirement inp i0 =
     (let start = skip_ws inp i0;
          done = (\<lambda>req j. Ok (\<lparr>pr_start = start, pr_req = req\<rparr>, j)) in
      if eof inp start then Err (sel_err ''expected a requirement'' start)
      else (case eat inp start CHR ''!'' of
        Some j \<Rightarrow> and_then (p_key inp (skip_ws inp j)) (\<lambda>(key, k). done (NotExists key) k)
      | None \<Rightarrow>
          and_then (p_key inp start) (\<lambda>(key, j).
            let i = skip_ws inp j in
            if eof inp i \<or> starts_with (rest inp i) '','' then done (Exists key) i
            else if starts_with (rest inp i) ''!='' then
              and_then (p_value inp (skip_ws inp (i + 2))) (\<lambda>(v, k). done (NotEq key v) k)
            else (case eat inp i CHR ''='' of
              Some k \<Rightarrow> and_then (p_value inp (skip_ws inp k)) (\<lambda>(v, k'). done (Eq key v) k')
            | None \<Rightarrow>
              (case eat_word inp i ''notin'' of
                Some k \<Rightarrow> and_then (value_set inp k) (\<lambda>(vs, k'). done (NotIn key vs) k')
              | None \<Rightarrow>
                (case eat_word inp i ''in'' of
                  Some k \<Rightarrow> and_then (value_set inp k) (\<lambda>(vs, k'). done (In key vs) k')
                | None \<Rightarrow>
                    Err (sel_err (''expected '' @ join '', '' (map in_quotes [''='', ''!='', ''in'', ''notin''])
                      @ '', or end of requirement'') i)))))))"

subsection \<open>Equalities, canonical text\<close>

definition eq_pairs :: "parsed_req list \<Rightarrow> (str \<times> str \<times> nat) list" where
  "eq_pairs reqs = List.map_filter
     (\<lambda>p. case pr_req p of Eq key v \<Rightarrow> Some (key, v, pr_start p) | _ \<Rightarrow> None) reqs"

definition eq_values :: "parsed_req list \<Rightarrow> str \<Rightarrow> str list" where
  "eq_values reqs key = map (fst \<circ> snd) (filter (\<lambda>e. fst e = key) (eq_pairs reqs))"

text \<open>The \<open>BTreeMap\<close> of positions keeps the last one inserted for a key.\<close>

definition eq_pos :: "parsed_req list \<Rightarrow> str \<Rightarrow> nat" where
  "eq_pos reqs key =
     (case filter (\<lambda>e. fst e = key) (eq_pairs reqs) of [] \<Rightarrow> 0 | es \<Rightarrow> snd (snd (last es)))"

fun drop_repeated_eq :: "str set \<Rightarrow> parsed_req list \<Rightarrow> requirement list" where
  "drop_repeated_eq seen [] = []"
| "drop_repeated_eq seen (p # ps) =
     (case pr_req p of
        Eq key v \<Rightarrow>
          (if key \<in> seen then drop_repeated_eq seen ps
           else Eq key v # drop_repeated_eq (insert key seen) ps)
      | r \<Rightarrow> r # drop_repeated_eq seen ps)"

definition reject_conflicting_equality ::
    "parsed_req list \<Rightarrow> (requirement list, selector_error) result" where
  "reject_conflicting_equality reqs =
     (case find (\<lambda>key. length (sort_dedup (eq_values reqs key)) > 1)
             (sort_dedup (map fst (eq_pairs reqs))) of
        Some key \<Rightarrow>
          Err (sel_err (''conflicting equality for `'' @ key @ ''`; use `'' @ key @ '' in ('' @
            join '','' (sort_dedup (eq_values reqs key)) @ '')`'') (eq_pos reqs key))
      | None \<Rightarrow> Ok (drop_repeated_eq {} reqs))"

fun normal_req :: "requirement \<Rightarrow> requirement" where
  "normal_req (In key values) = In key (sort_dedup values)"
| "normal_req (NotIn key values) = NotIn key (sort_dedup values)"
| "normal_req r = r"

fun req_sort_key :: "requirement \<Rightarrow> str \<times> nat \<times> str" where
  "req_sort_key (Eq key v) = (key, 0, v)"
| "req_sort_key (NotEq key v) = (key, 1, v)"
| "req_sort_key (In key values) = (key, 2, join '','' values)"
| "req_sort_key (NotIn key values) = (key, 3, join '','' values)"
| "req_sort_key (Exists key) = (key, 4, [])"
| "req_sort_key (NotExists key) = (key, 5, [])"

fun req_canonical :: "requirement \<Rightarrow> str" where
  "req_canonical (Eq key v) = key @ ''='' @ v"
| "req_canonical (NotEq key v) = key @ ''!='' @ v"
| "req_canonical (In key values) = key @ '' in ('' @ join '','' values @ '')''"
| "req_canonical (NotIn key values) = key @ '' notin ('' @ join '','' values @ '')''"
| "req_canonical (Exists key) = key"
| "req_canonical (NotExists key) = ''!'' @ key"

definition canonical_of :: "requirement list \<Rightarrow> str" where
  "canonical_of reqs = join '','' (map req_canonical (sort_key req_sort_key (map normal_req reqs)))"

subsection \<open>Whole selectors\<close>

function parse_loop :: "str \<Rightarrow> nat \<Rightarrow> parsed_req list \<Rightarrow> (parsed_req list, selector_error) result" where
  "parse_loop inp i reqs =
     (if length reqs \<ge> MAX_REQUIREMENTS
      then Err (sel_err (''selector exceeds '' @ show_nat MAX_REQUIREMENTS @ '' requirements'') i)
      else (case p_requirement inp i of
          Inl e \<Rightarrow> Err e
        | Inr (p, j) \<Rightarrow>
            (let k = skip_ws inp j in
             if eof inp k then Ok (reqs @ [p])
             else (case eat inp k CHR '','' of
                 Some k' \<Rightarrow>
                   (let m = skip_ws inp k' in
                    if eof inp m then Err (sel_err ''trailing comma'' m)
                    else parse_loop inp m (reqs @ [p]))
               | None \<Rightarrow> Err (sel_err (''expected '' @ in_quotes '','' @ '' or end of selector'') i)))))"
  by pat_completeness auto
termination
  by (relation "measure (\<lambda>(inp, i, reqs). MAX_REQUIREMENTS - length reqs)") auto

declare parse_loop.simps [simp del]

definition trim_start_index :: "str \<Rightarrow> nat" where
  "trim_start_index inp = length (takeWhile is_ascii_whitespace inp)"

definition parse_selector :: "str \<Rightarrow> (selector_parse, selector_error) result" where
  "parse_selector inp =
     (if char_len inp > MAX_SELECTOR_CHARS
      then Err (sel_err (''selector exceeds '' @ show_nat MAX_SELECTOR_CHARS @ '' characters'') 0)
      else if trim inp = [] then Ok Empty
      else if trim inp = ''*'' then Ok All
      else and_then (parse_loop inp (trim_start_index inp) []) (\<lambda>parsed.
        and_then (reject_conflicting_equality parsed) (\<lambda>reqs.
          Ok (Filter \<lparr>requirements = reqs, canonical = canonical_of reqs\<rparr>))))"

fun req_matches :: "(str \<rightharpoonup> str) \<Rightarrow> requirement \<Rightarrow> bool" where
  "req_matches tags (Eq key v) = (tags key = Some v)"
| "req_matches tags (NotEq key v) = (tags key \<noteq> Some v)"
| "req_matches tags (In key values) =
     (case tags key of Some v \<Rightarrow> v \<in> set values | None \<Rightarrow> False)"
| "req_matches tags (NotIn key values) =
     (case tags key of Some v \<Rightarrow> v \<notin> set values | None \<Rightarrow> True)"
| "req_matches tags (Exists key) = (tags key \<noteq> None)"
| "req_matches tags (NotExists key) = (tags key = None)"

definition selector_matches :: "selector \<Rightarrow> (str \<rightharpoonup> str) \<Rightarrow> bool" where
  "selector_matches sel tags = list_all (req_matches tags) (requirements sel)"

end
