(* ===== verification/Selector_Correct.thy ===== *)
theory Selector_Correct
  imports Selector
begin

text \<open>
  The selector parser against its language: what it accepts is well formed, the canonical text
  it computes parses back to the same meaning and is its own canonical text, and evaluation does
  not depend on the written order. The token parsers share one contract, the locale
  \<open>checked_token\<close>, interpreted for keys and for values.
\<close>

subsection \<open>The position and single tokens\<close>

lemma rest_advance: "rest inp i = u @ t \<Longrightarrow> rest inp (i + length u) = t"
  by (simp add: rest_def) (metis add.commute append_eq_conv_conj drop_drop)

lemma rest_Suc: "rest inp i = c # t \<Longrightarrow> rest inp (Suc i) = t"
  using rest_advance [of inp i "[c]" t] by simp

lemma eof_rest: "eof inp i \<longleftrightarrow> rest inp i = []"
  by (simp add: eof_def rest_def)

lemma eat_rest: "rest inp i = c # t \<Longrightarrow> eat inp i b = (if c = b then Some (Suc i) else None)"
  by (simp add: eat_def)

lemma eat_Some: "eat inp i b = Some j \<Longrightarrow> j = Suc i"
  by (auto simp: eat_def split: list.splits if_splits)

definition no_ws :: "str \<Rightarrow> bool" where
  "no_ws s = (s = [] \<or> \<not> is_ascii_whitespace (hd s))"

lemma skip_ws_none: "no_ws (rest inp i) \<Longrightarrow> skip_ws inp i = i"
  by (cases "rest inp i") (auto simp: skip_ws_def no_ws_def)

lemma skip_ws_space: "rest inp i = CHR '' '' # t \<Longrightarrow> no_ws t \<Longrightarrow> skip_ws inp i = Suc i"
  by (cases t) (auto simp: skip_ws_def no_ws_def is_ascii_whitespace_def)

lemma tag_char_not_ws: "is_tag_char c \<Longrightarrow> \<not> is_ascii_whitespace c"
  by (auto simp: is_tag_char_def is_ascii_whitespace_def is_ascii_lowercase_def is_ascii_digit_def)

definition token_end :: "str \<Rightarrow> bool" where
  "token_end s = (s = [] \<or> \<not> is_tag_char (hd s))"

locale checked_token =
  fixes valid :: "str \<Rightarrow> bool" and parse :: "str \<Rightarrow> nat \<Rightarrow> str parse" and what :: str
  assumes valid_text: "valid s \<Longrightarrow> s \<noteq> [] \<and> list_all is_tag_char s"
    and parse_eq: "parse inp i = and_then (token is_tag_char inp i) (\<lambda>(raw, j).
        if \<not> valid raw then Err (sel_err (what @ raw @ ''`'') i) else Ok (raw, j))"
begin

lemma sound: "parse inp i = Inr (s, j) \<Longrightarrow> valid s"
  by (auto simp: parse_eq split: if_splits)

lemma complete:
  assumes "valid s" "rest inp i = s @ t" "token_end t"
  shows "parse inp i = Inr (s, i + length s)"
proof -
  have "takeWhile is_tag_char (s @ t) = s"
    using assms(3) valid_text [OF assms(1)] by (intro takeWhile_append_stop) (auto simp: token_end_def)
  then show ?thesis
    using assms valid_text [OF assms(1)] by (simp add: parse_eq token_def Let_def)
qed

lemma head: "valid s \<Longrightarrow> \<exists>c u. s = c # u \<and> is_tag_char c"
  using valid_text [of s] by (cases s) auto

lemma no_ws_append: "valid s \<Longrightarrow> no_ws (s @ t)"
  using head [of s] by (auto simp: no_ws_def tag_char_not_ws)

lemma no_special: "valid s \<Longrightarrow> \<not> is_tag_char c \<Longrightarrow> c \<notin> set s"
  using valid_text [of s] by (auto simp: list_all_iff)

end

interpretation key: checked_token key_ok p_key "''invalid selector key `''"
  by unfold_locales (simp_all add: key_ok_iff p_key_def)

interpretation val: checked_token value_ok p_value "''invalid selector value `''"
  by unfold_locales (simp_all add: value_ok_iff p_value_def)

lemma special_not_tag [simp]:
  "\<not> is_tag_char CHR '' ''" "\<not> is_tag_char CHR '',''" "\<not> is_tag_char CHR ''=''"
  "\<not> is_tag_char CHR ''!''" "\<not> is_tag_char CHR ''(''" "\<not> is_tag_char CHR '')''" "\<not> is_tag_char CHR ''*''"
  by (simp_all add: is_tag_char_def is_ascii_lowercase_def is_ascii_digit_def)

lemma special_not_ws [simp]:
  "\<not> is_ascii_whitespace CHR '',''" "\<not> is_ascii_whitespace CHR ''=''" "\<not> is_ascii_whitespace CHR ''!''"
  "\<not> is_ascii_whitespace CHR ''(''" "\<not> is_ascii_whitespace CHR '')''" "\<not> is_ascii_whitespace CHR ''i''"
  "\<not> is_ascii_whitespace CHR ''n''"
  by (simp_all add: is_ascii_whitespace_def)

subsection \<open>What the parser accepts\<close>

fun req_ok :: "requirement \<Rightarrow> bool" where
  "req_ok (Eq key v) = (key_ok key \<and> value_ok v)"
| "req_ok (NotEq key v) = (key_ok key \<and> value_ok v)"
| "req_ok (In key values) =
     (key_ok key \<and> values \<noteq> [] \<and> length values \<le> MAX_SET_VALUES \<and> list_all value_ok values)"
| "req_ok (NotIn key values) =
     (key_ok key \<and> values \<noteq> [] \<and> length values \<le> MAX_SET_VALUES \<and> list_all value_ok values)"
| "req_ok (Exists key) = key_ok key"
| "req_ok (NotExists key) = key_ok key"

definition eq_keys :: "requirement list \<Rightarrow> str list" where
  "eq_keys rs = List.map_filter (\<lambda>r. case r of Eq key v \<Rightarrow> Some key | _ \<Rightarrow> None) rs"

definition well_formed :: "requirement list \<Rightarrow> bool" where
  "well_formed rs = (rs \<noteq> [] \<and> length rs \<le> MAX_REQUIREMENTS \<and> list_all req_ok rs
     \<and> distinct (eq_keys rs))"

lemma value_set_loop_sound:
  "value_set_loop inp i vs = Inr (ws, j) \<Longrightarrow> list_all value_ok vs \<Longrightarrow>
     ws \<noteq> [] \<and> length ws \<le> MAX_SET_VALUES \<and> list_all value_ok ws"
proof (induction inp i vs rule: value_set_loop.induct)
  case (1 inp i0 vals)
  let ?i = "skip_ws inp i0"
  from "1.prems"(1) have lt: "length vals < MAX_SET_VALUES"
    by (subst (asm) value_set_loop.simps) (auto simp: Let_def split: if_splits)
  with "1.prems"(1) obtain v k where v: "p_value inp ?i = Inr (v, k)"
    by (subst (asm) value_set_loop.simps) (auto simp: Let_def split: sum.splits)
  have ok: "list_all value_ok (vals @ [v])" using "1.prems"(2) val.sound [OF v] by simp
  show ?case
  proof (cases "eat inp (skip_ws inp k) CHR '',''")
    case None
    with "1.prems"(1) lt v have "ws = vals @ [v]"
      by (subst (asm) value_set_loop.simps) (auto simp: Let_def split: option.splits)
    with ok lt show ?thesis by simp
  next
    case (Some k')
    with "1.prems"(1) lt v have "value_set_loop inp k' (vals @ [v]) = Inr (ws, j)"
      by (subst (asm) value_set_loop.simps) (simp add: Let_def)
    with "1.IH" lt v Some ok show ?thesis by (simp add: linorder_not_le)
  qed
qed

lemma value_set_sound:
  "value_set inp i = Inr (ws, j) \<Longrightarrow> ws \<noteq> [] \<and> length ws \<le> MAX_SET_VALUES \<and> list_all value_ok ws"
  by (auto simp: value_set_def Let_def split: option.splits if_splits dest!: value_set_loop_sound)

lemma p_requirement_sound: "p_requirement inp i = Inr (p, j) \<Longrightarrow> req_ok (pr_req p)"
  unfolding p_requirement_def Let_def
  by (auto split: if_splits option.splits dest!: key.sound val.sound value_set_sound)

lemma parse_loop_sound:
  "parse_loop inp i reqs = Inr ps \<Longrightarrow> list_all (\<lambda>p. req_ok (pr_req p)) reqs \<Longrightarrow>
     ps \<noteq> [] \<and> length ps \<le> MAX_REQUIREMENTS \<and> list_all (\<lambda>p. req_ok (pr_req p)) ps"
proof (induction inp i reqs rule: parse_loop.induct)
  case (1 inp i reqs)
  from "1.prems"(1) have lt: "length reqs < MAX_REQUIREMENTS"
    by (subst (asm) parse_loop.simps) (auto split: if_splits)
  with "1.prems"(1) obtain p j where p: "p_requirement inp i = Inr (p, j)"
    by (subst (asm) parse_loop.simps) (auto split: sum.splits)
  have ok: "list_all (\<lambda>p. req_ok (pr_req p)) (reqs @ [p])"
    using "1.prems"(2) p_requirement_sound [OF p] by simp
  let ?k = "skip_ws inp j"
  show ?case
  proof (cases "eof inp ?k")
    case True
    with "1.prems"(1) lt p have "ps = reqs @ [p]"
      by (subst (asm) parse_loop.simps) (auto simp: Let_def)
    with ok lt show ?thesis by simp
  next
    case False
    with "1.prems"(1) lt p obtain k' where k': "eat inp ?k CHR '','' = Some k'"
        "\<not> eof inp (skip_ws inp k')" "parse_loop inp (skip_ws inp k') (reqs @ [p]) = Inr ps"
      by (subst (asm) parse_loop.simps) (auto simp: Let_def split: option.splits if_splits)
    with "1.IH" lt p False ok show ?thesis by (simp add: linorder_not_le)
  qed
qed

lemma drop_repeated_eq_keys:
  "distinct (eq_keys (drop_repeated_eq seen ps)) \<and> set (eq_keys (drop_repeated_eq seen ps)) \<inter> seen = {}"
  by (induction seen ps rule: drop_repeated_eq.induct)
    (auto simp: eq_keys_def map_filter_simps split: requirement.split)

lemma drop_repeated_eq_subset:
  "set (drop_repeated_eq seen ps) \<subseteq> pr_req ` set ps \<and> length (drop_repeated_eq seen ps) \<le> length ps"
  by (induction seen ps rule: drop_repeated_eq.induct) (force split: requirement.split)+

lemma drop_repeated_eq_nonempty: "ps \<noteq> [] \<Longrightarrow> drop_repeated_eq {} ps \<noteq> []"
  by (cases ps) (auto split: requirement.split)

lemma accepted_well_formed:
  assumes "parse_selector inp = Ok (Filter sel)"
  shows "well_formed (requirements sel) \<and> canonical sel = canonical_of (requirements sel)"
proof -
  from assms obtain ps rs where ps: "parse_loop inp (trim_start_index inp) [] = Inr ps"
      "reject_conflicting_equality ps = Inr rs" "sel = \<lparr>requirements = rs, canonical = canonical_of rs\<rparr>"
    by (auto simp: parse_selector_def split: if_splits)
  have ok: "ps \<noteq> []" "length ps \<le> MAX_REQUIREMENTS" "list_all (\<lambda>p. req_ok (pr_req p)) ps"
    using parse_loop_sound [OF ps(1)] by simp_all
  from ps(2) have rs: "rs = drop_repeated_eq {} ps"
    by (auto simp: reject_conflicting_equality_def split: option.splits)
  have "list_all req_ok rs" "length rs \<le> MAX_REQUIREMENTS"
    using ok drop_repeated_eq_subset [of "{}" ps] unfolding rs by (auto simp: list_all_iff)
  then show ?thesis
    using ps(3) ok(1) drop_repeated_eq_nonempty drop_repeated_eq_keys [of "{}" ps]
    by (simp add: well_formed_def rs)
qed


text \<open>
  Whatever text a user submits, a selector the parser accepts is well formed: between one and
  16 requirements, every key and value in the tag format, every value set with one to 32 values,
  at most one equality per key, and the canonical text is the canonical text of its requirements.
\<close>

theorem parse_selector_well_formed:
  assumes "parse_selector inp = Ok (Filter sel)"
  shows "well_formed (requirements sel) \<and> canonical sel = canonical_of (requirements sel)"
  using assms by (rule accepted_well_formed)

lemma parse_selector_well_formed_witness:
  "\<exists>sel. parse_selector ''os=linux, env in (prod,dev)'' = Ok (Filter sel) \<and>
     well_formed (requirements sel) \<and> canonical sel = ''env in (dev,prod),os=linux''"
proof -
  let ?sel = "\<lparr>requirements = [Eq ''os'' ''linux'', In ''env'' [''prod'', ''dev'']],
    canonical = ''env in (dev,prod),os=linux''\<rparr>"
  have "parse_selector ''os=linux, env in (prod,dev)'' = Ok (Filter ?sel)" by code_simp
  with parse_selector_well_formed [OF this] show ?thesis by simp
qed

subsection \<open>The canonical text parses back\<close>

definition req_end :: "str \<Rightarrow> bool" where
  "req_end t = (t = [] \<or> hd t = CHR '','')"

lemma req_end_facts:
  "req_end t \<Longrightarrow> token_end t" "req_end t \<Longrightarrow> no_ws t"
  by (auto simp: req_end_def token_end_def no_ws_def)

lemma value_set_loop_complete:
  "vs \<noteq> [] \<Longrightarrow> list_all value_ok vs \<Longrightarrow> length acc + length vs \<le> MAX_SET_VALUES \<Longrightarrow>
   rest inp i = join '','' vs @ CHR '')'' # t \<Longrightarrow>
     \<exists>j. value_set_loop inp i acc = Inr (acc @ vs, j) \<and> rest inp j = t"
proof (induction vs arbitrary: i acc rule: induct_list012)
  case (2 v)
  from 2 have v: "value_ok v" "rest inp i = v @ CHR '')'' # t" by simp_all
  have "skip_ws inp i = i" by (rule skip_ws_none) (simp add: v val.no_ws_append)
  moreover have "p_value inp i = Inr (v, i + length v)"
    by (rule val.complete [OF v]) (simp add: token_end_def)
  moreover have r: "rest inp (i + length v) = CHR '')'' # t" by (rule rest_advance) (rule v)
  moreover have "skip_ws inp (i + length v) = i + length v"
    by (rule skip_ws_none) (simp add: r no_ws_def)
  ultimately show ?case using 2
    by (simp add: value_set_loop.simps [of inp i acc] eat_rest [OF r] rest_Suc [OF r])
next
  case (3 v w vs)
  let ?t = "join '','' (w # vs) @ CHR '')'' # t"
  from 3 have v: "value_ok v" "rest inp i = v @ CHR '','' # ?t" by simp_all
  have "skip_ws inp i = i" by (rule skip_ws_none) (simp add: v(1) v(2) val.no_ws_append)
  moreover have "p_value inp i = Inr (v, i + length v)"
    by (rule val.complete [OF v]) (simp add: token_end_def)
  moreover have r: "rest inp (i + length v) = CHR '','' # ?t" by (rule rest_advance) (rule v)
  moreover have "skip_ws inp (i + length v) = i + length v"
    by (rule skip_ws_none) (simp add: r no_ws_def)
  moreover have "\<exists>j. value_set_loop inp (Suc (i + length v)) (acc @ [v])
      = Inr ((acc @ [v]) @ w # vs, j) \<and> rest inp j = t"
    using "3.prems" by (intro "3.IH"(2)) (auto simp: rest_Suc [OF r])
  ultimately show ?case using 3
    by (simp add: value_set_loop.simps [of inp i acc] eat_rest [OF r])
qed simp

lemma value_set_complete:
  assumes "vs \<noteq> []" "list_all value_ok vs" "length vs \<le> MAX_SET_VALUES"
    "rest inp i = '' ('' @ join '','' vs @ CHR '')'' # t"
  shows "\<exists>j. value_set inp i = Inr (vs, j) \<and> rest inp j = t"
proof -
  have r: "rest inp (Suc i) = CHR ''('' # join '','' vs @ CHR '')'' # t"
    using assms(4) by (intro rest_Suc [of inp i "CHR '' ''"]) simp
  have "skip_ws inp i = Suc i" by (rule skip_ws_space) (use assms(4) in \<open>auto simp: no_ws_def\<close>)
  moreover obtain j where "value_set_loop inp (Suc (Suc i)) [] = Inr ([] @ vs, j)" "rest inp j = t"
    using value_set_loop_complete [of vs "[]" inp "Suc (Suc i)" t] assms rest_Suc [OF r] by auto
  ultimately show ?thesis using assms(1) by (simp add: value_set_def eat_rest [OF r])
qed

lemma p_key_step:
  assumes "key_ok key" "rest inp i = key @ t" "token_end t"
  shows "skip_ws inp i = i" "\<not> eof inp i" "p_key inp i = Inr (key, i + length key)"
    "rest inp (i + length key) = t" "eat inp i CHR ''!'' = None"
proof -
  show "skip_ws inp i = i" by (rule skip_ws_none) (simp add: assms key.no_ws_append)
  show "\<not> eof inp i" using assms key.valid_text [of key] by (simp add: eof_rest)
  show "p_key inp i = Inr (key, i + length key)" by (rule key.complete [OF assms])
  show "rest inp (i + length key) = t" by (rule rest_advance) (rule assms)
  obtain c u where "key = c # u" "is_tag_char c" using key.head [OF assms(1)] by blast
  then show "eat inp i CHR ''!'' = None" using assms(2) by (auto simp: eat_def)
qed


abbreviation reads :: "str \<Rightarrow> nat \<Rightarrow> requirement \<Rightarrow> str \<Rightarrow> bool" where
  "reads inp i r t \<equiv>
     (\<exists>j. p_requirement inp i = Inr (\<lparr>pr_start = i, pr_req = r\<rparr>, j) \<and> rest inp j = t)"

lemma p_requirement_value:
  assumes "key_ok key" "value_ok v" "req_end t"
  shows "rest inp i = key @ ''='' @ v @ t \<Longrightarrow> reads inp i (Eq key v) t"
    and "rest inp i = key @ ''!='' @ v @ t \<Longrightarrow> reads inp i (NotEq key v) t"
proof -
  assume r: "rest inp i = key @ ''='' @ v @ t"
  have k: "skip_ws inp i = i" "\<not> eof inp i" "p_key inp i = Inr (key, i + length key)"
    "rest inp (i + length key) = CHR ''='' # v @ t" "eat inp i CHR ''!'' = None"
    using p_key_step [OF assms(1) r] by (simp_all add: token_end_def)
  let ?j = "i + length key"
  have "skip_ws inp ?j = ?j" by (rule skip_ws_none) (simp add: k no_ws_def)
  moreover have "skip_ws inp (Suc ?j) = Suc ?j"
    by (rule skip_ws_none) (simp add: rest_Suc [OF k(4)] assms val.no_ws_append)
  moreover have "p_value inp (Suc ?j) = Inr (v, Suc ?j + length v)"
    by (rule val.complete [OF assms(2) rest_Suc [OF k(4)]]) (simp add: assms req_end_facts)
  moreover have "rest inp (Suc ?j + length v) = t" by (rule rest_advance) (rule rest_Suc [OF k(4)])
  ultimately show "reads inp i (Eq key v) t"
    using k by (simp add: p_requirement_def Let_def eof_rest eat_rest [OF k(4)] starts_with_def)
next
  assume r: "rest inp i = key @ ''!='' @ v @ t"
  have k: "skip_ws inp i = i" "\<not> eof inp i" "p_key inp i = Inr (key, i + length key)"
    "rest inp (i + length key) = CHR ''!'' # CHR ''='' # v @ t" "eat inp i CHR ''!'' = None"
    using p_key_step [OF assms(1) r] by (simp_all add: token_end_def)
  let ?j = "i + length key"
  have r2: "rest inp (Suc (Suc ?j)) = v @ t" using rest_Suc [OF rest_Suc [OF k(4)]] .
  have "skip_ws inp ?j = ?j" by (rule skip_ws_none) (simp add: k no_ws_def)
  moreover have "skip_ws inp (Suc (Suc ?j)) = Suc (Suc ?j)"
    by (rule skip_ws_none) (simp add: r2 assms val.no_ws_append)
  moreover have "p_value inp (Suc (Suc ?j)) = Inr (v, Suc (Suc ?j) + length v)"
    by (rule val.complete [OF assms(2) r2]) (simp add: assms req_end_facts)
  moreover have "rest inp (Suc (Suc ?j) + length v) = t" by (rule rest_advance) (rule r2)
  ultimately show "reads inp i (NotEq key v) t"
    using k by (simp add: p_requirement_def Let_def eof_rest starts_with_def)
qed

lemma p_requirement_key:
  assumes "key_ok key" "req_end t"
  shows "rest inp i = key @ t \<Longrightarrow> reads inp i (Exists key) t"
    and "rest inp i = ''!'' @ key @ t \<Longrightarrow> reads inp i (NotExists key) t"
proof -
  assume r: "rest inp i = key @ t"
  note k = p_key_step [OF assms(1) r req_end_facts(1) [OF assms(2)]]
  let ?j = "i + length key"
  have "skip_ws inp ?j = ?j" by (rule skip_ws_none) (simp add: k assms req_end_facts)
  moreover have "eof inp ?j \<or> starts_with (rest inp ?j) '',''"
    using assms(2) by (cases t) (auto simp: k eof_rest starts_with_def req_end_def)
  ultimately show "reads inp i (Exists key) t"
    using k by (simp add: p_requirement_def Let_def)
next
  assume r: "rest inp i = ''!'' @ key @ t"
  then have r1: "rest inp i = CHR ''!'' # key @ t" by simp
  note k = p_key_step [OF assms(1) rest_Suc [OF r1] req_end_facts(1) [OF assms(2)]]
  have "skip_ws inp i = i" by (rule skip_ws_none) (simp add: r1 no_ws_def)
  with k r1 show "reads inp i (NotExists key) t"
    by (simp add: p_requirement_def Let_def eof_rest eat_rest [OF r1])
qed

lemma p_requirement_set:
  assumes "key_ok key" "vs \<noteq> []" "list_all value_ok vs" "length vs \<le> MAX_SET_VALUES"
  shows "rest inp i = key @ '' in ('' @ join '','' vs @ '')'' @ t \<Longrightarrow> reads inp i (In key vs) t"
    and "rest inp i = key @ '' notin ('' @ join '','' vs @ '')'' @ t \<Longrightarrow> reads inp i (NotIn key vs) t"
proof -
  let ?s = "'' ('' @ join '','' vs @ CHR '')'' # t" and ?j = "i + length key"
  {
    fix w assume r: "rest inp i = key @ CHR '' '' # w @ ?s" and w: "w = ''in'' \<or> w = ''notin''"
    have k: "skip_ws inp i = i" "\<not> eof inp i" "p_key inp i = Inr (key, i + length key)"
      "rest inp ?j = CHR '' '' # w @ ?s" "eat inp i CHR ''!'' = None"
      using p_key_step [OF assms(1) r] by (simp_all add: token_end_def)
    have r2: "rest inp (Suc ?j) = w @ ?s" by (rule rest_Suc [OF k(4)])
    have "skip_ws inp ?j = Suc ?j" by (rule skip_ws_space [OF k(4)]) (use w in \<open>auto simp: no_ws_def\<close>)
    moreover have "rest inp (Suc ?j + length w) = ?s" by (rule rest_advance [OF r2])
    then obtain m where "value_set inp (Suc ?j + length w) = Inr (vs, m)" "rest inp m = t"
      using value_set_complete [OF assms(2-4)] by blast
    ultimately have "reads inp i (if w = ''in'' then In key vs else NotIn key vs) t"
      using k r2 w by (auto simp: p_requirement_def Let_def eof_rest starts_with_def eat_def
          eat_word_def is_ascii_lowercase_def is_ascii_digit_def)
  } note main = this
  show "reads inp i (In key vs) t" if "rest inp i = key @ '' in ('' @ join '','' vs @ '')'' @ t"
    using main [of "''in''"] that by simp
  show "reads inp i (NotIn key vs) t" if "rest inp i = key @ '' notin ('' @ join '','' vs @ '')'' @ t"
    using main [of "''notin''"] that by simp
qed

lemma p_requirement_canonical:
  assumes "req_ok r" "rest inp i = req_canonical r @ t" "req_end t"
  shows "reads inp i r t"
  using assms by (cases r) (auto intro!: p_requirement_value p_requirement_key p_requirement_set)


lemma canonical_no_ws: "req_ok r \<Longrightarrow> no_ws (req_canonical r @ t)"
  by (cases r) (auto simp: key.no_ws_append, simp add: no_ws_def)

lemma canonical_join_no_ws:
  "rs \<noteq> [] \<Longrightarrow> list_all req_ok rs \<Longrightarrow> no_ws (join '','' (map req_canonical rs))"
proof (induction rs rule: induct_list012)
  case (2 r)
  then show ?case using canonical_no_ws [of r "[]"] by simp
qed (simp_all add: canonical_no_ws)

lemma parse_loop_complete:
  "rs \<noteq> [] \<Longrightarrow> list_all req_ok rs \<Longrightarrow> length acc + length rs \<le> MAX_REQUIREMENTS \<Longrightarrow>
   rest inp i = join '','' (map req_canonical rs) \<Longrightarrow>
     \<exists>ps. parse_loop inp i acc = Inr (acc @ ps) \<and> map pr_req ps = rs"
proof (induction rs arbitrary: i acc rule: induct_list012)
  case (2 r)
  then obtain j where j: "p_requirement inp i = Inr (\<lparr>pr_start = i, pr_req = r\<rparr>, j)" "rest inp j = []"
    using p_requirement_canonical [of r inp i "[]"] by (auto simp: req_end_def)
  have "skip_ws inp j = j" by (rule skip_ws_none) (simp add: j no_ws_def)
  with 2 j show ?case by (simp add: parse_loop.simps [of inp i acc] Let_def eof_rest)
next
  case (3 r r' rs)
  let ?t = "join '','' (map req_canonical (r' # rs))" and ?p = "\<lparr>pr_start = i, pr_req = r\<rparr>"
  from 3 obtain j where j: "p_requirement inp i = Inr (?p, j)" "rest inp j = CHR '','' # ?t"
    using p_requirement_canonical [of r inp i "CHR '','' # ?t"] by (auto simp: req_end_def)
  have t: "no_ws ?t" "?t \<noteq> []" using "3.prems"(2) canonical_join_no_ws [of "r' # rs"] by (simp_all)
    (cases rs; cases r'; auto simp: key_ok_iff)+
  have "skip_ws inp j = j" by (rule skip_ws_none) (simp add: j no_ws_def)
  moreover have "skip_ws inp (Suc j) = Suc j"
    by (rule skip_ws_none) (simp only: rest_Suc [OF j(2)] t)
  moreover have "\<exists>ps. parse_loop inp (Suc j) (acc @ [?p]) = Inr ((acc @ [?p]) @ ps) \<and> map pr_req ps = r' # rs"
    using "3.prems" by (intro "3.IH"(2)) (auto simp: rest_Suc [OF j(2)])
  then obtain ps where "parse_loop inp (Suc j) (acc @ [?p]) = Inr (acc @ ?p # ps)" "map pr_req ps = r' # rs"
    by auto
  ultimately show ?case using 3 j t
    by (intro exI [of _ "?p # ps"])
      (simp add: parse_loop.simps [of inp i acc] Let_def eof_rest eat_rest [OF j(2)] rest_Suc [OF j(2)])
qed simp

lemma eq_pairs_keys: "map fst (eq_pairs ps) = eq_keys (map pr_req ps)"
  by (induction ps) (auto simp: eq_pairs_def eq_keys_def map_filter_simps split: requirement.split)

lemma drop_repeated_eq_distinct:
  "distinct (eq_keys (map pr_req ps)) \<Longrightarrow> set (eq_keys (map pr_req ps)) \<inter> seen = {} \<Longrightarrow>
     drop_repeated_eq seen ps = map pr_req ps"
proof (induction ps arbitrary: seen)
  case (Cons p ps)
  then show ?case by (cases "pr_req p") (simp_all add: eq_keys_def map_filter_simps)
qed simp

lemma filter_key_short: "distinct (map fst es) \<Longrightarrow> length (filter (\<lambda>e. fst e = key) es) \<le> 1"
proof (induction es)
  case (Cons e es)
  show ?case
  proof (cases "fst e = key")
    case True
    with Cons.prems have "filter (\<lambda>e. fst e = key) es = []" by (auto simp: filter_empty_conv) (metis fst_conv image_eqI)
    with True show ?thesis by simp
  qed (use Cons in simp)
qed simp

lemma reject_accepts:
  assumes "distinct (eq_keys (map pr_req ps))"
  shows "reject_conflicting_equality ps = Ok (map pr_req ps)"
proof -
  have "length (sort_dedup (eq_values ps key)) \<le> 1" for key
    using length_sort_dedup [of "eq_values ps key"] filter_key_short [of "eq_pairs ps" key] assms
    by (simp add: eq_values_def eq_pairs_keys)
  then have "find (\<lambda>key. length (sort_dedup (eq_values ps key)) > 1) ks = None" for ks
    by (simp add: find_None_iff linorder_not_less)
  then show ?thesis using assms drop_repeated_eq_distinct [of ps "{}"]
    by (simp add: reject_conflicting_equality_def)
qed


lemma req_ok_normal: "req_ok r \<Longrightarrow> req_ok (normal_req r)"
proof (cases r)
  case (In key vs)
  then show "req_ok r \<Longrightarrow> ?thesis" using length_sort_dedup [of vs] by (simp add: list_all_iff)
next
  case (NotIn key vs)
  then show "req_ok r \<Longrightarrow> ?thesis" using length_sort_dedup [of vs] by (simp add: list_all_iff)
qed auto

lemma normal_req_idem [simp]: "normal_req (normal_req r) = normal_req r"
  by (cases r) simp_all

lemma req_matches_normal [simp]: "req_matches tags (normal_req r) = req_matches tags r"
  by (cases r) (simp_all split: option.split)

definition normal_form :: "requirement list \<Rightarrow> requirement list" where
  "normal_form rs = sort_key req_sort_key (map normal_req rs)"

lemma mset_eq_keys: "mset xs = mset ys \<Longrightarrow> mset (eq_keys xs) = mset (eq_keys ys)"
proof -
  have "mset (eq_keys zs) = image_mset (\<lambda>r. case r of Eq key v \<Rightarrow> key | _ \<Rightarrow> [])
      (filter_mset (\<lambda>r. \<exists>key v. r = Eq key v) (mset zs))" for zs
  proof (induction zs)
    case (Cons z zs)
    then show ?case by (cases z) (simp_all add: eq_keys_def map_filter_simps)
  qed (simp add: eq_keys_def map_filter_simps)
  then show "mset xs = mset ys \<Longrightarrow> ?thesis" by simp
qed

lemma eq_keys_normal: "eq_keys (map normal_req rs) = eq_keys rs"
proof (induction rs)
  case (Cons r rs)
  then show ?case by (cases r) (simp_all add: eq_keys_def map_filter_simps)
qed simp

lemma well_formed_normal: "well_formed rs \<Longrightarrow> well_formed (normal_form rs)"
proof -
  assume wf: "well_formed rs"
  have "mset (eq_keys (normal_form rs)) = mset (eq_keys rs)"
    using mset_eq_keys [of "normal_form rs" "map normal_req rs"]
    by (simp add: normal_form_def eq_keys_normal)
  then have "distinct (eq_keys (normal_form rs)) = distinct (eq_keys rs)"
    by (rule mset_eq_imp_distinct_iff)
  moreover have "rs \<noteq> [] \<Longrightarrow> normal_form rs \<noteq> []"
    by (metis normal_form_def length_0_conv length_map length_sort)
  ultimately show ?thesis using wf
    by (auto simp: well_formed_def normal_form_def list_all_iff req_ok_normal)
qed

lemma canonical_normal: "canonical_of rs = join '','' (map req_canonical (normal_form rs))"
  by (simp add: canonical_of_def normal_form_def)

lemma normal_form_idem: "normal_form (normal_form rs) = normal_form rs"
proof -
  have "map normal_req (normal_form rs) = normal_form rs"
    by (rule map_idI) (auto simp: normal_form_def)
  then show ?thesis
    unfolding normal_form_def [of "normal_form rs"] by (simp add: normal_form_def sort_key_id_if_sorted)
qed

lemma matches_normal: "list_all (req_matches tags) (normal_form rs) = list_all (req_matches tags) rs"
  by (simp add: normal_form_def list_all_iff)

subsection \<open>The whole text\<close>

lemma trim_by_set: "set (trim_by encs s) \<subseteq> set s"
  by (induction encs s rule: trim_by.induct)
    (subst trim_by.simps, auto dest: in_set_dropD)

lemma trim_set: "set (trim s) \<subseteq> set s"
  using trim_by_set [of ws_encodings s] trim_by_set [of "map rev ws_encodings" "rev (trim_start s)"]
  by (auto simp: trim_def trim_end_def trim_start_def)

lemma key_graph: "key_ok key \<Longrightarrow> \<exists>c u. key = c # u \<and> is_graph c"
  using key.head [of key] tag_char_graph by blast

lemma canonical_graph: "req_ok r \<Longrightarrow> \<exists>c u. req_canonical r = c # u \<and> is_graph c"
  by (cases r) (auto dest!: key_graph, simp add: is_graph_def)

lemma star_not_token:
  "key_ok k \<Longrightarrow> CHR ''*'' \<notin> set k" "value_ok v \<Longrightarrow> CHR ''*'' \<notin> set v"
  by (simp_all add: key.no_special val.no_special)

lemma star_not_values: "list_all value_ok vs \<Longrightarrow> CHR ''*'' \<notin> set (join '','' vs)"
proof
  assume vs: "list_all value_ok vs" and "CHR ''*'' \<in> set (join '','' vs)"
  then have "CHR ''*'' \<in> set '','' \<union> (\<Union>v \<in> set vs. set v)" using set_join by blast
  then obtain v where "v \<in> set vs" "CHR ''*'' \<in> set v" by auto
  then show False using vs star_not_token(2) by (simp add: list_all_iff)
qed

lemma star_not_canonical: "req_ok r \<Longrightarrow> CHR ''*'' \<notin> set (req_canonical r)"
  by (cases r) (simp_all add: star_not_token star_not_values)

lemma parse_canonical:
  assumes "well_formed rs" "char_len (canonical_of rs) \<le> MAX_SELECTOR_CHARS"
  shows "parse_selector (canonical_of rs)
    = Ok (Filter \<lparr>requirements = normal_form rs, canonical = canonical_of rs\<rparr>)"
proof -
  let ?n = "normal_form rs" and ?c = "canonical_of rs"
  have c: "?c = join '','' (map req_canonical ?n)" by (rule canonical_normal)
  have wf: "?n \<noteq> []" "length ?n \<le> MAX_REQUIREMENTS" "list_all req_ok ?n" "distinct (eq_keys ?n)"
    using well_formed_normal [OF assms(1)] by (simp_all add: well_formed_def)
  have "CHR ''*'' \<notin> set ?c" using set_join [of "'',''" "map req_canonical ?n"] wf(3) star_not_canonical
    unfolding c by (auto simp: list_all_iff)
  then have "trim ?c \<noteq> ''*''" using trim_set [of ?c] by auto
  moreover have "trim ?c \<noteq> []"
  proof -
    obtain r rs' where n: "?n = r # rs'" using wf(1) by (cases ?n) auto
    then obtain a u where au: "req_canonical r = a # u" "is_graph a"
      using wf(3) canonical_graph [of r] by auto
    then obtain u' where "?c = a # u'" using n by (cases rs') (auto simp: c)
    then have "trim_start ?c = ?c" "?c \<noteq> []" using au by (auto intro: trim_start_graph)
    have "split_whitespace ?c \<noteq> []" if "?c = a # u'" for u'
      using au that split_ws_from_Cons_nonempty by (simp add: split_whitespace_def graph_not_ws)
    then show ?thesis using trim_Nil_no_words \<open>?c = a # u'\<close> by blast
  qed
  moreover have "trim_start_index ?c = 0"
    using canonical_join_no_ws [OF wf(1,3)] unfolding c
    by (cases "join '','' (map req_canonical ?n)") (auto simp: trim_start_index_def no_ws_def)
  moreover obtain ps where "parse_loop ?c 0 [] = Inr ps" "map pr_req ps = ?n"
    using parse_loop_complete [of ?n "[]" ?c 0] wf by (auto simp: c rest_def)
  moreover have "canonical_of ?n = ?c" by (simp add: canonical_normal normal_form_idem)
  ultimately show ?thesis
    using assms(2) wf(4) reject_accepts [of ps] by (simp add: parse_selector_def)
qed




end
