(* ===== verification/Path_Glob.thy ===== *)
theory Path_Glob
  imports Rust_Str
begin

text \<open>
  \<open>crates/novbot-skill-runtime/src/path.rs\<close>: the syntax of path globs, lexical normalization, the
  canonical form of a path with the final symbolic link kept, and the matching of a canonical
  path against a glob. What the operating system answers about the file system is a parameter,
  the record \<open>fs_view\<close>. A \<open>Path\<close> is its text; the program only builds absolute paths.
\<close>

subsection \<open>The file system and paths as text\<close>

text \<open>
  \<open>fs::canonicalize\<close>, \<open>symlink_metadata(..).map(is_symlink).unwrap_or(false)\<close> and
  \<open>fs::read_link\<close>, each as a function of the path at the time of the call.
\<close>

record fs_view =
  fs_canonicalize :: "str \<Rightarrow> str option"
  fs_is_symlink :: "str \<Rightarrow> bool"
  fs_read_link :: "str \<Rightarrow> str option"

text \<open>
  The operations of \<open>std::path\<close> on an absolute path: its components, \<open>parent\<close>, \<open>file_name\<close>,
  \<open>push\<close> (which \<open>join\<close> uses) and \<open>is_absolute\<close>.
\<close>

definition path_comps :: "str \<Rightarrow> str list" where
  "path_comps p = filter (\<lambda>c. c \<noteq> [] \<and> c \<noteq> ''.'') (split_char CHR ''/'' p)"

definition of_comps :: "str list \<Rightarrow> str" where
  "of_comps cs = ''/'' @ join ''/'' cs"

definition path_parent :: "str \<Rightarrow> str option" where
  "path_parent p = (if path_comps p = [] then None else Some (of_comps (butlast (path_comps p))))"

definition path_file_name :: "str \<Rightarrow> str option" where
  "path_file_name p =
     (if path_comps p = [] \<or> last (path_comps p) = ''..'' then None else Some (last (path_comps p)))"

definition is_absolute :: "str \<Rightarrow> bool" where
  "is_absolute p = starts_with p ''/''"

definition path_push :: "str \<Rightarrow> str \<Rightarrow> str" where
  "path_push base part =
     (if is_absolute part then part
      else if base = [] \<or> ends_with base ''/'' then base @ part else base @ ''/'' @ part)"

subsection \<open>Syntax\<close>

record resolved =
  r_own :: str
  r_scope :: str
  r_final_symlink :: bool
  r_broken_symlink :: bool

definition reject_syntax :: "str \<Rightarrow> bool" where
  "reject_syntax raw =
     (raw = [] \<or> \<not> starts_with raw ''/'' \<or> contains_char raw CHR 0x00
      \<or> contains_char raw CHR ''~'' \<or> contains_char raw CHR 0x5C)"

definition valid_glob_segment :: "str \<Rightarrow> bool" where
  "valid_glob_segment segment =
     (if segment = [] \<or> segment = ''.'' \<or> segment = ''..'' then False
      else if contains_str segment ''**'' \<and> segment \<noteq> ''**'' then False else True)"

definition valid_path_glob :: "str \<Rightarrow> bool" where
  "valid_path_glob scope =
     (if reject_syntax scope then False
      else if contains_char scope CHR ''{'' \<or> contains_char scope CHR ''}''
        \<or> contains_char scope CHR ''['' \<or> contains_char scope CHR '']''
        \<or> contains_char scope CHR ''$'' \<or> contains_str scope ''//'' then False
      else (let trimmed = trim_end_matches scope CHR ''/'';
                body = (if trimmed = [] then ''/'' else trimmed)
            in if body = ''/'' then True
               else list_all valid_glob_segment (tl (split_char CHR ''/'' body))))"

definition trim_trailing_slash :: "str \<Rightarrow> str" where
  "trim_trailing_slash path = (if length path > 1 then trim_end_matches path CHR ''/'' else path)"

definition display_path :: "str \<Rightarrow> str" where
  "display_path path = trim_trailing_slash path"

subsection \<open>Normalization\<close>

text \<open>\<open>parts\<close> is the stack of the loop of \<open>lexical_normalize\<close>, its bottom first; \<open>None\<close> is \<open>Err(())\<close>.\<close>

fun normalize_parts :: "str list \<Rightarrow> str list \<Rightarrow> str list option" where
  "normalize_parts parts [] = Some parts"
| "normalize_parts parts (part # ps) =
     (if part = [] \<or> part = ''.'' then normalize_parts parts ps
      else if part = ''..'' then normalize_parts (butlast parts) ps
      else if contains_char part CHR 0x00 \<or> contains_char part CHR ''~'' \<or> contains_char part CHR 0x5C
      then None
      else normalize_parts (parts @ [part]) ps)"

definition lexical_normalize :: "str \<Rightarrow> str option" where
  "lexical_normalize raw =
     (if \<not> starts_with raw ''/'' then None
      else (case normalize_parts [] (tl (split_char CHR ''/'' raw)) of
          None \<Rightarrow> None
        | Some parts \<Rightarrow> if parts = [] then Some ''/'' else Some (''/'' @ join ''/'' parts)))"

text \<open>
  The loop of \<open>canonicalize_existing_prefix\<close>: \<open>taken\<close> (the code's \<open>suffix\<close>) has the names already taken off, the last
  one taken at the end, as the code pushes them.
\<close>

lemma path_comps_join:
  assumes "\<forall>c \<in> set cs. c \<noteq> [] \<and> c \<noteq> ''.'' \<and> CHR ''/'' \<notin> set c"
  shows "path_comps (of_comps cs) = cs"
proof (cases "cs = []")
  case True
  then show ?thesis by (simp add: path_comps_def of_comps_def)
next
  case False
  have "path_comps (of_comps cs) = filter (\<lambda>c. c \<noteq> [] \<and> c \<noteq> ''.'') cs"
    using False assms by (simp add: path_comps_def of_comps_def split_char_join)
  then show ?thesis using assms by (simp add: filter_id_conv)
qed

lemma path_comps_parts:
  "c \<in> set (path_comps p) \<Longrightarrow> c \<noteq> [] \<and> c \<noteq> ''.'' \<and> CHR ''/'' \<notin> set c"
  by (auto simp: path_comps_def dest: split_char_no_sep)

lemma path_comps_parent:
  "path_parent p = Some q \<Longrightarrow> path_comps q = butlast (path_comps p)"
  using path_comps_join [of "butlast (path_comps p)"] path_comps_parts [of _ p]
  by (auto simp: path_parent_def dest: in_set_butlastD split: if_splits)

definition push_suffix :: "str \<Rightarrow> str list \<Rightarrow> str" where
  "push_suffix out taken = foldl path_push out (rev taken)"

function existing_prefix :: "fs_view \<Rightarrow> str \<Rightarrow> str list \<Rightarrow> str \<Rightarrow> str" where
  "existing_prefix fs path taken current =
     (case fs_canonicalize fs current of
        Some real \<Rightarrow> push_suffix real taken
      | None \<Rightarrow>
          (case path_parent current of
             None \<Rightarrow> push_suffix ''/'' taken
           | Some up \<Rightarrow>
               if current = ''/'' then push_suffix ''/'' taken
               else (case path_file_name current of
                   None \<Rightarrow> path
                 | Some name \<Rightarrow> existing_prefix fs path (taken @ [name]) up)))"
  by pat_completeness auto
termination
proof (relation "measure (\<lambda>(fs, path, taken, current). length (path_comps current))", goal_cases)
  case (2 fs path taken current up name)
  then show ?case using path_comps_parent [of current up]
    by (auto simp: path_parent_def split: if_splits)
qed simp

declare existing_prefix.simps [simp del]

definition canonicalize_existing_prefix :: "fs_view \<Rightarrow> str \<Rightarrow> str" where
  "canonicalize_existing_prefix fs path = existing_prefix fs path [] path"

definition canonical_own :: "fs_view \<Rightarrow> str \<Rightarrow> str" where
  "canonical_own fs lexical =
     (if lexical = ''/'' then ''/''
      else (let parent = (case path_parent lexical of Some p \<Rightarrow> p | None \<Rightarrow> ''/'');
                parent_real = canonicalize_existing_prefix fs parent
            in case path_file_name lexical of
                 Some name \<Rightarrow> path_push parent_real name
               | None \<Rightarrow> parent_real))"

definition follow_target :: "fs_view \<Rightarrow> str \<Rightarrow> str option" where
  "follow_target fs path =
     (case fs_canonicalize fs path of
        Some real \<Rightarrow> Some real
      | None \<Rightarrow>
          if reject_syntax path \<and> \<not> starts_with path ''/'' then None
          else (case lexical_normalize path of
              None \<Rightarrow> None
            | Some lexical \<Rightarrow>
                (let own = canonical_own fs lexical
                 in if fs_is_symlink fs own then None else Some own)))"

definition resolve :: "fs_view \<Rightarrow> str \<Rightarrow> resolved option" where
  "resolve fs raw =
     (if reject_syntax raw then None
      else (case lexical_normalize raw of
          None \<Rightarrow> None
        | Some lexical \<Rightarrow>
            (let own = canonical_own fs lexical;
                 plain = \<lparr>r_own = own, r_scope = own, r_final_symlink = True, r_broken_symlink = True\<rparr>
             in if \<not> fs_is_symlink fs own
                then Some \<lparr>r_own = own, r_scope = own, r_final_symlink = False, r_broken_symlink = False\<rparr>
                else (case fs_read_link fs own of
                    None \<Rightarrow> Some plain
                  | Some target \<Rightarrow>
                      (let parent = (case path_parent own of Some p \<Rightarrow> p | None \<Rightarrow> ''/'');
                           absolute = (if is_absolute target then target else path_push parent target)
                       in case follow_target fs absolute of
                            Some scope \<Rightarrow> Some \<lparr>r_own = own, r_scope = scope,
                              r_final_symlink = True, r_broken_symlink = False\<rparr>
                          | None \<Rightarrow> Some plain)))))"

subsection \<open>Matching\<close>

definition segments :: "str \<Rightarrow> str list" where
  "segments path =
     (let trimmed = trim_trailing_slash path
      in if trimmed = [] \<or> trimmed = ''/'' then []
         else filter (\<lambda>s. s \<noteq> []) (split_char CHR ''/'' trimmed))"

function segment_match :: "str \<Rightarrow> str \<Rightarrow> bool" where
  "segment_match [] s = (s = [])"
| "segment_match (p # ps) s =
     (if p = CHR ''*'' then segment_match ps s \<or> (if s = [] then False else segment_match (p # ps) (tl s))
      else if s = [] then False
      else if p = CHR ''?'' \<or> p = hd s then segment_match ps (tl s)
      else False)"
  by pat_completeness auto
termination
  by (relation "measure (\<lambda>(p, s). length p + length s)") auto

fun segments_match :: "str list \<Rightarrow> str list \<Rightarrow> bool" where
  "segments_match [] path = (path = [])"
| "segments_match (p # ps) path =
     (if p = ''**'' then
        (if ps = [] then True
         else list_ex (\<lambda>i. segments_match ps (drop i path)) [0..<Suc (length path)])
      else if path = [] \<or> \<not> segment_match p (hd path) then False
      else segments_match ps (tl path))"

definition segment_glob :: "str \<Rightarrow> str \<Rightarrow> bool" where
  "segment_glob pattern path = segments_match (segments pattern) (segments path)"

definition has_meta :: "str \<Rightarrow> bool" where
  "has_meta pattern = list_ex (\<lambda>c. c = CHR ''*'' \<or> c = CHR ''?'') pattern"

definition canonical_literal :: "fs_view \<Rightarrow> str \<Rightarrow> str option" where
  "canonical_literal fs pattern =
     (case resolve fs pattern of None \<Rightarrow> None | Some r \<Rightarrow> Some (display_path (r_own r)))"

definition canonical_pattern :: "fs_view \<Rightarrow> str \<Rightarrow> str" where
  "canonical_pattern fs pattern =
     (let segs = segments pattern;
          glob_at = length (takeWhile (\<lambda>s. \<not> (contains_char s CHR ''*'' \<or> contains_char s CHR ''?'')) segs);
          pre = (if glob_at = 0 then ''/'' else ''/'' @ join ''/'' (take glob_at segs));
          prefix_real = (case canonical_literal fs pre of Some real \<Rightarrow> real | None \<Rightarrow> pre);
          out = trim_trailing_slash prefix_real;
          start = (if out = [] then ''/'' else out)
      in foldl (\<lambda>out seg. if out = ''/'' then ''/'' @ seg else out @ ''/'' @ seg) start (drop glob_at segs))"

definition glob_matches :: "fs_view \<Rightarrow> str \<Rightarrow> str \<Rightarrow> bool" where
  "glob_matches fs pattern candidate0 =
     (let candidate = display_path candidate0
      in if \<not> has_meta pattern then canonical_literal fs pattern = Some candidate
         else segment_glob (canonical_pattern fs pattern) candidate)"


subsection \<open>Normal paths\<close>

text \<open>
  An absolute path without empty, \<open>.\<close> or \<open>..\<close> components and without a trailing slash: what
  \<open>fs::canonicalize\<close> documents it returns.
\<close>

definition plain_comp :: "str \<Rightarrow> bool" where
  "plain_comp c = (c \<noteq> [] \<and> c \<noteq> ''.'' \<and> c \<noteq> ''..'' \<and> CHR ''/'' \<notin> set c)"

definition normal_path :: "str \<Rightarrow> bool" where
  "normal_path p = (p = of_comps (path_comps p) \<and> list_all plain_comp (path_comps p))"

definition realpath_ok :: "fs_view \<Rightarrow> bool" where
  "realpath_ok fs = (\<forall>p q. fs_canonicalize fs p = Some q \<longrightarrow> normal_path q)"

lemma path_comps_of_comps [simp]: "list_all plain_comp cs \<Longrightarrow> path_comps (of_comps cs) = cs"
  by (rule path_comps_join) (auto simp: list_all_iff plain_comp_def)

lemma normal_path_iff: "normal_path p \<longleftrightarrow> (\<exists>cs. list_all plain_comp cs \<and> p = of_comps cs)"
  by (metis normal_path_def path_comps_of_comps)

lemma normal_of_comps: "list_all plain_comp cs \<Longrightarrow> normal_path (of_comps cs)"
  using normal_path_iff by blast

lemma of_comps_Nil [simp]: "of_comps [] = ''/''"
  by (simp add: of_comps_def)

lemma of_comps_eq_root: "list_all plain_comp cs \<Longrightarrow> of_comps cs = ''/'' \<longleftrightarrow> cs = []"
  by (metis of_comps_Nil path_comps_of_comps list.pred_inject(1))

lemma join_snoc: "xs \<noteq> [] \<Longrightarrow> join sep (xs @ [x]) = join sep xs @ sep @ x"
  by (induction sep xs rule: join.induct) auto

lemma last_join: "xs \<noteq> [] \<Longrightarrow> last xs \<noteq> [] \<Longrightarrow> last (join sep xs) = last (last xs)"
  by (cases xs rule: rev_cases) (auto, metis append.assoc append_Nil join.simps(2) join_snoc last_appendR)

lemma plain_last: "plain_comp c \<Longrightarrow> last c \<noteq> CHR ''/''"
  by (auto simp: plain_comp_def) (metis last_in_set)

lemma normal_not_slash_end:
  assumes "list_all plain_comp cs" "cs \<noteq> []"
  shows "\<not> ends_with (of_comps cs) ''/''"
proof -
  have l: "plain_comp (last cs)" using assms by (simp add: list_all_iff)
  then have ne: "last cs \<noteq> []" by (simp add: plain_comp_def)
  then have "join ''/'' cs \<noteq> []" using assms(2) by (cases cs rule: rev_cases) (auto, metis join.simps(2) append_Nil append_is_Nil_conv join_snoc)
  then have "last (of_comps cs) = last (last cs)" using last_join [OF assms(2) ne, of "''/''"]
    by (simp add: of_comps_def)
  then have "last (of_comps cs) \<noteq> CHR ''/''" using plain_last [OF l] by simp
  then show ?thesis by (auto simp: ends_with_def suffix_def)
qed

lemma path_push_plain:
  assumes "list_all plain_comp cs" "plain_comp c"
  shows "path_push (of_comps cs) c = of_comps (cs @ [c])"
proof -
  have "\<not> is_absolute c" using assms(2) by (cases c) (auto simp: is_absolute_def starts_with_def plain_comp_def)
  then show ?thesis
    using normal_not_slash_end [OF assms(1)]
    by (cases "cs = []") (auto simp: path_push_def ends_with_def of_comps_def join_snoc)
qed

lemma push_suffix_normal:
  "normal_path p \<Longrightarrow> list_all plain_comp cs \<Longrightarrow> normal_path (foldl path_push p cs)"
proof (induction cs arbitrary: p)
  case (Cons c cs)
  then obtain ds where "list_all plain_comp ds" "p = of_comps ds" by (auto simp: normal_path_iff)
  with Cons show ?case by (simp add: path_push_plain normal_of_comps)
qed simp

lemma parent_normal:
  assumes "normal_path p" "path_parent p = Some q"
  shows "normal_path q"
proof -
  have "list_all plain_comp (butlast (path_comps p))"
    using assms(1) by (auto simp: normal_path_def list_all_iff dest: in_set_butlastD)
  then show ?thesis using assms(2) normal_of_comps by (auto simp: path_parent_def split: if_splits)
qed

lemma file_name_plain: "normal_path p \<Longrightarrow> path_file_name p = Some n \<Longrightarrow> plain_comp n"
  by (auto simp: path_file_name_def normal_path_def list_all_iff split: if_splits)

lemma root_normal: "normal_path ''/''"
  using normal_of_comps [of "[]"] by simp

lemma existing_prefix_normal:
  "realpath_ok fs \<Longrightarrow> normal_path path \<Longrightarrow> normal_path current \<Longrightarrow> list_all plain_comp taken \<Longrightarrow>
    normal_path (existing_prefix fs path taken current)"
proof (induction fs path taken current rule: existing_prefix.induct)
  case (1 fs path taken current)
  have suf: "normal_path p \<Longrightarrow> normal_path (push_suffix p taken)" for p
    using "1.prems"(4) unfolding push_suffix_def by (intro push_suffix_normal) (auto simp: list_all_iff)
  show ?case
  proof (cases "fs_canonicalize fs current")
    case (Some real)
    then show ?thesis using "1.prems"(1) suf by (simp add: existing_prefix.simps realpath_ok_def)
  next
    case None
    show ?thesis
    proof (cases "path_parent current")
      case None
      with \<open>fs_canonicalize fs current = None\<close> show ?thesis
        by (simp add: existing_prefix.simps suf root_normal)
    next
      case (Some up)
      show ?thesis
      proof (cases "path_file_name current")
        case None
        then show ?thesis using Some \<open>fs_canonicalize fs current = None\<close> "1.prems"(2)
          by (simp add: existing_prefix.simps suf root_normal)
      next
        case (Some name)
        have "normal_path (existing_prefix fs path (taken @ [name]) up)" if "current \<noteq> ''/''"
          using "1.prems" \<open>path_parent current = Some up\<close> Some that \<open>fs_canonicalize fs current = None\<close>
          by (intro "1.IH") (auto intro: parent_normal file_name_plain)
        then show ?thesis using Some \<open>path_parent current = Some up\<close> \<open>fs_canonicalize fs current = None\<close>
          by (simp add: existing_prefix.simps [of fs path taken current] suf root_normal)
      qed
    qed
  qed
qed

lemma canonical_own_normal:
  assumes "realpath_ok fs" "normal_path p"
  shows "normal_path (canonical_own fs p)"
proof (cases "p = ''/''")
  case False
  let ?parent = "case path_parent p of Some q \<Rightarrow> q | None \<Rightarrow> ''/''"
  have "normal_path ?parent"
    using assms(2) by (auto simp: root_normal intro: parent_normal split: option.split)
  then have "normal_path (canonicalize_existing_prefix fs ?parent)"
    unfolding canonicalize_existing_prefix_def by (intro existing_prefix_normal assms) simp_all
  then show ?thesis using False assms push_suffix_normal [of _ "[name]" for name] file_name_plain
    by (auto simp: canonical_own_def Let_def split: option.split)
qed (simp add: canonical_own_def root_normal)

subsection \<open>Lexical normalization\<close>

lemma normalize_parts_plain:
  "normalize_parts parts ps = Some qs \<Longrightarrow> list_all plain_comp parts \<Longrightarrow>
    \<forall>p \<in> set ps. CHR ''/'' \<notin> set p \<Longrightarrow> list_all plain_comp qs"
proof (induction parts ps rule: normalize_parts.induct)
  case (2 parts part ps)
  have "list_all plain_comp (butlast parts)"
    using "2.prems"(2) by (auto simp: list_all_iff dest: in_set_butlastD)
  moreover have "part \<notin> {[], ''.'', ''..''} \<Longrightarrow> plain_comp part"
    using "2.prems"(3) by (simp add: plain_comp_def)
  ultimately show ?case using 2 by (auto split: if_splits)
qed simp

lemma normalize_parts_id:
  "list_all plain_comp ps \<Longrightarrow> \<forall>p \<in> set ps. CHR 0x00 \<notin> set p \<and> CHR ''~'' \<notin> set p \<and> CHR 0x5C \<notin> set p
    \<Longrightarrow> normalize_parts parts ps = Some (parts @ ps)"
  by (induction ps arbitrary: parts) (simp_all add: plain_comp_def)

lemma lexical_normalize_normal:
  assumes "lexical_normalize raw = Some p"
  shows "normal_path p"
proof -
  have "\<forall>q \<in> set (tl (split_char CHR ''/'' raw)). CHR ''/'' \<notin> set q"
    by (meson list.set_sel(2) split_char_no_sep split_char_nonempty)
  moreover from assms obtain parts where parts: "normalize_parts [] (tl (split_char CHR ''/'' raw)) = Some parts"
      "p = of_comps parts"
    by (auto simp: lexical_normalize_def of_comps_def split: if_splits option.splits)
  ultimately have "list_all plain_comp parts" using normalize_parts_plain [of "[]"] by simp
  then show ?thesis using parts(2) normal_of_comps by simp
qed


lemma normalize_parts_clean:
  "normalize_parts parts ps = Some qs \<Longrightarrow>
    list_all (\<lambda>p. CHR 0x00 \<notin> set p \<and> CHR ''~'' \<notin> set p \<and> CHR 0x5C \<notin> set p) parts \<Longrightarrow>
    list_all (\<lambda>p. CHR 0x00 \<notin> set p \<and> CHR ''~'' \<notin> set p \<and> CHR 0x5C \<notin> set p) qs"
proof (induction parts ps rule: normalize_parts.induct)
  case (2 parts part ps)
  have "list_all (\<lambda>p. CHR 0x00 \<notin> set p \<and> CHR ''~'' \<notin> set p \<and> CHR 0x5C \<notin> set p) (butlast parts)"
    using "2.prems"(2) by (auto simp: list_all_iff dest: in_set_butlastD)
  with 2 show ?case by (auto split: if_splits)
qed simp

lemma lexical_normalize_of_comps:
  assumes "list_all plain_comp cs"
    "list_all (\<lambda>p. CHR 0x00 \<notin> set p \<and> CHR ''~'' \<notin> set p \<and> CHR 0x5C \<notin> set p) cs"
  shows "lexical_normalize (of_comps cs) = Some (of_comps cs)"
proof (cases "cs = []")
  case False
  then have "split_char CHR ''/'' (join ''/'' cs) = cs"
    using assms(1) by (intro split_char_join) (auto simp: list_all_iff plain_comp_def)
  then show ?thesis using False assms normalize_parts_id [of cs "[]"]
    by (simp add: lexical_normalize_def of_comps_def starts_with_def list_all_iff)
qed (simp add: lexical_normalize_def starts_with_def)

text \<open>
  C30. Lexical normalization never leaves a way up: its result is an absolute path with no empty,
  \<open>.\<close> or \<open>..\<close> component, and normalizing it again changes nothing.
\<close>

theorem lexical_normalize_stable:
  assumes "lexical_normalize raw = Some p"
  shows "normal_path p \<and> lexical_normalize p = Some p"
proof -
  from assms obtain parts where parts: "normalize_parts [] (tl (split_char CHR ''/'' raw)) = Some parts"
      "p = of_comps parts"
    by (auto simp: lexical_normalize_def of_comps_def split: if_splits option.splits)
  have n: "normal_path p" by (rule lexical_normalize_normal [OF assms])
  have "\<forall>q \<in> set (tl (split_char CHR ''/'' raw)). CHR ''/'' \<notin> set q"
    by (meson list.set_sel(2) split_char_no_sep split_char_nonempty)
  then have "list_all plain_comp parts" using normalize_parts_plain [OF parts(1)] by simp
  moreover have "list_all (\<lambda>p. CHR 0x00 \<notin> set p \<and> CHR ''~'' \<notin> set p \<and> CHR 0x5C \<notin> set p) parts"
    using normalize_parts_clean [OF parts(1)] by simp
  ultimately show ?thesis using n parts(2) lexical_normalize_of_comps by simp
qed

lemma lexical_normalize_stable_witness:
  "lexical_normalize ''/var//log/./x/../../../../etc/passwd/'' = Some ''/etc/passwd''
   \<and> normal_path ''/etc/passwd''"
proof -
  have "lexical_normalize ''/var//log/./x/../../../../etc/passwd/'' = Some ''/etc/passwd''" by code_simp
  with lexical_normalize_stable [OF this] show ?thesis by simp
qed

lemma follow_target_normal:
  assumes "realpath_ok fs" "follow_target fs p = Some q"
  shows "normal_path q"
  using assms canonical_own_normal lexical_normalize_normal
  by (auto simp: follow_target_def realpath_ok_def Let_def split: option.splits if_splits)

text \<open>
  C28. Where \<open>fs::canonicalize\<close> returns normal paths, the path a check is made on is normal
  whatever text the guest passes: both the path opened and the path in scope are absolute without
  \<open>.\<close> and \<open>..\<close>, and they differ only for a final symbolic link that resolves.
\<close>

theorem resolve_normal:
  assumes "realpath_ok fs" "resolve fs raw = Some r"
  shows "normal_path (r_own r) \<and> normal_path (r_scope r)
    \<and> (r_own r \<noteq> r_scope r \<longrightarrow> r_final_symlink r \<and> \<not> r_broken_symlink r)"
proof -
  from assms(2) obtain lexical where l: "lexical_normalize raw = Some lexical" "\<not> reject_syntax raw"
    by (auto simp: resolve_def split: if_splits option.splits)
  have own: "normal_path (canonical_own fs lexical)"
    by (intro canonical_own_normal assms lexical_normalize_normal [OF l(1)])
  from assms(2) l own follow_target_normal [OF assms(1)] show ?thesis
    by (auto simp: resolve_def Let_def split: if_splits option.splits)
qed

definition sample_fs :: fs_view where
  "sample_fs = \<lparr>fs_canonicalize = (\<lambda>p. if p = ''/'' \<or> p = ''/etc'' \<or> p = ''/etc/shadow'' then Some p else None),
     fs_is_symlink = (\<lambda>p. p = ''/etc/link''),
     fs_read_link = (\<lambda>p. if p = ''/etc/link'' then Some ''shadow'' else None)\<rparr>"

lemma sample_fs_ok: "realpath_ok sample_fs"
proof -
  have "normal_path ''/''" "normal_path ''/etc''" "normal_path ''/etc/shadow''" by code_simp+
  then show ?thesis by (auto simp: realpath_ok_def sample_fs_def)
qed

lemma resolve_normal_witness:
  "\<exists>r. resolve sample_fs ''/etc/../etc/./link'' = Some r \<and> normal_path (r_scope r) \<and> r_scope r = ''/etc/shadow''"
proof -
  have "resolve sample_fs ''/etc/../etc/./link'' = Some \<lparr>r_own = ''/etc/link'', r_scope = ''/etc/shadow'',
      r_final_symlink = True, r_broken_symlink = False\<rparr>" by code_simp
  with resolve_normal [OF sample_fs_ok this] show ?thesis by simp
qed

subsection \<open>What a glob matches\<close>

definition byte_piece :: "char \<Rightarrow> str \<Rightarrow> bool" where
  "byte_piece c part = (if c = CHR ''*'' then True else if c = CHR ''?'' then length part = 1 else part = [c])"

definition segment_piece :: "str \<Rightarrow> str list \<Rightarrow> bool" where
  "segment_piece p part =
     (if p = ''**'' then True
      else (\<exists>s. part = [s] \<and> (\<exists>bytes. concat bytes = s \<and> list_all2 byte_piece p bytes)))"

lemma pieces_Cons:
  "(\<exists>parts. concat parts = s \<and> list_all2 P (p # ps) parts)
    \<longleftrightarrow> (\<exists>u v. s = u @ v \<and> P p u \<and> (\<exists>parts. concat parts = v \<and> list_all2 P ps parts))"
proof
  assume "\<exists>parts. concat parts = s \<and> list_all2 P (p # ps) parts"
  then obtain u parts where "s = u @ concat parts" "P p u" "list_all2 P ps parts"
    by (auto simp: list_all2_Cons1)
  then show "\<exists>u v. s = u @ v \<and> P p u \<and> (\<exists>parts. concat parts = v \<and> list_all2 P ps parts)" by blast
next
  assume "\<exists>u v. s = u @ v \<and> P p u \<and> (\<exists>parts. concat parts = v \<and> list_all2 P ps parts)"
  then obtain u parts where "s = u @ concat parts" "P p u" "list_all2 P ps parts" by blast
  then show "\<exists>parts. concat parts = s \<and> list_all2 P (p # ps) parts"
    by (intro exI [of _ "u # parts"]) simp
qed

lemma split_Cons: "(\<exists>u v. c # t = u @ v \<and> Q v) \<longleftrightarrow> Q (c # t) \<or> (\<exists>u v. t = u @ v \<and> Q v)"
  by (auto simp: Cons_eq_append_conv)

lemma split_single:
  "(\<exists>u v. path = u @ v \<and> (\<exists>s. u = [s] \<and> R s) \<and> Q v) \<longleftrightarrow> path \<noteq> [] \<and> R (hd path) \<and> Q (tl path)"
proof
  assume "path \<noteq> [] \<and> R (hd path) \<and> Q (tl path)"
  then show "\<exists>u v. path = u @ v \<and> (\<exists>s. u = [s] \<and> R s) \<and> Q v"
    by (intro exI [of _ "[hd path]"] exI [of _ "tl path"]) simp
qed auto

lemma split_drop: "(\<exists>i \<le> length path. Q (drop i path)) \<longleftrightarrow> (\<exists>u v. path = u @ v \<and> Q v)"
proof
  assume "\<exists>i \<le> length path. Q (drop i path)"
  then show "\<exists>u v. path = u @ v \<and> Q v" by (metis append_take_drop_id)
next
  assume "\<exists>u v. path = u @ v \<and> Q v"
  then obtain u v where "path = u @ v" "Q v" by blast
  then show "\<exists>i \<le> length path. Q (drop i path)" by (intro exI [of _ "length u"]) simp
qed

lemma byte_piece_single:
  "p \<noteq> CHR ''*'' \<Longrightarrow> byte_piece p u \<longleftrightarrow> (\<exists>c. u = [c] \<and> (p = CHR ''?'' \<or> p = c))"
  by (auto simp: byte_piece_def length_Suc_conv)

lemma segment_match_iff:
  "segment_match p s \<longleftrightarrow> (\<exists>parts. concat parts = s \<and> list_all2 byte_piece p parts)"
proof (induction p s rule: segment_match.induct)
  case (2 p ps s)
  let ?tail = "\<lambda>v. \<exists>parts. concat parts = v \<and> list_all2 byte_piece ps parts"
  show ?case
  proof (cases "p = CHR ''*''")
    case star: True
    have whole: "(\<exists>parts. concat parts = s \<and> list_all2 byte_piece (p # ps) parts)
        \<longleftrightarrow> (\<exists>u v. s = u @ v \<and> ?tail v)" for s
      unfolding pieces_Cons using star by (simp add: byte_piece_def)
    show ?thesis
    proof (cases s)
      case Nil
      then show ?thesis using star 2(1) unfolding whole by simp
    next
      case (Cons c t)
      have "segment_match (p # ps) s \<longleftrightarrow> ?tail s \<or> (\<exists>u v. t = u @ v \<and> ?tail v)"
        using 2(1,2) star Cons unfolding whole by simp
      also have "\<dots> \<longleftrightarrow> (\<exists>u v. s = u @ v \<and> ?tail v)"
        unfolding Cons split_Cons [of c t ?tail] ..
      finally show ?thesis unfolding whole .
    qed
  next
    case False
    have "(\<exists>parts. concat parts = s \<and> list_all2 byte_piece (p # ps) parts)
        \<longleftrightarrow> s \<noteq> [] \<and> (p = CHR ''?'' \<or> p = hd s) \<and> ?tail (tl s)"
      unfolding pieces_Cons
      using False split_single [of s "\<lambda>c. p = CHR ''?'' \<or> p = c" ?tail]
      by (simp add: byte_piece_single)
    then show ?thesis using False 2(3) by (cases s) auto
  qed
qed auto

text \<open>
  C32. Matching a path against a pattern segment by segment accepts exactly the paths that split
  into one piece per pattern segment: any number of segments for \<open>**\<close>, and otherwise one segment
  whose bytes split into one piece per pattern byte, any run for \<open>*\<close>, one byte for \<open>?\<close>, the byte
  itself for any other.
\<close>

theorem segments_match_denotes:
  "segments_match pattern path \<longleftrightarrow> (\<exists>parts. concat parts = path \<and> list_all2 segment_piece pattern parts)"
proof (induction pattern path rule: segments_match.induct)
  case (2 p ps path)
  let ?tail = "\<lambda>v. \<exists>parts. concat parts = v \<and> list_all2 segment_piece ps parts"
  show ?case
  proof (cases "p = ''**''")
    case star: True
    have whole: "(\<exists>parts. concat parts = path \<and> list_all2 segment_piece (p # ps) parts)
        \<longleftrightarrow> (\<exists>u v. path = u @ v \<and> ?tail v)"
      unfolding pieces_Cons using star by (simp add: segment_piece_def)
    show ?thesis
    proof (cases "ps = []")
      case True
      then show ?thesis using star unfolding whole by auto
    next
      case False
      have "segments_match (p # ps) path \<longleftrightarrow> (\<exists>i \<le> length path. ?tail (drop i path))"
        using 2(1) [OF star False] star False
        by (auto simp: list_ex_iff less_Suc_eq_le atLeast0LessThan simp del: upt_Suc)
      also have "\<dots> \<longleftrightarrow> (\<exists>u v. path = u @ v \<and> ?tail v)"
        by (rule split_drop)
      finally show ?thesis unfolding whole .
    qed
  next
    case False
    have "(\<exists>parts. concat parts = path \<and> list_all2 segment_piece (p # ps) parts)
        \<longleftrightarrow> path \<noteq> [] \<and> segment_match p (hd path) \<and> ?tail (tl path)"
      unfolding pieces_Cons segment_match_iff
      using False split_single [of path "\<lambda>s. \<exists>bytes. concat bytes = s \<and> list_all2 byte_piece p bytes" ?tail]
      by (simp add: segment_piece_def)
    then show ?thesis using False 2(2) by auto
  qed
qed auto

end
