(* ===== verification/Deny.thy ===== *)
theory Deny
  imports Path_Glob
begin

text \<open>
  \<open>crates/novbot-skill-runtime/src/deny.rs\<close>: the node-wide denylist, applied after a path or an
  environment key is in scope. The file system is the parameter of \<open>Path_Glob\<close>, the variable
  \<open>NOVBOT_DATA_DIR\<close> an argument of \<open>denylist_new\<close>.
\<close>

subsection \<open>Data directories and aliases\<close>

record denylist =
  data_dirs :: "str list"

definition trim_slash :: "str \<Rightarrow> str" where
  "trim_slash path = (if length path > 1 then trim_end_matches path CHR ''/'' else path)"

definition aliases :: "str \<Rightarrow> str list" where
  "aliases path0 =
     (let path = trim_slash path0
      in path # (case strip_prefix path ''/private/'' of
           Some r \<Rightarrow> [''/'' @ r]
         | None \<Rightarrow> (case strip_prefix path ''/'' of
               Some r \<Rightarrow> [''/private/'' @ r]
             | None \<Rightarrow> [])))"

definition push_data_dir :: "fs_view \<Rightarrow> str list \<Rightarrow> str \<Rightarrow> str list" where
  "push_data_dir fs dirs dir =
     (let text = (case fs_canonicalize fs dir of Some real \<Rightarrow> display_path real | None \<Rightarrow> display_path dir)
      in foldl (\<lambda>ds al. if al \<in> set ds then ds else ds @ [al]) dirs (aliases text))"

definition denylist_new :: "fs_view \<Rightarrow> str option \<Rightarrow> str option \<Rightarrow> denylist" where
  "denylist_new fs env_dir data_dir =
     (let d1 = (case data_dir of Some dir \<Rightarrow> push_data_dir fs [] dir | None \<Rightarrow> []);
          d2 = (case env_dir of Some dir \<Rightarrow> push_data_dir fs d1 dir | None \<Rightarrow> d1)
      in \<lparr>data_dirs = d2\<rparr>)"

definition under_dir :: "str \<Rightarrow> str \<Rightarrow> bool" where
  "under_dir path dir = (path = dir \<or> starts_with path (dir @ ''/''))"

subsection \<open>Static rules\<close>

text \<open>\<open>rest.split('/')\<close> always has a first part.\<close>

definition home_ssh :: "str \<Rightarrow> bool" where
  "home_ssh path =
     (case strip_prefix path ''/home/'' of
        None \<Rightarrow> False
      | Some r \<Rightarrow>
          (case split_char CHR ''/'' r of
             [] \<Rightarrow> False
           | user # parts \<Rightarrow>
               if user = [] then False
               else (case parts of [] \<Rightarrow> False | q # _ \<Rightarrow> q = ''.ssh'')))"

definition proc_secret :: "str \<Rightarrow> bool" where
  "proc_secret path =
     (case strip_prefix path ''/proc/'' of
        None \<Rightarrow> False
      | Some r \<Rightarrow>
          (case split_char CHR ''/'' r of
             [] \<Rightarrow> False
           | pid # parts \<Rightarrow>
               if pid = [] then False
               else (case parts of
                   [] \<Rightarrow> False
                 | leaf # ps \<Rightarrow> ps = [] \<and> (leaf = ''environ'' \<or> leaf = ''mem''))))"

definition static_deny :: "str \<Rightarrow> bool" where
  "static_deny path =
     (if path = ''/etc/shadow'' \<or> path = ''/etc/gshadow'' then True
      else if (case strip_prefix path ''/etc/ssh/'' of
          Some name \<Rightarrow> \<not> contains_char name CHR ''/'' \<and> starts_with name ''ssh_host_'' \<and> ends_with name ''_key''
        | None \<Rightarrow> False) then True
      else if path = ''/etc/ssl/private'' \<or> starts_with path ''/etc/ssl/private/'' then True
      else if path = ''/root'' \<or> starts_with path ''/root/'' then True
      else if home_ssh path then True
      else if proc_secret path then True
      else False)"

definition hit :: "denylist \<Rightarrow> str \<Rightarrow> bool" where
  "hit deny path = (if static_deny path then True else list_ex (under_dir path) (data_dirs deny))"

definition denies_fs :: "denylist \<Rightarrow> str \<Rightarrow> bool" where
  "denies_fs deny path = list_ex (hit deny) (aliases (display_path path))"

definition denies_env :: "str \<Rightarrow> bool" where
  "denies_env key =
     (let lower = to_ascii_lowercase key
      in contains_str lower ''secret'' \<or> contains_str lower ''password'' \<or> contains_str lower ''token''
         \<or> contains_str lower ''api_key'' \<or> ends_with lower ''_key'')"

subsection \<open>Data directories stay denied\<close>

lemma push_unique_set:
  "set (foldl (\<lambda>ds al. if al \<in> set ds then ds else ds @ [al]) dirs als) = set dirs \<union> set als"
  by (induction als arbitrary: dirs) auto

lemma push_data_dir_set:
  "set (push_data_dir fs dirs dir) = set dirs \<union>
     set (aliases (case fs_canonicalize fs dir of Some real \<Rightarrow> display_path real | None \<Rightarrow> display_path dir))"
  by (simp add: push_data_dir_def Let_def push_unique_set)

lemma data_dirs_new:
  "data_dir = Some dir \<or> env_dir = Some dir \<Longrightarrow>
     set (aliases (case fs_canonicalize fs dir of Some real \<Rightarrow> display_path real | None \<Rightarrow> display_path dir))
       \<subseteq> set (data_dirs (denylist_new fs env_dir data_dir))"
  by (auto simp: denylist_new_def Let_def push_data_dir_set split: option.splits)

lemma trim_end_matches_id: "p \<noteq> [] \<Longrightarrow> last p \<noteq> c \<Longrightarrow> trim_end_matches p c = p"
  by (cases p rule: rev_cases) (simp_all add: trim_end_matches_def)

lemma trim_slash_id: "p = [] \<or> last p \<noteq> CHR ''/'' \<Longrightarrow> trim_slash p = p"
  by (cases "p = []") (simp_all add: trim_slash_def trim_end_matches_id)

lemma display_path_id: "p = [] \<or> last p \<noteq> CHR ''/'' \<Longrightarrow> display_path p = p"
  by (cases "p = []") (simp_all add: display_path_def trim_trailing_slash_def trim_end_matches_id)

lemma aliases_self: "p = [] \<or> last p \<noteq> CHR ''/'' \<Longrightarrow> p \<in> set (aliases p)"
  by (simp add: aliases_def trim_slash_id Let_def)

lemma denies_fs_hit: "p = [] \<or> last p \<noteq> CHR ''/'' \<Longrightarrow> hit deny p \<Longrightarrow> denies_fs deny p"
  using aliases_self [of p] by (auto simp: denies_fs_def display_path_id list_ex_iff)

lemma normal_last: "normal_path p \<Longrightarrow> p \<noteq> ''/'' \<Longrightarrow> last p \<noteq> CHR ''/'' \<and> p \<noteq> []"
proof -
  assume "normal_path p" "p \<noteq> ''/''"
  then obtain cs where cs: "list_all plain_comp cs" "p = of_comps cs" "cs \<noteq> []"
    by (metis normal_path_iff of_comps_Nil)
  then have "p \<noteq> []" by (simp add: of_comps_def)
  moreover have "last p \<noteq> CHR ''/''"
    using normal_not_slash_end [OF cs(1,3)] cs(2) \<open>p \<noteq> []\<close>
    by (auto simp: ends_with_def suffix_def) (metis append_butlast_last_id)
  ultimately show ?thesis by simp
qed

text \<open>
  A data directory of the node and everything below it is denied to every skill, for the
  directory given at start-up and for the one of the environment alike, under the canonical name
  of the directory.
\<close>

theorem data_dir_denied:
  assumes "realpath_ok fs" "data_dir = Some dir \<or> env_dir = Some dir"
    "fs_canonicalize fs dir = Some real" "real \<noteq> ''/''"
    "normal_path p" "under_dir p real"
  shows "denies_fs (denylist_new fs env_dir data_dir) p"
proof -
  have real: "last real \<noteq> CHR ''/''" "real \<noteq> []" "normal_path real"
    using assms(1,3,4) normal_last by (auto simp: realpath_ok_def)
  then have "real \<in> set (data_dirs (denylist_new fs env_dir data_dir))"
    using data_dirs_new [OF assms(2), of fs] aliases_self [of real] assms(3)
    by (auto simp: display_path_id)
  then have "hit (denylist_new fs env_dir data_dir) p"
    using assms(6) by (auto simp: hit_def list_ex_iff)
  moreover have "p \<noteq> ''/''"
  proof
    assume "p = ''/''"
    with assms(4,6) real(2) show False by (cases real) (auto simp: under_dir_def starts_with_def)
  qed
  then have "last p \<noteq> CHR ''/''" using normal_last [OF assms(5)] by simp
  ultimately show ?thesis by (intro denies_fs_hit) auto
qed

definition node_fs :: fs_view where
  "node_fs = \<lparr>fs_canonicalize = (\<lambda>p. if p = ''/srv/data'' then Some ''/var/lib/novbot'' else None),
     fs_is_symlink = (\<lambda>p. False), fs_read_link = (\<lambda>p. None)\<rparr>"

lemma data_dir_denied_witness:
  "denies_fs (denylist_new node_fs None (Some ''/srv/data'')) ''/var/lib/novbot/db''"
proof (rule data_dir_denied)
  have "normal_path ''/var/lib/novbot''" by code_simp
  then show "realpath_ok node_fs" by (auto simp: realpath_ok_def node_fs_def)
  show "normal_path ''/var/lib/novbot/db''" by code_simp
  show "under_dir ''/var/lib/novbot/db'' ''/var/lib/novbot''" by code_simp
  show "fs_canonicalize node_fs ''/srv/data'' = Some ''/var/lib/novbot''" by (simp add: node_fs_def)
qed simp_all

subsection \<open>The second name of a path\<close>

lemma aliases_both:
  assumes "r \<noteq> []" "last r \<noteq> CHR ''/''" "\<not> starts_with r ''private/''"
  shows "aliases (''/'' @ r) = [''/'' @ r, ''/private/'' @ r]"
    and "aliases (''/private/'' @ r) = [''/private/'' @ r, ''/'' @ r]"
proof -
  have "strip_prefix (''/'' @ r) ''/private/'' = None"
    using assms(3) by (simp add: strip_prefix_eq_None starts_with_def)
  moreover have "strip_prefix (''/'' @ r) ''/'' = Some r" by simp
  moreover have "trim_slash (''/'' @ r) = ''/'' @ r" "trim_slash (''/private/'' @ r) = ''/private/'' @ r"
    using assms by (simp_all add: trim_slash_id)
  moreover have "strip_prefix (''/private/'' @ r) ''/private/'' = Some r" by simp
  ultimately show "aliases (''/'' @ r) = [''/'' @ r, ''/private/'' @ r]"
    and "aliases (''/private/'' @ r) = [''/private/'' @ r, ''/'' @ r]"
    by (simp_all only: aliases_def Let_def option.case)
qed

text \<open>
  C27. The answer does not depend on which of its two names a file is reached by: a path and the
  same path below \<open>/private\<close> are both denied or both not denied.
\<close>

theorem denies_fs_alias:
  assumes "r \<noteq> []" "last r \<noteq> CHR ''/''" "\<not> starts_with r ''private/''"
  shows "denies_fs deny (''/private/'' @ r) = denies_fs deny (''/'' @ r)"
proof -
  have "display_path (''/private/'' @ r) = ''/private/'' @ r" "display_path (''/'' @ r) = ''/'' @ r"
    using assms by (simp_all add: display_path_id)
  then show ?thesis
    unfolding denies_fs_def by (simp only: aliases_both [OF assms]) (simp add: disj_commute)
qed

lemma denies_fs_alias_witness:
  "denies_fs \<lparr>data_dirs = []\<rparr> (''/private/'' @ ''etc/shadow'') = denies_fs \<lparr>data_dirs = []\<rparr> (''/'' @ ''etc/shadow'')
   \<and> denies_fs \<lparr>data_dirs = []\<rparr> ''/etc/shadow''"
proof
  show "denies_fs \<lparr>data_dirs = []\<rparr> (''/private/'' @ ''etc/shadow'') = denies_fs \<lparr>data_dirs = []\<rparr> (''/'' @ ''etc/shadow'')"
    by (rule denies_fs_alias) code_simp+
  show "denies_fs \<lparr>data_dirs = []\<rparr> ''/etc/shadow''" by code_simp
qed

end
