(* ===== verification/Grants.thy ===== *)
theory Grants
  imports Deny
begin

text \<open>
  \<open>crates/novbot-skill-runtime/src/grant.rs\<close>: the capability table, the grammar of grants, the set
  of grants a package declares and the check every host function makes, with its order of denials.
  A \<open>BTreeMap\<close> from names is a map. The character classes are ASCII, so the loops over \<open>chars()\<close>
  are loops over bytes: no byte of a longer character is in them.
\<close>

subsection \<open>Capabilities and grants\<close>

datatype denial_reason = UndeclaredCapability | OutOfScope | CapDisabled | PolicyDenied

datatype scope_requirement = NoScope | PathGlob | EnvKey

record capability_def =
  cap_name :: str
  cap_scope :: scope_requirement

definition CAPABILITIES :: "capability_def list" where
  "CAPABILITIES =
    [\<lparr>cap_name = ''fs.read'', cap_scope = PathGlob\<rparr>,
     \<lparr>cap_name = ''fs.stat'', cap_scope = PathGlob\<rparr>,
     \<lparr>cap_name = ''fs.list'', cap_scope = PathGlob\<rparr>,
     \<lparr>cap_name = ''net.listening_ports.read'', cap_scope = NoScope\<rparr>,
     \<lparr>cap_name = ''sys.info.read'', cap_scope = NoScope\<rparr>,
     \<lparr>cap_name = ''sys.time_sync.read'', cap_scope = NoScope\<rparr>,
     \<lparr>cap_name = ''env.read'', cap_scope = EnvKey\<rparr>,
     \<lparr>cap_name = ''sys.metrics.read'', cap_scope = NoScope\<rparr>,
     \<lparr>cap_name = ''proc.list.read'', cap_scope = NoScope\<rparr>,
     \<lparr>cap_name = ''net.interfaces.read'', cap_scope = NoScope\<rparr>]"

datatype grant_error = Malformed str | Unsupported str

fun grant_error_text :: "grant_error \<Rightarrow> str" where
  "grant_error_text (Malformed grant) = ''malformed grant: '' @ grant"
| "grant_error_text (Unsupported grant) = ''capability not supported: '' @ grant"

record env_pattern =
  ep_prefix :: str
  ep_wildcard :: bool

datatype scope = PathScope str | EnvScope env_pattern | Bare

definition env_pattern_matches :: "env_pattern \<Rightarrow> str \<Rightarrow> bool" where
  "env_pattern_matches p key =
     (if ep_wildcard p then starts_with key (ep_prefix p) else key = ep_prefix p)"

type_synonym grant_set = "str \<rightharpoonup> scope list"

subsection \<open>Parsing\<close>

definition valid_segment :: "str \<Rightarrow> bool" where
  "valid_segment segment =
     (case segment of
        [] \<Rightarrow> False
      | ch # cs \<Rightarrow>
          if is_ascii_lowercase ch
          then list_all (\<lambda>c. is_ascii_lowercase c \<or> is_ascii_digit c \<or> c = CHR ''_'') cs else False)"

definition valid_cap_name :: "str \<Rightarrow> bool" where
  "valid_cap_name name =
     (case split_char CHR ''.'' name of
        first # second # parts \<Rightarrow>
          (if \<not> valid_segment first \<or> \<not> valid_segment second then False
           else (case parts of [] \<Rightarrow> True | third # ps \<Rightarrow> ps = [] \<and> valid_segment third))
      | _ \<Rightarrow> False)"

definition split_grant :: "str \<Rightarrow> (str \<times> str option, grant_error) result" where
  "split_grant grant =
     (if grant = [] \<or> contains_char grant CHR 0x00 then Err (Malformed grant)
      else (case split_once grant CHR '':'' of
          Some (name, scope) \<Rightarrow>
            if scope = [] then Err (Malformed grant)
            else if \<not> valid_cap_name name then Err (Malformed grant) else Ok (name, Some scope)
        | None \<Rightarrow>
            if \<not> valid_cap_name grant then Err (Malformed grant) else Ok (grant, None)))"

definition parse_env_scope :: "str \<Rightarrow> env_pattern option" where
  "parse_env_scope scope =
     (let wildcard = ends_with scope ''*'';
          core = (if wildcard then (case strip_suffix scope ''*'' of Some c \<Rightarrow> c | None \<Rightarrow> scope) else scope)
      in case core of
           [] \<Rightarrow> None
         | ch # cs \<Rightarrow>
             if \<not> (is_ascii_uppercase ch \<or> ch = CHR ''_'') then None
             else if \<not> list_all (\<lambda>c. is_ascii_uppercase c \<or> is_ascii_digit c \<or> c = CHR ''_'') cs then None
             else Some \<lparr>ep_prefix = core, ep_wildcard = wildcard\<rparr>)"

definition find_capability :: "str \<Rightarrow> capability_def option" where
  "find_capability name = find (\<lambda>d. cap_name d = name) CAPABILITIES"

definition parse_scope :: "str \<Rightarrow> scope_requirement \<Rightarrow> str option \<Rightarrow> (scope, grant_error) result" where
  "parse_scope grant req scope =
     (case (req, scope) of
        (NoScope, None) \<Rightarrow> Ok Bare
      | (NoScope, Some _) \<Rightarrow> Err (Malformed grant)
      | (PathGlob, Some s) \<Rightarrow> if valid_path_glob s then Ok (PathScope s) else Err (Malformed grant)
      | (PathGlob, None) \<Rightarrow> Err (Malformed grant)
      | (EnvKey, Some s) \<Rightarrow>
          (case parse_env_scope s of None \<Rightarrow> Err (Malformed grant) | Some p \<Rightarrow> Ok (EnvScope p))
      | (EnvKey, None) \<Rightarrow> Err (Malformed grant))"

definition grant_entry :: "str \<Rightarrow> (str \<times> scope, grant_error) result" where
  "grant_entry grant =
     and_then (split_grant grant) (\<lambda>(name, scope).
       case find_capability name of
         None \<Rightarrow> Err (Unsupported grant)
       | Some d \<Rightarrow> and_then (parse_scope grant (cap_scope d) scope) (\<lambda>parsed. Ok (name, parsed)))"

definition scopes_of :: "grant_set \<Rightarrow> str \<Rightarrow> scope list" where
  "scopes_of g name = (case g name of Some ss \<Rightarrow> ss | None \<Rightarrow> [])"

fun parse_grants_from :: "grant_set \<Rightarrow> str list \<Rightarrow> (grant_set, grant_error) result" where
  "parse_grants_from by_name [] = Ok by_name"
| "parse_grants_from by_name (grant # grants) =
     and_then (grant_entry grant) (\<lambda>(name, parsed).
       parse_grants_from (by_name(name \<mapsto> scopes_of by_name name @ [parsed])) grants)"

definition parse_grants :: "str list \<Rightarrow> (grant_set, grant_error) result" where
  "parse_grants grants = parse_grants_from Map.empty grants"

definition declares :: "grant_set \<Rightarrow> str \<Rightarrow> bool" where
  "declares g name = (g name \<noteq> None)"

definition path_matches :: "fs_view \<Rightarrow> grant_set \<Rightarrow> str \<Rightarrow> str \<Rightarrow> bool" where
  "path_matches fs g name candidate =
     (case g name of None \<Rightarrow> False
      | Some scopes \<Rightarrow> list_ex (\<lambda>s. case s of PathScope glob \<Rightarrow> glob_matches fs glob candidate | _ \<Rightarrow> False) scopes)"

definition env_matches :: "grant_set \<Rightarrow> str \<Rightarrow> str \<Rightarrow> bool" where
  "env_matches g name key =
     (case g name of None \<Rightarrow> False
      | Some scopes \<Rightarrow> list_ex (\<lambda>s. case s of EnvScope p \<Rightarrow> env_pattern_matches p key | _ \<Rightarrow> False) scopes)"

subsection \<open>The check\<close>

datatype check_target = NoTarget | PathTarget str | EnvTarget str

text \<open>The reserved slot in the order: no capability is ever disabled.\<close>

definition cap_disabled :: "capability_def \<Rightarrow> bool" where
  "cap_disabled d = False"

definition check ::
    "fs_view \<Rightarrow> grant_set \<Rightarrow> str \<Rightarrow> check_target \<Rightarrow> denylist \<Rightarrow> (unit, denial_reason) result" where
  "check fs grants name target deny =
     (case find_capability name of
        None \<Rightarrow> Err UndeclaredCapability
      | Some d \<Rightarrow>
          if \<not> declares grants name then Err UndeclaredCapability
          else (case cap_scope d of
              NoScope \<Rightarrow> if cap_disabled d then Err CapDisabled else Ok ()
            | PathGlob \<Rightarrow>
                (case target of
                   PathTarget path \<Rightarrow>
                     if \<not> path_matches fs grants name path then Err OutOfScope
                     else if cap_disabled d then Err CapDisabled
                     else if denies_fs deny path then Err PolicyDenied
                     else Ok ()
                 | _ \<Rightarrow> Err OutOfScope)
            | EnvKey \<Rightarrow>
                (case target of
                   EnvTarget key \<Rightarrow>
                     if \<not> env_matches grants name key then Err OutOfScope
                     else if cap_disabled d then Err CapDisabled
                     else if denies_env key then Err PolicyDenied
                     else Ok ()
                 | _ \<Rightarrow> Err OutOfScope)))"

subsection \<open>The order of denials\<close>

text \<open>Reasons are ordered as the comment of \<open>check\<close> lists them.\<close>

fun denial_rank :: "denial_reason \<Rightarrow> nat" where
  "denial_rank UndeclaredCapability = 0"
| "denial_rank OutOfScope = 1"
| "denial_rank CapDisabled = 2"
| "denial_rank PolicyDenied = 3"

lemma denial_rank_inject: "denial_rank a = denial_rank b \<longleftrightarrow> a = b"
  by (cases a; cases b) simp_all

instantiation denial_reason :: linorder
begin

definition less_eq_denial_reason :: "denial_reason \<Rightarrow> denial_reason \<Rightarrow> bool" where
  "less_eq_denial_reason a b = (denial_rank a \<le> denial_rank b)"

definition less_denial_reason :: "denial_reason \<Rightarrow> denial_reason \<Rightarrow> bool" where
  "less_denial_reason a b = (denial_rank a < denial_rank b)"

instance
  by standard (auto simp: less_eq_denial_reason_def less_denial_reason_def denial_rank_inject)

end

lemma UNIV_denial_reason: "UNIV = {UndeclaredCapability, OutOfScope, CapDisabled, PolicyDenied}"
  using denial_reason.exhaust by blast

instance denial_reason :: finite
  by standard (simp add: UNIV_denial_reason)

fun target_in_scope :: "fs_view \<Rightarrow> grant_set \<Rightarrow> str \<Rightarrow> scope_requirement \<Rightarrow> check_target \<Rightarrow> bool" where
  "target_in_scope fs g name NoScope target = True"
| "target_in_scope fs g name PathGlob (PathTarget p) = path_matches fs g name p"
| "target_in_scope fs g name EnvKey (EnvTarget k) = env_matches g name k"
| "target_in_scope fs g name PathGlob _ = False"
| "target_in_scope fs g name EnvKey _ = False"

fun policy_denies :: "denylist \<Rightarrow> scope_requirement \<Rightarrow> check_target \<Rightarrow> bool" where
  "policy_denies deny PathGlob (PathTarget p) = denies_fs deny p"
| "policy_denies deny EnvKey (EnvTarget k) = denies_env k"
| "policy_denies deny _ _ = False"

text \<open>The reasons that speak against a call, each on its own.\<close>

definition reasons_against ::
    "fs_view \<Rightarrow> grant_set \<Rightarrow> str \<Rightarrow> check_target \<Rightarrow> denylist \<Rightarrow> denial_reason set" where
  "reasons_against fs g name target deny =
     (case find_capability name of
        None \<Rightarrow> {UndeclaredCapability}
      | Some d \<Rightarrow>
          (if declares g name then {} else {UndeclaredCapability})
          \<union> (if target_in_scope fs g name (cap_scope d) target then {} else {OutOfScope})
          \<union> (if policy_denies deny (cap_scope d) target then {PolicyDenied} else {}))"

lemma Min_denial:
  fixes a :: denial_reason
  shows "a \<in> A \<Longrightarrow> (\<And>b. b \<in> A \<Longrightarrow> a \<le> b) \<Longrightarrow> Min A = a"
  by (rule Min_eqI) simp_all

lemma reason_le [simp]:
  "UndeclaredCapability \<le> b" "OutOfScope \<le> OutOfScope" "OutOfScope \<le> CapDisabled" "OutOfScope \<le> PolicyDenied"
  by (simp_all add: less_eq_denial_reason_def)

text \<open>
  C3. The check is exact and its order is the documented one: a call is allowed exactly when
  nothing speaks against it, and otherwise it is refused with the first reason, in the order
  undeclared, out of scope, disabled, policy, of those that apply.
\<close>

theorem check_first_reason:
  "check fs g name target deny =
     (let against = reasons_against fs g name target deny
      in if against = {} then Ok () else Err (Min against))"
proof (cases "find_capability name")
  case None
  then show ?thesis by (simp add: check_def reasons_against_def)
next
  case (Some d)
  show ?thesis
    by (cases "cap_scope d"; cases target)
      (auto simp: Some check_def reasons_against_def Let_def cap_disabled_def
        intro!: Min_denial [symmetric])
qed


subsection \<open>What a set of grants allows\<close>

lemma parse_grants_from_Ok:
  "parse_grants_from m gs = Ok g \<Longrightarrow>
     \<exists>es. map grant_entry gs = map Ok es
       \<and> (\<forall>n. scopes_of g n = scopes_of m n @ map snd (filter (\<lambda>e. fst e = n) es)
              \<and> (g n \<noteq> None \<longleftrightarrow> m n \<noteq> None \<or> n \<in> fst ` set es))"
proof (induction m gs rule: parse_grants_from.induct)
  case (2 m grant gs)
  from "2.prems" obtain name parsed where e: "grant_entry grant = Ok (name, parsed)"
      "parse_grants_from (m(name \<mapsto> scopes_of m name @ [parsed])) gs = Ok g"
    by auto
  from "2.IH" [OF e(2)] obtain es where es: "map grant_entry gs = map Ok es"
      "\<forall>n. scopes_of g n = scopes_of (m(name \<mapsto> scopes_of m name @ [parsed])) n @ map snd (filter (\<lambda>e. fst e = n) es)
         \<and> (g n \<noteq> None \<longleftrightarrow> (m(name \<mapsto> scopes_of m name @ [parsed])) n \<noteq> None \<or> n \<in> fst ` set es)"
    by blast
  then show ?case
    by (intro exI [of _ "(name, parsed) # es"]) (auto simp: e(1) scopes_of_def)
qed simp

lemma parse_grants_Ok:
  assumes "parse_grants gs = Ok g"
  obtains es where "map grant_entry gs = map Ok es"
    "\<And>n. set (scopes_of g n) = {s. (n, s) \<in> set es}" "\<And>n. declares g n \<longleftrightarrow> n \<in> fst ` set es"
proof -
  from assms parse_grants_from_Ok [of Map.empty gs g] obtain es where
      "map grant_entry gs = map Ok es"
      "\<forall>n. scopes_of g n = map snd (filter (\<lambda>e. fst e = n) es) \<and> (g n \<noteq> None \<longleftrightarrow> n \<in> fst ` set es)"
    by (auto simp: parse_grants_def scopes_of_def)
  then show thesis by (intro that [of es]) (auto simp: declares_def image_iff)
qed

lemma entries_iff:
  assumes "map f xs = map Ok es" "\<And>x e. f x = Ok e \<Longrightarrow> e = v \<longleftrightarrow> Q x"
  shows "v \<in> set es \<longleftrightarrow> (\<exists>x \<in> set xs. Q x)"
  using assms
proof (induction xs arbitrary: es)
  case (Cons x xs)
  then obtain e es' where es: "es = e # es'" "f x = Ok e" "map f xs = map Ok es'" by (cases es) auto
  have "e = v \<longleftrightarrow> Q x" by (rule Cons.prems(2)) (rule es)
  moreover have "v \<in> set es' \<longleftrightarrow> (\<exists>x \<in> set xs. Q x)" by (rule Cons.IH) (use es Cons.prems(2) in auto)
  ultimately show ?case unfolding es by auto
qed simp

lemma capability_no_colon: "find_capability n = Some d \<Longrightarrow> CHR '':'' \<notin> set n"
proof -
  have "list_all (\<lambda>d. CHR '':'' \<notin> set (cap_name d)) CAPABILITIES" by code_simp
  then show "find_capability n = Some d \<Longrightarrow> ?thesis"
    by (auto simp: find_capability_def list_all_iff dest!: find_Some_iff_prefix)
qed

text \<open>The scopes of each kind that one grant string gives.\<close>

definition path_entry :: "str \<Rightarrow> str \<Rightarrow> str \<Rightarrow> bool" where
  "path_entry grant name glob =
     (grant = name @ '':'' @ glob \<and> (\<exists>d. find_capability name = Some d \<and> cap_scope d = PathGlob))"

definition env_entry :: "str \<Rightarrow> str \<Rightarrow> env_pattern \<Rightarrow> bool" where
  "env_entry grant name p =
     (\<exists>s. grant = name @ '':'' @ s \<and> parse_env_scope s = Some p
        \<and> (\<exists>d. find_capability name = Some d \<and> cap_scope d = EnvKey))"

lemma split_grant_scope: "split_grant grant = Ok (n, Some s) \<Longrightarrow> grant = n @ '':'' @ s"
proof -
  assume h: "split_grant grant = Ok (n, Some s)"
  then obtain m t where m: "split_once grant CHR '':'' = Some (m, t)"
    by (cases "split_once grant CHR '':''") (auto simp: split_grant_def split: if_splits)
  with h have "n = m \<and> s = t" by (simp add: split_grant_def split: if_splits)
  with m show ?thesis by (simp add: split_once_eq_Some)
qed

lemma split_grant_bare: "split_grant grant = Ok (n, None) \<Longrightarrow> grant = n \<and> CHR '':'' \<notin> set n"
proof -
  assume h: "split_grant grant = Ok (n, None)"
  have m: "split_once grant CHR '':'' = None"
  proof (rule ccontr)
    assume "split_once grant CHR '':'' \<noteq> None"
    then obtain m t where "split_once grant CHR '':'' = Some (m, t)" by auto
    with h show False by (simp add: split_grant_def split: if_splits)
  qed
  with h have "grant = n" by (simp add: split_grant_def split: if_splits)
  with m show ?thesis by (simp add: split_once_eq_None)
qed

lemma grant_entry_cases:
  assumes "grant_entry grant = Ok (n, sc)"
  obtains d where "find_capability n = Some d"
    "(cap_scope d = NoScope \<and> sc = Bare \<and> grant = n)
     \<or> (cap_scope d = PathGlob \<and> (\<exists>s. sc = PathScope s \<and> grant = n @ '':'' @ s \<and> valid_path_glob s))
     \<or> (cap_scope d = EnvKey \<and> (\<exists>s p. sc = EnvScope p \<and> grant = n @ '':'' @ s \<and> parse_env_scope s = Some p))"
proof -
  from assms obtain scope d where h: "split_grant grant = Ok (n, scope)" "find_capability n = Some d"
      "parse_scope grant (cap_scope d) scope = Ok sc"
    by (auto simp: grant_entry_def split: option.splits)
  show thesis
  proof (cases scope)
    case None
    with h split_grant_bare [of grant n] show thesis
      by (intro that [OF h(2)]) (cases "cap_scope d"; simp add: parse_scope_def)
  next
    case (Some s)
    with h split_grant_scope [of grant n s] show thesis
      by (intro that [OF h(2)]) (cases "cap_scope d"; auto simp: parse_scope_def split: if_splits option.splits)
  qed
qed

lemma prefix_before_colon:
  assumes "n @ '':'' @ s = n' @ '':'' @ s'" "CHR '':'' \<notin> set n" "CHR '':'' \<notin> set n'"
  shows "n = n' \<and> s = s'"
proof -
  have "Some (n, s) = split_once (n @ '':'' @ s) CHR '':''"
    using split_once_append [OF assms(2), of s] by simp
  also have "\<dots> = Some (n', s')"
    unfolding assms(1) using split_once_append [OF assms(3), of s'] by simp
  finally show ?thesis by simp
qed

lemma path_entry_iff:
  assumes "grant_entry grant = Ok e"
  shows "e = (n, PathScope s) \<longleftrightarrow> path_entry grant n s"
proof -
  obtain m sc where e: "e = (m, sc)" by (cases e)
  from assms e obtain d where d: "find_capability m = Some d"
    "(cap_scope d = NoScope \<and> sc = Bare \<and> grant = m)
     \<or> (cap_scope d = PathGlob \<and> (\<exists>s. sc = PathScope s \<and> grant = m @ '':'' @ s \<and> valid_path_glob s))
     \<or> (cap_scope d = EnvKey \<and> (\<exists>s p. sc = EnvScope p \<and> grant = m @ '':'' @ s \<and> parse_env_scope s = Some p))"
    by (auto elim: grant_entry_cases)
  show ?thesis
  proof
    assume "e = (n, PathScope s)"
    with e d show "path_entry grant n s" by (auto simp: path_entry_def)
  next
    assume p: "path_entry grant n s"
    then obtain d' where d': "find_capability n = Some d'" "cap_scope d' = PathGlob" "grant = n @ '':'' @ s"
      by (auto simp: path_entry_def)
    have nc: "CHR '':'' \<notin> set n" "CHR '':'' \<notin> set m" using capability_no_colon d(1) d'(1) by auto
    from d(2) show "e = (n, PathScope s)"
    proof (elim disjE conjE exE)
      fix s' assume "grant = m @ '':'' @ s'" "sc = PathScope s'"
      with prefix_before_colon [of m s' n s] nc d'(3) e show ?thesis by simp
    next
      fix s' assume "grant = m @ '':'' @ s'" "cap_scope d = EnvKey"
      with prefix_before_colon [of m s' n s] nc d' d(1) show ?thesis by simp
    next
      assume "grant = m" with d'(3) nc show ?thesis by auto
    qed
  qed
qed

lemma env_entry_iff:
  assumes "grant_entry grant = Ok e"
  shows "e = (n, EnvScope p) \<longleftrightarrow> env_entry grant n p"
proof -
  obtain m sc where e: "e = (m, sc)" by (cases e)
  from assms e obtain d where d: "find_capability m = Some d"
    "(cap_scope d = NoScope \<and> sc = Bare \<and> grant = m)
     \<or> (cap_scope d = PathGlob \<and> (\<exists>s. sc = PathScope s \<and> grant = m @ '':'' @ s \<and> valid_path_glob s))
     \<or> (cap_scope d = EnvKey \<and> (\<exists>s p. sc = EnvScope p \<and> grant = m @ '':'' @ s \<and> parse_env_scope s = Some p))"
    by (auto elim: grant_entry_cases)
  show ?thesis
  proof
    assume "e = (n, EnvScope p)"
    with e d show "env_entry grant n p" by (auto simp: env_entry_def)
  next
    assume "env_entry grant n p"
    then obtain s d' where d': "find_capability n = Some d'" "cap_scope d' = EnvKey" "grant = n @ '':'' @ s"
        "parse_env_scope s = Some p"
      by (auto simp: env_entry_def)
    have nc: "CHR '':'' \<notin> set n" "CHR '':'' \<notin> set m" using capability_no_colon d(1) d'(1) by auto
    from d(2) show "e = (n, EnvScope p)"
    proof (elim disjE conjE exE)
      fix s' q assume "grant = m @ '':'' @ s'" "sc = EnvScope q" "parse_env_scope s' = Some q"
      with prefix_before_colon [of m s' n s] nc d' e show ?thesis by simp
    next
      fix s' assume "grant = m @ '':'' @ s'" "cap_scope d = PathGlob"
      with prefix_before_colon [of m s' n s] nc d' d(1) show ?thesis by simp
    next
      assume "grant = m" with d'(3) nc show ?thesis by auto
    qed
  qed
qed

lemma scope_case:
  "(case s of PathScope glob \<Rightarrow> P glob | _ \<Rightarrow> False) \<longleftrightarrow> (\<exists>glob. s = PathScope glob \<and> P glob)"
  "(case s of EnvScope p \<Rightarrow> Q p | _ \<Rightarrow> False) \<longleftrightarrow> (\<exists>p. s = EnvScope p \<and> Q p)"
  by (cases s; simp)+

lemma path_matches_scopes:
  "path_matches fs g name p \<longleftrightarrow> (\<exists>glob. PathScope glob \<in> set (scopes_of g name) \<and> glob_matches fs glob p)"
  unfolding path_matches_def scopes_of_def scope_case by (cases "g name") (auto simp: list_ex_iff)

lemma env_matches_scopes:
  "env_matches g name k \<longleftrightarrow> (\<exists>p. EnvScope p \<in> set (scopes_of g name) \<and> env_pattern_matches p k)"
  unfolding env_matches_def scopes_of_def scope_case by (cases "g name") (auto simp: list_ex_iff)

text \<open>
  C22. A set of grants gives exactly what its strings say: a path is in scope of a capability when
  one of the strings is that capability with a glob the path matches, and an environment key when
  one of them has a pattern of it; nothing else is in scope.
\<close>

theorem parse_grants_exact:
  assumes "parse_grants gs = Ok g"
  shows "(path_matches fs g name p \<longleftrightarrow> (\<exists>grant \<in> set gs. \<exists>glob. path_entry grant name glob \<and> glob_matches fs glob p))
    \<and> (env_matches g name key \<longleftrightarrow> (\<exists>grant \<in> set gs. \<exists>pat. env_entry grant name pat \<and> env_pattern_matches pat key))"
proof -
  obtain es where es: "map grant_entry gs = map Ok es" "\<And>n. set (scopes_of g n) = {s. (n, s) \<in> set es}"
    using parse_grants_Ok [OF assms] by metis
  have "(name, PathScope glob) \<in> set es \<longleftrightarrow> (\<exists>grant \<in> set gs. path_entry grant name glob)" for glob
    by (rule entries_iff [OF es(1)]) (rule path_entry_iff)
  moreover have "(name, EnvScope pat) \<in> set es \<longleftrightarrow> (\<exists>grant \<in> set gs. env_entry grant name pat)" for pat
    by (rule entries_iff [OF es(1)]) (rule env_entry_iff)
  ultimately show ?thesis by (auto simp: path_matches_scopes env_matches_scopes es(2))
qed


lemma parse_grants_exact_witness:
  "\<exists>g. parse_grants [''fs.read:/etc/*'', ''env.read:APP_*''] = Ok g
     \<and> env_matches g ''env.read'' ''APP_MODE'' \<and> \<not> path_matches sample_fs g ''fs.stat'' ''/etc/passwd''"
proof -
  let ?gs = "[''fs.read:/etc/*'', ''env.read:APP_*'']"
  have "is_ok (parse_grants ?gs)" by code_simp
  then obtain g where g: "parse_grants ?gs = Ok g" by (cases "parse_grants ?gs") auto
  have "find_capability ''env.read'' = Some \<lparr>cap_name = ''env.read'', cap_scope = EnvKey\<rparr>"
    "parse_env_scope ''APP_*'' = Some \<lparr>ep_prefix = ''APP_'', ep_wildcard = True\<rparr>"
    "env_pattern_matches \<lparr>ep_prefix = ''APP_'', ep_wildcard = True\<rparr> ''APP_MODE''" by code_simp+
  then have e: "env_entry ''env.read:APP_*'' ''env.read'' \<lparr>ep_prefix = ''APP_'', ep_wildcard = True\<rparr>"
    "env_pattern_matches \<lparr>ep_prefix = ''APP_'', ep_wildcard = True\<rparr> ''APP_MODE''"
    by (auto simp: env_entry_def)
  have "env_matches g ''env.read'' ''APP_MODE''"
    using parse_grants_exact [OF g, of sample_fs "''env.read''" "''/''" "''APP_MODE''"] e by auto
  moreover have "\<not> path_matches sample_fs g ''fs.stat'' ''/etc/passwd''"
    using parse_grants_exact [OF g, of sample_fs "''fs.stat''" "''/etc/passwd''" "''K''"]
    by (auto simp: path_entry_def)
  ultimately show ?thesis using g by blast
qed

end
