(* ===== verification/Json.thy ===== *)
theory Json
  imports Complex_Main Rust_Str
begin

text \<open>
  Values of \<open>serde_json::Value\<close>, as far as the program looks into them. An object is an
  association list in the order of its text; \<open>get\<close> of a missing key is \<open>None\<close> and indexing gives
  \<open>Null\<close>. Numbers are integers or, for \<open>f64\<close>, rationals: floating-point rounding is not modelled.
\<close>

datatype json =
    JNull
  | JBool bool
  | JInt int
  | JFloat rat
  | JStr str
  | JArr "json list"
  | JObj "(str \<times> json) list"

fun json_get :: "json \<Rightarrow> str \<Rightarrow> json option" where
  "json_get (JObj fields) key = map_of fields key"
| "json_get _ key = None"

definition json_index :: "json \<Rightarrow> str \<Rightarrow> json" where
  "json_index v key = (case json_get v key of Some x \<Rightarrow> x | None \<Rightarrow> JNull)"

fun as_str :: "json \<Rightarrow> str option" where
  "as_str (JStr s) = Some s"
| "as_str _ = None"

fun as_u64 :: "json \<Rightarrow> nat option" where
  "as_u64 (JInt n) = (if 0 \<le> n \<and> n < int u64_bound then Some (nat n) else None)"
| "as_u64 _ = None"

fun as_i64 :: "json \<Rightarrow> int option" where
  "as_i64 (JInt n) = (if - 9223372036854775808 \<le> n \<and> n < 9223372036854775808 then Some n else None)"
| "as_i64 _ = None"

fun as_bool :: "json \<Rightarrow> bool option" where
  "as_bool (JBool b) = Some b"
| "as_bool _ = None"

fun as_array :: "json \<Rightarrow> json list option" where
  "as_array (JArr xs) = Some xs"
| "as_array _ = None"

text \<open>The field values the \<open>json!\<close> macro accepts: strings, unsigned integers and options.\<close>

abbreviation jnat :: "nat \<Rightarrow> json" where "jnat n \<equiv> JInt (int n)"

definition jopt :: "('a \<Rightarrow> json) \<Rightarrow> 'a option \<Rightarrow> json" where
  "jopt f x = (case x of None \<Rightarrow> JNull | Some v \<Rightarrow> f v)"

lemma as_u64_jnat: "n < u64_bound \<Longrightarrow> as_u64 (jnat n) = Some n"
  by simp

end
