(* ===== verification/Observe.thy ===== *)
theory Observe
  imports Json
begin

text \<open>
  \<open>crates/novbot-skill-runtime/src/observe.rs\<close>: the collectors behind \<open>sys.metrics.read\<close>,
  \<open>proc.list.read\<close> and \<open>net.interfaces.read\<close>. The parsers of the kernel's text files and the
  assembly of the JSON bodies are modelled; what the operating system answers is the parameter
  \<open>os_view\<close> (files, directories, \<open>statvfs\<close>, \<open>getifaddrs\<close>, the password database). The process-wide
  test override is the argument \<open>fixture\<close>.
\<close>

subsection \<open>Data\<close>

definition SKIP_FSTYPE :: "str list" where
  "SKIP_FSTYPE =
    [''proc'', ''sysfs'', ''devtmpfs'', ''devpts'', ''cgroup'', ''cgroup2'', ''pstore'', ''bpf'',
     ''tracefs'', ''debugfs'', ''securityfs'', ''configfs'', ''fusectl'', ''mqueue'', ''autofs'',
     ''rpc_pipefs'', ''binfmt_misc'', ''nsfs'', ''ramfs'', ''nfs'', ''nfs4'', ''cifs'', ''smb3'']"

record cpu_times =
  ct_user :: nat
  ct_nice :: nat
  ct_system :: nat
  ct_idle :: nat
  ct_iowait :: nat
  ct_irq :: nat
  ct_softirq :: nat
  ct_steal :: nat

record memory =
  total_bytes :: nat
  used_bytes :: nat
  available_bytes :: nat
  swap_total_bytes :: nat
  swap_used_bytes :: nat

record disk_io =
  di_name :: str
  reads_completed :: nat
  sectors_read :: nat
  writes_completed :: nat
  sectors_written :: nat
  io_in_progress :: nat

record mount_line =
  ml_mount :: str
  ml_fstype :: str

record iface_counters =
  if_name :: str
  rx_bytes :: nat
  rx_packets :: nat
  rx_errors :: nat
  tx_bytes :: nat
  tx_packets :: nat
  tx_errors :: nat

record proc_stat =
  ps_name :: str
  ps_state :: str
  ps_ppid :: nat
  ps_utime :: nat
  ps_stime :: nat
  ps_starttime :: nat

text \<open>The fields of \<open>libc::statvfs\<close> that are read, and the values made from them.\<close>

record statvfs =
  f_frsize :: nat
  f_blocks :: nat
  f_bfree :: nat
  f_bavail :: nat
  f_files :: nat
  f_ffree :: nat
  f_favail :: nat

record vfs_usage =
  vu_total_bytes :: nat
  vu_used_bytes :: nat
  vu_available_bytes :: nat
  vu_inodes_total :: nat
  vu_inodes_used :: nat
  vu_inodes_available :: nat

text \<open>
  \<open>os_read_dir\<close> lists the entries of a directory; an entry that fails or whose name is not UTF-8
  is \<open>None\<close>, and both are skipped by every caller here.
\<close>

record os_view =
  os_read_text :: "str \<Rightarrow> (str, str) result"
  os_read_lossy :: "str \<Rightarrow> str option"
  os_read_dir :: "str \<Rightarrow> (str option list, str) result"
  os_is_file :: "str \<Rightarrow> bool"
  os_statvfs :: "str \<Rightarrow> statvfs option"
  os_user_name :: "nat \<Rightarrow> str"
  os_addresses :: "str \<Rightarrow> str list"
  os_parse_f64 :: "str \<Rightarrow> rat option"

record observe_fixture =
  fx_metrics :: "str option"
  fx_processes :: "str option"
  fx_interfaces :: "str option"

definition fixture_text :: "observe_fixture option \<Rightarrow> (observe_fixture \<Rightarrow> str option) \<Rightarrow> str option" where
  "fixture_text slot pick = (case slot of None \<Rightarrow> None | Some f \<Rightarrow> pick f)"

definition read_ok :: "os_view \<Rightarrow> str \<Rightarrow> str option" where
  "read_ok os p = (case os_read_text os p of Inr t \<Rightarrow> Some t | Inl _ \<Rightarrow> None)"

subsection \<open>CPU, load, memory\<close>

definition num_at :: "nat list \<Rightarrow> nat \<Rightarrow> nat" where
  "num_at nums i = (if i < length nums then nums ! i else 0)"

fun cpu_line :: "str list \<Rightarrow> cpu_times option" where
  "cpu_line [] = None"
| "cpu_line (line # ls) =
     (case split_whitespace line of
        [] \<Rightarrow> cpu_line ls
      | label # parts \<Rightarrow>
          if label \<noteq> ''cpu'' then cpu_line ls
          else (let nums = List.map_filter parse_u64 parts; n = num_at nums
                in Some \<lparr>ct_user = n 0, ct_nice = n 1, ct_system = n 2, ct_idle = n 3,
                     ct_iowait = n 4, ct_irq = n 5, ct_softirq = n 6, ct_steal = n 7\<rparr>))"

definition parse_cpu_times :: "str \<Rightarrow> cpu_times option" where
  "parse_cpu_times text = cpu_line (lines text)"

definition cpu_idle :: "cpu_times \<Rightarrow> nat" where
  "cpu_idle t = sat_add (ct_idle t) (ct_iowait t)"

definition cpu_total :: "cpu_times \<Rightarrow> nat" where
  "cpu_total t =
     sat_add (sat_add (sat_add (sat_add (sat_add (sat_add (ct_user t) (ct_nice t)) (ct_system t))
       (cpu_idle t)) (ct_irq t)) (ct_softirq t)) (ct_steal t)"

text \<open>\<open>total - idle\<close> is an unchecked \<open>u64\<close> subtraction; here on integers, so an underflow would show.\<close>

definition cpu_usage_percent :: "cpu_times \<Rightarrow> rat" where
  "cpu_usage_percent t =
     (if cpu_total t = 0 then 0
      else of_int (int (cpu_total t) - int (cpu_idle t)) * 100 / of_nat (cpu_total t))"

definition parse_loadavg :: "(str \<Rightarrow> 'f option) \<Rightarrow> str \<Rightarrow> ('f \<times> 'f \<times> 'f) option" where
  "parse_loadavg parse_f64 text =
     (case split_whitespace text of
        a # b # c # _ \<Rightarrow>
          (case parse_f64 a of None \<Rightarrow> None | Some one \<Rightarrow>
          (case parse_f64 b of None \<Rightarrow> None | Some five \<Rightarrow>
          (case parse_f64 c of None \<Rightarrow> None | Some fifteen \<Rightarrow> Some (one, five, fifteen))))
      | _ \<Rightarrow> None)"

definition first_u64 :: "str \<Rightarrow> nat option" where
  "first_u64 text = (case split_whitespace text of [] \<Rightarrow> None | p # _ \<Rightarrow> parse_u64 p)"

definition meminfo_map :: "str \<Rightarrow> str \<rightharpoonup> nat" where
  "meminfo_map text =
     foldl (\<lambda>m line. case split_once line CHR '':'' of
         None \<Rightarrow> m
       | Some (key, r) \<Rightarrow>
           (case first_u64 r of None \<Rightarrow> m | Some kb \<Rightarrow> m(trim key \<mapsto> kb)))
       Map.empty (lines text)"

definition parse_meminfo :: "str \<Rightarrow> memory option" where
  "parse_meminfo text =
     (let m = meminfo_map text in
      case m ''MemTotal'' of None \<Rightarrow> None | Some tot \<Rightarrow>
      (case (case m ''MemAvailable'' of Some a \<Rightarrow> Some a | None \<Rightarrow> m ''MemFree'') of
         None \<Rightarrow> None
       | Some available \<Rightarrow>
           (let swap_total = unwrap_or (m ''SwapTotal'') 0; swap_free = unwrap_or (m ''SwapFree'') 0
            in Some \<lparr>total_bytes = sat_mul tot 1024,
                 used_bytes = sat_mul (sat_sub tot available) 1024,
                 available_bytes = sat_mul available 1024,
                 swap_total_bytes = sat_mul swap_total 1024,
                 swap_used_bytes = sat_mul (sat_sub swap_total swap_free) 1024\<rparr>)))"

fun btime_line :: "str list \<Rightarrow> nat option" where
  "btime_line [] = None"
| "btime_line (line # ls) =
     (case strip_prefix line ''btime '' of None \<Rightarrow> btime_line ls | Some r \<Rightarrow> parse_u64 (trim r))"

definition parse_btime :: "str \<Rightarrow> nat option" where
  "parse_btime text = btime_line (lines text)"

subsection \<open>Disks and mounts\<close>

definition num_field :: "str list \<Rightarrow> nat \<Rightarrow> nat" where
  "num_field cols i = unwrap_or (parse_u64 (cols ! i)) 0"

definition diskstats_line :: "str set option \<Rightarrow> str \<Rightarrow> disk_io option" where
  "diskstats_line only line =
     (let cols = split_whitespace line in
      if length cols < 12 then None
      else (let name = cols ! 2 in
        if starts_with name ''loop'' \<or> starts_with name ''ram'' then None
        else if (case only of None \<Rightarrow> False | Some names \<Rightarrow> name \<notin> names) then None
        else Some \<lparr>di_name = name, reads_completed = num_field cols 3, sectors_read = num_field cols 5,
          writes_completed = num_field cols 7, sectors_written = num_field cols 9,
          io_in_progress = num_field cols 11\<rparr>))"

definition parse_diskstats :: "str \<Rightarrow> str set option \<Rightarrow> disk_io list" where
  "parse_diskstats text only = List.map_filter (diskstats_line only) (lines text)"

definition sys_block_names :: "os_view \<Rightarrow> str \<Rightarrow> str set option" where
  "sys_block_names os sys_block =
     (case os_read_dir os sys_block of
        Inl _ \<Rightarrow> None
      | Inr entries \<Rightarrow>
          (let names = filter (\<lambda>n. n \<noteq> [] \<and> \<not> contains_char n CHR ''.'') (List.map_filter id entries)
           in if names = [] then None else Some (set names)))"

text \<open>
  \<open>unescape_mount\<close> walks the bytes. The slice \<open>&field[index + 1..index + 4]\<close> panics when its end is
  no character boundary: then the result is \<open>None\<close>.
\<close>

function unescape_from :: "str \<Rightarrow> str \<Rightarrow> str option" where
  "unescape_from out [] = Some out"
| "unescape_from out (b # bs) =
     (if b = CHR 0x5C \<and> length bs \<ge> 3 then
        (if \<not> is_char_boundary (b # bs) 4 then None
         else (case from_str_radix 8 u8_bound (take 3 bs) of
             Some v \<Rightarrow> unescape_from (out @ char_from_byte v) (drop 3 bs)
           | None \<Rightarrow> unescape_from (out @ char_from_byte (byte b)) bs))
      else unescape_from (out @ char_from_byte (byte b)) bs)"
  by pat_completeness auto
termination
  by (relation "measure (\<lambda>(out, bs). length bs)") auto

definition unescape_mount :: "str \<Rightarrow> str option" where
  "unescape_mount field = unescape_from [] field"

fun parse_mount_lines :: "str list \<Rightarrow> mount_line list option" where
  "parse_mount_lines [] = Some []"
| "parse_mount_lines (line # ls) =
     (let cols = split_whitespace line in
      if length cols < 3 then parse_mount_lines ls
      else (case unescape_mount (cols ! 1) of None \<Rightarrow> None | Some m \<Rightarrow>
           (case unescape_mount (cols ! 2) of None \<Rightarrow> None | Some f \<Rightarrow>
           (case parse_mount_lines ls of None \<Rightarrow> None | Some ms \<Rightarrow>
              Some (\<lparr>ml_mount = m, ml_fstype = f\<rparr> # ms)))))"

definition parse_mounts :: "str \<Rightarrow> mount_line list option" where
  "parse_mounts text = parse_mount_lines (lines text)"

definition vfs_usage :: "os_view \<Rightarrow> str \<Rightarrow> vfs_usage option" where
  "vfs_usage os path =
     (if contains_char path CHR 0x00 then None
      else (case os_statvfs os path of
          None \<Rightarrow> None
        | Some b \<Rightarrow>
            (let tot = sat_mul (f_blocks b) (f_frsize b);
                 free = sat_mul (f_bfree b) (f_frsize b);
                 available = sat_mul (f_bavail b) (f_frsize b)
             in Some \<lparr>vu_total_bytes = tot, vu_used_bytes = sat_sub tot free,
                  vu_available_bytes = available, vu_inodes_total = f_files b,
                  vu_inodes_used = sat_sub (f_files b) (f_ffree b), vu_inodes_available = f_favail b\<rparr>)))"

definition mount_json :: "mount_line \<Rightarrow> vfs_usage \<Rightarrow> json" where
  "mount_json m u = JObj
     [(''mount'', JStr (ml_mount m)), (''fstype'', JStr (ml_fstype m)),
      (''total_bytes'', jnat (vu_total_bytes u)), (''used_bytes'', jnat (vu_used_bytes u)),
      (''available_bytes'', jnat (vu_available_bytes u)), (''inodes_total'', jnat (vu_inodes_total u)),
      (''inodes_used'', jnat (vu_inodes_used u)), (''inodes_available'', jnat (vu_inodes_available u))]"

fun mount_rows :: "os_view \<Rightarrow> str set \<Rightarrow> mount_line list \<Rightarrow> (mount_line \<times> vfs_usage) list" where
  "mount_rows os seen [] = []"
| "mount_rows os seen (m # ms) =
     (if ml_mount m \<noteq> ''/'' \<and> ml_fstype m \<in> set SKIP_FSTYPE then mount_rows os seen ms
      else if ml_mount m \<in> seen then mount_rows os seen ms
      else (case vfs_usage os (ml_mount m) of
          None \<Rightarrow> mount_rows os (insert (ml_mount m) seen) ms
        | Some u \<Rightarrow> (m, u) # mount_rows os (insert (ml_mount m) seen) ms))"

definition mount_usages :: "os_view \<Rightarrow> str \<Rightarrow> json list option" where
  "mount_usages os text =
     (case parse_mounts text of
        None \<Rightarrow> None
      | Some ms \<Rightarrow> Some (map (\<lambda>(m, u). mount_json m u) (mount_rows os {} ms)))"

definition disk_io_json :: "disk_io \<Rightarrow> json" where
  "disk_io_json r = JObj
     [(''name'', JStr (di_name r)), (''reads_completed'', jnat (reads_completed r)),
      (''sectors_read'', jnat (sectors_read r)), (''writes_completed'', jnat (writes_completed r)),
      (''sectors_written'', jnat (sectors_written r)), (''io_in_progress'', jnat (io_in_progress r))]"

text \<open>\<open>None\<close> when a slice panics, otherwise the body or the error text.\<close>

definition metrics_value ::
    "os_view \<Rightarrow> str \<Rightarrow> str option \<Rightarrow> str \<Rightarrow> str \<Rightarrow> str set option \<Rightarrow> str \<Rightarrow> (json, str) result option" where
  "metrics_value os stat_text load_text mem_text diskstats only_disks mounts =
     (case parse_cpu_times stat_text of
        None \<Rightarrow> Some (Err ''proc stat has no cpu line'')
      | Some cpu \<Rightarrow>
     (case parse_meminfo mem_text of
        None \<Rightarrow> Some (Err ''proc meminfo is incomplete'')
      | Some mem \<Rightarrow>
     (let load = (case load_text of None \<Rightarrow> None | Some t \<Rightarrow> parse_loadavg (os_parse_f64 os) t)
      in case mount_usages os mounts of
           None \<Rightarrow> None
         | Some disks \<Rightarrow> Some (Ok (JObj
             [(''cpu'', JObj
                [(''usage_percent'', JFloat (cpu_usage_percent cpu)),
                 (''load_avg_1m'', jopt (\<lambda>(a, b, c). JFloat a) load),
                 (''load_avg_5m'', jopt (\<lambda>(a, b, c). JFloat b) load),
                 (''load_avg_15m'', jopt (\<lambda>(a, b, c). JFloat c) load)]),
              (''memory'', JObj
                [(''total_bytes'', jnat (total_bytes mem)), (''used_bytes'', jnat (used_bytes mem)),
                 (''available_bytes'', jnat (available_bytes mem)),
                 (''swap_total_bytes'', jnat (swap_total_bytes mem)),
                 (''swap_used_bytes'', jnat (swap_used_bytes mem))]),
              (''disks'', JArr disks),
              (''disk_io'', JArr (map disk_io_json (parse_diskstats diskstats only_disks)))])))))"

text \<open>\<open>Value::to_string\<close> is the argument \<open>render\<close>.\<close>

definition metrics_json ::
    "os_view \<Rightarrow> observe_fixture option \<Rightarrow> (json \<Rightarrow> str) \<Rightarrow> (str, str) result option" where
  "metrics_json os fixture render =
     (case fixture_text fixture fx_metrics of
        Some text \<Rightarrow> Some (Ok text)
      | None \<Rightarrow>
          if \<not> os_is_file os ''/proc/stat'' \<or> \<not> os_is_file os ''/proc/meminfo''
          then Some (Err ''proc metrics are not available'')
          else (case os_read_text os ''/proc/stat'' of Inl e \<Rightarrow> Some (Err e) | Inr stat_text \<Rightarrow>
               (case os_read_text os ''/proc/meminfo'' of Inl e \<Rightarrow> Some (Err e) | Inr mem_text \<Rightarrow>
               (case metrics_value os stat_text (read_ok os ''/proc/loadavg'') mem_text
                    (unwrap_or (read_ok os ''/proc/diskstats'') [])
                    (sys_block_names os ''/sys/block'') (unwrap_or (read_ok os ''/proc/mounts'') []) of
                  None \<Rightarrow> None
                | Some (Inl e) \<Rightarrow> Some (Err e)
                | Some (Inr v) \<Rightarrow> Some (Ok (render v))))))"


subsection \<open>Processes\<close>

definition parse_proc_stat :: "str \<Rightarrow> proc_stat option" where
  "parse_proc_stat text0 =
     (let text = trim text0 in
      case find_char text CHR ''('' of None \<Rightarrow> None | Some op \<Rightarrow>
      (case rfind_char text CHR '')'' of None \<Rightarrow> None | Some cl \<Rightarrow>
        if cl \<le> op then None
        else (let name = take (cl - (op + 1)) (drop (op + 1) text);
                  cols = split_whitespace (drop (cl + 1) text)
              in if length cols \<le> 19 then None
                 else (case parse_u64 (cols ! 1) of None \<Rightarrow> None | Some ppid \<Rightarrow>
                      (case parse_u64 (cols ! 11) of None \<Rightarrow> None | Some utime \<Rightarrow>
                      (case parse_u64 (cols ! 12) of None \<Rightarrow> None | Some stime \<Rightarrow>
                      (case parse_u64 (cols ! 19) of None \<Rightarrow> None | Some starttime \<Rightarrow>
                        Some \<lparr>ps_name = name, ps_state = cols ! 0, ps_ppid = ppid, ps_utime = utime,
                          ps_stime = stime, ps_starttime = starttime\<rparr>)))))))"

definition first_word_parse :: "(str \<Rightarrow> nat option) \<Rightarrow> str \<Rightarrow> nat option" where
  "first_word_parse parse text = (case split_whitespace text of [] \<Rightarrow> None | p # _ \<Rightarrow> parse p)"

text \<open>The last \<open>Uid:\<close> line and the last \<open>VmRSS:\<close> line decide, also when they do not parse.\<close>

definition status_line :: "nat option \<times> nat option \<Rightarrow> str \<Rightarrow> nat option \<times> nat option" where
  "status_line acc line =
     (case strip_prefix line ''Uid:'' of
        Some r \<Rightarrow> (first_word_parse parse_u32 r, snd acc)
      | None \<Rightarrow>
          (case strip_prefix line ''VmRSS:'' of
             Some r \<Rightarrow> (fst acc, first_word_parse parse_u64 r)
           | None \<Rightarrow> acc))"

definition parse_status :: "str \<Rightarrow> nat option \<times> nat option" where
  "parse_status text = foldl status_line (None, None) (lines text)"

text \<open>
  One entry of the loop; \<open>None\<close> is \<open>continue\<close>. The cache of user names only saves calls of
  \<open>user_name\<close>, so it does not appear. The path \<open>base.join(pid).join("stat")\<close> is text.
\<close>

definition process_row :: "os_view \<Rightarrow> str \<Rightarrow> nat option \<Rightarrow> nat \<Rightarrow> nat \<Rightarrow> str option \<Rightarrow> json option" where
  "process_row os base btime clk now_unix entry =
     (case entry of None \<Rightarrow> None | Some pid_text \<Rightarrow>
        if \<not> list_all is_ascii_digit pid_text then None
        else (case parse_u64 pid_text of None \<Rightarrow> None | Some pid \<Rightarrow>
             (case os_read_lossy os (base @ ''/'' @ pid_text @ ''/stat'') of None \<Rightarrow> None | Some stat_body \<Rightarrow>
             (case parse_proc_stat stat_body of None \<Rightarrow> None | Some parsed \<Rightarrow>
               (let status = unwrap_or (os_read_lossy os (base @ ''/'' @ pid_text @ ''/status'')) [];
                    (status_uid, rss_kb) = parse_status status;
                    memory_bytes = (case rss_kb of Some kb \<Rightarrow> sat_mul kb 1024 | None \<Rightarrow> 0);
                    cpu_ticks = sat_add (ps_utime parsed) (ps_stime parsed);
                    start_unix = map_option (\<lambda>boot. sat_add boot (ps_starttime parsed div clk)) btime;
                    cpu_percent = (case start_unix of
                        Some start \<Rightarrow>
                          (of_nat cpu_ticks / of_nat clk) / of_nat (max (sat_sub now_unix start) 1) * (100 :: rat)
                      | None \<Rightarrow> 0)
                in Some (JObj
                  [(''pid'', jnat pid), (''ppid'', jnat (ps_ppid parsed)), (''name'', JStr (ps_name parsed)),
                   (''uid'', jopt jnat status_uid), (''user'', jopt (\<lambda>u. JStr (os_user_name os u)) status_uid),
                   (''state'', JStr (ps_state parsed)), (''cpu_ticks'', jnat cpu_ticks),
                   (''cpu_percent'', JFloat cpu_percent), (''memory_bytes'', jnat memory_bytes),
                   (''start_time_unix_ms'', jopt (\<lambda>secs. jnat (sat_mul secs 1000)) start_unix)]))))))"

definition row_pid :: "json \<Rightarrow> nat" where
  "row_pid row = unwrap_or (as_u64 (json_index row ''pid'')) 0"

definition processes_from_root :: "os_view \<Rightarrow> str \<Rightarrow> nat \<Rightarrow> nat \<Rightarrow> (json, str) result" where
  "processes_from_root os base now_unix clk_tck =
     and_then (os_read_text os (base @ ''/stat'')) (\<lambda>stat_text.
       let btime = parse_btime stat_text; clk = max clk_tck 1 in
       and_then (os_read_dir os base) (\<lambda>entries.
         let rows = List.map_filter (process_row os base btime clk now_unix) entries
         in Ok (JObj [(''processes'', JArr (sort_key row_pid rows))])))"

definition processes_json ::
    "os_view \<Rightarrow> observe_fixture option \<Rightarrow> nat \<Rightarrow> nat \<Rightarrow> (json \<Rightarrow> str) \<Rightarrow> (str, str) result" where
  "processes_json os fixture now_unix clk_tck render =
     (case fixture_text fixture fx_processes of
        Some text \<Rightarrow> Ok text
      | None \<Rightarrow>
          if \<not> os_is_file os ''/proc/stat'' then Err ''proc is not available''
          else and_then (processes_from_root os ''/proc'' now_unix clk_tck) (\<lambda>v. Ok (render v)))"

subsection \<open>Interfaces\<close>

definition net_dev_line :: "str \<Rightarrow> iface_counters option" where
  "net_dev_line line =
     (case split_once line CHR '':'' of None \<Rightarrow> None | Some (name0, r) \<Rightarrow>
       (let name = trim name0; cols = split_whitespace r in
        if name = [] then None
        else if length cols < 11 then None
        else Some \<lparr>if_name = name, rx_bytes = num_field cols 0, rx_packets = num_field cols 1,
          rx_errors = num_field cols 2, tx_bytes = num_field cols 8, tx_packets = num_field cols 9,
          tx_errors = num_field cols 10\<rparr>))"

definition parse_proc_net_dev :: "str \<Rightarrow> iface_counters list" where
  "parse_proc_net_dev text = List.map_filter net_dev_line (lines text)"

definition link_state :: "os_view \<Rightarrow> str option \<Rightarrow> str \<Rightarrow> str \<times> bool" where
  "link_state os sys_class_net name =
     (case sys_class_net of None \<Rightarrow> (''unknown'', False) | Some base \<Rightarrow>
       (let dir = base @ ''/'' @ name;
            operstate = (case read_ok os (dir @ ''/operstate'') of
                Some t \<Rightarrow> if trim t = [] then ''unknown'' else trim t
              | None \<Rightarrow> ''unknown'');
            flags_up = (case read_ok os (dir @ ''/flags'') of
                Some t \<Rightarrow>
                  (case from_str_radix 16 u32_bound (trim_start_matches (trim_start_matches (trim t) ''0x'') ''0X'') of
                     Some bits \<Rightarrow> odd bits
                   | None \<Rightarrow> False)
              | None \<Rightarrow> False)
        in (operstate, operstate = ''up'' \<or> flags_up)))"

definition iface_json :: "os_view \<Rightarrow> str option \<Rightarrow> (str \<Rightarrow> str list) \<Rightarrow> iface_counters \<Rightarrow> json" where
  "iface_json os sys_class_net addresses row =
     (let (operstate, up) = link_state os sys_class_net (if_name row);
          addrs = sort_dedup (addresses (if_name row))
      in JObj
        [(''name'', JStr (if_name row)), (''addresses'', JArr (map JStr addrs)),
         (''operstate'', JStr operstate), (''up'', JBool up),
         (''rx_bytes'', jnat (rx_bytes row)), (''rx_packets'', jnat (rx_packets row)),
         (''rx_errors'', jnat (rx_errors row)), (''tx_bytes'', jnat (tx_bytes row)),
         (''tx_packets'', jnat (tx_packets row)), (''tx_errors'', jnat (tx_errors row))])"

definition interfaces_value :: "os_view \<Rightarrow> str \<Rightarrow> str option \<Rightarrow> (str \<Rightarrow> str list) \<Rightarrow> json" where
  "interfaces_value os dev_text sys_class_net addresses =
     JObj [(''interfaces'', JArr (map (iface_json os sys_class_net addresses) (parse_proc_net_dev dev_text)))]"

definition interfaces_json :: "os_view \<Rightarrow> observe_fixture option \<Rightarrow> (json \<Rightarrow> str) \<Rightarrow> (str, str) result" where
  "interfaces_json os fixture render =
     (case fixture_text fixture fx_interfaces of
        Some text \<Rightarrow> Ok text
      | None \<Rightarrow>
          if \<not> os_is_file os ''/proc/net/dev'' then Err ''proc net dev is not available''
          else and_then (os_read_text os ''/proc/net/dev'') (\<lambda>text.
            Ok (render (interfaces_value os text (Some ''/sys/class/net'') (os_addresses os)))))"

end
