(* ===== verification/Observe_Correct.thy ===== *)
theory Observe_Correct
  imports Observe
begin

text \<open>
  What the collectors of \<open>Observe\<close> compute: bounds of the derived figures, the command name of a
  process recovered from its \<open>stat\<close> line, one row per mount point, and the escapes of
  \<open>/proc/mounts\<close>.
\<close>

subsection \<open>Saturating arithmetic\<close>

lemma sat_add_ge: "a \<le> u64_max \<Longrightarrow> a \<le> sat_add a b" "b \<le> u64_max \<Longrightarrow> b \<le> sat_add a b"
  by (simp_all add: sat_add_def)

lemma sat_le [simp]: "sat_add a b \<le> u64_max" "sat_mul a b \<le> u64_max"
  by (simp_all add: sat_add_def sat_mul_def)

lemma sat_mul_mono: "a \<le> b \<Longrightarrow> sat_mul a c \<le> sat_mul b c"
  by (simp add: sat_mul_def min.coboundedI1 mult_le_mono1)

lemma sat_sub_le: "sat_sub a b \<le> a"
  by (simp add: sat_sub_def)

subsection \<open>CPU and memory\<close>

lemma cpu_idle_le_total: "cpu_idle t \<le> cpu_total t"
proof -
  have i: "cpu_idle t \<le> u64_max" by (simp add: cpu_idle_def)
  have "cpu_idle t \<le> sat_add (sat_add (sat_add (ct_user t) (ct_nice t)) (ct_system t)) (cpu_idle t)"
    by (rule sat_add_ge(2)) (rule i)
  also have "\<dots> \<le> sat_add \<dots> (ct_irq t)" by (rule sat_add_ge(1)) simp
  also have "\<dots> \<le> sat_add \<dots> (ct_softirq t)" by (rule sat_add_ge(1)) simp
  also have "\<dots> \<le> sat_add \<dots> (ct_steal t)" by (rule sat_add_ge(1)) simp
  finally show ?thesis by (simp only: cpu_total_def)
qed

text \<open>
  C33. The share of busy CPU time is between 0 and 100 for every content of \<open>/proc/stat\<close>: the idle
  sum never exceeds the total, so the unchecked subtraction does not underflow even where the sums
  saturate.
\<close>

theorem cpu_usage_in_range:
  "cpu_idle t \<le> cpu_total t \<and> 0 \<le> cpu_usage_percent t \<and> cpu_usage_percent t \<le> 100"
proof -
  note le = cpu_idle_le_total [of t]
  show ?thesis
  proof (cases "cpu_total t = 0")
    case False
    have eq: "cpu_usage_percent t = of_nat (cpu_total t - cpu_idle t) * 100 / of_nat (cpu_total t)"
      using le False by (simp add: cpu_usage_percent_def of_nat_diff)
    have "(of_nat (cpu_total t - cpu_idle t) :: rat) \<le> of_nat (cpu_total t)" by simp
    then show ?thesis using le False unfolding eq by (simp add: field_simps)
  qed (use le in \<open>simp add: cpu_usage_percent_def\<close>)
qed

text \<open>
  The memory figures are consistent: what is used never exceeds the total, for memory and for
  swap, and every figure fits in 64 bits, whatever kibibyte counts the kernel prints.
\<close>

theorem parse_meminfo_consistent:
  assumes "parse_meminfo text = Some m"
  shows "used_bytes m \<le> total_bytes m \<and> swap_used_bytes m \<le> swap_total_bytes m
    \<and> total_bytes m < u64_bound \<and> available_bytes m < u64_bound \<and> swap_total_bytes m < u64_bound"
proof -
  have lt: "sat_mul a b < u64_bound" for a b by (simp add: sat_mul_def)
  from assms show ?thesis
    by (auto simp: parse_meminfo_def Let_def lt split: option.splits
        intro!: sat_mul_mono sat_sub_le)
qed

abbreviation nl :: char where "nl \<equiv> CHR 0x0A"

lemma parse_meminfo_consistent_witness:
  "\<exists>m. parse_meminfo (''MemTotal: 8 kB'' @ [nl] @ ''MemAvailable: 9 kB'' @ [nl]) = Some m
     \<and> used_bytes m \<le> total_bytes m"
proof -
  let ?t = "''MemTotal: 8 kB'' @ [nl] @ ''MemAvailable: 9 kB'' @ [nl]"
  have "show_nat 8 = ''8''" "show_nat 9 = ''9''" by code_simp+
  then have n: "parse_u64 ''8'' = Some 8" "parse_u64 ''9'' = Some 9"
    using parse_u64_show_nat [of 8] parse_u64_show_nat [of 9] by simp_all
  have "lines ?t = [''MemTotal: 8 kB'', ''MemAvailable: 9 kB'']"
    "split_once ''MemTotal: 8 kB'' CHR '':'' = Some (''MemTotal'', '' 8 kB'')"
    "split_once ''MemAvailable: 9 kB'' CHR '':'' = Some (''MemAvailable'', '' 9 kB'')"
    "split_whitespace '' 8 kB'' = [''8'', ''kB'']" "split_whitespace '' 9 kB'' = [''9'', ''kB'']"
    "trim ''MemTotal'' = ''MemTotal''" "trim ''MemAvailable'' = ''MemAvailable''" by code_simp+
  then have "meminfo_map ?t = [''MemTotal'' \<mapsto> 8, ''MemAvailable'' \<mapsto> 9]"
    unfolding meminfo_map_def using n by (simp add: first_u64_def)
  then have "parse_meminfo ?t \<noteq> None" by (simp add: parse_meminfo_def Let_def)
  then obtain m where "parse_meminfo ?t = Some m" by blast
  with parse_meminfo_consistent [OF this] show ?thesis by blast
qed

subsection \<open>The \<open>stat\<close> line of a process\<close>

lemma ws_len_newline: "ws_len (map rev ws_encodings) (nl # s) = 1"
  by (simp add: ws_len_def ws_encodings_def)

lemma trim_newline:
  assumes "s \<noteq> []" "is_graph (hd s)" "is_graph (last s)"
  shows "trim (s @ [nl]) = s"
proof -
  have "trim_start (s @ [nl]) = s @ [nl]" using assms by (intro trim_start_graph) simp
  moreover have "trim_by (map rev ws_encodings) (rev s) = rev s"
    using trim_end_graph [of s] assms by (metis rev_rev_ident trim_end_def)
  ultimately show ?thesis
    by (simp add: trim_def trim_end_def trim_by.simps [of _ "nl # rev s"] ws_len_newline)
qed

lemma split_whitespace_join:
  "\<forall>w \<in> set ws. list_all is_graph w \<and> w \<noteq> [] \<Longrightarrow> split_whitespace (join '' '' ws) = ws"
proof (induction ws rule: induct_list012)
  case 1
  show ?case by (simp add: split_whitespace_def)
next
  case (2 w)
  then show ?case by (simp add: split_whitespace_last)
next
  case (3 w v ws)
  then show ?case using split_whitespace_word [of w "join '' '' (v # ws)"] by simp
qed

lemma split_whitespace_space: "split_whitespace (CHR '' '' # s) = split_whitespace s"
  by (simp add: split_whitespace_def space_ws)

lemma last_join_ne:
  "ws \<noteq> [] \<Longrightarrow> last ws \<noteq> [] \<Longrightarrow> join sep ws \<noteq> [] \<and> last (join sep ws) = last (last ws)"
proof (induction ws rule: induct_list012)
  case (3 w v ws)
  then show ?case by simp
qed simp_all

definition stat_line :: "str \<Rightarrow> str \<Rightarrow> str list \<Rightarrow> str" where
  "stat_line pid comm cols = pid @ '' ('' @ comm @ '') '' @ join '' '' cols @ [nl]"

definition plain_word :: "str \<Rightarrow> bool" where
  "plain_word w = (w \<noteq> [] \<and> list_all is_graph w \<and> CHR ''('' \<notin> set w \<and> CHR '')'' \<notin> set w)"

text \<open>
  The command name of a process is read back exactly, also where it has spaces and
  parentheses of its own, and the fields after it are those of the kernel's line.
\<close>

theorem parse_proc_stat_line:
  assumes "plain_word pid" "list_all plain_word cols" "length cols \<ge> 20"
    "parse_u64 (cols ! 1) = Some ppid" "parse_u64 (cols ! 11) = Some utime"
    "parse_u64 (cols ! 12) = Some stime" "parse_u64 (cols ! 19) = Some starttime"
  shows "parse_proc_stat (stat_line pid comm cols) =
    Some \<lparr>ps_name = comm, ps_state = cols ! 0, ps_ppid = ppid, ps_utime = utime, ps_stime = stime,
      ps_starttime = starttime\<rparr>"
proof -
  let ?j = "join '' '' cols"
  let ?t = "pid @ '' ('' @ comm @ '') '' @ ?j"
  have ne: "cols \<noteq> []" using assms(3) by auto
  then have l: "plain_word (last cols)" using assms(2) by (simp add: list_all_iff)
  have j: "?j \<noteq> []" "last ?j = last (last cols)"
    using last_join_ne [of cols "'' ''"] ne l by (simp_all add: plain_word_def)
  have "trim (?t @ [nl]) = ?t"
  proof (rule trim_newline)
    show "is_graph (hd ?t)" using assms(1) by (cases pid) (auto simp: plain_word_def)
    have "is_graph (last (last cols))" using l by (auto simp: plain_word_def list_all_iff)
    then show "is_graph (last ?t)" using j by simp
  qed (use assms(1) in \<open>simp add: plain_word_def\<close>)
  moreover have "?t @ [nl] = stat_line pid comm cols" by (simp add: stat_line_def)
  ultimately have trim: "trim (stat_line pid comm cols) = ?t" by simp
  have op: "find_char ?t CHR ''('' = Some (Suc (length pid))"
    using find_char_append [of "CHR ''(''" "pid @ '' ''" "comm @ '') '' @ ?j"] assms(1)
    by (simp add: plain_word_def)
  have "CHR '')'' \<notin> set ?j"
    using set_join [of "'' ''" cols] assms(2) by (auto simp: list_all_iff plain_word_def)
  then have cl: "rfind_char ?t CHR '')'' = Some (Suc (Suc (length pid + length comm)))"
    using rfind_char_append [of "CHR '')''" "'' '' @ ?j" "pid @ '' ('' @ comm"] by simp
  have name: "take (Suc (Suc (length pid + length comm)) - (Suc (length pid) + 1)) (drop (Suc (length pid) + 1) ?t) = comm"
    by simp
  have "split_whitespace ?j = cols"
    by (rule split_whitespace_join) (use assms(2) in \<open>auto simp: list_all_iff plain_word_def\<close>)
  moreover have "drop (Suc (Suc (length pid + length comm)) + 1) ?t = CHR '' '' # ?j"
    using append_eq_conv_conj [of "pid @ '' ('' @ comm @ '')''" "CHR '' '' # ?j" ?t] by simp
  ultimately have cols: "split_whitespace (drop (Suc (Suc (length pid + length comm)) + 1) ?t) = cols"
    by (simp add: split_whitespace_space)
  show ?thesis
    unfolding parse_proc_stat_def trim op cl Let_def option.case name cols using assms(3-) by simp
qed

lemma parse_proc_stat_line_witness:
  "parse_proc_stat (stat_line ''7'' ''my ) (x y'' (replicate 20 ''1'')) =
    Some \<lparr>ps_name = ''my ) (x y'', ps_state = ''1'', ps_ppid = 1, ps_utime = 1, ps_stime = 1, ps_starttime = 1\<rparr>"
proof -
  have "show_nat 1 = ''1''" by code_simp
  then have "parse_u64 ''1'' = Some 1" using parse_u64_show_nat [of 1] by simp
  moreover have "plain_word ''7''" "list_all plain_word (replicate 20 ''1'')" by code_simp+
  ultimately show ?thesis using parse_proc_stat_line [of "''7''" "replicate 20 ''1''" 1 1 1 1 "''my ) (x y''"]
    by simp
qed


subsection \<open>Mounts\<close>

definition skipped :: "mount_line \<Rightarrow> bool" where
  "skipped m = (ml_mount m \<noteq> ''/'' \<and> ml_fstype m \<in> set SKIP_FSTYPE)"

lemma mount_rows_names:
  "distinct (map (\<lambda>r. ml_mount (fst r)) (mount_rows os seen ms)) \<and>
   (\<lambda>r. ml_mount (fst r)) ` set (mount_rows os seen ms) =
     {p. p \<notin> seen \<and> vfs_usage os p \<noteq> None \<and> (\<exists>m \<in> set ms. ml_mount m = p \<and> \<not> skipped m)}"
proof (induction os seen ms rule: mount_rows.induct)
  case (2 os seen m ms)
  show ?case
  proof (cases "skipped m \<or> ml_mount m \<in> seen")
    case True
    then have "mount_rows os seen (m # ms) = mount_rows os seen ms" by (auto simp: skipped_def)
    moreover have IH: "distinct (map (\<lambda>r. ml_mount (fst r)) (mount_rows os seen ms)) \<and>
       (\<lambda>r. ml_mount (fst r)) ` set (mount_rows os seen ms) =
         {p. p \<notin> seen \<and> vfs_usage os p \<noteq> None \<and> (\<exists>m \<in> set ms. ml_mount m = p \<and> \<not> skipped m)}"
      using 2(1,2) True by (cases "skipped m") (auto simp: skipped_def)
    ultimately show ?thesis using True by auto
  next
    case False
    then have ns: "\<not> (ml_mount m \<noteq> ''/'' \<and> ml_fstype m \<in> set SKIP_FSTYPE)" "ml_mount m \<notin> seen"
      by (auto simp: skipped_def)
    show ?thesis
    proof (cases "vfs_usage os (ml_mount m)")
      case None
      with ns have "mount_rows os seen (m # ms) = mount_rows os (insert (ml_mount m) seen) ms" by auto
      then show ?thesis using 2(3) [OF ns None] None by auto
    next
      case (Some u)
      with ns have "mount_rows os seen (m # ms) = (m, u) # mount_rows os (insert (ml_mount m) seen) ms" by auto
      then show ?thesis using 2(4) [OF ns Some] Some False by auto
    qed
  qed
qed simp

text \<open>
  C37. The disk report has exactly one row per mount point: each mounted path that is the root or
  not of a virtual type, and whose \<open>statvfs\<close> succeeds, appears once, and no other path appears.
\<close>

theorem mount_rows_exact:
  "distinct (map (\<lambda>r. ml_mount (fst r)) (mount_rows os {} ms)) \<and>
   (\<lambda>r. ml_mount (fst r)) ` set (mount_rows os {} ms) =
     {p. vfs_usage os p \<noteq> None \<and> (\<exists>m \<in> set ms. ml_mount m = p \<and> \<not> skipped m)}"
  using mount_rows_names [of os "{}" ms] by simp

subsection \<open>Escapes\<close>

text \<open>The kernel writes space, tab, line feed and backslash of a mount path as octal escapes.\<close>

definition escape_byte :: "char \<Rightarrow> str" where
  "escape_byte c =
     (if c = CHR '' '' then CHR 0x5C # ''040'' else if c = CHR 0x09 then CHR 0x5C # ''011''
      else if c = CHR 0x0A then CHR 0x5C # ''012'' else if c = CHR 0x5C then CHR 0x5C # ''134'' else [c])"

definition escape_mount :: "str \<Rightarrow> str" where
  "escape_mount s = concat (map escape_byte s)"

lemma escape_Cons: "escape_mount (c # s) = escape_byte c @ escape_mount s"
  by (simp add: escape_mount_def)

lemma octal_escapes:
  "from_str_radix 8 u8_bound ''040'' = Some 32" "from_str_radix 8 u8_bound ''011'' = Some 9"
  "from_str_radix 8 u8_bound ''012'' = Some 10" "from_str_radix 8 u8_bound ''134'' = Some 92"
  by (simp_all add: from_str_radix_def digit_value_def)

lemma special_bytes:
  "char_from_byte 32 = '' ''" "char_from_byte 9 = [CHR 0x09]" "char_from_byte 10 = [CHR 0x0A]"
  "char_from_byte 92 = [CHR 0x5C]"
  by code_simp+

lemma escape_ascii: "ascii_only s \<Longrightarrow> ascii_only (escape_mount s)"
proof (induction s)
  case (Cons c s)
  have "byte c < 128 \<Longrightarrow> ascii_only (escape_byte c)" by (simp add: escape_byte_def ascii_only_def)
  with Cons show ?case by (simp add: escape_mount_def ascii_only_def)
qed (simp add: escape_mount_def)

lemma escape_boundary: "ascii_only t \<Longrightarrow> is_char_boundary (a # b # c # d # t) 4"
  by (cases t) (auto simp: is_char_boundary_def is_cont_def ascii_only_def)

lemma unescape_escape: "ascii_only s \<Longrightarrow> unescape_from out (escape_mount s) = Some (out @ s)"
proof (induction s arbitrary: out)
  case (Cons c s)
  then have c: "byte c < 128" "ascii_only s" by (simp_all add: ascii_only_def)
  have IH: "unescape_from o' (escape_mount s) = Some (o' @ s)" for o' by (rule Cons.IH) (rule c)
  have one: "char_from_byte (byte c) = [c]" using c by (simp add: char_from_byte_def)
  show ?case
  proof (cases "c = CHR '' '' \<or> c = CHR 0x09 \<or> c = CHR 0x0A \<or> c = CHR 0x5C")
    case True
    note b = escape_boundary [OF escape_ascii [OF c(2)]]
    from True show ?thesis
      by (elim disjE) (simp_all add: escape_Cons escape_byte_def octal_escapes IH special_bytes b)
  next
    case False
    then show ?thesis by (simp add: escape_Cons escape_byte_def one IH)
  qed
qed (simp add: escape_mount_def)

text \<open>
  The mount path of an ASCII name is read back exactly from the kernel's escaped field.
\<close>

theorem unescape_mount_roundtrip:
  assumes "ascii_only s"
  shows "unescape_mount (escape_mount s) = Some s"
  using unescape_escape [OF assms, of "[]"] by (simp add: unescape_mount_def)

lemma unescape_mount_roundtrip_witness:
  "unescape_mount (escape_mount (''/mnt/my disk'' @ [CHR 0x5C])) = Some (''/mnt/my disk'' @ [CHR 0x5C])
   \<and> escape_mount ''a b'' = ''a'' @ [CHR 0x5C] @ ''040b''"
proof
  have "ascii_only (''/mnt/my disk'' @ [CHR 0x5C])" by code_simp
  then show "unescape_mount (escape_mount (''/mnt/my disk'' @ [CHR 0x5C])) = Some (''/mnt/my disk'' @ [CHR 0x5C])"
    by (rule unescape_mount_roundtrip)
  show "escape_mount ''a b'' = ''a'' @ [CHR 0x5C] @ ''040b''" by code_simp
qed

text \<open>
  Outside ASCII the bytes are taken for characters one by one: the two bytes of an e with acute
  accent come back as four, and \<open>statvfs\<close> is then asked about a path that does not exist.
\<close>

lemma unescape_mount_not_utf8:
  "unescape_mount [CHR 0xC3, CHR 0xA9] = Some [CHR 0xC3, CHR 0x83, CHR 0xC2, CHR 0xA9]"
  by code_simp

end
