(* ===== verification/Wasi_Deny.thy ===== *)
theory Wasi_Deny
  imports Rust_Str
begin

text \<open>
  \<open>crates/novbot-skill-runtime/src/wasi_deny.rs\<close>: the stubs that stand for WASI file system,
  sockets and environment. Which imports they replace, the value a stub answers with (synthesized
  from its type) and the target recorded of a call. The types and values are the cases of
  \<open>wasmtime::component\<close> the code distinguishes; numbers are all zero, so one constructor with the
  width as a name stands for the scalar ones.
\<close>

subsection \<open>Types and values\<close>

datatype wasi_type =
    TScalar str
  | TString
  | TList wasi_type
  | TMap wasi_type wasi_type
  | TFlags "str list"
  | TOption wasi_type
  | TRecord "(str \<times> wasi_type) list"
  | TTuple "wasi_type list"
  | TEnum "str list"
  | TVariant "(str \<times> wasi_type option) list"
  | TResult "wasi_type option" "wasi_type option"
  | TOther str

datatype wasi_val =
    VScalar str nat
  | VString str
  | VList "wasi_val list"
  | VMap "(wasi_val \<times> wasi_val) list"
  | VFlags "str list"
  | VOption "wasi_val option"
  | VRecord "(str \<times> wasi_val) list"
  | VTuple "wasi_val list"
  | VEnum str
  | VVariant str "wasi_val option"
  | VResult "wasi_val option + wasi_val option"

text \<open>\<open>VResult (Inr v)\<close> is \<open>Val::Result(Ok(v))\<close>, \<open>VResult (Inl v)\<close> is \<open>Val::Result(Err(v))\<close>.\<close>

subsection \<open>Synthesized values\<close>

text \<open>
  \<open>zero_val\<close> on a result type is \<open>deny_val\<close>, which makes an error; \<open>Inl\<close> is the error of the code.
\<close>

fun zero_val :: "wasi_type \<Rightarrow> (wasi_val, str) result"
  and zero_vals :: "wasi_type list \<Rightarrow> (wasi_val list, str) result"
  and zero_cols :: "(str \<times> wasi_type) list \<Rightarrow> ((str \<times> wasi_val) list, str) result" where
  "zero_val (TScalar w) = Ok (VScalar w 0)"
| "zero_val TString = Ok (VString [])"
| "zero_val (TList t) = Ok (VList [])"
| "zero_val (TMap k v) = Ok (VMap [])"
| "zero_val (TFlags names) = Ok (VFlags [])"
| "zero_val (TOption t) = Ok (VOption None)"
| "zero_val (TRecord cols) = and_then (zero_cols cols) (\<lambda>vs. Ok (VRecord vs))"
| "zero_val (TTuple ts) = and_then (zero_vals ts) (\<lambda>vs. Ok (VTuple vs))"
| "zero_val (TEnum names) = (case names of [] \<Rightarrow> Err ''empty enum'' | n # _ \<Rightarrow> Ok (VEnum n))"
| "zero_val (TVariant []) = Err ''empty variant''"
| "zero_val (TVariant ((name, None) # cs)) = Ok (VVariant name None)"
| "zero_val (TVariant ((name, Some t) # cs)) =
     and_then (zero_val t) (\<lambda>v. Ok (VVariant name (Some v)))"
| "zero_val (TResult ok None) = Ok (VResult (Inl None))"
| "zero_val (TResult ok (Some t)) = and_then (zero_val t) (\<lambda>v. Ok (VResult (Inl (Some v))))"
| "zero_val (TOther w) = Err ''cannot synthesize wasi value''"
| "zero_vals [] = Ok []"
| "zero_vals (t # ts) = and_then (zero_val t) (\<lambda>v. and_then (zero_vals ts) (\<lambda>vs. Ok (v # vs)))"
| "zero_cols [] = Ok []"
| "zero_cols ((name, t) # cs) =
     and_then (zero_val t) (\<lambda>v. and_then (zero_cols cs) (\<lambda>vs. Ok ((name, v) # vs)))"

definition deny_val :: "wasi_type \<Rightarrow> (wasi_val, str) result" where
  "deny_val t =
     (case t of
        TResult ok e \<Rightarrow>
          (case e of
             Some et \<Rightarrow> and_then (zero_val et) (\<lambda>v. Ok (VResult (Inl (Some v))))
           | None \<Rightarrow> Ok (VResult (Inl None)))
      | _ \<Rightarrow> zero_val t)"

fun deny_vals :: "wasi_type list \<Rightarrow> (wasi_val list, str) result" where
  "deny_vals [] = Ok []"
| "deny_vals (t # ts) = and_then (deny_val t) (\<lambda>v. and_then (deny_vals ts) (\<lambda>vs. Ok (v # vs)))"

definition fill_results :: "wasi_type list \<Rightarrow> nat \<Rightarrow> (wasi_val list, str) result" where
  "fill_results types slots =
     (if length types \<noteq> slots then Err ''wasi stub result arity mismatch'' else deny_vals types)"

subsection \<open>Imports\<close>

definition HOST_WASI_P2 :: str where "HOST_WASI_P2 = ''0.2.12''"

definition host_instance_name :: "str \<Rightarrow> str" where
  "host_instance_name guest_import =
     (case rsplit_once guest_import CHR ''@'' of
        Some (path, _) \<Rightarrow> path @ ''@'' @ HOST_WASI_P2
      | None \<Rightarrow> guest_import)"

definition wasi_capability :: "str \<Rightarrow> str option" where
  "wasi_capability import =
     (if starts_with import ''wasi:filesystem/'' then Some ''wasi:filesystem''
      else if starts_with import ''wasi:sockets/'' then Some ''wasi:sockets''
      else if starts_with import ''wasi:cli/environment'' then Some ''wasi:environment''
      else None)"

subsection \<open>The target of a call\<close>

function clip_end :: "str \<Rightarrow> nat \<Rightarrow> nat" where
  "clip_end text n = (if is_char_boundary text n then n else clip_end text (n - 1))"
  by pat_completeness auto
termination
  by (relation "measure snd") (auto simp: is_char_boundary_def)

declare clip_end.simps [simp del]

definition clip :: "str \<Rightarrow> nat \<Rightarrow> str" where
  "clip text max_bytes =
     (if length text \<le> max_bytes then text else take (clip_end text max_bytes) text)"

fun find_string :: "wasi_val \<Rightarrow> str option"
  and find_in_vals :: "wasi_val list \<Rightarrow> str option"
  and find_in_cols :: "(str \<times> wasi_val) list \<Rightarrow> str option" where
  "find_string (VString text) = Some text"
| "find_string (VList items) = find_in_vals items"
| "find_string (VTuple items) = find_in_vals items"
| "find_string (VRecord cols) = find_in_cols cols"
| "find_string (VOption (Some item)) = find_string item"
| "find_string (VVariant n (Some item)) = find_string item"
| "find_string (VResult (Inr (Some item))) = find_string item"
| "find_string (VResult (Inl (Some item))) = find_string item"
| "find_string _ = None"
| "find_in_vals [] = None"
| "find_in_vals (v # vs) = (case find_string v of Some s \<Rightarrow> Some s | None \<Rightarrow> find_in_vals vs)"
| "find_in_cols [] = None"
| "find_in_cols ((n, v) # cs) = (case find_string v of Some s \<Rightarrow> Some s | None \<Rightarrow> find_in_cols cs)"

fun first_string :: "wasi_val list \<Rightarrow> str" where
  "first_string [] = []"
| "first_string (v # vs) =
     (case find_string v of
        Some text \<Rightarrow> if text \<noteq> [] then clip text 512 else first_string vs
      | None \<Rightarrow> first_string vs)"

subsection \<open>Clipping\<close>

lemma clip_end_le: "clip_end s n \<le> n \<and> is_char_boundary s (clip_end s n)"
proof (induction s n rule: clip_end.induct)
  case (1 s n)
  show ?case
  proof (cases "is_char_boundary s n")
    case False
    with 1 show ?thesis by (auto simp: clip_end.simps [of s n])
  qed (simp add: clip_end.simps)
qed

lemma clip_short: "length (clip s n) \<le> n"
  using clip_end_le [of s n] by (auto simp: clip_def)

lemma clip_prefix: "prefix (clip s n) s"
  by (simp add: clip_def take_is_prefix)

text \<open>The cut is the longest that ends at a character boundary: at most three bytes are lost more.\<close>

lemma clip_end_greatest: "m \<le> n \<Longrightarrow> is_char_boundary s m \<Longrightarrow> m \<le> clip_end s n"
proof (induction s n rule: clip_end.induct)
  case (1 s n)
  show ?case
  proof (cases "is_char_boundary s n")
    case False
    then have "m \<noteq> n" using "1.prems"(2) by auto
    with 1 False show ?thesis by (simp add: clip_end.simps [of s n])
  qed (simp add: clip_end.simps "1.prems")
qed

subsection \<open>Stub answers are well typed and never a success\<close>

fun val_of_type :: "wasi_val \<Rightarrow> wasi_type \<Rightarrow> bool" where
  "val_of_type (VScalar w n) t = (t = TScalar w)"
| "val_of_type (VString s) t = (t = TString)"
| "val_of_type (VList vs) t = (\<exists>e. t = TList e \<and> list_all (\<lambda>v. val_of_type v e) vs)"
| "val_of_type (VMap kvs) t = (\<exists>k v. t = TMap k v \<and> list_all (\<lambda>(a, b). val_of_type a k \<and> val_of_type b v) kvs)"
| "val_of_type (VFlags fs) t = (\<exists>names. t = TFlags names \<and> set fs \<subseteq> set names)"
| "val_of_type (VOption v) t = (\<exists>e. t = TOption e \<and> (case v of None \<Rightarrow> True | Some x \<Rightarrow> val_of_type x e))"
| "val_of_type (VRecord cols) t =
     (\<exists>ts. t = TRecord ts \<and> list_all2 (\<lambda>c u. fst c = fst u \<and> val_of_type (snd c) (snd u)) cols ts)"
| "val_of_type (VTuple vs) t = (\<exists>ts. t = TTuple ts \<and> list_all2 val_of_type vs ts)"
| "val_of_type (VEnum n) t = (\<exists>names. t = TEnum names \<and> n \<in> set names)"
| "val_of_type (VVariant n v) t =
     (\<exists>cs. t = TVariant cs \<and>
        (case v of None \<Rightarrow> (n, None) \<in> set cs | Some x \<Rightarrow> (\<exists>u. (n, Some u) \<in> set cs \<and> val_of_type x u)))"
| "val_of_type (VResult r) t =
     (\<exists>ot et. t = TResult ot et \<and>
        (case r of
           Inr v \<Rightarrow> (case v of None \<Rightarrow> ot = None | Some x \<Rightarrow> (case ot of None \<Rightarrow> False | Some u \<Rightarrow> val_of_type x u))
         | Inl v \<Rightarrow> (case v of None \<Rightarrow> et = None | Some x \<Rightarrow> (case et of None \<Rightarrow> False | Some u \<Rightarrow> val_of_type x u))))"

lemma zero_val_typed:
  "zero_val t = Ok v \<Longrightarrow> val_of_type v t"
  "zero_vals ts = Ok vs \<Longrightarrow> list_all2 val_of_type vs ts"
  "zero_cols cs = Ok ws \<Longrightarrow> list_all2 (\<lambda>c u. fst c = fst u \<and> val_of_type (snd c) (snd u)) ws cs"
  by (induction t and ts and cs arbitrary: v and vs and ws rule: zero_val_zero_vals_zero_cols.induct)
    (auto split: list.splits)


lemma deny_val_typed: "deny_val t = Ok v \<Longrightarrow> val_of_type v t"
  by (cases t) (auto simp: deny_val_def zero_val_typed split: option.splits)

lemma deny_vals_typed: "deny_vals ts = Ok vs \<Longrightarrow> list_all2 val_of_type vs ts"
  by (induction ts arbitrary: vs) (auto simp: deny_val_typed)

text \<open>
  What a stub answers is well typed for the function it stands for, one value per result slot,
  and where the function returns a result type the answer is an error, never a success.
\<close>

theorem fill_results_typed:
  assumes "fill_results types slots = Ok vs"
  shows "length vs = slots \<and> list_all2 val_of_type vs types
    \<and> (\<forall>i < slots. \<forall>ok e. types ! i = TResult ok e \<longrightarrow> (\<exists>err. vs ! i = VResult (Inl err)))"
proof -
  from assms have len: "length types = slots" and vs: "deny_vals types = Ok vs"
    by (auto simp: fill_results_def split: if_splits)
  have typed: "list_all2 val_of_type vs types" by (rule deny_vals_typed [OF vs])
  have err: "deny_val (TResult ok e) = Ok v \<Longrightarrow> \<exists>err. v = VResult (Inl err)" for v ok e
    by (auto simp: deny_val_def split: option.splits)
  have "deny_vals ts = Ok ws \<Longrightarrow> list_all2 (\<lambda>w t. deny_val t = Ok w) ws ts" for ts ws
    by (induction ts arbitrary: ws) auto
  from this [OF vs] have pts: "length vs = length types" "\<And>i. i < length types \<Longrightarrow> deny_val (types ! i) = Ok (vs ! i)"
    by (simp_all add: list_all2_conv_all_nth)
  have "\<exists>err. vs ! i = VResult (Inl err)" if "i < slots" "types ! i = TResult ok e" for i ok e
    using err [of ok e "vs ! i"] pts(2) [of i] that len by simp
  then show ?thesis using typed pts(1) len by blast
qed

lemma fill_results_typed_witness:
  "\<exists>vs. fill_results [TResult (Some TString) (Some (TEnum [''access'', ''busy''])), TOption TString] 2 = Ok vs
     \<and> length vs = 2 \<and> vs ! 0 = VResult (Inl (Some (VEnum ''access'')))"
proof -
  let ?ts = "[TResult (Some TString) (Some (TEnum [''access'', ''busy''])), TOption TString]"
  have f: "fill_results ?ts 2 = Ok [VResult (Inl (Some (VEnum ''access''))), VOption None]" by code_simp
  from fill_results_typed [OF f] f show ?thesis by auto
qed

end
