(* ===== verification/Host.thy ===== *)
theory Host
  imports Grants Observe Wasi_Deny
begin

text \<open>
  \<open>crates/novbot-skill-runtime/src/host.rs\<close>, the host functions: the context of one run, the
  authorization of a call, the record of denials and logs, and every function of the catalog. What
  the operating system answers during one call is the parameter \<open>host_env\<close>. A host function returns
  the new context and the guest's result, or a fault that ends the run.
\<close>

subsection \<open>Environment and context\<close>

record io_error =
  io_not_found :: bool
  io_message :: str

datatype file_kind = FSymlink | FDir | FFile | FOther

record file_meta =
  fm_kind :: file_kind
  fm_mode :: nat
  fm_uid :: nat
  fm_gid :: nat
  fm_size :: nat
  fm_mtime_ms :: "nat option"

record dir_entry =
  de_name :: str
  de_path :: str
  de_kind :: "(file_kind, io_error) result"

text \<open>
  \<open>he_open\<close> opens without following a final link and gives the content, or the error of reading it;
  \<open>fm_mtime_ms\<close> is \<open>None\<close> when the modification time is missing or before 1970.
\<close>

record host_env =
  he_fs :: fs_view
  he_os :: os_view
  he_open :: "str \<Rightarrow> ((str, io_error) result, io_error) result"
  he_lstat :: "str \<Rightarrow> (file_meta, io_error) result"
  he_read_dir :: "str \<Rightarrow> ((dir_entry, io_error) result list, io_error) result"
  he_is_dir :: "str \<Rightarrow> bool"
  he_read_proc :: "str \<Rightarrow> (str, io_error) result"
  he_env_var :: "str \<Rightarrow> str option"
  he_elapsed_ms :: nat
  he_now_unix :: nat
  he_clock_ticks :: nat
  he_uname :: "str \<times> str"
  he_arch :: str
  he_adjtimex :: "int \<times> int \<times> int"
  he_os_release_fixture :: "str option"
  he_observe_fixture :: "observe_fixture option"
  he_render :: "json \<Rightarrow> str"

record denial =
  dn_capability :: str
  dn_target :: str
  dn_reason :: denial_reason
  dn_at_ms :: nat

record run_ctx =
  rc_grants :: grant_set
  rc_denylist :: denylist
  rc_denials :: "denial list"
  rc_logs :: "(nat \<times> str) list"

definition MAX_READ_BYTES :: nat where "MAX_READ_BYTES = 256 * 1024"
definition DENIAL_LIMIT :: nat where "DENIAL_LIMIT = 16"
definition LOG_LIMIT :: nat where "LOG_LIMIT = 32"
definition LOG_BYTES :: nat where "LOG_BYTES = 1024"

record wit_denial =
  wd_capability :: str
  wd_target :: str
  wd_reason :: str

datatype host_error = Denied wit_denial | NotFound str | Io str

text \<open>
  A host function traps with a message, or panics in a slice; otherwise it answers.
\<close>

datatype fault = Trapped str | Panicked

type_synonym 'a served = "(run_ctx \<times> ('a, host_error) result, fault) result"

subsection \<open>Denials and logs\<close>

definition guard_limit :: "run_ctx \<Rightarrow> (unit, fault) result" where
  "guard_limit ctx =
     (if length (rc_denials ctx) \<ge> DENIAL_LIMIT
      then Err (Trapped ''capability denial limit reached'') else Ok ())"

definition push_denial :: "host_env \<Rightarrow> run_ctx \<Rightarrow> str \<Rightarrow> str \<Rightarrow> denial_reason \<Rightarrow> run_ctx" where
  "push_denial env ctx capability target reason =
     ctx\<lparr>rc_denials := rc_denials ctx @
       [\<lparr>dn_capability = capability, dn_target = clip target 1024, dn_reason = reason,
         dn_at_ms = min (he_elapsed_ms env) u64_max\<rparr>]\<rparr>"

definition push_log :: "run_ctx \<Rightarrow> nat \<Rightarrow> str \<Rightarrow> run_ctx" where
  "push_log ctx level message =
     (if length (rc_logs ctx) \<ge> LOG_LIMIT then ctx
      else ctx\<lparr>rc_logs := rc_logs ctx @ [(level, clip message LOG_BYTES)]\<rparr>)"

definition deny_wasi :: "host_env \<Rightarrow> run_ctx \<Rightarrow> str \<Rightarrow> str \<Rightarrow> (run_ctx, fault) result" where
  "deny_wasi env ctx capability target =
     and_then (guard_limit ctx) (\<lambda>_.
       let reason = (case check (he_fs env) (rc_grants ctx) capability NoTarget (rc_denylist ctx) of
           Inl r \<Rightarrow> r | Inr _ \<Rightarrow> UndeclaredCapability)
       in Ok (push_denial env ctx capability target reason))"

fun reason_str :: "denial_reason \<Rightarrow> str" where
  "reason_str UndeclaredCapability = ''undeclared_capability''"
| "reason_str OutOfScope = ''out_of_scope''"
| "reason_str CapDisabled = ''cap_disabled''"
| "reason_str PolicyDenied = ''policy_denied''"

definition wit_denial_of :: "str \<Rightarrow> str \<Rightarrow> denial_reason \<Rightarrow> wit_denial" where
  "wit_denial_of capability target reason =
     \<lparr>wd_capability = capability, wd_target = target, wd_reason = reason_str reason\<rparr>"

definition io_host_error :: "io_error \<Rightarrow> host_error" where
  "io_host_error e = (if io_not_found e then NotFound (io_message e) else Io (io_message e))"

subsection \<open>Authorization\<close>

datatype fs_auth = Allow resolved | Deny denial_reason str

definition authorize_fs :: "host_env \<Rightarrow> run_ctx \<Rightarrow> str \<Rightarrow> str \<Rightarrow> bool \<Rightarrow> (fs_auth, fault) result" where
  "authorize_fs env ctx capability raw use_target =
     and_then (guard_limit ctx) (\<lambda>_.
       if \<not> declares (rc_grants ctx) capability then Ok (Deny UndeclaredCapability raw)
       else if reject_syntax raw then Ok (Deny OutOfScope raw)
       else (case resolve (he_fs env) raw of
           None \<Rightarrow> Ok (Deny OutOfScope raw)
         | Some r \<Rightarrow>
             if use_target \<and> r_broken_symlink r then Ok (Deny OutOfScope (display_path (r_own r)))
             else (let candidate = (if use_target then r_scope r else r_own r) in
               case check (he_fs env) (rc_grants ctx) capability (PathTarget candidate) (rc_denylist ctx) of
                 Inr _ \<Rightarrow> Ok (Allow r)
               | Inl reason \<Rightarrow> Ok (Deny reason (display_path candidate)))))"

definition authorize_bare :: "host_env \<Rightarrow> run_ctx \<Rightarrow> str \<Rightarrow> (run_ctx \<times> bool, fault) result" where
  "authorize_bare env ctx capability =
     and_then (guard_limit ctx) (\<lambda>_.
       case check (he_fs env) (rc_grants ctx) capability NoTarget (rc_denylist ctx) of
         Inr _ \<Rightarrow> Ok (ctx, True)
       | Inl reason \<Rightarrow> Ok (push_denial env ctx capability [] reason, False))"

subsection \<open>Files\<close>

definition is_os_release_path :: "str \<Rightarrow> bool" where
  "is_os_release_path path = (path = ''/etc/os-release'' \<or> path = ''/private/etc/os-release'')"

definition read_limited :: "host_env \<Rightarrow> str \<Rightarrow> nat \<Rightarrow> (str, io_error) result" where
  "read_limited env path max_bytes =
     and_then
       (case he_open env path of
          Inr file \<Rightarrow> Ok file
        | Inl err \<Rightarrow>
            if io_not_found err \<and> is_os_release_path path then
              (case he_os_release_fixture env of
                 Some fixture \<Rightarrow> he_open env fixture
               | None \<Rightarrow> Err err)
            else Err err)
       (\<lambda>file. and_then file (\<lambda>content. Ok (take (min max_bytes MAX_READ_BYTES) content)))"

record file_stat =
  fst_exists :: bool
  fst_kind :: str
  fst_mode :: nat
  fst_uid :: nat
  fst_gid :: nat
  fst_size :: nat
  fst_mtime_unix_ms :: nat

fun kind_name :: "file_kind \<Rightarrow> str" where
  "kind_name FSymlink = ''symlink''"
| "kind_name FDir = ''dir''"
| "kind_name FFile = ''file''"
| "kind_name FOther = ''other''"

definition mtime_ms :: "file_meta \<Rightarrow> nat" where
  "mtime_ms m = (case fm_mtime_ms m of Some ms \<Rightarrow> min ms 9223372036854775807 | None \<Rightarrow> 0)"

definition stat_path :: "host_env \<Rightarrow> str \<Rightarrow> (file_stat, io_error) result" where
  "stat_path env path =
     (case he_lstat env path of
        Inr m \<Rightarrow> Ok \<lparr>fst_exists = True, fst_kind = kind_name (fm_kind m), fst_mode = fm_mode m,
          fst_uid = fm_uid m, fst_gid = fm_gid m, fst_size = fm_size m, fst_mtime_unix_ms = mtime_ms m\<rparr>
      | Inl err \<Rightarrow>
          if io_not_found err then Ok \<lparr>fst_exists = False, fst_kind = ''other'', fst_mode = 0,
            fst_uid = 0, fst_gid = 0, fst_size = 0, fst_mtime_unix_ms = 0\<rparr>
          else Err err)"

subsection \<open>Listing a directory\<close>

record list_frame =
  lf_dir :: str
  lf_prefix :: str
  lf_depth :: nat

record child =
  ch_rel :: str
  ch_path :: str
  ch_kind :: file_kind

fun read_children :: "str \<Rightarrow> (dir_entry, io_error) result list \<Rightarrow> (child list, io_error) result" where
  "read_children pre [] = Ok []"
| "read_children pre (r # rs) =
     and_then r (\<lambda>entry.
       let rel = (if pre = [] then de_name entry else pre @ ''/'' @ de_name entry) in
       and_then (de_kind entry) (\<lambda>kind.
       and_then (read_children pre rs) (\<lambda>cs.
         Ok (\<lparr>ch_rel = rel, ch_path = de_path entry, ch_kind = kind\<rparr> # cs))))"

definition frame_children :: "host_env \<Rightarrow> list_frame \<Rightarrow> (child list, io_error) result" where
  "frame_children env frame =
     and_then (he_read_dir env (lf_dir frame)) (\<lambda>entries.
     and_then (read_children (lf_prefix frame) entries) (\<lambda>cs. Ok (sort_key ch_rel cs)))"

text \<open>The inner loop: what is added to \<open>out\<close>, and the frames to descend into.\<close>

fun emit_children ::
    "nat \<Rightarrow> nat \<Rightarrow> nat \<Rightarrow> str list \<Rightarrow> list_frame list \<Rightarrow> child list \<Rightarrow> str list \<times> list_frame list" where
  "emit_children depth max_depth max_entries out nested [] = (out, nested)"
| "emit_children depth max_depth max_entries out nested (c # cs) =
     (if length out \<ge> max_entries then (out, nested)
      else (let descend = (ch_kind c = FDir \<and> depth < max_depth) in
        emit_children depth max_depth max_entries (out @ [ch_rel c])
          (if descend then nested @ [\<lparr>lf_dir = ch_path c, lf_prefix = ch_rel c, lf_depth = depth + 1\<rparr>]
           else nested) cs))"

lemma emit_children_depth:
  "\<forall>f \<in> set nested. lf_depth f = Suc depth \<and> depth < max_depth \<Longrightarrow>
   f \<in> set (snd (emit_children depth max_depth max_entries out nested cs)) \<Longrightarrow>
     lf_depth f = Suc depth \<and> depth < max_depth"
  by (induction depth max_depth max_entries out nested cs rule: emit_children.induct)
    (auto simp: Let_def split: if_splits)

text \<open>
  The stack is a list with its top first, so pushing the nested frames in reverse is putting them
  in front. A frame is replaced by finitely many deeper ones, none deeper than \<open>max_depth\<close>.
\<close>

definition stack_weight :: "nat \<Rightarrow> list_frame list \<Rightarrow> nat multiset" where
  "stack_weight max_depth stack = mset (map (\<lambda>f. Suc max_depth - lf_depth f) stack)"

lemma stack_weight_decreases:
  "(stack_weight max_depth (snd (emit_children (lf_depth frame) max_depth n out [] cs) @ stack),
    stack_weight max_depth (frame # stack)) \<in> mult less_than"
proof -
  let ?nested = "snd (emit_children (lf_depth frame) max_depth n out [] cs)"
  have "\<forall>k \<in># stack_weight max_depth ?nested. k < Suc max_depth - lf_depth frame"
  proof
    fix k assume "k \<in># stack_weight max_depth ?nested"
    then obtain f where "f \<in> set ?nested" "k = Suc max_depth - lf_depth f"
      by (auto simp: stack_weight_def)
    with emit_children_depth [of "[]" "lf_depth frame" max_depth f n out cs]
    show "k < Suc max_depth - lf_depth frame" by (auto simp: Suc_diff_le)
  qed
  then have "(stack_weight max_depth stack + stack_weight max_depth ?nested,
      stack_weight max_depth stack + {#Suc max_depth - lf_depth frame#}) \<in> mult less_than"
    by (intro one_step_implies_mult) auto
  then show ?thesis by (simp add: stack_weight_def union_commute)
qed

function list_loop ::
    "host_env \<Rightarrow> nat \<Rightarrow> nat \<Rightarrow> str list \<Rightarrow> list_frame list \<Rightarrow> (str list, io_error) result" where
  "list_loop env max_depth max_entries out [] = Ok out"
| "list_loop env max_depth max_entries out (frame # stack) =
     (if length out \<ge> max_entries then Ok out
      else (case frame_children env frame of
          Inl e \<Rightarrow> Err e
        | Inr cs \<Rightarrow>
            list_loop env max_depth max_entries
              (fst (emit_children (lf_depth frame) max_depth max_entries out [] cs))
              (snd (emit_children (lf_depth frame) max_depth max_entries out [] cs) @ stack)))"
  by pat_completeness auto
termination
proof (relation "inv_image (mult less_than) (\<lambda>(env, max_depth, max_entries, out, stack). stack_weight max_depth stack)", goal_cases)
  case 1
  show ?case by (intro wf_inv_image wf_mult) simp
next
  case (2 env max_depth max_entries out frame stack cs)
  then show ?case by (simp add: stack_weight_decreases)
qed

definition list_dir :: "host_env \<Rightarrow> str \<Rightarrow> nat \<Rightarrow> nat \<Rightarrow> (str list, io_error) result" where
  "list_dir env dir max_depth max_entries =
     (if max_depth = 0 \<or> max_entries = 0 then Ok []
      else and_then (he_lstat env dir) (\<lambda>m.
        if fm_kind m = FSymlink
        then Err \<lparr>io_not_found = False, io_message = ''refusing to follow symlink''\<rparr>
        else if fm_kind m \<noteq> FDir then Err \<lparr>io_not_found = False, io_message = ''not a directory''\<rparr>
        else list_loop env max_depth max_entries [] [\<lparr>lf_dir = dir, lf_prefix = [], lf_depth = 1\<rparr>]))"


subsection \<open>Listening sockets\<close>

record listen_socket =
  ls_proto :: str
  ls_addr :: str
  ls_port :: nat
  ls_uid :: nat

definition ipv4_text :: "nat \<Rightarrow> nat \<Rightarrow> nat \<Rightarrow> nat \<Rightarrow> str" where
  "ipv4_text a b c d = join ''.'' [show_nat a, show_nat b, show_nat c, show_nat d]"

definition parse_ipv4 :: "str \<Rightarrow> str option" where
  "parse_ipv4 hex =
     (if length hex \<noteq> 8 then None
      else (case from_str_radix 16 u32_bound hex of
          None \<Rightarrow> None
        | Some v \<Rightarrow> Some (ipv4_text (v mod 256) (v div 256 mod 256) (v div 65536 mod 256) (v div 16777216 mod 256))))"

text \<open>
  \<open>Ipv6Addr::to_string\<close>: an IPv4-mapped address in dotted form, otherwise the first longest run of
  at least two zero segments is shortened.
\<close>

definition hex_digit :: "nat \<Rightarrow> char" where
  "hex_digit n = (if n < 10 then char_of (48 + n) else char_of (87 + n))"

fun show_hex :: "nat \<Rightarrow> str" where
  "show_hex n = (if n < 16 then [hex_digit n] else show_hex (n div 16) @ [hex_digit (n mod 16)])"

declare show_hex.simps [simp del]

text \<open>The longest run of zeros seen so far as (start, length), and the current run.\<close>

fun zero_span :: "nat \<Rightarrow> nat \<times> nat \<Rightarrow> nat \<times> nat \<Rightarrow> nat list \<Rightarrow> nat \<times> nat" where
  "zero_span i longest current [] = longest"
| "zero_span i longest current (s # ss) =
     (if s = 0 then
        (let current' = (if snd current = 0 then (i, 1) else (fst current, snd current + 1))
         in zero_span (i + 1) (if snd current' > snd longest then current' else longest) current' ss)
      else zero_span (i + 1) longest (0, 0) ss)"

definition ipv6_text :: "nat list \<Rightarrow> str" where
  "ipv6_text segs =
     (if take 6 segs = [0, 0, 0, 0, 0, 65535]
      then ''::ffff:'' @ ipv4_text (segs ! 6 div 256) (segs ! 6 mod 256) (segs ! 7 div 256) (segs ! 7 mod 256)
      else (let (start, n) = zero_span 0 (0, 0) (0, 0) segs
            in if n > 1
               then join '':'' (map show_hex (take start segs)) @ ''::'' @ join '':'' (map show_hex (drop (start + n) segs))
               else join '':'' (map show_hex segs)))"

text \<open>
  The four words of 8 digits, each least significant byte first. The kernel's table is ASCII, so the
  slices end at character boundaries.
\<close>

definition ipv6_word :: "str \<Rightarrow> nat \<Rightarrow> nat list option" where
  "ipv6_word hex i =
     (case from_str_radix 16 u32_bound (take 8 (drop (i * 8) hex)) of
        None \<Rightarrow> None
      | Some w \<Rightarrow> Some [w mod 256 * 256 + w div 256 mod 256, w div 65536 mod 256 * 256 + w div 16777216 mod 256])"

definition parse_ipv6 :: "str \<Rightarrow> str option" where
  "parse_ipv6 hex =
     (if length hex \<noteq> 32 then None
      else (case those (map (ipv6_word hex) [0, 1, 2, 3]) of
          None \<Rightarrow> None
        | Some ws \<Rightarrow> Some (ipv6_text (concat ws))))"

definition parse_proc_socket :: "str \<Rightarrow> str \<Rightarrow> listen_socket option" where
  "parse_proc_socket proto line =
     (let cols = split_whitespace line in
      if length cols < 8 then None
      else
        (case split_once (cols ! 1) CHR '':'' of None \<Rightarrow> None | Some (local_addr, local_port) \<Rightarrow>
        (case split_once (cols ! 2) CHR '':'' of None \<Rightarrow> None | Some (remote_addr, remote_port) \<Rightarrow>
        (case from_str_radix 16 u16_bound local_port of None \<Rightarrow> None | Some port \<Rightarrow>
        (case from_str_radix 16 u16_bound remote_port of None \<Rightarrow> None | Some remote \<Rightarrow>
          (let listening = (if starts_with proto ''tcp'' then eq_ignore_ascii_case (cols ! 3) ''0A'' else remote = 0)
           in if \<not> listening then None
              else
                (case (if length local_addr = 32 then parse_ipv6 local_addr else parse_ipv4 local_addr) of
                   None \<Rightarrow> None
                 | Some addr \<Rightarrow>
                     (case parse_u32 (cols ! 7) of
                        None \<Rightarrow> None
                      | Some uid \<Rightarrow> Some \<lparr>ls_proto = proto, ls_addr = addr, ls_port = port, ls_uid = uid\<rparr>))))))))"

definition proc_net_files :: "(str \<times> str) list" where
  "proc_net_files = [(''/proc/net/tcp'', ''tcp''), (''/proc/net/tcp6'', ''tcp6''),
     (''/proc/net/udp'', ''udp''), (''/proc/net/udp6'', ''udp6'')]"

fun read_socket_files :: "host_env \<Rightarrow> (str \<times> str) list \<Rightarrow> (listen_socket list, str) result" where
  "read_socket_files env [] = Ok []"
| "read_socket_files env ((path, proto) # files) =
     (case he_read_proc env path of
        Inl err \<Rightarrow> if io_not_found err then read_socket_files env files else Err (io_message err)
      | Inr table \<Rightarrow>
          and_then (read_socket_files env files) (\<lambda>later.
            Ok (List.map_filter (parse_proc_socket proto) (tl (lines table)) @ later)))"

definition read_listening_ports :: "host_env \<Rightarrow> (listen_socket list, str) result" where
  "read_listening_ports env =
     (if \<not> he_is_dir env ''/proc/net'' then Err ''proc net is not available''
      else read_socket_files env proc_net_files)"

subsection \<open>System information and time\<close>

definition os_release_line :: "(str \<rightharpoonup> str) \<Rightarrow> str \<Rightarrow> str \<rightharpoonup> str" where
  "os_release_line cols line0 =
     (let line = trim line0 in
      if line = [] \<or> starts_with line ''#'' then cols
      else (case split_once line CHR ''='' of
          None \<Rightarrow> cols
        | Some (key, v) \<Rightarrow> cols(key \<mapsto> trim_matches (trim_matches (trim v) CHR 0x22) CHR 0x27)))"

definition os_release_fields :: "host_env \<Rightarrow> str \<rightharpoonup> str" where
  "os_release_fields env =
     (case he_read_proc env ''/etc/os-release'' of
        Inl _ \<Rightarrow> Map.empty
      | Inr body \<Rightarrow> foldl os_release_line Map.empty (lines body))"

definition system_info :: "host_env \<Rightarrow> str" where
  "system_info env =
     (let (hostname, kernel) = he_uname env;
          release = os_release_fields env;
          field = (\<lambda>k. JStr (unwrap_or (release k) []))
      in he_render env (JObj
        [(''hostname'', JStr hostname),
         (''os_release'', JObj
            [(''name'', field ''NAME''), (''id'', field ''ID''), (''version'', field ''VERSION''),
             (''version_id'', field ''VERSION_ID''), (''pretty_name'', field ''PRETTY_NAME'')]),
         (''kernel'', JStr kernel), (''arch'', JStr (he_arch env))]))"

text \<open>The Linux variant; \<open>he_adjtimex\<close> is the return code, the status bits and the offset.\<close>

definition kernel_offset_ms :: "host_env \<Rightarrow> int option" where
  "kernel_offset_ms env =
     (let (rc, status, offset) = he_adjtimex env in
      if rc < 0 then None
      else if rc = 5 \<or> odd (status div 64) then None
      else if odd (status div 8192) then Some (i64_div offset 1000000) else Some (i64_div offset 1000))"

record time_probe =
  tp_synced :: bool
  tp_source :: "str option"
  tp_offset_ms :: "int option"

definition probe_time_sync :: "host_env \<Rightarrow> time_probe" where
  "probe_time_sync env =
     (if os_is_file (he_os env) ''/run/systemd/timesync/synchronized''
      then \<lparr>tp_synced = True, tp_source = Some ''systemd-timesyncd'', tp_offset_ms = kernel_offset_ms env\<rparr>
      else (case kernel_offset_ms env of
          Some ms \<Rightarrow> \<lparr>tp_synced = True, tp_source = Some ''kernel'', tp_offset_ms = Some ms\<rparr>
        | None \<Rightarrow> \<lparr>tp_synced = False, tp_source = None, tp_offset_ms = None\<rparr>))"

definition time_sync_json :: "host_env \<Rightarrow> str" where
  "time_sync_json env =
     (let p = probe_time_sync env
      in he_render env (JObj
        [(''synced'', JBool (tp_synced p)), (''source'', jopt JStr (tp_source p)),
         (''offset_ms'', jopt JInt (tp_offset_ms p))]))"

subsection \<open>The host functions\<close>

definition denied :: "str \<Rightarrow> str \<Rightarrow> denial_reason \<Rightarrow> host_error" where
  "denied capability target reason = Denied (wit_denial_of capability target reason)"

definition fs_read :: "host_env \<Rightarrow> run_ctx \<Rightarrow> str \<Rightarrow> nat \<Rightarrow> str served" where
  "fs_read env ctx path max_bytes =
     and_then (authorize_fs env ctx ''fs.read'' path True) (\<lambda>auth.
       case auth of
         Deny reason target \<Rightarrow>
           Ok (push_denial env ctx ''fs.read'' target reason, Err (denied ''fs.read'' target reason))
       | Allow r \<Rightarrow>
           if r_final_symlink r then Ok (ctx, Err (Io ''refusing to follow symlink''))
           else (case read_limited env (r_own r) max_bytes of
               Inr bytes \<Rightarrow> Ok (ctx, Ok bytes)
             | Inl err \<Rightarrow> Ok (ctx, Err (io_host_error err))))"

definition fs_stat :: "host_env \<Rightarrow> run_ctx \<Rightarrow> str \<Rightarrow> file_stat served" where
  "fs_stat env ctx path =
     and_then (authorize_fs env ctx ''fs.stat'' path False) (\<lambda>auth.
       case auth of
         Deny reason target \<Rightarrow>
           Ok (push_denial env ctx ''fs.stat'' target reason, Err (denied ''fs.stat'' target reason))
       | Allow r \<Rightarrow>
           (case stat_path env (r_own r) of
               Inr st \<Rightarrow> Ok (ctx, Ok st)
             | Inl err \<Rightarrow> Ok (ctx, Err (io_host_error err))))"

definition fs_list :: "host_env \<Rightarrow> run_ctx \<Rightarrow> str \<Rightarrow> nat \<Rightarrow> nat \<Rightarrow> str list served" where
  "fs_list env ctx dir max_depth max_entries =
     and_then (authorize_fs env ctx ''fs.list'' dir True) (\<lambda>auth.
       case auth of
         Deny reason target \<Rightarrow>
           Ok (push_denial env ctx ''fs.list'' target reason, Err (denied ''fs.list'' target reason))
       | Allow r \<Rightarrow>
           if r_final_symlink r then Ok (ctx, Err (Io ''refusing to follow symlink''))
           else (case list_dir env (r_own r) max_depth max_entries of
               Inr entries \<Rightarrow> Ok (ctx, Ok entries)
             | Inl err \<Rightarrow> Ok (ctx, Err (io_host_error err))))"

text \<open>
  The seven functions without a scope share their shape: the denial that was just recorded is the
  last one, and the guest sees its clipped target. \<open>answer\<close> is the body behind the check.
\<close>

definition last_denied :: "run_ctx \<Rightarrow> host_error" where
  "last_denied ctx =
     (let d = last (rc_denials ctx) in denied (dn_capability d) (dn_target d) (dn_reason d))"

definition serve_bare ::
    "host_env \<Rightarrow> run_ctx \<Rightarrow> str \<Rightarrow> (('a, host_error) result, fault) result \<Rightarrow> 'a served" where
  "serve_bare env ctx capability answer =
     and_then (authorize_bare env ctx capability) (\<lambda>(ctx', allowed).
       if \<not> allowed then Ok (ctx', Err (last_denied ctx'))
       else and_then answer (\<lambda>r. Ok (ctx', r)))"

definition io_answer :: "('a, str) result \<Rightarrow> (('a, host_error) result, fault) result" where
  "io_answer r = Ok (case r of Inr v \<Rightarrow> Ok v | Inl msg \<Rightarrow> Err (Io msg))"

definition net_listening_ports :: "host_env \<Rightarrow> run_ctx \<Rightarrow> listen_socket list served" where
  "net_listening_ports env ctx =
     serve_bare env ctx ''net.listening_ports.read'' (io_answer (read_listening_ports env))"

definition net_interfaces :: "host_env \<Rightarrow> run_ctx \<Rightarrow> str served" where
  "net_interfaces env ctx =
     serve_bare env ctx ''net.interfaces.read''
       (io_answer (interfaces_json (he_os env) (he_observe_fixture env) (he_render env)))"

definition sys_info :: "host_env \<Rightarrow> run_ctx \<Rightarrow> str served" where
  "sys_info env ctx = serve_bare env ctx ''sys.info.read'' (io_answer (Ok (system_info env)))"

definition sys_time_sync :: "host_env \<Rightarrow> run_ctx \<Rightarrow> str served" where
  "sys_time_sync env ctx = serve_bare env ctx ''sys.time_sync.read'' (io_answer (Ok (time_sync_json env)))"

definition sys_metrics :: "host_env \<Rightarrow> run_ctx \<Rightarrow> str served" where
  "sys_metrics env ctx =
     serve_bare env ctx ''sys.metrics.read''
       (case metrics_json (he_os env) (he_observe_fixture env) (he_render env) of
          None \<Rightarrow> Err Panicked
        | Some r \<Rightarrow> io_answer r)"

definition proc_processes :: "host_env \<Rightarrow> run_ctx \<Rightarrow> str served" where
  "proc_processes env ctx =
     serve_bare env ctx ''proc.list.read''
       (io_answer (processes_json (he_os env) (he_observe_fixture env) (he_now_unix env)
          (he_clock_ticks env) (he_render env)))"

definition sys_env_get :: "host_env \<Rightarrow> run_ctx \<Rightarrow> str \<Rightarrow> str option served" where
  "sys_env_get env ctx key =
     and_then (guard_limit ctx) (\<lambda>_.
       case check (he_fs env) (rc_grants ctx) ''env.read'' (EnvTarget key) (rc_denylist ctx) of
         Inr _ \<Rightarrow> Ok (ctx, Ok (he_env_var env key))
       | Inl reason \<Rightarrow>
           Ok (push_denial env ctx ''env.read'' key reason, Err (denied ''env.read'' key reason)))"

definition log_log :: "run_ctx \<Rightarrow> nat \<Rightarrow> str \<Rightarrow> (run_ctx, fault) result" where
  "log_log ctx level message =
     and_then (guard_limit ctx) (\<lambda>_. Ok (push_log ctx level message))"

end
