(* ===== verification/Host_Correct.thy ===== *)
theory Host_Correct
  imports Host
begin

text \<open>
  The host functions against their contracts: a directory listing is a prefix of the recursive
  listing of the tree, what \<open>fs.read\<close> returns was in scope and not denied, and the two records of a
  run, denials and logs, share the interface of a log with a capacity.
\<close>

subsection \<open>A directory listing\<close>

fun collect :: "('a, 'e) result list \<Rightarrow> ('a list, 'e) result" where
  "collect [] = Ok []"
| "collect (r # rs) = and_then r (\<lambda>x. and_then (collect rs) (\<lambda>xs. Ok (x # xs)))"

lemma collect_append: "collect xs = Ok us \<Longrightarrow> collect ys = Ok vs \<Longrightarrow> collect (xs @ ys) = Ok (us @ vs)"
  by (induction xs arbitrary: us) auto

lemma collect_empty: "collect (map (\<lambda>x. Ok []) xs) = Ok (map (\<lambda>x. []) xs)"
  by (induction xs) simp_all

text \<open>
  The whole listing, \<open>k\<close> levels deep: the names of a directory in order, then the listing of each
  of its directories.
\<close>

primrec walk :: "host_env \<Rightarrow> nat \<Rightarrow> str \<Rightarrow> str \<Rightarrow> (str list, io_error) result" where
  "walk env 0 dir pre = Ok []"
| "walk env (Suc k) dir pre =
     and_then (frame_children env \<lparr>lf_dir = dir, lf_prefix = pre, lf_depth = 0\<rparr>) (\<lambda>cs.
     and_then (collect (map (\<lambda>c. walk env k (ch_path c) (ch_rel c)) (filter (\<lambda>c. ch_kind c = FDir) cs)))
       (\<lambda>below. Ok (map ch_rel cs @ concat below)))"

definition walk_frame :: "host_env \<Rightarrow> nat \<Rightarrow> list_frame \<Rightarrow> (str list, io_error) result" where
  "walk_frame env max_depth f = walk env (Suc max_depth - lf_depth f) (lf_dir f) (lf_prefix f)"

definition nested_frames :: "nat \<Rightarrow> nat \<Rightarrow> child list \<Rightarrow> list_frame list" where
  "nested_frames depth max_depth cs =
     (if depth < max_depth
      then map (\<lambda>c. \<lparr>lf_dir = ch_path c, lf_prefix = ch_rel c, lf_depth = Suc depth\<rparr>) (filter (\<lambda>c. ch_kind c = FDir) cs)
      else [])"

lemma emit_children_eq:
  "emit_children depth max_depth n out nested cs =
     (out @ map ch_rel (take (n - length out) cs), nested @ nested_frames depth max_depth (take (n - length out) cs))"
proof (induction depth max_depth n out nested cs rule: emit_children.induct)
  case (2 depth max_depth n out nested c cs)
  show ?case
  proof (cases "length out \<ge> n")
    case False
    then have "n - length out = Suc (n - Suc (length out))" by simp
    then have "take (n - length out) (c # cs) = c # take (n - Suc (length out)) cs" by simp
    then show ?thesis using 2 False by (simp add: nested_frames_def)
  qed (simp add: nested_frames_def)
qed (simp add: nested_frames_def)

lemma list_loop_full: "length out \<ge> n \<Longrightarrow> list_loop env max_depth n out stack = Ok out"
  by (cases stack) simp_all

lemma frame_children_depth:
  "frame_children env f = frame_children env \<lparr>lf_dir = lf_dir f, lf_prefix = lf_prefix f, lf_depth = 0\<rparr>"
  by (simp add: frame_children_def)

lemma walk_frame_children:
  assumes "walk_frame env max_depth f = Ok ws" "1 \<le> lf_depth f" "lf_depth f \<le> max_depth"
  obtains cs below where "frame_children env f = Ok cs"
    "collect (map (walk_frame env max_depth) (nested_frames (lf_depth f) max_depth cs)) = Ok below"
    "ws = map ch_rel cs @ concat below"
proof -
  have k: "Suc max_depth - lf_depth f = Suc (max_depth - lf_depth f)" using assms(3) by simp
  from assms(1) obtain cs below where cs: "frame_children env f = Ok cs"
      "collect (map (\<lambda>c. walk env (max_depth - lf_depth f) (ch_path c) (ch_rel c)) (filter (\<lambda>c. ch_kind c = FDir) cs)) = Ok below"
      "ws = map ch_rel cs @ concat below"
    unfolding walk_frame_def k by (auto simp: frame_children_depth [of env f])
  show thesis
  proof (cases "lf_depth f < max_depth")
    case True
    then show thesis using cs
      by (intro that [OF cs(1) _ cs(3)]) (simp add: nested_frames_def walk_frame_def comp_def)
  next
    case False
    then have "below = map (\<lambda>x. []) (filter (\<lambda>c. ch_kind c = FDir) cs)"
      using cs(2) assms(3) by (simp add: collect_empty)
    then have "concat below = []" by simp
    with False cs show thesis by (intro that [of cs "[]"]) (simp_all add: nested_frames_def)
  qed
qed

lemma list_loop_walk:
  "collect (map (walk_frame env max_depth) stack) = Ok ws \<Longrightarrow> length out \<le> n \<Longrightarrow>
   \<forall>f \<in> set stack. 1 \<le> lf_depth f \<and> lf_depth f \<le> max_depth \<Longrightarrow>
     list_loop env max_depth n out stack = Ok (take n (out @ concat ws))"
proof (induction env max_depth n out stack arbitrary: ws rule: list_loop.induct)
  case (2 env max_depth n out frame stack)
  show ?case
  proof (cases "length out \<ge> n")
    case True
    then show ?thesis using "2.prems"(2) by simp
  next
    case False
    from "2.prems"(1) obtain w vs where w: "walk_frame env max_depth frame = Ok w"
        "collect (map (walk_frame env max_depth) stack) = Ok vs" "ws = w # vs" by auto
    obtain cs below where cs: "frame_children env frame = Ok cs"
        "collect (map (walk_frame env max_depth) (nested_frames (lf_depth frame) max_depth cs)) = Ok below"
        "w = map ch_rel cs @ concat below"
      using walk_frame_children [OF w(1)] "2.prems"(3) by auto
    let ?m = "n - length out"
    have step: "list_loop env max_depth n out (frame # stack) =
        list_loop env max_depth n (out @ map ch_rel (take ?m cs))
          (nested_frames (lf_depth frame) max_depth (take ?m cs) @ stack)"
      using False cs(1) by (simp add: emit_children_eq)
    show ?thesis
    proof (cases "length cs \<le> ?m")
      case True
      have "collect (map (walk_frame env max_depth) (nested_frames (lf_depth frame) max_depth cs @ stack)) = Ok (below @ vs)"
        using cs(2) w(2) by (simp add: collect_append)
      moreover have "\<forall>f \<in> set (nested_frames (lf_depth frame) max_depth cs @ stack). 1 \<le> lf_depth f \<and> lf_depth f \<le> max_depth"
        using "2.prems"(3) by (auto simp: nested_frames_def)
      ultimately have "list_loop env max_depth n (out @ map ch_rel cs) (nested_frames (lf_depth frame) max_depth cs @ stack)
          = Ok (take n ((out @ map ch_rel cs) @ concat (below @ vs)))"
        using "2.IH" [OF False cs(1), of "below @ vs"] True False
        by (simp add: emit_children_eq)
      with step True show ?thesis by (simp add: cs(3) w(3))
    next
      case more: False
      then have len: "length (out @ map ch_rel (take ?m cs)) = n" using False by simp
      then have "take n (out @ concat ws) = out @ map ch_rel (take ?m cs)"
        using more False by (simp add: cs(3) w(3) take_map)
      with step len list_loop_full show ?thesis by simp
    qed
  qed
qed simp

text \<open>
  C23. Listing a directory returns, in order, the first \<open>max_entries\<close> names of the recursive listing
  of the tree below it, at most \<open>max_depth\<close> levels deep; it always returns.
\<close>

theorem list_dir_walk:
  assumes "he_lstat env dir = Ok m" "fm_kind m = FDir" "walk env max_depth dir [] = Ok names"
  shows "list_dir env dir max_depth max_entries = Ok (take max_entries names)"
proof (cases "max_depth = 0 \<or> max_entries = 0")
  case True
  then show ?thesis using assms(3) by (auto simp: list_dir_def)
next
  case False
  let ?f = "\<lparr>lf_dir = dir, lf_prefix = [], lf_depth = 1\<rparr>"
  have "collect (map (walk_frame env max_depth) [?f]) = Ok [names]"
    using assms(3) by (simp add: walk_frame_def)
  then have "list_loop env max_depth max_entries [] [?f] = Ok (take max_entries names)"
    using False by (subst list_loop_walk) auto
  then show ?thesis using False assms(1,2) by (simp add: list_dir_def)
qed


text \<open>A small machine: one directory with a file and a subdirectory.\<close>

definition no_io :: "io_error" where
  "no_io = \<lparr>io_not_found = True, io_message = ''not found''\<rparr>"

definition dir_meta :: file_meta where
  "dir_meta = \<lparr>fm_kind = FDir, fm_mode = 493, fm_uid = 0, fm_gid = 0, fm_size = 0, fm_mtime_ms = None\<rparr>"

definition sample_os :: os_view where
  "sample_os = \<lparr>os_read_text = (\<lambda>p. Err ''missing''), os_read_lossy = (\<lambda>p. None), os_read_dir = (\<lambda>p. Err ''missing''),
     os_is_file = (\<lambda>p. False), os_statvfs = (\<lambda>p. None), os_user_name = (\<lambda>u. []), os_addresses = (\<lambda>n. []),
     os_parse_f64 = (\<lambda>t. None)\<rparr>"

definition sample_env :: host_env where
  "sample_env = \<lparr>he_fs = \<lparr>fs_canonicalize = (\<lambda>p. if p \<in> {''/'', ''/srv'', ''/srv/b''} then Some p else None),
       fs_is_symlink = (\<lambda>p. False), fs_read_link = (\<lambda>p. None)\<rparr>,
     he_os = sample_os,
     he_open = (\<lambda>p. if p = ''/srv/a'' then Ok (Ok ''hello'') else Err no_io),
     he_lstat = (\<lambda>p. if p = ''/srv'' then Ok dir_meta else Err no_io),
     he_read_dir = (\<lambda>p. if p = ''/srv'' then
          Ok [Ok \<lparr>de_name = ''b'', de_path = ''/srv/b'', de_kind = Ok FDir\<rparr>,
              Ok \<lparr>de_name = ''a'', de_path = ''/srv/a'', de_kind = Ok FFile\<rparr>]
        else if p = ''/srv/b'' then Ok [Ok \<lparr>de_name = ''c'', de_path = ''/srv/b/c'', de_kind = Ok FFile\<rparr>]
        else Err no_io),
     he_is_dir = (\<lambda>p. False), he_read_proc = (\<lambda>p. Err no_io), he_env_var = (\<lambda>k. None), he_elapsed_ms = 5,
     he_now_unix = 0, he_clock_ticks = 100, he_uname = (''node'', ''6.1''), he_arch = ''x86_64'',
     he_adjtimex = (0, 0, 0), he_os_release_fixture = None, he_observe_fixture = None,
     he_render = (\<lambda>v. [])\<rparr>"

lemma list_dir_walk_witness:
  "list_dir sample_env ''/srv'' 2 2 = Ok [''a'', ''b''] \<and> walk sample_env 2 ''/srv'' [] = Ok [''a'', ''b'', ''b/c'']"
proof -
  have w: "walk sample_env 2 ''/srv'' [] = Ok [''a'', ''b'', ''b/c'']" by code_simp
  have "list_dir sample_env ''/srv'' 2 2 = Ok (take 2 [''a'', ''b'', ''b/c''])"
    by (rule list_dir_walk [OF _ _ w, of dir_meta]) (simp_all add: sample_env_def dir_meta_def)
  with w show ?thesis by simp
qed

subsection \<open>Reading a file\<close>

lemma authorize_fs_allow:
  assumes "authorize_fs env ctx capability raw use_target = Ok (Allow r)"
  shows "length (rc_denials ctx) < DENIAL_LIMIT" "resolve (he_fs env) raw = Some r"
    "\<not> (use_target \<and> r_broken_symlink r)"
    "check (he_fs env) (rc_grants ctx) capability
       (PathTarget (if use_target then r_scope r else r_own r)) (rc_denylist ctx) = Ok ()"
  using assms by (auto simp: authorize_fs_def guard_limit_def Let_def split: if_splits option.splits sum.splits)

lemma check_path_ok:
  "check fs g name (PathTarget p) deny = Ok () \<Longrightarrow> find_capability name = Some d \<Longrightarrow> cap_scope d = PathGlob \<Longrightarrow>
     path_matches fs g name p \<and> \<not> denies_fs deny p"
  by (auto simp: check_def split: if_splits)

lemma find_path_capability:
  "find_capability ''fs.read'' = Some \<lparr>cap_name = ''fs.read'', cap_scope = PathGlob\<rparr>"
  "find_capability ''fs.stat'' = Some \<lparr>cap_name = ''fs.stat'', cap_scope = PathGlob\<rparr>"
  "find_capability ''fs.list'' = Some \<lparr>cap_name = ''fs.list'', cap_scope = PathGlob\<rparr>"
  by code_simp+

lemma resolve_plain: "resolve fs raw = Some r \<Longrightarrow> \<not> r_final_symlink r \<Longrightarrow> r_scope r = r_own r"
  by (auto simp: resolve_def Let_def split: if_splits option.splits)

text \<open>
  C1. Whatever path text a guest passes to \<open>fs.read\<close>, bytes come back only from a path that is in
  scope of one of its grants, is not denied by the node, and is no symbolic link; at most 256 KiB
  and at most what the guest asked for; and nothing is recorded.
\<close>

theorem fs_read_safe:
  assumes "fs_read env ctx raw max_bytes = Ok (ctx', Ok bytes)"
  shows "\<exists>r. resolve (he_fs env) raw = Some r \<and> \<not> r_final_symlink r
      \<and> path_matches (he_fs env) (rc_grants ctx) ''fs.read'' (r_own r)
      \<and> \<not> denies_fs (rc_denylist ctx) (r_own r)
      \<and> read_limited env (r_own r) max_bytes = Ok bytes
    \<and> length bytes \<le> min max_bytes MAX_READ_BYTES \<and> ctx' = ctx"
proof -
  from assms obtain auth where a: "authorize_fs env ctx ''fs.read'' raw True = Ok auth"
    by (auto simp: fs_read_def)
  show ?thesis
  proof (cases auth)
    case (Deny reason target)
    with assms a show ?thesis by (simp add: fs_read_def)
  next
    case (Allow r)
    note ok = authorize_fs_allow [OF a [unfolded Allow]]
    from assms a Allow have r: "\<not> r_final_symlink r" "read_limited env (r_own r) max_bytes = Ok bytes" "ctx' = ctx"
      by (auto simp: fs_read_def split: if_splits sum.splits)
    have "path_matches (he_fs env) (rc_grants ctx) ''fs.read'' (r_own r) \<and> \<not> denies_fs (rc_denylist ctx) (r_own r)"
      using check_path_ok [OF ok(4) find_path_capability(1)] resolve_plain [OF ok(2) r(1)] by simp
    moreover have "length bytes \<le> min max_bytes MAX_READ_BYTES"
      using r(2) by (auto simp: read_limited_def)
    ultimately show ?thesis using ok(2) r by auto
  qed
qed

definition sample_ctx :: run_ctx where
  "sample_ctx = \<lparr>rc_grants = [''fs.read'' \<mapsto> [PathScope ''/srv/*'']], rc_denylist = \<lparr>data_dirs = []\<rparr>,
     rc_denials = [], rc_logs = []\<rparr>"

lemma fs_read_safe_witness:
  "\<exists>r. resolve (he_fs sample_env) ''/srv/../srv/./a'' = Some r \<and> \<not> r_final_symlink r
     \<and> read_limited sample_env (r_own r) 3 = Ok ''hel''"
proof -
  have "resolve (he_fs sample_env) ''/srv/../srv/./a'' =
      Some \<lparr>r_own = ''/srv/a'', r_scope = ''/srv/a'', r_final_symlink = False, r_broken_symlink = False\<rparr>"
    "path_matches (he_fs sample_env) (rc_grants sample_ctx) ''fs.read'' ''/srv/a''"
    "\<not> denies_fs (rc_denylist sample_ctx) ''/srv/a''" "\<not> reject_syntax ''/srv/../srv/./a''" by code_simp+
  moreover have "read_limited sample_env ''/srv/a'' 3 = Ok ''hel''"
    by (simp add: read_limited_def sample_env_def MAX_READ_BYTES_def numeral_3_eq_3)
  ultimately have "fs_read sample_env sample_ctx ''/srv/../srv/./a'' 3 = Ok (sample_ctx, Ok ''hel'')"
    by (simp add: fs_read_def authorize_fs_def guard_limit_def check_def find_path_capability declares_def
        cap_disabled_def sample_ctx_def DENIAL_LIMIT_def Let_def)
  from fs_read_safe [OF this] show ?thesis by blast
qed

subsection \<open>Records with a capacity\<close>

text \<open>
  The denials and the logs of a run are both appended to, one entry at a time, up to a limit, and
  never changed otherwise. \<open>record\<close> is the operation the client calls with what to record.
\<close>

locale capped_log =
  fixes record_entry :: "'s \<Rightarrow> 'a \<Rightarrow> 's" and entries :: "'s \<Rightarrow> 'e list" and entry :: "'a \<Rightarrow> 's \<Rightarrow> 'e" and cap :: nat
  assumes append_below: "length (entries s) < cap \<Longrightarrow> entries (record_entry s a) = entries s @ [entry a s]"
    and keep_full: "length (entries s) \<ge> cap \<Longrightarrow> entries (record_entry s a) = entries s"
begin

lemma bounded_step: "length (entries s) \<le> cap \<Longrightarrow> length (entries (record_entry s a)) \<le> cap"
  using append_below [of s a] keep_full [of s a] by (cases "length (entries s) < cap") auto

lemma prefix_step: "prefix (entries s) (entries (record_entry s a))"
  using append_below [of s a] keep_full [of s a] by (cases "length (entries s) < cap") auto

lemma bounded: "length (entries s) \<le> cap \<Longrightarrow> length (entries (foldl record_entry s as)) \<le> cap"
  by (induction as arbitrary: s) (simp_all add: bounded_step)

lemma grows: "prefix (entries s) (entries (foldl record_entry s as))"
proof (induction as arbitrary: s)
  case (Cons a as)
  then show ?case using prefix_step [of s a] prefix_order.trans by (simp, blast)
qed simp

lemma count:
  "length (entries s) \<le> cap \<Longrightarrow>
     length (entries (foldl record_entry s as)) = min cap (length (entries s) + length as)"
proof (induction as arbitrary: s)
  case (Cons a as)
  then show ?case
    using append_below [of s a] keep_full [of s a] bounded_step [of s a]
    by (cases "length (entries s) < cap") auto
qed simp

end

definition record_denial :: "run_ctx \<Rightarrow> host_env \<times> str \<times> str \<Rightarrow> run_ctx" where
  "record_denial ctx a =
     (case deny_wasi (fst a) ctx (fst (snd a)) (snd (snd a)) of Inl f \<Rightarrow> ctx | Inr ctx' \<Rightarrow> ctx')"

definition denial_of :: "host_env \<times> str \<times> str \<Rightarrow> run_ctx \<Rightarrow> denial" where
  "denial_of a ctx =
     \<lparr>dn_capability = fst (snd a), dn_target = clip (snd (snd a)) 1024,
      dn_reason = (case check (he_fs (fst a)) (rc_grants ctx) (fst (snd a)) NoTarget (rc_denylist ctx) of
          Inl r \<Rightarrow> r | Inr _ \<Rightarrow> UndeclaredCapability),
      dn_at_ms = min (he_elapsed_ms (fst a)) u64_max\<rparr>"

interpretation denials: capped_log record_denial rc_denials denial_of DENIAL_LIMIT
  by unfold_locales
    (auto simp: record_denial_def deny_wasi_def guard_limit_def push_denial_def denial_of_def Let_def)

interpretation logs: capped_log "\<lambda>ctx a. push_log ctx (fst a) (snd a)" rc_logs
    "\<lambda>a ctx. (fst a, clip (snd a) LOG_BYTES)" LOG_LIMIT
  by unfold_locales (auto simp: push_log_def)

end
