(* ===== verification/Run.thy ===== *)
theory Run
  imports Host "HOL-Library.Word"
begin

text \<open>
  \<open>host.rs\<close> and \<open>lib.rs\<close>, one run of a skill: the runtime with its component cache, the dispatch of
  the guest's host calls, the outcome and its error code. The WebAssembly engine is a parameter:
  \<open>compile\<close>, \<open>link\<close> and \<open>instantiate\<close>. Code of the component, a start function or the entry point, is
  a \<open>guest\<close>: a tree of host calls with the code's reaction to each reply. \<open>envs i\<close> is the environment
  during the \<open>i\<close>-th call.
\<close>

subsection \<open>Results\<close>

record run_error =
  re_code :: str
  re_message :: str

record run_output =
  ro_status :: str
  ro_error :: "run_error option"
  ro_denials :: "denial list"
  ro_partial :: "str option"
  ro_output :: "str option"

definition output_ok :: "str \<Rightarrow> run_output" where
  "output_ok out = \<lparr>ro_status = ''ok'', ro_error = None, ro_denials = [], ro_partial = None, ro_output = Some out\<rparr>"

definition output_error :: "str \<Rightarrow> str \<Rightarrow> denial list \<Rightarrow> str option \<Rightarrow> run_output" where
  "output_error code message denials part =
     \<lparr>ro_status = ''error'', ro_error = Some \<lparr>re_code = code, re_message = message\<rparr>,
      ro_denials = denials, ro_partial = part, ro_output = None\<rparr>"

subsection \<open>The engine\<close>

text \<open>
  An engine error: its text with the chain of causes, its own text, and whether it is the
  \<open>Interrupt\<close> trap.
\<close>

record wasm_error =
  we_chain :: str
  we_display :: str
  we_interrupt :: bool

datatype host_call =
    CallRead str nat
  | CallStat str
  | CallList str nat nat
  | CallListeningPorts
  | CallInterfaces
  | CallInfo
  | CallTimeSync
  | CallMetrics
  | CallEnvGet str
  | CallProcesses
  | CallLog nat str
  | CallWasi str "wasi_type list" nat "wasi_val list"

datatype reply =
    RBytes "(str, host_error) result"
  | RStat "(file_stat, host_error) result"
  | RList "(str list, host_error) result"
  | RSockets "(listen_socket list, host_error) result"
  | RText "(str, host_error) result"
  | REnv "(str option, host_error) result"
  | RLogged
  | RWasi "wasi_val list"

datatype 'a guest =
    GReturn 'a
  | GTrap wasm_error
  | GCall host_call "reply \<Rightarrow> 'a guest"

text \<open>What \<open>call_run\<close> executes: it returns the text of a success or of the guest's own error.\<close>

type_synonym entry = "(str, str) result guest"

subsection \<open>Serving a call\<close>

text \<open>
  A host function that faults has not changed the context. \<open>wrap\<close> lifts its result to a reply.
\<close>

definition reply_with ::
    "run_ctx \<Rightarrow> 'a served \<Rightarrow> (('a, host_error) result \<Rightarrow> reply) \<Rightarrow> run_ctx \<times> (reply, fault) result" where
  "reply_with ctx s wrap =
     (case s of Inl f \<Rightarrow> (ctx, Err f) | Inr (ctx', r) \<Rightarrow> (ctx', Ok (wrap r)))"

text \<open>
  A stub of \<open>wasi_deny.rs\<close>: the denial is recorded, then the answer is synthesized; where that
  fails the guest traps with the denial recorded.
\<close>

definition wasi_stub ::
    "host_env \<Rightarrow> run_ctx \<Rightarrow> str \<Rightarrow> wasi_type list \<Rightarrow> nat \<Rightarrow> wasi_val list \<Rightarrow> run_ctx \<times> (reply, fault) result" where
  "wasi_stub env ctx capability types slots args =
     (case deny_wasi env ctx capability (first_string args) of
        Inl f \<Rightarrow> (ctx, Err f)
      | Inr ctx' \<Rightarrow>
          (case fill_results types slots of
             Inl msg \<Rightarrow> (ctx', Err (Trapped msg))
           | Inr vs \<Rightarrow> (ctx', Ok (RWasi vs))))"

fun serve :: "host_env \<Rightarrow> run_ctx \<Rightarrow> host_call \<Rightarrow> run_ctx \<times> (reply, fault) result" where
  "serve env ctx (CallRead p n) = reply_with ctx (fs_read env ctx p n) RBytes"
| "serve env ctx (CallStat p) = reply_with ctx (fs_stat env ctx p) RStat"
| "serve env ctx (CallList d m n) = reply_with ctx (fs_list env ctx d m n) RList"
| "serve env ctx CallListeningPorts = reply_with ctx (net_listening_ports env ctx) RSockets"
| "serve env ctx CallInterfaces = reply_with ctx (net_interfaces env ctx) RText"
| "serve env ctx CallInfo = reply_with ctx (sys_info env ctx) RText"
| "serve env ctx CallTimeSync = reply_with ctx (sys_time_sync env ctx) RText"
| "serve env ctx CallMetrics = reply_with ctx (sys_metrics env ctx) RText"
| "serve env ctx (CallEnvGet k) = reply_with ctx (sys_env_get env ctx k) REnv"
| "serve env ctx CallProcesses = reply_with ctx (proc_processes env ctx) RText"
| "serve env ctx (CallLog l m) =
     (case log_log ctx l m of Inl f \<Rightarrow> (ctx, Err f) | Inr ctx' \<Rightarrow> (ctx', Ok RLogged))"
| "serve env ctx (CallWasi c types slots args) = wasi_stub env ctx c types slots args"

subsection \<open>Running the guest\<close>

text \<open>
  The calls code makes with what each was answered, the final context, and how the code ended. A
  trap of a host function becomes an engine error, made by \<open>raise\<close>; a panic unwinds.
\<close>

datatype 'a guest_end = Finished 'a | Failed wasm_error | Unwound

type_synonym call_trace = "(host_env \<times> host_call \<times> (reply, fault) result) list"

primrec exec_guest ::
    "(str \<Rightarrow> wasm_error) \<Rightarrow> (nat \<Rightarrow> host_env) \<Rightarrow> 'a guest \<Rightarrow> nat \<Rightarrow> run_ctx
       \<Rightarrow> call_trace \<times> run_ctx \<times> 'a guest_end" where
  "exec_guest raise envs (GReturn r) = (\<lambda>i ctx. ([], ctx, Finished r))"
| "exec_guest raise envs (GTrap e) = (\<lambda>i ctx. ([], ctx, Failed e))"
| "exec_guest raise envs (GCall c k) = (\<lambda>i ctx.
     (let (ctx', r) = serve (envs i) ctx c in
      case r of
        Inl (Trapped msg) \<Rightarrow> ([(envs i, c, r)], ctx', Failed (raise msg))
      | Inl Panicked \<Rightarrow> ([(envs i, c, r)], ctx', Unwound)
      | Inr rep \<Rightarrow>
          (let (tr, ctx2, e) = exec_guest raise envs (k rep) (i + 1) ctx'
           in ((envs i, c, r) # tr, ctx2, e))))"

definition trap_code :: "wasm_error \<Rightarrow> str" where
  "trap_code err =
     (let t = to_ascii_lowercase (we_chain err) in
      if contains_str t ''epoch'' \<or> contains_str t ''interrupt'' \<or> we_interrupt err then ''exec_timeout''
      else if contains_str t ''memory'' \<or> contains_str t ''resource'' then ''resource_limit''
      else ''guest_trap'')"

definition denial_message :: "nat \<Rightarrow> str" where
  "denial_message n =
     (if n = 1 then ''1 host call was outside the skill'' @ [CHR 0x27] @ ''s declared capabilities''
      else show_nat n @ '' host calls were outside the skill'' @ [CHR 0x27] @ ''s declared capabilities'')"

definition finish :: "run_ctx \<Rightarrow> ((str, str) result, wasm_error) result \<Rightarrow> run_output" where
  "finish ctx guest =
     (let denials = rc_denials ctx in
      if denials \<noteq> [] then
        output_error ''capability_denied'' (denial_message (length denials)) denials
          (case guest of Inr (Inr body) \<Rightarrow> Some body | _ \<Rightarrow> None)
      else (case guest of
          Inr (Inr out) \<Rightarrow> output_ok out
        | Inr (Inl message) \<Rightarrow> output_error ''guest_error'' message [] None
        | Inl err \<Rightarrow> output_error (trap_code err) (we_display err) [] None))"

definition EPOCH_MILLIS :: nat where "EPOCH_MILLIS = 10"
definition OPEN_DEADLINE_TICKS :: nat where "OPEN_DEADLINE_TICKS = 2 ^ 62"

text \<open>The timeout in milliseconds, \<open>Duration::as_millis\<close> of it.\<close>

definition deadline_ticks :: "nat option \<Rightarrow> nat" where
  "deadline_ticks timeout =
     (case timeout of
        None \<Rightarrow> OPEN_DEADLINE_TICKS
      | Some ms \<Rightarrow>
          (let millis = max ms 1; ticks = (millis + EPOCH_MILLIS - 1) div EPOCH_MILLIS
           in max (if ticks < u64_bound then ticks else u64_max) 1))"

subsection \<open>The runtime\<close>

text \<open>Every 64th byte and its index go into the fingerprint, in wrapping 64-bit arithmetic.\<close>

definition fingerprint :: "str \<Rightarrow> 64 word" where
  "fingerprint bytes =
     foldl (\<lambda>h i. h * 0x1000000001b3 + of_nat (byte (bytes ! i)) + of_nat i)
       (of_nat (length bytes)) (map (\<lambda>k. 64 * k) [0..<(length bytes + 63) div 64])"

record 'c skill_runtime =
  rt_cache :: "(64 word \<times> 'c) option"
  rt_entries :: nat

definition runtime_component ::
    "(str \<Rightarrow> ('c, str) result) \<Rightarrow> 'c skill_runtime \<Rightarrow> str \<Rightarrow> 'c skill_runtime \<times> ('c, str) result" where
  "runtime_component compile rt bytes =
     (let fp = fingerprint bytes;
          fresh = (case compile bytes of
              Inl e \<Rightarrow> (rt, Err (''component bytes are not a wasm component: '' @ e))
            | Inr c \<Rightarrow> (rt\<lparr>rt_cache := Some (fp, c)\<rparr>, Ok c))
      in case rt_cache rt of
           Some (cached, c) \<Rightarrow> if cached = fp then (rt, Ok c) else fresh
         | None \<Rightarrow> fresh)"

definition import_allowed :: "str \<Rightarrow> bool" where
  "import_allowed name = (starts_with name ''novbot:skill/'' \<or> starts_with name ''wasi:'')"

definition SKILL_ABI :: str where "SKILL_ABI = ''novbot:skill@1''"

text \<open>
  \<open>compile_cwasm\<close>: \<open>compile\<close> compiles, \<open>imports\<close> are the import names of a component and
  \<open>serialize\<close> is \<open>Component::serialize\<close>.
\<close>

definition compile_cwasm ::
    "(str \<Rightarrow> ('c, str) result) \<Rightarrow> ('c \<Rightarrow> str list) \<Rightarrow> ('c \<Rightarrow> (str, str) result) \<Rightarrow> str \<Rightarrow> (str, str) result" where
  "compile_cwasm compile imports serialize module_wasm =
     (if module_wasm = [] \<or> \<not> starts_with module_wasm (CHR 0x00 # ''asm'')
      then Err ''compile_failed: module.wasm is not a wasm component''
      else (case compile module_wasm of
          Inl e \<Rightarrow> Err (''compile_failed: '' @ e)
        | Inr c \<Rightarrow>
            (case find (\<lambda>n. \<not> import_allowed n) (imports c) of
               Some n \<Rightarrow> Err (''compile_failed: import '' @ n @ '' is outside '' @ SKILL_ABI)
             | None \<Rightarrow>
                 (case serialize c of Inl e \<Rightarrow> Err (''compile_failed: '' @ e) | Inr code \<Rightarrow> Ok code))))"

text \<open>
  What the engine contributes to a run. \<open>en_link\<close> sets up the linker and the stubs,
  \<open>en_instantiate\<close> is what \<open>Skill::instantiate\<close> executes with the deadline and the memory cap of the
  store: start functions run on the store and may call the host. It returns the instance, given by
  what \<open>call_run\<close> executes on it for a parameter text.
\<close>

record 'c engine =
  en_compile :: "str \<Rightarrow> ('c, str) result"
  en_link :: "'c \<Rightarrow> (unit, str) result"
  en_instantiate :: "'c \<Rightarrow> nat \<Rightarrow> nat option \<Rightarrow> (str \<Rightarrow> entry) guest"
  en_raise :: "str \<Rightarrow> wasm_error"

record run_request =
  rq_component :: str
  rq_grants :: "str list"
  rq_params :: str
  rq_data_dir :: "str option"
  rq_timeout :: "nat option"
  rq_memory :: "nat option"

definition start_ctx :: "host_env \<Rightarrow> grant_set \<Rightarrow> str option \<Rightarrow> run_ctx" where
  "start_ctx env grants data_dir =
     \<lparr>rc_grants = grants,
      rc_denylist = denylist_new (he_fs env) (he_env_var env ''NOVBOT_DATA_DIR'') data_dir,
      rc_denials = [], rc_logs = []\<rparr>"

text \<open>The instantiation: \<open>Skill::instantiate\<close> on the fresh store.\<close>

definition skill_instantiate ::
    "'c engine \<Rightarrow> (nat \<Rightarrow> host_env) \<Rightarrow> 'c \<Rightarrow> grant_set \<Rightarrow> run_request \<Rightarrow> call_trace \<times> run_ctx \<times> (str \<Rightarrow> entry) guest_end" where
  "skill_instantiate en envs c grants rq =
     exec_guest (en_raise en) envs (en_instantiate en c (deadline_ticks (rq_timeout rq)) (rq_memory rq)) 1
       (start_ctx (envs 0) grants (rq_data_dir rq))"

text \<open>
  \<open>None\<close> when a host function panics; the trace is that of the calls served, those of the start
  functions first. An error of the instantiation is reported without the denials of the context.
\<close>

definition invoke ::
    "'c engine \<Rightarrow> (nat \<Rightarrow> host_env) \<Rightarrow> 'c \<Rightarrow> grant_set \<Rightarrow> run_request \<Rightarrow> call_trace \<times> (run_output, str) result option" where
  "invoke en envs c grants rq =
     (case en_link en c of
        Inl e \<Rightarrow> ([], Some (Err e))
      | Inr _ \<Rightarrow>
          (case skill_instantiate en envs c grants rq of
             (tr0, ctx0, Failed err) \<Rightarrow> (tr0, Some (Ok (output_error (trap_code err) (we_display err) [] None)))
           | (tr0, ctx0, Unwound) \<Rightarrow> (tr0, None)
           | (tr0, ctx0, Finished call_run) \<Rightarrow>
               (let (tr, ctx', e) = exec_guest (en_raise en) envs (call_run (rq_params rq)) (1 + length tr0) ctx0 in
                case e of
                  Finished r \<Rightarrow> (tr0 @ tr, Some (Ok (finish ctx' (Inr r))))
                | Failed err \<Rightarrow> (tr0 @ tr, Some (Ok (finish ctx' (Inl err))))
                | Unwound \<Rightarrow> (tr0 @ tr, None))))"

definition run ::
    "'c engine \<Rightarrow> (nat \<Rightarrow> host_env) \<Rightarrow> 'c skill_runtime \<Rightarrow> run_request
       \<Rightarrow> 'c skill_runtime \<times> call_trace \<times> run_output option" where
  "run en envs rt0 rq =
     (let rt = rt0\<lparr>rt_entries := (rt_entries rt0 + 1) mod u64_bound\<rparr> in
      case parse_grants (rq_grants rq) of
        Inl e \<Rightarrow> (rt, [], Some (output_error ''capability_unsupported'' (grant_error_text e) [] None))
      | Inr grants \<Rightarrow>
          (case runtime_component (en_compile en) rt (rq_component rq) of
             (rt', Inl e) \<Rightarrow> (rt', [], Some (output_error ''invalid_component'' e [] None))
           | (rt', Inr c) \<Rightarrow>
               (case invoke en envs c grants rq of
                  (tr, None) \<Rightarrow> (rt', tr, None)
                | (tr, Some (Inr out)) \<Rightarrow> (rt', tr, Some out)
                | (tr, Some (Inl e)) \<Rightarrow> (rt', tr, Some (output_error ''runtime_error'' e [] None)))))"

end
