(* ===== verification/Run_Correct.thy ===== *)
theory Run_Correct
  imports Run Host_Correct
begin

text \<open>
  One run of a skill against its contract: the sequence of served calls as a step relation with its
  invariants, what an output says of the calls made, the shape of outputs, the deadline, and the
  component cache.
\<close>

subsection \<open>What serving a call does\<close>

lemma push_denial_simps [simp]:
  "rc_denials (push_denial env ctx c t r) = rc_denials ctx @
     [\<lparr>dn_capability = c, dn_target = clip t 1024, dn_reason = r, dn_at_ms = min (he_elapsed_ms env) u64_max\<rparr>]"
  "rc_logs (push_denial env ctx c t r) = rc_logs ctx"
  "rc_grants (push_denial env ctx c t r) = rc_grants ctx"
  "rc_denylist (push_denial env ctx c t r) = rc_denylist ctx"
  by (simp_all add: push_denial_def)

lemma push_log_simps [simp]:
  "rc_denials (push_log ctx l m) = rc_denials ctx"
  "rc_grants (push_log ctx l m) = rc_grants ctx"
  "rc_denylist (push_log ctx l m) = rc_denylist ctx"
  by (simp_all add: push_log_def)

fun host_denied :: "('a, host_error) result \<Rightarrow> bool" where
  "host_denied (Inl (Denied d)) = True"
| "host_denied _ = False"

text \<open>The guest is told the call is refused; a stub always refuses.\<close>

fun refused :: "(reply, fault) result \<Rightarrow> bool" where
  "refused (Inl f) = False"
| "refused (Inr (RBytes r)) = host_denied r"
| "refused (Inr (RStat r)) = host_denied r"
| "refused (Inr (RList r)) = host_denied r"
| "refused (Inr (RSockets r)) = host_denied r"
| "refused (Inr (RText r)) = host_denied r"
| "refused (Inr (REnv r)) = host_denied r"
| "refused (Inr RLogged) = False"
| "refused (Inr (RWasi vs)) = True"

text \<open>
  The three effects of a call: none, one denial below the limit, one log line. A refusal is always
  recorded.
\<close>

inductive effect :: "host_env \<Rightarrow> run_ctx \<Rightarrow> bool \<Rightarrow> run_ctx \<Rightarrow> bool" for env ctx where
  quiet: "effect env ctx False ctx"
| deny: "length (rc_denials ctx) < DENIAL_LIMIT \<Longrightarrow> effect env ctx b (push_denial env ctx c t r)"
| log: "effect env ctx False (push_log ctx l m)"

lemma guard_limit_Ok: "guard_limit ctx = Ok u \<longleftrightarrow> length (rc_denials ctx) < DENIAL_LIMIT"
  by (auto simp: guard_limit_def)

lemma authorize_bare_effect:
  "authorize_bare env ctx c = Ok (ctx', allowed) \<Longrightarrow> (allowed \<and> ctx' = ctx) \<or>
     (\<not> allowed \<and> length (rc_denials ctx) < DENIAL_LIMIT \<and> (\<exists>r. ctx' = push_denial env ctx c [] r))"
  by (auto simp: authorize_bare_def guard_limit_Ok split: sum.splits)

definition served_effect :: "host_env \<Rightarrow> run_ctx \<Rightarrow> 'a served \<Rightarrow> bool" where
  "served_effect env ctx s = (\<forall>ctx' r. s = Ok (ctx', r) \<longrightarrow> effect env ctx (host_denied r) ctx')"

lemma serve_bare_effect:
  assumes "\<And>r. answer = Ok r \<Longrightarrow> \<not> host_denied r"
  shows "served_effect env ctx (serve_bare env ctx c answer)"
  using assms
  by (auto simp: served_effect_def serve_bare_def dest!: authorize_bare_effect intro: effect.intros
      split: if_splits)

lemma io_answer_not_denied: "io_answer x = Ok r \<Longrightarrow> \<not> host_denied r"
  by (cases x) (auto simp: io_answer_def)

lemma authorize_fs_Deny: "authorize_fs env ctx c p b = Ok a \<Longrightarrow> length (rc_denials ctx) < DENIAL_LIMIT"
  by (auto simp: authorize_fs_def guard_limit_Ok)

lemma io_host_error_not_denied [simp]: "\<not> host_denied (Inl (io_host_error e))"
  by (simp add: io_host_error_def)

text \<open>The three file functions: a refusal is recorded, and the body behind the check refuses nothing.\<close>

lemma authorized_effect:
  assumes "\<And>ctx' r. s = Ok (ctx', r) \<Longrightarrow> \<exists>a. authorize_fs env ctx c p b = Ok a \<and>
      (case a of Deny reason target \<Rightarrow> ctx' = push_denial env ctx c target reason \<and> r = Err (denied c target reason)
       | Allow x \<Rightarrow> ctx' = ctx \<and> \<not> host_denied r)"
  shows "served_effect env ctx s"
proof (unfold served_effect_def, intro allI impI)
  fix ctx' r assume "s = Ok (ctx', r)"
  with assms obtain a where a: "authorize_fs env ctx c p b = Ok a"
    "case a of Deny reason target \<Rightarrow> ctx' = push_denial env ctx c target reason \<and> r = Err (denied c target reason)
       | Allow x \<Rightarrow> ctx' = ctx \<and> \<not> host_denied r" by blast
  show "effect env ctx (host_denied r) ctx'"
  proof (cases a)
    case (Allow x)
    with a(2) show ?thesis by (simp add: effect.quiet)
  next
    case (Deny reason target)
    with a show ?thesis by (auto simp: denied_def intro!: effect.deny dest: authorize_fs_Deny)
  qed
qed

lemma served_effects:
  "served_effect env ctx (fs_read env ctx p n)"
  "served_effect env ctx (fs_stat env ctx p)"
  "served_effect env ctx (fs_list env ctx p d n)"
proof -
  show "served_effect env ctx (fs_read env ctx p n)"
  proof (rule authorized_effect)
    fix ctx' r assume h: "fs_read env ctx p n = Ok (ctx', r)"
    then obtain a where "authorize_fs env ctx ''fs.read'' p True = Ok a" by (auto simp: fs_read_def)
    with h show "\<exists>a. authorize_fs env ctx ''fs.read'' p True = Ok a \<and>
      (case a of Deny reason target \<Rightarrow> ctx' = push_denial env ctx ''fs.read'' target reason \<and> r = Err (denied ''fs.read'' target reason)
       | Allow x \<Rightarrow> ctx' = ctx \<and> \<not> host_denied r)"
      by (cases a) (auto simp: fs_read_def split: if_splits sum.splits)
  qed
  show "served_effect env ctx (fs_stat env ctx p)"
  proof (rule authorized_effect)
    fix ctx' r assume h: "fs_stat env ctx p = Ok (ctx', r)"
    then obtain a where "authorize_fs env ctx ''fs.stat'' p False = Ok a" by (auto simp: fs_stat_def)
    with h show "\<exists>a. authorize_fs env ctx ''fs.stat'' p False = Ok a \<and>
      (case a of Deny reason target \<Rightarrow> ctx' = push_denial env ctx ''fs.stat'' target reason \<and> r = Err (denied ''fs.stat'' target reason)
       | Allow x \<Rightarrow> ctx' = ctx \<and> \<not> host_denied r)"
      by (cases a) (auto simp: fs_stat_def split: sum.splits)
  qed
  show "served_effect env ctx (fs_list env ctx p d n)"
  proof (rule authorized_effect)
    fix ctx' r assume h: "fs_list env ctx p d n = Ok (ctx', r)"
    then obtain a where "authorize_fs env ctx ''fs.list'' p True = Ok a" by (auto simp: fs_list_def)
    with h show "\<exists>a. authorize_fs env ctx ''fs.list'' p True = Ok a \<and>
      (case a of Deny reason target \<Rightarrow> ctx' = push_denial env ctx ''fs.list'' target reason \<and> r = Err (denied ''fs.list'' target reason)
       | Allow x \<Rightarrow> ctx' = ctx \<and> \<not> host_denied r)"
      by (cases a) (auto simp: fs_list_def split: if_splits sum.splits)
  qed
qed

lemma served_effect_env: "served_effect env ctx (sys_env_get env ctx k)"
  by (auto simp: served_effect_def sys_env_get_def denied_def guard_limit_Ok intro: effect.intros
      split: sum.splits)

lemma served_effects_bare:
  "served_effect env ctx (net_listening_ports env ctx)"
  "served_effect env ctx (net_interfaces env ctx)"
  "served_effect env ctx (sys_info env ctx)"
  "served_effect env ctx (sys_time_sync env ctx)"
  "served_effect env ctx (sys_metrics env ctx)"
  "served_effect env ctx (proc_processes env ctx)"
  unfolding net_listening_ports_def net_interfaces_def sys_info_def sys_time_sync_def sys_metrics_def
    proc_processes_def
  by (rule serve_bare_effect, auto dest: io_answer_not_denied split: option.splits)+

lemma reply_with_effect:
  assumes "served_effect env ctx s" "reply_with ctx s wrap = (ctx', r)" "\<And>x. refused (Inr (wrap x)) = host_denied x"
  shows "effect env ctx (refused r) ctx'"
  using assms by (auto simp: reply_with_def served_effect_def intro: effect.quiet split: sum.splits)

lemma wasi_stub_effect:
  "wasi_stub env ctx c types slots args = (ctx', r) \<Longrightarrow> effect env ctx (refused r) ctx'"
  by (auto simp: wasi_stub_def deny_wasi_def guard_limit_Ok guard_limit_def Let_def
      intro: effect.intros split: sum.splits if_splits)

lemma serve_effect: "serve env ctx call = (ctx', r) \<Longrightarrow> effect env ctx (refused r) ctx'"
proof (cases call)
  case (CallLog l m)
  then show "serve env ctx call = (ctx', r) \<Longrightarrow> ?thesis"
    by (auto simp: log_log_def guard_limit_def intro: effect.intros split: if_splits)
next
  case (CallWasi c types slots args)
  then show "serve env ctx call = (ctx', r) \<Longrightarrow> ?thesis" by (simp add: wasi_stub_effect)
qed (auto intro: reply_with_effect [OF served_effects(1)] reply_with_effect [OF served_effects(2)]
    reply_with_effect [OF served_effects(3)] reply_with_effect [OF served_effect_env]
    reply_with_effect [OF served_effects_bare(1)] reply_with_effect [OF served_effects_bare(2)]
    reply_with_effect [OF served_effects_bare(3)] reply_with_effect [OF served_effects_bare(4)]
    reply_with_effect [OF served_effects_bare(5)] reply_with_effect [OF served_effects_bare(6)])

subsection \<open>Sequences of calls\<close>

inductive serves :: "run_ctx \<Rightarrow> call_trace \<Rightarrow> run_ctx \<Rightarrow> bool" where
  none: "serves ctx [] ctx"
| call: "serve env ctx c = (ctx', r) \<Longrightarrow> serves ctx' tr ctx'' \<Longrightarrow> serves ctx ((env, c, r) # tr) ctx''"

inductive_cases serves_ConsE: "serves ctx ((env, c, r) # tr) ctx''"
inductive_simps serves_Nil: "serves ctx [] ctx''"
inductive_cases effect_cases: "effect env ctx b ctx'"

lemma exec_guest_serves: "exec_guest raise envs g i ctx = (tr, ctx', e) \<Longrightarrow> serves ctx tr ctx'"
proof (induction g arbitrary: i ctx tr)
  case (GCall c k)
  obtain ctx1 r where s: "serve (envs i) ctx c = (ctx1, r)" by fastforce
  show ?case
  proof (cases r)
    case (Inl f)
    with GCall.prems s show ?thesis by (cases f) (auto intro: serves.intros)
  next
    case (Inr rep)
    obtain tr2 ctx2 e2 where x: "exec_guest raise envs (k rep) (i + 1) ctx1 = (tr2, ctx2, e2)"
      by (cases "exec_guest raise envs (k rep) (i + 1) ctx1")
    with GCall.prems s Inr have "tr = (envs i, c, r) # tr2" "ctx' = ctx2" "e = e2" by auto
    with GCall.IH [OF _ x [unfolded \<open>ctx' = ctx2\<close> [symmetric] \<open>e = e2\<close> [symmetric]]] s
    show ?thesis by (auto intro: serves.intros)
  qed
qed (auto intro: serves.intros)

text \<open>What holds of the context at any time of a run that started from \<open>ctx0\<close>.\<close>

definition ctx_ok :: "run_ctx \<Rightarrow> run_ctx \<Rightarrow> bool" where
  "ctx_ok ctx0 ctx =
     (length (rc_denials ctx) \<le> DENIAL_LIMIT \<and> length (rc_logs ctx) \<le> LOG_LIMIT
      \<and> list_all (\<lambda>d. length (dn_target d) \<le> 1024 \<and> dn_at_ms d < u64_bound) (rc_denials ctx)
      \<and> list_all (\<lambda>l. length (snd l) \<le> LOG_BYTES) (rc_logs ctx)
      \<and> rc_grants ctx = rc_grants ctx0 \<and> rc_denylist ctx = rc_denylist ctx0)"

lemma effect_ok: "effect env ctx b ctx' \<Longrightarrow> ctx_ok ctx0 ctx \<Longrightarrow> ctx_ok ctx0 ctx'"
proof (erule effect_cases)
  fix l m assume "ctx' = push_log ctx l m" "ctx_ok ctx0 ctx"
  then show "ctx_ok ctx0 ctx'"
    using logs.bounded_step [of ctx "(l, m)"] clip_short [of m LOG_BYTES]
    by (auto simp: ctx_ok_def) (auto simp: push_log_def)
qed (auto simp: ctx_ok_def clip_short)

lemma serves_ok: "serves ctx tr ctx' \<Longrightarrow> ctx_ok ctx0 ctx \<Longrightarrow> ctx_ok ctx0 ctx'"
  by (induction rule: serves.induct) (auto dest: serve_effect effect_ok)

lemma effect_denials:
  "effect env ctx b ctx' \<Longrightarrow> \<exists>ds. rc_denials ctx' = rc_denials ctx @ ds \<and> (b \<longrightarrow> length ds = 1)"
  by (erule effect_cases) auto

lemma serves_denials:
  "serves ctx tr ctx' \<Longrightarrow> \<exists>ds. rc_denials ctx' = rc_denials ctx @ ds
     \<and> length (filter (\<lambda>(env, c, r). refused r) tr) \<le> length ds"
proof (induction rule: serves.induct)
  case (call env ctx c ctx' r tr ctx'')
  from effect_denials [OF serve_effect [OF call.hyps(1)]] obtain ds where
    "rc_denials ctx' = rc_denials ctx @ ds" "refused r \<longrightarrow> length ds = 1" by blast
  with call.IH show ?case by (auto intro!: exI [of _ "ds @ ds'" for ds'])
qed simp

text \<open>
  C21. However the guest behaves and however the machine answers, at every point of a run at most
  16 denials and 32 log lines are held, each with at most 1024 bytes of the guest's text, and
  neither the grants nor the denylist the run started with ever change.
\<close>

theorem run_context_bounded:
  assumes "exec_guest raise envs g i (start_ctx env grants data_dir) = (tr, ctx', e)"
  shows "ctx_ok (start_ctx env grants data_dir) ctx'"
  by (rule serves_ok [OF exec_guest_serves [OF assms]]) (simp add: ctx_ok_def start_ctx_def)


lemma run_context_bounded_witness:
  "\<exists>tr ctx' e. exec_guest (\<lambda>m. \<lparr>we_chain = m, we_display = m, we_interrupt = False\<rparr>) (\<lambda>i. sample_env)
      (GCall (CallEnvGet ''HOME'') (\<lambda>r. GReturn (Ok ''done''))) 1 (start_ctx sample_env Map.empty None) = (tr, ctx', e)
    \<and> ctx_ok (start_ctx sample_env Map.empty None) ctx'"
  (is "\<exists>tr ctx' e. ?x = (tr, ctx', e) \<and> _")
proof -
  obtain tr ctx' e where x: "?x = (tr, ctx', e)" by (cases "?x")
  from run_context_bounded [OF x] x show ?thesis by blast
qed

subsection \<open>Outputs\<close>

lemma finish_denials [simp]: "ro_denials (finish ctx guest) = rc_denials ctx"
  by (auto simp: finish_def Let_def output_error_def output_ok_def split: sum.splits)

lemma finish_ok: "ro_status (finish ctx guest) = ''ok'' \<Longrightarrow> rc_denials ctx = []"
  by (auto simp: finish_def Let_def output_error_def split: if_splits)

lemma output_error_simps [simp]:
  "ro_denials (output_error code m ds p) = ds" "ro_status (output_error code m ds p) = ''error''"
  "ro_error (output_error code m ds p) = Some \<lparr>re_code = code, re_message = m\<rparr>"
  "ro_output (output_error code m ds p) = None" "ro_partial (output_error code m ds p) = p"
  by (simp_all add: output_error_def)

lemma trap_code_range: "trap_code e \<in> {''exec_timeout'', ''resource_limit'', ''guest_trap''}"
  by (simp add: trap_code_def Let_def)

lemma serves_append: "serves ctx tr ctx' \<Longrightarrow> serves ctx' tr' ctx'' \<Longrightarrow> serves ctx (tr @ tr') ctx''"
  by (induction rule: serves.induct) (auto intro: serves.intros)

text \<open>
  How a run ends: before any code of the component runs, in a start function, or with the context
  the calls left.
\<close>

lemma invoke_cases:
  assumes "invoke en envs c grants rq = (tr, Some (Ok out))"
  obtains (start) ctx0 err where "skill_instantiate en envs c grants rq = (tr, ctx0, Failed err)"
      "out = output_error (trap_code err) (we_display err) [] None"
    | (guest) ctx' r where "serves (start_ctx (envs 0) grants (rq_data_dir rq)) tr ctx'" "out = finish ctx' r"
proof -
  let ?ctx = "start_ctx (envs 0) grants (rq_data_dir rq)"
  obtain u where link: "en_link en c = Inr u" using assms by (cases "en_link en c") (simp_all add: invoke_def)
  obtain tr0 ctx0 e0 where inst: "skill_instantiate en envs c grants rq = (tr0, ctx0, e0)"
    by (cases "skill_instantiate en envs c grants rq")
  show thesis
  proof (cases e0)
    case (Failed err)
    with assms link inst start show thesis by (simp add: invoke_def)
  next
    case Unwound
    with assms link inst show thesis by (simp add: invoke_def)
  next
    case (Finished g)
    obtain tr1 ctx1 e1 where x: "exec_guest (en_raise en) envs (g (rq_params rq)) (1 + length tr0) ctx0 = (tr1, ctx1, e1)"
      by (cases "exec_guest (en_raise en) envs (g (rq_params rq)) (1 + length tr0) ctx0")
    have "\<exists>r. tr = tr0 @ tr1 \<and> out = finish ctx1 r"
      using assms link inst Finished x by (cases e1) (auto simp: invoke_def)
    moreover have "serves ?ctx (tr0 @ tr1) ctx1"
      using serves_append exec_guest_serves [OF inst [unfolded skill_instantiate_def]] exec_guest_serves [OF x] by blast
    ultimately show thesis using guest by blast
  qed
qed

lemma run_cases:
  assumes "run en envs rt rq = (rt', tr, Some out)"
  obtains (early) code m where "tr = []" "out = output_error code m [] None"
      "code \<in> {''capability_unsupported'', ''invalid_component'', ''runtime_error''}"
    | (start) c grants ctx0 err where "parse_grants (rq_grants rq) = Ok grants"
      "skill_instantiate en envs c grants rq = (tr, ctx0, Failed err)"
      "out = output_error (trap_code err) (we_display err) [] None"
    | (guest) grants ctx' r where "parse_grants (rq_grants rq) = Ok grants"
      "serves (start_ctx (envs 0) grants (rq_data_dir rq)) tr ctx'" "out = finish ctx' r"
proof (cases "parse_grants (rq_grants rq)")
  case (Inl e)
  with assms have "tr = [] \<and> out = output_error ''capability_unsupported'' (grant_error_text e) [] None"
    by (simp add: run_def)
  then show thesis by (intro early) auto
next
  case grants: (Inr grants)
  let ?rt = "rt\<lparr>rt_entries := (rt_entries rt + 1) mod u64_bound\<rparr>"
  obtain rt1 c where c: "runtime_component (en_compile en) ?rt (rq_component rq) = (rt1, c)" by fastforce
  show thesis
  proof (cases c)
    case (Inl e)
    with assms grants c have "tr = [] \<and> out = output_error ''invalid_component'' e [] None"
      by (simp add: run_def)
    then show thesis by (intro early) auto
  next
    case (Inr comp)
    obtain tr1 o1 where inv: "invoke en envs comp grants rq = (tr1, o1)" by fastforce
    show thesis
    proof (cases "\<exists>e. o1 = Some (Inl e)")
      case True
      then obtain e where e: "o1 = Some (Inl e)" by blast
      with inv have "tr1 = []"
        by (auto simp: invoke_def split: sum.splits prod.splits guest_end.splits)
      with assms grants c Inr inv e have "tr = [] \<and> out = output_error ''runtime_error'' e [] None"
        by (simp add: run_def)
      then show thesis by (intro early) auto
    next
      case False
      with assms grants c Inr inv have "invoke en envs comp grants rq = (tr, Some (Ok out))"
        by (auto simp: run_def split: option.splits sum.splits)
      then show thesis using start [OF grants] guest [OF grants] by (cases rule: invoke_cases) blast+
    qed
  qed
qed


text \<open>The probe asks for a variable in its start function and once more when it is called.\<close>

definition plain_error :: "str \<Rightarrow> wasm_error" where
  "plain_error m = \<lparr>we_chain = m, we_display = m, we_interrupt = False\<rparr>"

definition probe_engine :: "(str \<Rightarrow> entry) guest \<Rightarrow> unit engine" where
  "probe_engine start = \<lparr>en_compile = (\<lambda>b. Ok ()), en_link = (\<lambda>c. Ok ()),
     en_instantiate = (\<lambda>c t m. start), en_raise = plain_error\<rparr>"

definition env_probe_engine :: "unit engine" where
  "env_probe_engine = probe_engine (GCall (CallEnvGet ''HOME'')
     (\<lambda>r. GReturn (\<lambda>p. GCall (CallEnvGet ''HOME'') (\<lambda>r. GReturn (Ok ''done'')))))"

text \<open>A start function that traps after its call was refused.\<close>

definition failing_start_engine :: "unit engine" where
  "failing_start_engine = probe_engine (GCall (CallEnvGet ''HOME'') (\<lambda>r. GTrap (plain_error ''unreachable'')))"

definition plain_request :: run_request where
  "plain_request = \<lparr>rq_component = [], rq_grants = [], rq_params = [], rq_data_dir = None, rq_timeout = None, rq_memory = None\<rparr>"

lemma env_probe_refused:
  "\<exists>rt' tr out. run env_probe_engine (\<lambda>i. sample_env) \<lparr>rt_cache = None, rt_entries = 0\<rparr> plain_request = (rt', tr, Some out)
     \<and> length (ro_denials out) = 2"
proof -
  have c: "find_capability ''env.read'' = Some \<lparr>cap_name = ''env.read'', cap_scope = EnvKey\<rparr>" by code_simp
  have d: "denylist_new (he_fs sample_env) (he_env_var sample_env ''NOVBOT_DATA_DIR'') None = \<lparr>data_dirs = []\<rparr>"
    by (simp add: denylist_new_def sample_env_def)
  show ?thesis
    by (simp add: run_def invoke_def skill_instantiate_def env_probe_engine_def probe_engine_def plain_request_def
        parse_grants_def runtime_component_def Let_def start_ctx_def d reply_with_def sys_env_get_def guard_limit_def
        DENIAL_LIMIT_def check_def c declares_def finish_def push_denial_def)
qed


text \<open>
  The denials of a start function are lost when the instantiation fails: the variable was refused,
  and the output tells of a trap only.
\<close>

lemma failed_start_drops_denials:
  "\<exists>rt' tr out. run failing_start_engine (\<lambda>i. sample_env) \<lparr>rt_cache = None, rt_entries = 0\<rparr> plain_request = (rt', tr, Some out)
     \<and> length (filter (\<lambda>(env, c, r). refused r) tr) = 1 \<and> ro_denials out = []
     \<and> map_option re_code (ro_error out) = Some ''guest_trap''"
proof -
  have c: "find_capability ''env.read'' = Some \<lparr>cap_name = ''env.read'', cap_scope = EnvKey\<rparr>" by code_simp
  have d: "denylist_new (he_fs sample_env) (he_env_var sample_env ''NOVBOT_DATA_DIR'') None = \<lparr>data_dirs = []\<rparr>"
    by (simp add: denylist_new_def sample_env_def)
  have t: "trap_code (plain_error ''unreachable'') = ''guest_trap''" by code_simp
  show ?thesis
    by (simp add: run_def invoke_def skill_instantiate_def failing_start_engine_def probe_engine_def plain_request_def
        parse_grants_def runtime_component_def Let_def start_ctx_def d reply_with_def sys_env_get_def guard_limit_def
        DENIAL_LIMIT_def check_def c declares_def denied_def t)
qed


text \<open>
  C32. Every output has one of two shapes: a success carries the guest's text and no error, an
  error one of nine codes and no output; a partial text appears only beside denials.
\<close>

theorem run_output_shape:
  assumes "run en envs rt rq = (rt', tr, Some out)"
  shows "(ro_status out = ''ok'' \<and> ro_error out = None \<and> ro_output out \<noteq> None \<and> ro_partial out = None)
    \<or> (ro_status out = ''error'' \<and> ro_output out = None
       \<and> (\<exists>e. ro_error out = Some e \<and> re_code e \<in> {''capability_unsupported'', ''invalid_component'',
            ''runtime_error'', ''capability_denied'', ''guest_error'', ''exec_timeout'', ''resource_limit'', ''guest_trap''})
       \<and> (ro_partial out \<noteq> None \<longrightarrow> ro_denials out \<noteq> []))"
  using assms
proof (cases rule: run_cases)
  case early
  then show ?thesis by auto
next
  case (start c grants ctx0 err)
  with trap_code_range [of err] show ?thesis by auto
next
  case (guest grants ctx' r)
  show ?thesis
  proof (cases "rc_denials ctx' = []")
    case False
    with guest(3) show ?thesis by (simp add: finish_def Let_def)
  next
    case True
    show ?thesis
    proof (cases r)
      case (Inl err)
      with True guest(3) trap_code_range [of err] show ?thesis by (auto simp: finish_def)
    next
      case (Inr res)
      with True guest(3) show ?thesis by (cases res) (simp_all add: finish_def output_ok_def)
    qed
  qed
qed

lemma run_output_shape_witness:
  "\<exists>rt' tr out. run env_probe_engine (\<lambda>i. sample_env) \<lparr>rt_cache = None, rt_entries = 0\<rparr> plain_request = (rt', tr, Some out)
     \<and> ro_output out = None"
proof -
  from env_probe_refused obtain rt' tr out where
    r: "run env_probe_engine (\<lambda>i. sample_env) \<lparr>rt_cache = None, rt_entries = 0\<rparr> plain_request = (rt', tr, Some out)"
    "ro_denials out \<noteq> []" by fastforce
  have "ro_status out \<noteq> ''ok''"
    using r(1) by (cases rule: run_cases) (use r(2) in \<open>auto dest: finish_ok\<close>)
  with run_output_shape [OF r(1)] r show ?thesis by blast
qed

subsection \<open>The deadline\<close>

text \<open>
  C34. A timeout becomes at least one and at most \<open>u64::MAX\<close> ticks, and the ticks cover the timeout
  with less than one tick to spare, as long as the count fits in 64 bits.
\<close>

theorem deadline_covers_timeout:
  assumes "0 < ms" "ms \<le> 10 * u64_max"
  shows "1 \<le> deadline_ticks (Some ms) \<and> deadline_ticks (Some ms) \<le> u64_max
    \<and> ms \<le> EPOCH_MILLIS * deadline_ticks (Some ms) \<and> EPOCH_MILLIS * deadline_ticks (Some ms) < ms + EPOCH_MILLIS"
proof -
  let ?t = "(ms + 9) div 10"
  have t: "1 \<le> ?t" "?t \<le> u64_max" using assms by linarith+
  have m: "max ms 1 = ms" "ms + 10 - 1 = ms + 9" "max ?t 1 = ?t" using assms(1) t(1) by simp_all
  have "?t < u64_bound" using t(2) by simp
  then have "deadline_ticks (Some ms) = ?t"
    by (simp only: deadline_ticks_def EPOCH_MILLIS_def Let_def option.case m if_True)
  with t show ?thesis by (simp add: EPOCH_MILLIS_def) linarith
qed

lemma deadline_covers_timeout_witness: "deadline_ticks (Some 25) = 3"
  using deadline_covers_timeout [of 25] by (simp add: EPOCH_MILLIS_def)

subsection \<open>The component cache\<close>

text \<open>
  The cache is keyed by the fingerprint alone, and the fingerprint looks at every 64th byte only: a
  component of the same length that agrees at those positions is answered with the cached one.
\<close>

definition sampled_equal :: "str \<Rightarrow> str \<Rightarrow> bool" where
  "sampled_equal a b = (length a = length b \<and> (\<forall>k. 64 * k < length a \<longrightarrow> a ! (64 * k) = b ! (64 * k)))"

lemma sampled_index: "k < (n + 63) div 64 \<Longrightarrow> 64 * k < n" for n k :: nat
  by linarith

lemma fingerprint_sampled:
  assumes "sampled_equal a b"
  shows "fingerprint a = fingerprint b"
proof -
  let ?is = "map (\<lambda>k. 64 * k) [0..<(length b + 63) div 64]"
  have len: "length a = length b" using assms by (simp add: sampled_equal_def)
  have "\<forall>i \<in> set ?is. a ! i = b ! i" using assms sampled_index by (auto simp: sampled_equal_def)
  then show ?thesis unfolding fingerprint_def len by (intro foldl_cong) auto
qed

text \<open>
  C33. The component cache mistakes components: after a component was compiled, one of the same
  length that agrees with it at every 64th byte is answered with the cached one, uncompiled.
\<close>

theorem component_cache_confusion:
  assumes "sampled_equal a b" "runtime_component compile rt a = (rt', Inr c)"
  shows "runtime_component compile rt' b = (rt', Inr c)"
  using assms fingerprint_sampled [OF assms(1)]
  by (auto simp: runtime_component_def Let_def split: option.splits if_splits sum.splits)

lemma component_cache_confusion_witness:
  "runtime_component Ok (fst (runtime_component Ok \<lparr>rt_cache = None, rt_entries = 0\<rparr> ''ab'')) ''ac''
     = (fst (runtime_component Ok \<lparr>rt_cache = None, rt_entries = 0\<rparr> ''ab''), Ok ''ab'')"
proof -
  have s: "sampled_equal ''ab'' ''ac''"
  proof (unfold sampled_equal_def, intro conjI allI impI)
    fix k :: nat assume "64 * k < length ''ab''"
    then have "k = 0" by simp
    then show "''ab'' ! (64 * k) = ''ac'' ! (64 * k)" by simp
  qed simp
  have r: "runtime_component Ok \<lparr>rt_cache = None, rt_entries = 0\<rparr> ''ab'' =
      (\<lparr>rt_cache = Some (fingerprint ''ab'', ''ab''), rt_entries = 0\<rparr>, Inr ''ab'')"
    by (simp add: runtime_component_def Let_def)
  from component_cache_confusion [OF s r] show ?thesis unfolding r by simp
qed

end
