(* ===== verification/Skills.thy ===== *)
theory Skills
  imports Json Deny
begin

text \<open>
  \<open>crates/novbot-core/src/spec.rs\<close>, \<open>skill.rs\<close> and \<open>retry.rs\<close>: the probe definitions, the built-in
  skills with the rule for sensitive environment keys, and the report spool. The process
  environment is the parameter \<open>skill_env\<close>; \<open>serde_json\<close> on a text is a parameter of the functions
  that call it.
\<close>

subsection \<open>Specs\<close>

datatype spec_kind =
    Cpu | Memory | Disk | CompliancePath | ComplianceSshd | ComplianceListeningPorts
  | ComplianceWorldWritable | ComplianceNtp | ComplianceRebootRequired | Exec | Skill | McpTool

record spec =
  sp_id :: str
  sp_kind :: spec_kind
  sp_params :: json
  sp_threshold :: "json option"

definition parse_specs_json :: "(str \<Rightarrow> (spec list, str) result) \<Rightarrow> str \<Rightarrow> (spec list, str) result" where
  "parse_specs_json from_str raw = (if trim raw = [] then Ok [] else from_str raw)"

subsection \<open>Outcomes\<close>

datatype probe_error = Params str | ProbeFailed str | ProbeIo str

record probe_outcome =
  po_status :: str
  po_payload :: json

abbreviation outcome :: "str \<Rightarrow> json \<Rightarrow> probe_outcome" where
  "outcome status payload \<equiv> \<lparr>po_status = status, po_payload = payload\<rparr>"

definition param_str :: "json \<Rightarrow> str \<Rightarrow> str option" where
  "param_str v key = (case json_get v key of None \<Rightarrow> None | Some x \<Rightarrow> as_str x)"

fun as_object :: "json \<Rightarrow> (str \<times> json) list option" where
  "as_object (JObj fs) = Some fs"
| "as_object _ = None"

subsection \<open>Built-in skills\<close>

record skill_env =
  se_hostname_file :: "str option"
  se_env_var :: "str \<Rightarrow> str option"
  se_os :: str
  se_arch :: str
  se_family :: str

definition hostname_string :: "skill_env \<Rightarrow> str" where
  "hostname_string env =
     (let from_env = (case se_env_var env ''HOSTNAME'' of Some h \<Rightarrow> h | None \<Rightarrow> ''unknown'') in
      case se_hostname_file env of
        Some h0 \<Rightarrow> (let h = trim h0 in if h \<noteq> [] then h else from_env)
      | None \<Rightarrow> from_env)"

definition skill_host_info :: "skill_env \<Rightarrow> probe_outcome" where
  "skill_host_info env = outcome ''ok'' (JObj
     [(''skill'', JStr ''host_info''), (''hostname'', JStr (hostname_string env)), (''os'', JStr (se_os env)),
      (''arch'', JStr (se_arch env)), (''family'', JStr (se_family env))])"

definition skill_echo :: "json \<Rightarrow> probe_outcome" where
  "skill_echo arguments = outcome ''ok'' (JObj [(''skill'', JStr ''echo''), (''arguments'', arguments)])"

definition sensitive_key :: "str \<Rightarrow> bool" where
  "sensitive_key key =
     (let lower = to_ascii_lowercase key in
      contains_str lower ''secret'' \<or> contains_str lower ''password'' \<or> contains_str lower ''token''
      \<or> contains_str lower ''api_key'' \<or> ends_with lower ''_key'')"

definition skill_env_get :: "skill_env \<Rightarrow> json \<Rightarrow> (probe_outcome, probe_error) result" where
  "skill_env_get env arguments =
     (case param_str arguments ''key'' of
        None \<Rightarrow> Err (Params ''env_get requires arguments.key'')
      | Some key \<Rightarrow>
          if sensitive_key key then Ok (outcome ''fail'' (JObj
            [(''skill'', JStr ''env_get''), (''key'', JStr key), (''error'', JStr ''refused: key looks sensitive'')]))
          else (let v = se_env_var env key in
            Ok (outcome (if v \<noteq> None then ''ok'' else ''fail'') (JObj
              [(''skill'', JStr ''env_get''), (''key'', JStr key), (''present'', JBool (v \<noteq> None)),
               (''value'', jopt JStr v)]))))"

definition invoke_skill :: "skill_env \<Rightarrow> str \<Rightarrow> json \<Rightarrow> (probe_outcome, probe_error) result" where
  "invoke_skill env name arguments =
     (if name = ''host_info'' then Ok (skill_host_info env)
      else if name = ''echo'' then Ok (skill_echo arguments)
      else if name = ''env_get'' then skill_env_get env arguments
      else Err (Params (''unknown skill/tool: '' @ name @ '' (known: host_info, echo, env_get)'')))"

definition list_skills :: "str list" where
  "list_skills = [''host_info'', ''echo'', ''env_get'']"

definition skill_from_params :: "bool \<Rightarrow> json \<Rightarrow> (str \<times> json, probe_error) result" where
  "skill_from_params kind_is_mcp params =
     (let arguments0 = (case json_get params ''arguments'' of Some a \<Rightarrow> a | None \<Rightarrow> JObj []) in
      if kind_is_mcp then
        (case param_str params ''tool'' of
           None \<Rightarrow> Err (Params ''mcp_tool requires params.tool'')
         | Some tool \<Rightarrow> Ok (tool, arguments0))
      else
        (case param_str params ''skill'' of
           None \<Rightarrow> Err (Params ''skill requires params.skill'')
         | Some skill \<Rightarrow>
             (case as_object params of
                None \<Rightarrow> Ok (skill, arguments0)
              | Some obj \<Rightarrow>
                  if (case as_object arguments0 of Some fs \<Rightarrow> fs = [] | None \<Rightarrow> True) then
                    (let m = filter (\<lambda>(k, v). k \<noteq> ''skill'' \<and> k \<noteq> ''arguments'') obj
                     in Ok (skill, if m \<noteq> [] then JObj m else arguments0))
                  else Ok (skill, arguments0))))"

text \<open>
  C39. The built-in \<open>env_get\<close> refuses exactly the keys the runtime's denylist denies to a
  WebAssembly skill, and a refusal carries no value: the payload of a sensitive key is the same
  whatever the environment holds.
\<close>

theorem env_get_same_rule:
  assumes "param_str arguments ''key'' = Some key"
  shows "(denies_env key \<longrightarrow> skill_env_get env arguments = skill_env_get env' arguments)
    \<and> ((\<exists>r. skill_env_get env arguments = Ok r \<and> json_get (po_payload r) ''error'' \<noteq> None) \<longleftrightarrow> denies_env key)"
proof -
  have same: "sensitive_key key = denies_env key" by (simp add: sensitive_key_def denies_env_def)
  show ?thesis
    by (cases "denies_env key") (simp_all add: skill_env_get_def assms same Let_def)
qed

lemma env_get_same_rule_witness:
  "\<exists>r. skill_env_get \<lparr>se_hostname_file = None, se_env_var = (\<lambda>k. Some ''x''), se_os = [], se_arch = [], se_family = []\<rparr>
        (JObj [(''key'', JStr ''DB_PASSWORD'')]) = Ok r \<and> json_get (po_payload r) ''error'' \<noteq> None"
proof -
  have "param_str (JObj [(''key'', JStr ''DB_PASSWORD'')]) ''key'' = Some ''DB_PASSWORD''" "denies_env ''DB_PASSWORD''"
    by code_simp+
  then show ?thesis by (simp only: env_get_same_rule)
qed

subsection \<open>The report spool\<close>

record pending_report =
  pn_node_id :: str
  pn_run_id :: str
  pn_spec_id :: str
  pn_status :: str
  pn_payload_json :: str
  pn_observed_at_unix_ms :: int
  pn_attempts :: nat

text \<open>
  The spool file is its text, \<open>None\<close> when it does not exist; \<open>to_string\<close> and \<open>from_str\<close> are
  \<open>serde_json\<close> on a report. Writing is taken to succeed.
\<close>

definition spool_enqueue ::
    "(pending_report \<Rightarrow> str) \<Rightarrow> str option \<Rightarrow> pending_report \<Rightarrow> str option" where
  "spool_enqueue to_string file item0 =
     (let item = item0\<lparr>pn_attempts := max (pn_attempts item0) 1\<rparr>;
          body = (case file of Some f \<Rightarrow> f | None \<Rightarrow> [])
      in Some (body @ to_string item @ [CHR 0x0A]))"

definition spool_item :: "(str \<Rightarrow> pending_report option) \<Rightarrow> str \<Rightarrow> pending_report option" where
  "spool_item from_str line0 = (let line = trim line0 in if line = [] then None else from_str line)"

definition spool_drain ::
    "(str \<Rightarrow> pending_report option) \<Rightarrow> str option \<Rightarrow> str option \<times> pending_report list" where
  "spool_drain from_str file =
     (case file of
        None \<Rightarrow> (None, [])
      | Some f \<Rightarrow> (Some [], List.map_filter (spool_item from_str) (lines f)))"

text \<open>
  What the spool needs of the encoding of a report, as \<open>serde_json\<close> documents it for compact
  output: one line of text without control characters, from an opening to a closing brace, and
  read back as it was.
\<close>

definition codec_at :: "(pending_report \<Rightarrow> str) \<Rightarrow> (str \<Rightarrow> pending_report option) \<Rightarrow> pending_report \<Rightarrow> bool" where
  "codec_at to_string from_str r =
     (CHR 0x0A \<notin> set (to_string r) \<and> starts_with (to_string r) ''{'' \<and> ends_with (to_string r) ''}''
      \<and> from_str (to_string r) = Some r)"

definition at_least_once :: "pending_report \<Rightarrow> pending_report" where
  "at_least_once r = r\<lparr>pn_attempts := max (pn_attempts r) 1\<rparr>"

definition spool_text :: "(pending_report \<Rightarrow> str) \<Rightarrow> pending_report list \<Rightarrow> str" where
  "spool_text to_string rs = concat (map (\<lambda>r. to_string r @ [CHR 0x0A]) rs)"

lemma codec_line:
  assumes "codec_at to_string from_str r"
  shows "trim (to_string r) = to_string r" "to_string r \<noteq> []" "strip_cr (to_string r) = to_string r"
    "spool_item from_str (to_string r) = Some r"
proof -
  from assms have b: "starts_with (to_string r) ''{''" "ends_with (to_string r) ''}''"
    by (simp_all add: codec_at_def)
  then obtain u v where "to_string r = CHR ''{'' # u" "to_string r = v @ ''}''"
    by (auto simp: starts_with_def ends_with_def prefix_def suffix_def)
  then have ends: "to_string r \<noteq> []" "hd (to_string r) = CHR ''{''" "last (to_string r) = CHR ''}''"
    by (simp, metis list.sel(1), metis last_snoc)
  then show "trim (to_string r) = to_string r" "to_string r \<noteq> []" "strip_cr (to_string r) = to_string r"
    by (simp_all add: trim_graph is_graph_def strip_cr_def)
  then show "spool_item from_str (to_string r) = Some r"
    using assms by (simp add: spool_item_def codec_at_def)
qed

lemma spool_lines:
  assumes "\<forall>r \<in> set rs. codec_at to_string from_str r"
  shows "lines (spool_text to_string rs) = map to_string rs"
proof -
  have split: "split_char CHR 0x0A (spool_text to_string rs) = map to_string rs @ [[]]"
    using assms unfolding spool_text_def
    by (induction rs) (simp_all add: split_char_append codec_at_def)
  have "map strip_cr (map to_string rs) = map to_string rs" using assms codec_line(3) by auto
  then show ?thesis unfolding lines_def split by (simp add: Let_def)
qed

lemma spool_drain_text:
  assumes "\<forall>r \<in> set rs. codec_at to_string from_str r"
  shows "spool_drain from_str (Some (spool_text to_string rs)) = (Some [], rs)"
proof -
  have "List.map_filter (spool_item from_str) (map to_string rs) = rs"
    using assms by (induction rs) (simp_all add: map_filter_simps codec_line(4))
  then show ?thesis by (simp add: spool_drain_def spool_lines [OF assms])
qed

lemma spool_enqueue_text:
  "spool_enqueue to_string (Some (spool_text to_string rs)) r = Some (spool_text to_string (rs @ [at_least_once r]))"
  by (simp add: spool_enqueue_def spool_text_def at_least_once_def Let_def)

lemma spool_enqueue_all:
  "foldl (spool_enqueue to_string) (Some (spool_text to_string rs)) items =
     Some (spool_text to_string (rs @ map at_least_once items))"
  by (induction items arbitrary: rs) (simp_all add: spool_enqueue_text)

text \<open>
  No report is lost, repeated or reordered by the spool: draining it after any number of
  reports were queued returns exactly those reports in their order, each counted as attempted at
  least once, and leaves the spool empty.
\<close>

theorem spool_fifo:
  assumes "\<forall>r \<in> set items. codec_at to_string from_str (at_least_once r)"
  shows "spool_drain from_str (foldl (spool_enqueue to_string) (Some []) items) = (Some [], map at_least_once items)"
proof -
  have "foldl (spool_enqueue to_string) (Some []) items = Some (spool_text to_string (map at_least_once items))"
    using spool_enqueue_all [of to_string "[]" items] by (simp add: spool_text_def)
  then show ?thesis using assms by (simp add: spool_drain_text)
qed

lemma spool_fifo_witness:
  "\<exists>r. spool_drain (\<lambda>t. Some r) (foldl (spool_enqueue (\<lambda>r. ''{}'')) (Some []) [r\<lparr>pn_attempts := 0\<rparr>]) = (Some [], [r])
     \<and> pn_attempts r = 1"
proof -
  let ?r = "\<lparr>pn_node_id = ''n'', pn_run_id = ''r'', pn_spec_id = ''s'', pn_status = ''ok'', pn_payload_json = [],
    pn_observed_at_unix_ms = 0, pn_attempts = 1\<rparr>"
  have one: "at_least_once (?r\<lparr>pn_attempts := 0\<rparr>) = ?r" by (simp add: at_least_once_def)
  have "codec_at (\<lambda>r. ''{}'') (\<lambda>t. Some ?r) ?r"
    by (simp add: codec_at_def starts_with_def ends_with_def suffix_def)
  then have c: "\<forall>r \<in> set [?r\<lparr>pn_attempts := 0\<rparr>]. codec_at (\<lambda>r. ''{}'') (\<lambda>t. Some ?r) (at_least_once r)"
    using one by simp
  from spool_fifo [OF c] one show ?thesis by (intro exI [of _ ?r]) simp
qed

end
