(* ===== verification/Probe.thy ===== *)
theory Probe
  imports Skills
begin

text \<open>
  \<open>crates/novbot-core/src/probe.rs\<close>: the probes of the schedule. What the machine answers is the
  parameter \<open>probe_env\<close>: files, directories, commands and the \<open>sysinfo\<close> figures. A probe returns an
  outcome or an error, and \<open>None\<close> where it panics: \<open>truncate\<close> slices a string at a byte offset.
\<close>

subsection \<open>Environment\<close>

record disk_info =
  dk_mount :: "str option"
  dk_total :: nat
  dk_available :: nat
  dk_name :: str

record dir_item =
  it_path :: str
  it_meta :: "(nat \<times> bool) option"

datatype cmd_result = CmdTimedOut | CmdIo str | CmdDone str str "int option" bool

text \<open>
  \<open>pe_read_dir\<close> has the entries that could be read; \<open>it_meta\<close> is the mode and whether it is a
  directory, without following a link. A finished command has its output, its error output, its
  exit code and whether it succeeded.
\<close>

record probe_env =
  pe_cpu :: "rat \<times> nat"
  pe_memory :: "nat \<times> nat \<times> nat"
  pe_disks :: "disk_info list"
  pe_exists :: "str \<Rightarrow> bool"
  pe_read :: "str \<Rightarrow> (str, str) result"
  pe_read_dir :: "str \<Rightarrow> dir_item list option"
  pe_run :: "str \<Rightarrow> str list \<Rightarrow> nat \<Rightarrow> cmd_result"
  pe_skill :: skill_env

record probe_policy =
  allow_exec :: bool

type_synonym probe_result = "(probe_outcome, probe_error) result option"

definition param_u64 :: "json \<Rightarrow> str \<Rightarrow> nat \<Rightarrow> nat" where
  "param_u64 v key d = (case json_get v key of None \<Rightarrow> d | Some x \<Rightarrow> (case as_u64 x of Some n \<Rightarrow> n | None \<Rightarrow> d))"

definition param_bool :: "json \<Rightarrow> str \<Rightarrow> bool \<Rightarrow> bool" where
  "param_bool v key d = (case json_get v key of None \<Rightarrow> d | Some x \<Rightarrow> (case as_bool x of Some b \<Rightarrow> b | None \<Rightarrow> d))"

definition param_str_or :: "json \<Rightarrow> str \<Rightarrow> str \<Rightarrow> str" where
  "param_str_or v key d = (case param_str v key of Some s \<Rightarrow> s | None \<Rightarrow> d)"

definition clamp :: "nat \<Rightarrow> nat \<Rightarrow> nat \<Rightarrow> nat" where
  "clamp n lo hi = (if n < lo then lo else if n > hi then hi else n)"

definition ok_or_fail :: "bool \<Rightarrow> str" where
  "ok_or_fail b = (if b then ''ok'' else ''fail'')"

definition jstrs :: "str list \<Rightarrow> json" where
  "jstrs ss = JArr (map JStr ss)"

subsection \<open>Figures\<close>

definition probe_cpu :: "probe_env \<Rightarrow> probe_outcome" where
  "probe_cpu env = outcome ''ok'' (JObj
     [(''cpu_usage_percent'', JFloat (fst (pe_cpu env))), (''cpus'', jnat (snd (pe_cpu env)))])"

definition probe_memory :: "probe_env \<Rightarrow> probe_outcome" where
  "probe_memory env =
     (let (total_memory, used_memory, available_memory) = pe_memory env in
      outcome ''ok'' (JObj [(''total_bytes'', jnat total_memory), (''used_bytes'', jnat used_memory),
        (''available_bytes'', jnat available_memory)]))"

definition probe_disk :: "probe_env \<Rightarrow> spec \<Rightarrow> (probe_outcome, probe_error) result" where
  "probe_disk env spec =
     (let mount = param_str_or (sp_params spec) ''mount'' ''/'' in
      case find (\<lambda>d. dk_mount d = Some mount) (pe_disks env) of
        Some d \<Rightarrow> Ok (outcome ''ok'' (JObj
          [(''mount'', JStr mount), (''total_bytes'', jnat (dk_total d)), (''available_bytes'', jnat (dk_available d)),
           (''used_bytes'', jnat (sat_sub (dk_total d) (dk_available d))), (''name'', JStr (dk_name d))]))
      | None \<Rightarrow> Err (ProbeFailed (''mount not found: '' @ mount)))"

subsection \<open>Compliance\<close>

definition probe_compliance_path :: "probe_env \<Rightarrow> spec \<Rightarrow> (probe_outcome, probe_error) result" where
  "probe_compliance_path env spec =
     (case param_str (sp_params spec) ''path'' of
        None \<Rightarrow> Err (Params ''path required'')
      | Some path \<Rightarrow>
          (let must_exist = param_bool (sp_params spec) ''must_exist'' True;
               found = pe_exists env path;
               ok = (found = must_exist)
           in Ok (outcome (ok_or_fail ok) (JObj
             [(''check'', JStr ''compliance_path''), (''path'', JStr path), (''exists'', JBool found),
              (''must_exist'', JBool must_exist), (''passed'', JBool ok)]))))"

text \<open>The loop of \<open>sshd_directive\<close>, with \<open>last\<close>; a line without a word ends it with \<open>None\<close> (the \<open>?\<close>).\<close>

fun sshd_lines :: "str \<Rightarrow> str option \<Rightarrow> str list \<Rightarrow> str option" where
  "sshd_lines key found [] = found"
| "sshd_lines key found (line0 # ls) =
     (let line = trim line0 in
      if line = [] \<or> starts_with line ''#'' then sshd_lines key found ls
      else (case split_whitespace line of
          [] \<Rightarrow> None
        | k # parts \<Rightarrow>
            if eq_ignore_ascii_case k key then
              (case parts of v # _ \<Rightarrow> sshd_lines key (Some v) ls | [] \<Rightarrow> sshd_lines key found ls)
            else sshd_lines key found ls))"

definition sshd_directive :: "str \<Rightarrow> str \<Rightarrow> str option" where
  "sshd_directive content key = sshd_lines key None (lines content)"

text \<open>One of the two checks: the findings it adds; it passes when it adds none.\<close>

definition sshd_check :: "str \<Rightarrow> str \<Rightarrow> str \<Rightarrow> str option \<Rightarrow> str list" where
  "sshd_check key expected missing found =
     (case found of
        Some v \<Rightarrow>
          if eq_ignore_ascii_case v expected then []
          else [key @ ''='' @ v @ '' (expected '' @ expected @ '')'']
      | None \<Rightarrow> if eq_ignore_ascii_case expected ''no'' then [missing] else [])"

definition probe_compliance_sshd :: "probe_env \<Rightarrow> spec \<Rightarrow> (probe_outcome, probe_error) result" where
  "probe_compliance_sshd env spec =
     (let path = param_str_or (sp_params spec) ''config_path'' ''/etc/ssh/sshd_config'';
          expect_permit_root = param_str_or (sp_params spec) ''permit_root_login'' ''no'';
          expect_password_auth = param_str_or (sp_params spec) ''password_authentication'' ''no''
      in if \<not> pe_exists env path then Ok (outcome ''fail'' (JObj
           [(''check'', JStr ''compliance_sshd''), (''config_path'', JStr path), (''exists'', JBool False),
            (''passed'', JBool False), (''findings'', jstrs [''sshd_config not found''])]))
         else (case pe_read env path of
             Inl e \<Rightarrow> Err (ProbeIo e)
           | Inr content \<Rightarrow>
               (let permit_root = sshd_directive content ''PermitRootLogin'';
                    password_auth = sshd_directive content ''PasswordAuthentication'';
                    findings = sshd_check ''PermitRootLogin'' expect_permit_root
                        ''PermitRootLogin not set (default may allow root login)'' permit_root
                      @ sshd_check ''PasswordAuthentication'' expect_password_auth
                        ''PasswordAuthentication not set (default is often yes)'' password_auth;
                    passed = (findings = [])
                in Ok (outcome (ok_or_fail passed) (JObj
                  [(''check'', JStr ''compliance_sshd''), (''config_path'', JStr path),
                   (''permit_root_login'', jopt JStr permit_root),
                   (''password_authentication'', jopt JStr password_auth),
                   (''expected'', JObj [(''permit_root_login'', JStr expect_permit_root),
                      (''password_authentication'', JStr expect_password_auth)]),
                   (''passed'', JBool passed), (''findings'', jstrs findings)])))))"

definition tcp_listen_port :: "str \<Rightarrow> nat option" where
  "tcp_listen_port line =
     (let cols = split_whitespace line in
      if length cols < 4 then None
      else if \<not> eq_ignore_ascii_case (cols ! 3) ''0A'' then None
      else (case rsplit_once (cols ! 1) CHR '':'' of
          Some (_, port_hex) \<Rightarrow> from_str_radix 16 u16_bound port_hex
        | None \<Rightarrow> None))"

definition parse_proc_net_tcp_listen_ports :: "str \<Rightarrow> nat list" where
  "parse_proc_net_tcp_listen_ports body = List.map_filter tcp_listen_port (tl (lines body))"

definition tcp_files :: "str list" where
  "tcp_files = [''/proc/net/tcp'', ''/proc/net/tcp6'']"

definition file_ports :: "probe_env \<Rightarrow> str \<Rightarrow> nat list" where
  "file_ports env path = (case pe_read env path of Inr body \<Rightarrow> parse_proc_net_tcp_listen_ports body | Inl _ \<Rightarrow> [])"

definition parse_all_listen_contains :: "probe_env \<Rightarrow> nat \<Rightarrow> bool" where
  "parse_all_listen_contains env port = list_ex (\<lambda>p. port \<in> set (file_ports env p)) tcp_files"

text \<open>\<open>n as u16\<close> keeps the low 16 bits.\<close>

definition expect_absent_ports :: "json \<Rightarrow> nat list" where
  "expect_absent_ports params =
     (case json_get params ''expect_absent'' of
        None \<Rightarrow> []
      | Some v \<Rightarrow>
          (case as_array v of
             None \<Rightarrow> []
           | Some arr \<Rightarrow> List.map_filter (\<lambda>x. map_option (\<lambda>n. n mod u16_bound) (as_u64 x)) arr))"

definition probe_compliance_listening_ports :: "probe_env \<Rightarrow> spec \<Rightarrow> (probe_outcome, probe_error) result" where
  "probe_compliance_listening_ports env spec =
     (let max_sample = clamp (param_u64 (sp_params spec) ''max_sample'' 32) 1 256;
          found = sort (foldl (\<lambda>ps port. if port \<in> set ps then ps else ps @ [port]) []
                    (concat (map (file_ports env) tcp_files)));
          ports = take max_sample found;
          bad = filter (\<lambda>p. p \<in> set ports \<or> parse_all_listen_contains env p) (expect_absent_ports (sp_params spec));
          findings = map (\<lambda>p. ''port '' @ show_nat p @ '' is listening but expect_absent'') bad;
          passed = (bad = [])
      in Ok (outcome (ok_or_fail passed) (JObj
        [(''check'', JStr ''compliance_listening_ports''), (''listen_port_count'', jnat (length found)),
         (''sample_ports'', JArr (map jnat ports)), (''passed'', JBool passed), (''findings'', jstrs findings)])))"

text \<open>
  \<open>walk_world_writable\<close> descends into a directory before it goes on with the entries after it, and
  once a limit is reached every level returns at once. So the levels of the recursion are one list
  of entries still to visit, in which a directory is followed by its own entries.
\<close>

function world_writable_walk ::
    "probe_env \<Rightarrow> nat \<Rightarrow> nat \<Rightarrow> dir_item list \<Rightarrow> nat \<Rightarrow> str list \<Rightarrow> nat \<times> str list" where
  "world_writable_walk env max_entries max_findings [] scanned findings = (scanned, findings)"
| "world_writable_walk env max_entries max_findings (item # items) scanned findings =
     (if length findings \<ge> max_findings \<or> scanned \<ge> max_entries then (scanned, findings)
      else (case it_meta item of
          None \<Rightarrow> world_writable_walk env max_entries max_findings items (scanned + 1) findings
        | Some (mode, is_dir) \<Rightarrow>
            (let findings' = (if odd (mode div 2) then findings @ [it_path item] else findings);
                 below = (if is_dir then unwrap_or (pe_read_dir env (it_path item)) [] else [])
             in world_writable_walk env max_entries max_findings (below @ items) (scanned + 1) findings')))"
  by pat_completeness auto
termination
  by (relation "measure (\<lambda>(env, max_entries, max_findings, items, scanned, findings). max_entries - scanned)") auto

definition walk_world_writable :: "probe_env \<Rightarrow> str \<Rightarrow> nat \<Rightarrow> nat \<Rightarrow> nat \<times> str list" where
  "walk_world_writable env dir max_entries max_findings =
     (if 0 \<ge> max_findings \<or> 0 \<ge> max_entries then (0, [])
      else world_writable_walk env max_entries max_findings (unwrap_or (pe_read_dir env dir) []) 0 [])"

definition probe_compliance_world_writable :: "probe_env \<Rightarrow> spec \<Rightarrow> (probe_outcome, probe_error) result" where
  "probe_compliance_world_writable env spec =
     (let base = param_str_or (sp_params spec) ''root'' ''/etc'';
          max_findings = clamp (param_u64 (sp_params spec) ''max_findings'' 50) 1 500;
          max_entries = clamp (param_u64 (sp_params spec) ''max_entries'' 5000) 100 50000
      in if \<not> pe_exists env base then Ok (outcome ''fail'' (JObj
           [(''check'', JStr ''compliance_world_writable''), (''root'', JStr base), (''exists'', JBool False),
            (''passed'', JBool False), (''findings'', jstrs [''root path missing: '' @ base])]))
         else (let (scanned, findings) = walk_world_writable env base max_entries max_findings;
                   passed = (findings = [])
               in Ok (outcome (ok_or_fail passed) (JObj
                 [(''check'', JStr ''compliance_world_writable''), (''root'', JStr base),
                  (''scanned_entries'', jnat scanned), (''world_writable'', jstrs findings), (''passed'', JBool passed),
                  (''findings'', jstrs (map (\<lambda>p. ''world-writable: '' @ p) findings))]))))"

subsection \<open>Commands\<close>

text \<open>The ellipsis is three bytes; the slice panics when \<open>max\<close> is inside a character.\<close>

definition truncate :: "str \<Rightarrow> nat \<Rightarrow> str option" where
  "truncate s n =
     (if length s \<le> n then Some s
      else if \<not> is_char_boundary s n then None
      else Some (take n s @ [CHR 0xE2, CHR 0x80, CHR 0xA6]))"

definition run_cmd_capture :: "probe_env \<Rightarrow> str \<Rightarrow> str list \<Rightarrow> nat \<Rightarrow> (str \<times> bool, probe_error) result" where
  "run_cmd_capture env bin args timeout_ms =
     (case pe_run env bin args timeout_ms of
        CmdTimedOut \<Rightarrow> Err (ProbeFailed (bin @ '' timed out''))
      | CmdIo e \<Rightarrow> Err (ProbeIo e)
      | CmdDone out err code success \<Rightarrow> Ok (out, success))"

definition probe_compliance_ntp :: "probe_env \<Rightarrow> spec \<Rightarrow> probe_result" where
  "probe_compliance_ntp env spec =
     (let timeout_ms = min (param_u64 (sp_params spec) ''timeout_ms'' 3000) 10000 in
      case run_cmd_capture env ''timedatectl'' [''show'', ''-p'', ''NTPSynchronized'', ''--value''] timeout_ms of
        Inr (out, _) \<Rightarrow>
          (let synced = eq_ignore_ascii_case (trim out) ''yes'' in
           case truncate out 512 of
             None \<Rightarrow> None
           | Some raw \<Rightarrow> Some (Ok (outcome (ok_or_fail synced) (JObj
               [(''check'', JStr ''compliance_ntp''), (''method'', JStr ''timedatectl''),
                (''ntp_synchronized'', JBool synced), (''raw'', JStr raw), (''passed'', JBool synced),
                (''findings'', jstrs (if synced then [] else [''NTP not synchronized'']))]))))
      | Inl _ \<Rightarrow>
          (case run_cmd_capture env ''chronyc'' [''tracking''] timeout_ms of
             Inr (out, success) \<Rightarrow>
               (let ok = success \<and> (contains_str out ''Normal'' \<or> contains_str (to_ascii_lowercase out) ''leap status'');
                    leap_normal = list_ex (\<lambda>l. contains_str (to_ascii_lowercase l) ''leap status''
                        \<and> contains_str (to_ascii_lowercase l) ''normal'') (lines out);
                    passed = (ok \<and> leap_normal)
                in case truncate out 1024 of
                     None \<Rightarrow> None
                   | Some raw \<Rightarrow> Some (Ok (outcome (ok_or_fail passed) (JObj
                       [(''check'', JStr ''compliance_ntp''), (''method'', JStr ''chronyc''),
                        (''leap_normal'', JBool leap_normal), (''raw'', JStr raw), (''passed'', JBool passed),
                        (''findings'', jstrs (if passed then [] else [''chronyc tracking not Normal / unavailable'']))]))))
           | Inl _ \<Rightarrow> Some (Ok (outcome ''fail'' (JObj
               [(''check'', JStr ''compliance_ntp''), (''method'', JStr ''none''), (''passed'', JBool False),
                (''findings'', jstrs [''neither timedatectl nor chronyc available''])])))))"

definition probe_compliance_reboot_required :: "probe_env \<Rightarrow> spec \<Rightarrow> probe_result" where
  "probe_compliance_reboot_required env spec =
     (let path = param_str_or (sp_params spec) ''path'' ''/var/run/reboot-required'';
          expect_absent = param_bool (sp_params spec) ''expect_absent'' True;
          found = pe_exists env path;
          passed = (if expect_absent then \<not> found else found);
          done = (\<lambda>findings. Some (Ok (outcome (ok_or_fail passed) (JObj
            [(''check'', JStr ''compliance_reboot_required''), (''path'', JStr path), (''exists'', JBool found),
             (''expect_absent'', JBool expect_absent), (''passed'', JBool passed), (''findings'', jstrs findings)]))))
      in if \<not> passed \<and> found then
           (case pe_read env (path @ ''.pkgs'') of
              Inr pkgs \<Rightarrow>
                (case truncate (trim pkgs) 512 of
                   None \<Rightarrow> None
                 | Some t \<Rightarrow> done [''reboot required marker present'', ''packages: '' @ t])
            | Inl _ \<Rightarrow> done [''reboot required marker present''])
         else done [])"

definition EXEC_DISABLED_REASON :: str where "EXEC_DISABLED_REASON = ''exec_disabled''"

definition exec_disabled_outcome :: probe_outcome where
  "exec_disabled_outcome = outcome ''failed'' (JObj
     [(''reason'', JStr EXEC_DISABLED_REASON),
      (''error'', JStr ''exec Spec kind is disabled on this node; enable it node-locally with --allow-exec or NOVBOT_ALLOW_EXEC=true'')])"

definition probe_exec :: "probe_env \<Rightarrow> spec \<Rightarrow> probe_result" where
  "probe_exec env spec =
     (case param_str (sp_params spec) ''command'' of
        None \<Rightarrow> Some (Err (Params ''command required''))
      | Some cmdline \<Rightarrow>
          (let timeout_ms = min (param_u64 (sp_params spec) ''timeout_ms'' 5000) 30000 in
           case pe_run env ''sh'' [''-c'', cmdline] timeout_ms of
             CmdTimedOut \<Rightarrow> Some (Err (ProbeFailed ''exec timed out''))
           | CmdIo e \<Rightarrow> Some (Err (ProbeIo e))
           | CmdDone out err code success \<Rightarrow>
               (case truncate out 8192 of None \<Rightarrow> None | Some o' \<Rightarrow>
               (case truncate err 4096 of None \<Rightarrow> None | Some e' \<Rightarrow>
                 Some (Ok (outcome (ok_or_fail success) (JObj
                   [(''exit_code'', jopt JInt code), (''stdout'', JStr o'), (''stderr'', JStr e')])))))))"

definition run_probe :: "probe_env \<Rightarrow> spec \<Rightarrow> probe_policy \<Rightarrow> probe_result" where
  "run_probe env spec policy =
     (case sp_kind spec of
        Cpu \<Rightarrow> Some (Ok (probe_cpu env))
      | Memory \<Rightarrow> Some (Ok (probe_memory env))
      | Disk \<Rightarrow> Some (probe_disk env spec)
      | CompliancePath \<Rightarrow> Some (probe_compliance_path env spec)
      | ComplianceSshd \<Rightarrow> Some (probe_compliance_sshd env spec)
      | ComplianceListeningPorts \<Rightarrow> Some (probe_compliance_listening_ports env spec)
      | ComplianceWorldWritable \<Rightarrow> Some (probe_compliance_world_writable env spec)
      | ComplianceNtp \<Rightarrow> probe_compliance_ntp env spec
      | ComplianceRebootRequired \<Rightarrow> probe_compliance_reboot_required env spec
      | Exec \<Rightarrow> if \<not> allow_exec policy then Some (Ok exec_disabled_outcome) else probe_exec env spec
      | Skill \<Rightarrow>
          Some (and_then (skill_from_params False (sp_params spec)) (\<lambda>(name, args). invoke_skill (pe_skill env) name args))
      | McpTool \<Rightarrow>
          Some (and_then (skill_from_params True (sp_params spec)) (\<lambda>(name, args). invoke_skill (pe_skill env) name args)))"

end
