(* ===== verification/Probe_Correct.thy ===== *)
theory Probe_Correct
  imports Probe
begin

text \<open>
  The probes against what they promise: no shell without the node's permission, the bounded walk
  for world-writable paths, the sshd directive that is judged, and the verdict on listening ports.
\<close>

subsection \<open>Exec\<close>

definition other_shell :: "probe_env \<Rightarrow> (str list \<Rightarrow> nat \<Rightarrow> cmd_result) \<Rightarrow> probe_env" where
  "other_shell env f = env\<lparr>pe_run := (\<lambda>bin. if bin = ''sh'' then f else pe_run env bin)\<rparr>"

lemma other_shell_simps [simp]:
  "pe_cpu (other_shell env f) = pe_cpu env" "pe_memory (other_shell env f) = pe_memory env"
  "pe_disks (other_shell env f) = pe_disks env" "pe_exists (other_shell env f) = pe_exists env"
  "pe_read (other_shell env f) = pe_read env" "pe_read_dir (other_shell env f) = pe_read_dir env"
  "pe_skill (other_shell env f) = pe_skill env"
  "pe_run (other_shell env f) ''timedatectl'' = pe_run env ''timedatectl''"
  "pe_run (other_shell env f) ''chronyc'' = pe_run env ''chronyc''"
  by (simp_all add: other_shell_def)

lemma walk_other_shell:
  "world_writable_walk (other_shell env f) me mf items n fs = world_writable_walk env me mf items n fs"
  by (induction env me mf items n fs rule: world_writable_walk.induct) (auto simp: Let_def split: option.splits)

lemma file_ports_other_shell: "file_ports (other_shell env f) = file_ports env"
  by (rule ext) (simp add: file_ports_def)

lemma probes_other_shell:
  "probe_cpu (other_shell env f) = probe_cpu env"
  "probe_memory (other_shell env f) = probe_memory env"
  "probe_disk (other_shell env f) spec = probe_disk env spec"
  "probe_compliance_path (other_shell env f) spec = probe_compliance_path env spec"
  "probe_compliance_sshd (other_shell env f) spec = probe_compliance_sshd env spec"
  "probe_compliance_listening_ports (other_shell env f) spec = probe_compliance_listening_ports env spec"
  "probe_compliance_world_writable (other_shell env f) spec = probe_compliance_world_writable env spec"
  "probe_compliance_ntp (other_shell env f) spec = probe_compliance_ntp env spec"
  "probe_compliance_reboot_required (other_shell env f) spec = probe_compliance_reboot_required env spec"
  unfolding probe_cpu_def probe_memory_def probe_disk_def probe_compliance_path_def
    probe_compliance_sshd_def probe_compliance_listening_ports_def parse_all_listen_contains_def
    file_ports_other_shell probe_compliance_world_writable_def walk_world_writable_def walk_other_shell
    probe_compliance_ntp_def run_cmd_capture_def probe_compliance_reboot_required_def other_shell_simps
  by (rule refl)+

text \<open>
  C34. On a node whose policy does not allow exec no spec of any kind reaches the shell: the result
  of a probe is the same whatever a shell would answer, and an exec spec fails with the reason
  \<open>exec_disabled\<close> before its parameters are looked at.
\<close>

theorem no_shell_without_policy:
  assumes "\<not> allow_exec policy"
  shows "run_probe (other_shell env f) spec policy = run_probe env spec policy
    \<and> (sp_kind spec = Exec \<longrightarrow> run_probe env spec policy = Some (Ok exec_disabled_outcome))"
  using assms by (cases "sp_kind spec") (simp_all add: run_probe_def probes_other_shell)

definition sample_probe_env :: probe_env where
  "sample_probe_env = \<lparr>pe_cpu = (0, 1), pe_memory = (0, 0, 0), pe_disks = [], pe_exists = (\<lambda>p. True),
     pe_read = (\<lambda>p. Err ''missing''), pe_read_dir = (\<lambda>p. None), pe_run = (\<lambda>b a t. CmdTimedOut),
     pe_skill = \<lparr>se_hostname_file = None, se_env_var = (\<lambda>k. None), se_os = [], se_arch = [], se_family = []\<rparr>\<rparr>"

lemma no_shell_without_policy_witness:
  "run_probe sample_probe_env
     \<lparr>sp_id = ''x'', sp_kind = Exec, sp_params = JObj [(''command'', JStr ''id'')], sp_threshold = None\<rparr>
     \<lparr>allow_exec = False\<rparr> = Some (Ok exec_disabled_outcome)"
  by (rule no_shell_without_policy [THEN conjunct2, THEN mp]) simp_all

subsection \<open>World-writable paths\<close>

text \<open>The items below an item of the tree, itself included.\<close>

inductive item_below :: "probe_env \<Rightarrow> dir_item \<Rightarrow> dir_item \<Rightarrow> bool" for env where
  self: "item_below env i i"
| child: "it_meta i = Some (m, True) \<Longrightarrow> pe_read_dir env (it_path i) = Some cs \<Longrightarrow> c \<in> set cs \<Longrightarrow>
    item_below env c x \<Longrightarrow> item_below env i x"

definition open_to_all :: "dir_item \<Rightarrow> bool" where
  "open_to_all i = (case it_meta i of None \<Rightarrow> False | Some (mode, d) \<Rightarrow> odd (mode div 2))"

definition children :: "probe_env \<Rightarrow> dir_item \<Rightarrow> dir_item list" where
  "children env i = (case it_meta i of Some (m, True) \<Rightarrow> unwrap_or (pe_read_dir env (it_path i)) [] | _ \<Rightarrow> [])"

lemma item_below_children: "item_below env i x \<longleftrightarrow> i = x \<or> (\<exists>c \<in> set (children env i). item_below env c x)"
proof
  assume "item_below env i x"
  then show "i = x \<or> (\<exists>c \<in> set (children env i). item_below env c x)"
    by cases (auto simp: children_def)
next
  assume "i = x \<or> (\<exists>c \<in> set (children env i). item_below env c x)"
  then show "item_below env i x"
  proof
    assume "\<exists>c \<in> set (children env i). item_below env c x"
    then obtain c where c: "c \<in> set (children env i)" "item_below env c x" by blast
    then obtain md where md: "it_meta i = Some md" by (cases "it_meta i") (auto simp: children_def)
    obtain m d where "md = (m, d)" by (cases md)
    with c(1) md have m: "it_meta i = Some (m, True)" by (cases d) (auto simp: children_def)
    then obtain cs where "pe_read_dir env (it_path i) = Some cs" "c \<in> set cs"
      using c(1) by (cases "pe_read_dir env (it_path i)") (auto simp: children_def)
    then show ?thesis using item_below.child [OF m _ _ c(2)] by blast
  qed (simp add: item_below.self)
qed

lemma walk_Cons:
  "world_writable_walk env me mf (i # js) n fs =
     (if length fs \<ge> mf \<or> n \<ge> me then (n, fs)
      else world_writable_walk env me mf (children env i @ js) (n + 1)
        (if open_to_all i then fs @ [it_path i] else fs))"
  by (simp add: children_def open_to_all_def Let_def split: option.split)

declare world_writable_walk.simps(2) [simp del]

lemma walk_bounds:
  "world_writable_walk env me mf items n fs = (n', fs') \<Longrightarrow> n \<le> me \<Longrightarrow> length fs \<le> mf \<Longrightarrow>
     n' \<le> me \<and> length fs' \<le> mf \<and> prefix fs fs'"
proof (induction "me - n" arbitrary: items n fs)
  case (Suc k)
  show ?case
  proof (cases items)
    case (Cons i js)
    show ?thesis
    proof (cases "length fs \<ge> mf \<or> n \<ge> me")
      case False
      let ?fs = "if open_to_all i then fs @ [it_path i] else fs"
      have "world_writable_walk env me mf (children env i @ js) (n + 1) ?fs = (n', fs')"
        using Suc.prems(1) False by (simp add: Cons walk_Cons)
      then have "n' \<le> me \<and> length fs' \<le> mf \<and> prefix ?fs fs'"
        using Suc.hyps False by (intro Suc.hyps(1)) auto
      moreover have "prefix fs ?fs" by simp
      ultimately show ?thesis using prefix_order.trans by blast
    qed (use Suc.prems in \<open>simp add: Cons walk_Cons\<close>)
  qed (use Suc.prems in simp)
next
  case 0
  then show ?case by (cases items) (auto simp: walk_Cons)
qed

lemma walk_sound:
  "world_writable_walk env me mf items n fs = (n', fs') \<Longrightarrow> p \<in> set fs' \<Longrightarrow>
     p \<in> set fs \<or> (\<exists>i \<in> set items. \<exists>x. item_below env i x \<and> open_to_all x \<and> it_path x = p)"
proof (induction "me - n" arbitrary: items n fs)
  case (Suc k)
  show ?case
  proof (cases items)
    case (Cons i js)
    show ?thesis
    proof (cases "length fs \<ge> mf \<or> n \<ge> me")
      case False
      let ?fs = "if open_to_all i then fs @ [it_path i] else fs"
      have "world_writable_walk env me mf (children env i @ js) (n + 1) ?fs = (n', fs')"
        using Suc.prems(1) False by (simp add: Cons walk_Cons)
      then have "p \<in> set ?fs \<or> (\<exists>j \<in> set (children env i @ js). \<exists>x. item_below env j x \<and> open_to_all x \<and> it_path x = p)"
        using Suc.hyps Suc.prems(2) by (intro Suc.hyps(1)) auto
      then show ?thesis
      proof
        assume "p \<in> set ?fs"
        then show ?thesis using item_below.self [of env i] by (auto simp: Cons split: if_splits)
      next
        assume "\<exists>j \<in> set (children env i @ js). \<exists>x. item_below env j x \<and> open_to_all x \<and> it_path x = p"
        then show ?thesis using item_below_children [of env i] by (auto simp: Cons)
      qed
    qed (use Suc.prems in \<open>simp add: Cons walk_Cons\<close>)
  qed (use Suc.prems in simp)
next
  case 0
  then show ?case by (cases items) (auto simp: walk_Cons)
qed

lemma walk_complete:
  "world_writable_walk env me mf items n fs = (n', fs') \<Longrightarrow> n' < me \<Longrightarrow> length fs' < mf \<Longrightarrow>
   i \<in> set items \<Longrightarrow> item_below env i x \<Longrightarrow> open_to_all x \<Longrightarrow> it_path x \<in> set fs'"
proof (induction "me - n" arbitrary: items n fs i)
  case (Suc k)
  obtain j js where items: "items = j # js" using Suc.prems(4) by (cases items) auto
  have go: "\<not> (length fs \<ge> mf \<or> n \<ge> me)" using Suc.prems(1-3) by (auto simp: items walk_Cons split: if_splits)
  let ?fs = "if open_to_all j then fs @ [it_path j] else fs"
  have w: "world_writable_walk env me mf (children env j @ js) (n + 1) ?fs = (n', fs')"
    using Suc.prems(1) go by (simp add: items walk_Cons)
  have deep: "c \<in> set (children env j @ js) \<Longrightarrow> item_below env c x \<Longrightarrow> it_path x \<in> set fs'" for c
    using Suc.hyps(2) Suc.prems(2,3,6) w by (intro Suc.hyps(1) [of "n + 1" "children env j @ js" ?fs c]) auto
  show ?case
  proof (cases "i = j")
    case True
    with Suc.prems(5) item_below_children [of env j x] consider "x = j" | c where "c \<in> set (children env j)" "item_below env c x"
      by auto
    then show ?thesis
    proof cases
      case 1
      have "prefix ?fs fs'" using walk_bounds [OF w] go by (auto split: if_splits)
      then show ?thesis using 1 Suc.prems(6) by (auto dest: set_mono_prefix)
    qed (auto intro: deep)
  next
    case False
    then show ?thesis using Suc.prems(4,5) items by (intro deep [of i]) auto
  qed
next
  case 0
  then show ?case by (cases items) (auto simp: walk_Cons split: if_splits)
qed

text \<open>
  The walk stays within both limits; every path it reports belongs to an entry below the
  directory that others may write; and when neither limit was reached no such entry is missed.
\<close>

theorem walk_world_writable_exact:
  assumes "walk_world_writable env dir me mf = (n, fs)" "pe_read_dir env dir = Some items"
  shows "n \<le> me \<and> length fs \<le> mf
    \<and> (\<forall>p \<in> set fs. \<exists>i \<in> set items. \<exists>x. item_below env i x \<and> open_to_all x \<and> it_path x = p)
    \<and> (n < me \<and> length fs < mf \<longrightarrow>
        (\<forall>i \<in> set items. \<forall>x. item_below env i x \<and> open_to_all x \<longrightarrow> it_path x \<in> set fs))"
proof (cases "0 \<ge> mf \<or> 0 \<ge> me")
  case True
  then have "n = 0" "fs = []" using assms(1) by (auto simp: walk_world_writable_def)
  with True show ?thesis by auto
next
  case False
  then have w: "world_writable_walk env me mf items 0 [] = (n, fs)"
    using assms by (auto simp: walk_world_writable_def)
  have "\<forall>p \<in> set fs. \<exists>i \<in> set items. \<exists>x. item_below env i x \<and> open_to_all x \<and> it_path x = p"
    using walk_sound [OF w] by auto
  moreover have "n < me \<and> length fs < mf \<longrightarrow>
        (\<forall>i \<in> set items. \<forall>x. item_below env i x \<and> open_to_all x \<longrightarrow> it_path x \<in> set fs)"
    using walk_complete [OF w] by blast
  ultimately show ?thesis using walk_bounds [OF w] by simp
qed

definition etc_env :: probe_env where
  "etc_env = sample_probe_env\<lparr>pe_read_dir := (\<lambda>p. if p = ''/etc'' then
     Some [\<lparr>it_path = ''/etc/localtime'', it_meta = Some (41471, False)\<rparr>,
           \<lparr>it_path = ''/etc/passwd'', it_meta = Some (33188, False)\<rparr>] else None)\<rparr>"

text \<open>
  The metadata of an entry is that of a link itself, and a link has all permission bits (octal
  120777 is 41471), so every symbolic link counts as world-writable.
\<close>

lemma symlink_reported: "walk_world_writable etc_env ''/etc'' 100 50 = (2, [''/etc/localtime''])"
  by (simp add: walk_world_writable_def etc_env_def walk_Cons children_def open_to_all_def)

lemma walk_world_writable_exact_witness:
  "2 \<le> (100 :: nat) \<and> (\<exists>i x. i \<in> set (unwrap_or (pe_read_dir etc_env ''/etc'') [])
     \<and> item_below etc_env i x \<and> open_to_all x \<and> it_path x = ''/etc/localtime'')"
proof -
  have d: "pe_read_dir etc_env ''/etc'' = Some (unwrap_or (pe_read_dir etc_env ''/etc'') [])"
    by (simp add: etc_env_def)
  from walk_world_writable_exact [OF symlink_reported d] show ?thesis by auto
qed

subsection \<open>Directives of sshd\<close>

text \<open>The value a line gives to a keyword.\<close>

definition sshd_value :: "str \<Rightarrow> str \<Rightarrow> str option" where
  "sshd_value key line =
     (if trim line = [] \<or> starts_with (trim line) ''#'' then None
      else (case split_whitespace (trim line) of
          k # v # _ \<Rightarrow> if eq_ignore_ascii_case k key then Some v else None
        | _ \<Rightarrow> None))"

lemma sshd_lines_last:
  "sshd_lines key found ls =
     (let vs = List.map_filter (sshd_value key) ls in if vs = [] then found else Some (last vs))"
proof (induction ls arbitrary: found)
  case (Cons line ls)
  show ?case
  proof (cases "trim line = [] \<or> starts_with (trim line) ''#''")
    case True
    then have "sshd_value key line = None" by (auto simp: sshd_value_def)
    then show ?thesis using True Cons by (simp add: map_filter_simps Let_def)
  next
    case False
    then obtain k parts where w: "split_whitespace (trim line) = k # parts"
      using trim_first_word [of line] by (cases "split_whitespace (trim line)") auto
    show ?thesis
    proof (cases "eq_ignore_ascii_case k key \<and> parts \<noteq> []")
      case True
      then obtain v qs where "parts = v # qs" by (cases parts) auto
      with True False w have "sshd_value key line = Some v" by (simp add: sshd_value_def)
      with True False w \<open>parts = v # qs\<close> Cons show ?thesis by (simp add: map_filter_simps Let_def)
    next
      case no: False
      then have "sshd_value key line = None" using w False by (auto simp: sshd_value_def split: list.splits)
      moreover have "sshd_lines key found (line # ls) = sshd_lines key found ls"
        using no w False by (auto simp: Let_def split: list.splits)
      ultimately show ?thesis using Cons by (simp add: map_filter_simps)
    qed
  qed
qed (simp add: map_filter_simps)

text \<open>
  The directive judged is the value on the last line of the file that sets the keyword, in any
  case of letters, comments and blank lines aside; it is missing only when no line sets it.
\<close>

theorem sshd_directive_last:
  "sshd_directive content key =
     (let vs = List.map_filter (sshd_value key) (lines content) in if vs = [] then None else Some (last vs))"
  unfolding sshd_directive_def by (rule sshd_lines_last)

text \<open>
  The daemon takes the first value of a keyword: here root may log in, and the check passes.
\<close>

lemma sshd_first_value_wins:
  "sshd_directive (''PermitRootLogin yes'' @ [CHR 0x0A] @ ''PermitRootLogin no'') ''PermitRootLogin'' = Some ''no''
   \<and> sshd_check ''PermitRootLogin'' ''no'' ''unset'' (Some ''no'') = []"
  by code_simp

text \<open>A text with a character across byte 512 cannot be shortened: the slice panics.\<close>

lemma truncate_panics: "truncate (replicate 511 CHR ''a'' @ [CHR 0xC3, CHR 0xA9]) 512 = None"
proof -
  let ?s = "replicate 511 CHR ''a'' @ [CHR 0xC3, CHR 0xA9]"
  have "?s ! 512 = CHR 0xA9" by (simp add: nth_append)
  then have "\<not> is_char_boundary ?s 512" by (simp add: is_char_boundary_def is_cont_def)
  then show ?thesis by (simp add: truncate_def)
qed

lemma absent_port_wraps: "expect_absent_ports (JObj [(''expect_absent'', JArr [JInt 65558])]) = [22]"
  by (simp add: expect_absent_ports_def map_filter_simps)

end
