(* ===== verification/Table.thy ===== *)
theory Table
  imports Prelude
begin

text \<open>
  Tables of the center's database as lists of rows in the order of insertion, and the statements
  that change them: \<open>INSERT ... ON DUPLICATE KEY UPDATE\<close>, \<open>INSERT IGNORE\<close>, \<open>UPDATE ... WHERE\<close> and
  \<open>DELETE ... WHERE\<close>. A table with a primary key is a map from keys to rows: the locale
  \<open>keyed_table\<close> states what an upsert promises; the component theories interpret it for their tables.
\<close>

definition upsert :: "('r \<Rightarrow> 'k) \<Rightarrow> 'r \<Rightarrow> ('r \<Rightarrow> 'r) \<Rightarrow> 'r list \<Rightarrow> 'r list" where
  "upsert key row upd rows =
     (if list_ex (\<lambda>r. key r = key row) rows
      then map (\<lambda>r. if key r = key row then upd r else r) rows else rows @ [row])"

definition insert_ignore :: "('r \<Rightarrow> 'k) \<Rightarrow> 'r \<Rightarrow> 'r list \<Rightarrow> 'r list" where
  "insert_ignore key row rows = (if list_ex (\<lambda>r. key r = key row) rows then rows else rows @ [row])"

definition update_where :: "('r \<Rightarrow> bool) \<Rightarrow> ('r \<Rightarrow> 'r) \<Rightarrow> 'r list \<Rightarrow> 'r list" where
  "update_where P f rows = map (\<lambda>r. if P r then f r else r) rows"

definition delete_where :: "('r \<Rightarrow> bool) \<Rightarrow> 'r list \<Rightarrow> 'r list" where
  "delete_where P rows = filter (\<lambda>r. \<not> P r) rows"

definition row_at :: "('r \<Rightarrow> 'k) \<Rightarrow> 'r list \<Rightarrow> 'k \<Rightarrow> 'r option" where
  "row_at key rows k = find (\<lambda>r. key r = k) rows"

lemma list_ex_key: "list_ex (\<lambda>r. key r = k) rows \<longleftrightarrow> k \<in> key ` set rows"
  by (auto simp: list_ex_iff)

lemma row_at_simps [simp]:
  "row_at key [] k = None"
  "row_at key (r # rs) k = (if key r = k then Some r else row_at key rs k)"
  by (simp_all add: row_at_def)

lemma row_at_None: "row_at key rows k = None \<longleftrightarrow> k \<notin> key ` set rows"
  by (induction rows) auto

lemma row_at_key: "row_at key rows k = Some r \<Longrightarrow> key r = k \<and> r \<in> set rows"
  by (induction rows) (auto split: if_splits)

lemma row_at_append: "row_at key (xs @ ys) k = (case row_at key xs k of Some r \<Rightarrow> Some r | None \<Rightarrow> row_at key ys k)"
  by (induction xs) auto

lemma row_at_distinct: "distinct (map key rows) \<Longrightarrow> r \<in> set rows \<Longrightarrow> row_at key rows (key r) = Some r"
  by (induction rows) (auto simp: image_iff)

lemma row_at_iff: "distinct (map key rows) \<Longrightarrow> row_at key rows k = Some r \<longleftrightarrow> r \<in> set rows \<and> key r = k"
  using row_at_distinct row_at_key by fastforce

lemma row_at_map_other:
  "(\<And>r. key (f r) = key r) \<Longrightarrow> (\<And>r. key r = k \<Longrightarrow> f r = r) \<Longrightarrow> row_at key (map f rows) k = row_at key rows k"
  by (induction rows) auto

lemma row_at_map: "(\<And>r. key (f r) = key r) \<Longrightarrow> row_at key (map f rows) k = map_option f (row_at key rows k)"
  by (induction rows) auto

lemma row_at_delete:
  "distinct (map key rows) \<Longrightarrow>
   row_at key (delete_where P rows) k = (case row_at key rows k of Some r \<Rightarrow> if P r then None else Some r | None \<Rightarrow> None)"
proof (induction rows)
  case (Cons a rows)
  then have "key a = k \<Longrightarrow> row_at key rows k = None" by (auto simp: row_at_None)
  with Cons show ?case by (auto simp: delete_where_def)
qed (simp add: delete_where_def)

lemma update_where_keys [simp]:
  "(\<And>r. key (f r) = key r) \<Longrightarrow> map key (update_where P f rows) = map key rows"
  by (simp add: update_where_def)

lemma delete_where_distinct [simp]: "distinct (map key rows) \<Longrightarrow> distinct (map key (delete_where P rows))"
  by (simp add: delete_where_def distinct_map_filter)

lemma delete_where_set [simp]: "set (delete_where P rows) = {r \<in> set rows. \<not> P r}"
  by (simp add: delete_where_def)

lemma insert_ignore_distinct [simp]:
  "distinct (map key rows) \<Longrightarrow> distinct (map key (insert_ignore key row rows))"
  by (simp add: insert_ignore_def list_ex_key)

lemma row_at_insert_ignore:
  "row_at key (insert_ignore key row rows) k =
     (if k = key row then Some (case row_at key rows k of Some r \<Rightarrow> r | None \<Rightarrow> row) else row_at key rows k)"
proof (cases "row_at key rows (key row)")
  case None
  then show ?thesis using row_at_None [of key rows "key row"]
    by (auto simp: insert_ignore_def list_ex_key row_at_append split: option.splits)
next
  case (Some r)
  then have "key row \<in> key ` set rows" by (metis row_at_None option.distinct(1))
  with Some show ?thesis by (auto simp: insert_ignore_def list_ex_key)
qed

lemma row_at_insert_ignore_known:
  "row_at key rows k = Some r \<Longrightarrow> row_at key (insert_ignore key row rows) k = Some r"
  by (auto simp: row_at_insert_ignore)

subsection \<open>Tables with a primary key\<close>

locale keyed_table =
  fixes key :: "'r \<Rightarrow> 'k" and new :: "'k \<Rightarrow> 'v \<Rightarrow> 'r" and upd :: "'v \<Rightarrow> 'r \<Rightarrow> 'r"
  assumes key_new: "key (new k v) = k" and key_upd: "key (upd v r) = key r"
begin

text \<open>The statement binds the key once and the values of the other columns twice.\<close>

lemma upsert_keys: "set (map key (upsert key (new k v) (upd v) rows)) = insert k (set (map key rows))"
proof (cases "k \<in> key ` set rows")
  case True
  have "map key (map (\<lambda>r. if key r = k then upd v r else r) rows) = map key rows"
    by (simp add: key_upd)
  then have "set (map key (upsert key (new k v) (upd v) rows)) = set (map key rows)"
    using True by (simp add: upsert_def list_ex_key key_new del: map_map set_map)
  with True show ?thesis by auto
qed (auto simp: upsert_def list_ex_key key_new)

lemma upsert_distinct: "distinct (map key rows) \<Longrightarrow> distinct (map key (upsert key (new k v) (upd v) rows))"
proof -
  assume d: "distinct (map key rows)"
  have "map key (map (\<lambda>r. if key r = k then upd v r else r) rows) = map key rows"
    by (simp add: key_upd)
  with d show ?thesis
    by (auto simp: upsert_def list_ex_key key_new simp del: map_map)
qed

lemma row_at_upsert:
  "row_at key (upsert key (new k v) (upd v) rows) j =
     (if j = k then Some (case row_at key rows k of Some r \<Rightarrow> upd v r | None \<Rightarrow> new k v)
      else row_at key rows j)"
proof (cases "row_at key rows k")
  case (Some r)
  then have k: "k \<in> key ` set rows" by (metis row_at_None option.distinct(1))
  have "row_at key (map (\<lambda>r. if key r = k then upd v r else r) rows) j =
      map_option (\<lambda>r. if key r = k then upd v r else r) (row_at key rows j)"
    by (rule row_at_map) (simp add: key_upd)
  then show ?thesis using k Some row_at_key [OF Some] row_at_key [of key rows j]
    by (cases "row_at key rows j") (auto simp: upsert_def list_ex_key key_new)
next
  case None
  then have "k \<notin> key ` set rows" by (simp add: row_at_None)
  with None show ?thesis
    by (auto simp: upsert_def list_ex_key key_new row_at_append split: option.splits)
qed

lemma upsert_other: "r \<in> set (upsert key (new k v) (upd v) rows) \<Longrightarrow> key r \<noteq> k \<Longrightarrow> r \<in> set rows"
  by (cases "list_ex (\<lambda>r. key r = k) rows")
    (auto simp: upsert_def key_new key_upd split: if_splits)

lemma upsert_keeps: "r \<in> set rows \<Longrightarrow> key r \<noteq> k \<Longrightarrow> r \<in> set (upsert key (new k v) (upd v) rows)"
  by (auto simp: upsert_def key_new image_iff)

end

end
