(* ===== verification/Center_Db.thy ===== *)
theory Center_Db
  imports Table Json
begin

text \<open>
  \<open>crates/novbot-center/src/db.rs\<close> and the migrations: the database of the center. Its state is the
  record \<open>db\<close>, one list of rows per table, in the order of insertion; the columns the program never
  reads are left out. What is outside of the code is the argument \<open>cenv\<close>: the clock in milliseconds,
  fresh identifiers, SHA-256 in hexadecimal, and \<open>serde_json\<close> to and from text. A statement fails
  only where a constraint of the schema makes it fail; the loss of the connection is not modelled.
  An \<open>i64\<close> of the database is an \<open>int\<close>.
\<close>

subsection \<open>Outside and tables\<close>

record cenv =
  ce_now :: nat
  ce_uuid :: "nat \<Rightarrow> str"
  ce_sha :: "str \<Rightarrow> str"
  ce_print :: "json \<Rightarrow> str"
  ce_parse :: "str \<Rightarrow> json option"

record node_row =
  nd_id :: str
  nd_hostname :: str
  nd_version :: str
  nd_labels :: str
  nd_last_seen :: "nat option"

record tag_row =
  tg_node :: str
  tg_source :: str
  tg_key :: str
  tg_value :: str
  tg_valid :: bool
  tg_reason :: "str option"
  tg_by :: str

record config_row =
  cf_node :: str
  cf_generation :: int
  cf_specs :: str
  cf_schedules :: str

record result_row =
  rs_node :: str
  rs_run :: str
  rs_spec :: str
  rs_status :: str
  rs_payload :: str
  rs_observed :: nat

record pending_row =
  pd_id :: nat
  pd_node :: str
  pd_run :: str
  pd_spec :: str
  pd_params :: str
  pd_in_flight :: "nat option"
  pd_attempts :: nat

record audit_row =
  au_at :: nat
  au_actor_type :: str
  au_actor :: str
  au_action :: str
  au_target_type :: str
  au_target :: str
  au_node :: "str option"
  au_detail :: str
  au_prev :: "str option"
  au_hash :: str

record resolution_row =
  rr_id :: str
  rr_kind :: str
  rr_ref :: str
  rr_selector :: "str option"
  rr_picked :: "str list option"
  rr_excluded :: "str list"
  rr_node_ids :: "str list"
  rr_prod :: "str list"
  rr_prod_confirmed :: bool
  rr_sha :: str
  rr_at :: nat
  rr_supersedes :: "str option"

record dispatch_row =
  do_id :: str
  do_spec :: str
  do_params :: str
  do_resolution :: str
  do_at :: nat

record dispatch_run_row =
  dr_operation :: str
  dr_node :: str
  dr_run :: str
  dr_delivered :: str

record schedule_row =
  sc_id :: str
  sc_spec :: str
  sc_interval :: "int option"
  sc_cron :: "str option"
  sc_enabled :: bool
  sc_resolution :: str
  sc_at :: nat

record schedule_node_row =
  sn_schedule :: str
  sn_node :: str
  sn_state :: str

record desired_row =
  de_node :: str
  de_skill :: str
  de_version :: str
  de_sha :: str
  de_operation :: str

record actual_row =
  ac_node :: str
  ac_skill :: str
  ac_version :: str
  ac_sha :: str
  ac_state :: str
  ac_reason :: "str option"
  ac_detail :: "str option"
  ac_attempts :: int
  ac_previous :: str
  ac_generation :: int

record skill_op_row =
  so_id :: str
  so_type :: str
  so_skill :: str
  so_version :: "str option"
  so_targets :: str
  so_capabilities :: "str option"
  so_force :: bool
  so_at :: nat

record skill_version_row =
  sv_skill :: str
  sv_version :: str
  sv_sha :: str
  sv_status :: str
  sv_min_node :: "str option"
  sv_platforms :: "str option"
  sv_capabilities_sha :: str
  sv_abi :: str
  sv_size :: int

record artifact_row =
  ar_sha :: str
  ar_size :: int
  ar_data :: str

record db =
  t_nodes :: "node_row list"
  t_tags :: "tag_row list"
  t_configs :: "config_row list"
  t_results :: "result_row list"
  t_pending :: "pending_row list"
  t_pending_next :: nat
  t_license :: "str option"
  t_audit :: "audit_row list"
  t_resolutions :: "resolution_row list"
  t_dispatches :: "dispatch_row list"
  t_runs :: "dispatch_run_row list"
  t_schedules :: "schedule_row list"
  t_schedule_nodes :: "schedule_node_row list"
  t_sets :: "(str \<times> int) list"
  t_desired :: "desired_row list"
  t_actual :: "actual_row list"
  t_operations :: "skill_op_row list"
  t_skills :: "str list"
  t_versions :: "skill_version_row list"
  t_artifacts :: "artifact_row list"
  uuids_drawn :: nat

definition empty_db :: db where
  "empty_db = \<lparr>t_nodes = [], t_tags = [], t_configs = [], t_results = [], t_pending = [], t_pending_next = 1,
     t_license = Some [], t_audit = [], t_resolutions = [], t_dispatches = [], t_runs = [], t_schedules = [],
     t_schedule_nodes = [], t_sets = [], t_desired = [], t_actual = [], t_operations = [], t_skills = [],
     t_versions = [], t_artifacts = [], uuids_drawn = 0\<rparr>"

text \<open>\<open>Uuid::new_v4\<close>: the next of the identifiers the environment supplies.\<close>

definition new_uuid :: "cenv \<Rightarrow> db \<Rightarrow> str \<times> db" where
  "new_uuid env db = (ce_uuid env (uuids_drawn db), db\<lparr>uuids_drawn := uuids_drawn db + 1\<rparr>)"

subsection \<open>Nodes\<close>

definition node_exists :: "db \<Rightarrow> str \<Rightarrow> bool" where
  "node_exists db node_id = list_ex (\<lambda>n. nd_id n = node_id) (t_nodes db)"

definition labels_value :: "(str \<times> str) list \<Rightarrow> json" where
  "labels_value labels = JObj (map (\<lambda>(k, v). (k, JStr v)) labels)"

definition upsert_node :: "cenv \<Rightarrow> db \<Rightarrow> str \<Rightarrow> str \<Rightarrow> str \<Rightarrow> (str \<times> str) list \<Rightarrow> db" where
  "upsert_node env db node_id hostname version labels =
     (let labels_json = ce_print env (labels_value labels) in
      db\<lparr>t_nodes := upsert nd_id
           \<lparr>nd_id = node_id, nd_hostname = hostname, nd_version = version, nd_labels = labels_json,
            nd_last_seen = Some (ce_now env)\<rparr>
           (\<lambda>n. n\<lparr>nd_hostname := hostname, nd_version := version, nd_labels := labels_json,
              nd_last_seen := Some (ce_now env)\<rparr>) (t_nodes db),
         t_configs := insert_ignore cf_node
           \<lparr>cf_node = node_id, cf_generation = 1, cf_specs = ''[]'', cf_schedules = ''[]''\<rparr> (t_configs db)\<rparr>)"

definition touch_node :: "cenv \<Rightarrow> db \<Rightarrow> str \<Rightarrow> db" where
  "touch_node env db node_id =
     db\<lparr>t_nodes := update_where (\<lambda>n. nd_id n = node_id) (\<lambda>n. n\<lparr>nd_last_seen := Some (ce_now env)\<rparr>) (t_nodes db)\<rparr>"

text \<open>The view \<open>node_tags_effective\<close>, without the columns of an overridden node value.\<close>

definition node_tags_effective :: "tag_row list \<Rightarrow> tag_row list" where
  "node_tags_effective ts =
     filter (\<lambda>t. tg_valid t \<and> \<not> (tg_source t = ''node'' \<and>
       list_ex (\<lambda>c. tg_node c = tg_node t \<and> tg_key c = tg_key t \<and> tg_source c = ''center'') ts)) ts"

record node_view =
  nv_id :: str
  nv_hostname :: str
  nv_version :: str
  nv_labels :: json
  nv_tags :: "str \<rightharpoonup> str"
  nv_sources :: "str \<rightharpoonup> str"
  nv_invalid :: nat
  nv_last_seen :: "nat option"

definition bucket_rank :: "str \<Rightarrow> nat" where
  "bucket_rank source =
     (if source = ''system'' then 0 else if source = ''node'' then 1 else if source = ''center'' then 2 else 3)"

definition list_nodes :: "cenv \<Rightarrow> db \<Rightarrow> node_view list" where
  "list_nodes env db =
     map (\<lambda>n.
       (let bucket = sort_key (\<lambda>t. bucket_rank (tg_source t))
              (filter (\<lambda>t. tg_node t = nd_id n) (node_tags_effective (t_tags db)))
        in \<lparr>nv_id = nd_id n, nv_hostname = nd_hostname n, nv_version = nd_version n,
            nv_labels = unwrap_or (ce_parse env (nd_labels n)) (JObj []),
            nv_tags = foldl (\<lambda>m t. m(tg_key t \<mapsto> tg_value t)) Map.empty bucket,
            nv_sources = foldl (\<lambda>m t. m(tg_key t \<mapsto> tg_source t)) Map.empty bucket,
            nv_invalid = length (filter (\<lambda>t. tg_node t = nd_id n \<and> tg_source t = ''node'' \<and> \<not> tg_valid t) (t_tags db)),
            nv_last_seen = nd_last_seen n\<rparr>))
       (sort_key nd_id (t_nodes db))"

subsection \<open>Configurations\<close>

text \<open>Stored text is parsed and printed again; what does not parse reads as an empty array.\<close>

definition reprint :: "cenv \<Rightarrow> json \<Rightarrow> str \<Rightarrow> str" where
  "reprint env fallback raw = ce_print env (unwrap_or (ce_parse env raw) fallback)"

definition decode_config :: "cenv \<Rightarrow> config_row \<Rightarrow> config_row" where
  "decode_config env r =
     r\<lparr>cf_specs := reprint env (JArr []) (cf_specs r), cf_schedules := reprint env (JArr []) (cf_schedules r)\<rparr>"

definition get_config :: "cenv \<Rightarrow> db \<Rightarrow> str \<Rightarrow> config_row option" where
  "get_config env db node_id = map_option (decode_config env) (row_at cf_node (t_configs db) node_id)"

definition config_generation :: "cenv \<Rightarrow> db \<Rightarrow> str \<Rightarrow> int" where
  "config_generation env db node_id =
     (case get_config env db node_id of Some c \<Rightarrow> cf_generation c | None \<Rightarrow> 0)"

definition put_config ::
    "cenv \<Rightarrow> db \<Rightarrow> str \<Rightarrow> str \<Rightarrow> str option \<Rightarrow> (db \<times> config_row, str) result" where
  "put_config env db node_id specs_json schedules_json =
     (if ce_parse env specs_json = None then Err ''specs_json''
      else if (case schedules_json of Some s \<Rightarrow> ce_parse env s = None | None \<Rightarrow> False) then Err ''schedules_json''
      else (let schedules = (case schedules_json of
                  Some s \<Rightarrow> s
                | None \<Rightarrow> (case get_config env db node_id of Some c \<Rightarrow> cf_schedules c | None \<Rightarrow> ''[]''))
        in if \<not> node_exists db node_id then Err ''foreign key''
           else (let db' = db\<lparr>t_configs := upsert cf_node
                   \<lparr>cf_node = node_id, cf_generation = 1, cf_specs = specs_json, cf_schedules = schedules\<rparr>
                   (\<lambda>c. c\<lparr>cf_generation := cf_generation c + 1, cf_specs := specs_json, cf_schedules := schedules\<rparr>)
                   (t_configs db)\<rparr>
             in case get_config env db' node_id of
                  Some c \<Rightarrow> Ok (db', c) | None \<Rightarrow> Err ''config missing after put'')))"

definition put_schedules :: "cenv \<Rightarrow> db \<Rightarrow> str \<Rightarrow> str \<Rightarrow> (db \<times> config_row, str) result" where
  "put_schedules env db node_id schedules_json =
     (if ce_parse env schedules_json = None then Err ''schedules_json''
      else if \<not> list_ex (\<lambda>c. cf_node c = node_id) (t_configs db)
      then Err ''node config not found; register node first''
      else (let db' = db\<lparr>t_configs := update_where (\<lambda>c. cf_node c = node_id)
                  (\<lambda>c. c\<lparr>cf_schedules := schedules_json, cf_generation := cf_generation c + 1\<rparr>) (t_configs db)\<rparr>
        in case get_config env db' node_id of
             Some c \<Rightarrow> Ok (db', c) | None \<Rightarrow> Err ''config missing after schedule put''))"

subsection \<open>Results\<close>

definition insert_result ::
    "db \<Rightarrow> str \<Rightarrow> str \<Rightarrow> str \<Rightarrow> str \<Rightarrow> str \<Rightarrow> nat \<Rightarrow> (db, str) result" where
  "insert_result db node_id run_id spec_id status payload_json observed_at =
     (if \<not> node_exists db node_id then Err ''foreign key''
      else Ok (db\<lparr>t_results := t_results db @
        [\<lparr>rs_node = node_id, rs_run = run_id, rs_spec = spec_id, rs_status = status, rs_payload = payload_json,
          rs_observed = observed_at\<rparr>]\<rparr>))"

text \<open>\<open>ORDER BY id DESC LIMIT ?\<close>, the limit between 1 and 500.\<close>

definition clamp_between :: "int \<Rightarrow> int \<Rightarrow> int \<Rightarrow> nat" where
  "clamp_between lo hi n = nat (max lo (min hi n))"

definition list_results :: "cenv \<Rightarrow> db \<Rightarrow> str option \<Rightarrow> int \<Rightarrow> (result_row \<times> json) list" where
  "list_results env db node_id limit =
     map (\<lambda>r. (r, unwrap_or (ce_parse env (rs_payload r)) JNull))
       (take (clamp_between 1 500 limit)
         (rev (filter (\<lambda>r. case node_id of Some n \<Rightarrow> rs_node r = n | None \<Rightarrow> True) (t_results db))))"

subsection \<open>The queue of dispatches\<close>

definition PENDING_DISPATCH_ACK_TIMEOUT :: nat where "PENDING_DISPATCH_ACK_TIMEOUT = 60 * 1000"

record claimed_dispatch =
  cd_id :: nat
  cd_run :: str
  cd_spec :: str
  cd_params :: str

definition insert_pending :: "db \<Rightarrow> str \<Rightarrow> str \<Rightarrow> str \<Rightarrow> str \<Rightarrow> db" where
  "insert_pending db node_id run_id spec_id params_json =
     db\<lparr>t_pending := t_pending db @
          [\<lparr>pd_id = t_pending_next db, pd_node = node_id, pd_run = run_id, pd_spec = spec_id,
            pd_params = params_json, pd_in_flight = None, pd_attempts = 0\<rparr>],
        t_pending_next := t_pending_next db + 1\<rparr>"

definition enqueue_dispatch :: "cenv \<Rightarrow> db \<Rightarrow> str \<Rightarrow> str \<Rightarrow> str \<Rightarrow> str \<Rightarrow> (db \<times> nat, str) result" where
  "enqueue_dispatch env db node_id run_id spec_id params_json =
     (if ce_parse env params_json = None then Err ''params_json''
      else if \<not> node_exists db node_id then Err ''foreign key''
      else Ok (insert_pending db node_id run_id spec_id params_json, t_pending_next db))"

definition claimable :: "nat \<Rightarrow> nat \<Rightarrow> pending_row \<Rightarrow> bool" where
  "claimable now ack_timeout r = (case pd_in_flight r of None \<Rightarrow> True | Some t \<Rightarrow> t + ack_timeout < now)"

definition claim_pending_dispatches ::
    "cenv \<Rightarrow> db \<Rightarrow> str \<Rightarrow> nat \<Rightarrow> db \<times> claimed_dispatch list" where
  "claim_pending_dispatches env db node_id ack_timeout =
     (let eligible = (\<lambda>r. pd_node r = node_id \<and> claimable (ce_now env) ack_timeout r);
          rows = sort_key pd_id (filter eligible (t_pending db))
      in (db\<lparr>t_pending := update_where eligible
                (\<lambda>r. r\<lparr>pd_in_flight := Some (ce_now env), pd_attempts := pd_attempts r + 1\<rparr>) (t_pending db)\<rparr>,
          map (\<lambda>r. \<lparr>cd_id = pd_id r, cd_run = pd_run r, cd_spec = pd_spec r,
                     cd_params = reprint env (JObj []) (pd_params r)\<rparr>) rows))"

text \<open>What \<open>dispatch_target\<close> does after a live send.\<close>

definition mark_in_flight :: "cenv \<Rightarrow> db \<Rightarrow> str \<Rightarrow> str \<Rightarrow> db" where
  "mark_in_flight env db node_id run_id =
     db\<lparr>t_pending := update_where (\<lambda>r. pd_node r = node_id \<and> pd_run r = run_id)
          (\<lambda>r. r\<lparr>pd_in_flight := Some (ce_now env), pd_attempts := pd_attempts r + 1\<rparr>) (t_pending db)\<rparr>"

definition ack_pending_dispatch :: "db \<Rightarrow> str \<Rightarrow> str \<Rightarrow> db" where
  "ack_pending_dispatch db node_id run_id =
     db\<lparr>t_pending := delete_where (\<lambda>r. pd_node r = node_id \<and> pd_run r = run_id) (t_pending db)\<rparr>"

definition requeue_pending_dispatches :: "db \<Rightarrow> nat list \<Rightarrow> db" where
  "requeue_pending_dispatches db ids =
     (if ids = [] then db
      else db\<lparr>t_pending := update_where (\<lambda>r. pd_id r \<in> set ids) (\<lambda>r. r\<lparr>pd_in_flight := None\<rparr>) (t_pending db)\<rparr>)"

definition requeue_in_flight_for_node :: "db \<Rightarrow> str \<Rightarrow> db" where
  "requeue_in_flight_for_node db node_id =
     db\<lparr>t_pending := update_where (\<lambda>r. pd_node r = node_id \<and> pd_in_flight r \<noteq> None)
          (\<lambda>r. r\<lparr>pd_in_flight := None\<rparr>) (t_pending db)\<rparr>"

definition count_pending_dispatches :: "db \<Rightarrow> str \<Rightarrow> nat" where
  "count_pending_dispatches db node_id = length (filter (\<lambda>r. pd_node r = node_id) (t_pending db))"

definition count_pending_available :: "db \<Rightarrow> str \<Rightarrow> nat" where
  "count_pending_available db node_id =
     length (filter (\<lambda>r. pd_node r = node_id \<and> pd_in_flight r = None) (t_pending db))"

subsection \<open>License, uploads, migrations\<close>

definition get_license_key :: "db \<Rightarrow> str" where
  "get_license_key db = unwrap_or (t_license db) []"

definition set_license_key :: "db \<Rightarrow> str \<Rightarrow> db" where
  "set_license_key db key = db\<lparr>t_license := Some key\<rparr>"

definition is_licensed :: "db \<Rightarrow> str option \<Rightarrow> bool" where
  "is_licensed db env_key =
     (if (case env_key of Some k \<Rightarrow> k \<noteq> [] | None \<Rightarrow> False) then True
      else trim (get_license_key db) \<noteq> [])"

definition PACKAGE_MAX_BYTES :: nat where "PACKAGE_MAX_BYTES = 16 * 1024 * 1024"

definition uploads_allowed :: "nat \<Rightarrow> bool" where
  "uploads_allowed max_allowed_packet = (max_allowed_packet > PACKAGE_MAX_BYTES)"

definition split_sql :: "str \<Rightarrow> str list" where
  "split_sql sql = filter (\<lambda>s. s \<noteq> []) (map trim (split_char CHR '';'' sql))"

subsection \<open>Keyed tables\<close>

interpretation nodes: keyed_table nd_id
    "\<lambda>k (h, v, l, t). \<lparr>nd_id = k, nd_hostname = h, nd_version = v, nd_labels = l, nd_last_seen = t\<rparr>"
    "\<lambda>(h, v, l, t) n. n\<lparr>nd_hostname := h, nd_version := v, nd_labels := l, nd_last_seen := t\<rparr>"
  by unfold_locales (auto split: prod.splits)

interpretation configs: keyed_table cf_node
    "\<lambda>k (s, c). \<lparr>cf_node = k, cf_generation = 1, cf_specs = s, cf_schedules = c\<rparr>"
    "\<lambda>(s, c) r. r\<lparr>cf_generation := cf_generation r + 1, cf_specs := s, cf_schedules := c\<rparr>"
  by unfold_locales (auto split: prod.splits)

subsection \<open>A sample environment\<close>

definition sample_cenv :: "nat \<Rightarrow> cenv" where
  "sample_cenv now = \<lparr>ce_now = now, ce_uuid = (\<lambda>n. replicate n CHR ''u''), ce_sha = (\<lambda>s. ''0'' @ map (\<lambda>c. CHR ''0'') s),
     ce_print = (\<lambda>j. ''{}''), ce_parse = (\<lambda>s. Some (JObj []))\<rparr>"

definition sample_node :: "str \<Rightarrow> node_row" where
  "sample_node n = \<lparr>nd_id = n, nd_hostname = n, nd_version = ''1.0.0'', nd_labels = ''{}'', nd_last_seen = None\<rparr>"

end
