(* ===== verification/Queue.thy ===== *)
theory Queue
  imports Center_Db
begin

text \<open>
  The queue of dispatches (\<open>pending_dispatches\<close>) against its contract: a dispatch stays in the queue
  until its node reports a result for it, a claim hands it out again once the earlier delivery is
  overdue, and not before. The events of the queue are the statements of \<open>db.rs\<close>, each at the time of
  its environment, in any order.
\<close>

subsection \<open>Events\<close>

datatype queue_event =
    QEnqueue str str str str
  | QClaim str nat
  | QMarkLive str str
  | QAck str str
  | QRequeue "nat list"
  | QRequeueNode str

fun queue_step :: "cenv \<times> queue_event \<Rightarrow> db \<Rightarrow> db" where
  "queue_step (env, QEnqueue node run spec params) db =
     (case enqueue_dispatch env db node run spec params of Inr (db', _) \<Rightarrow> db' | Inl _ \<Rightarrow> db)"
| "queue_step (env, QClaim node timeout) db = fst (claim_pending_dispatches env db node timeout)"
| "queue_step (env, QMarkLive node run) db = mark_in_flight env db node run"
| "queue_step (env, QAck node run) db = ack_pending_dispatch db node run"
| "queue_step (env, QRequeue ids) db = requeue_pending_dispatches db ids"
| "queue_step (env, QRequeueNode node) db = requeue_in_flight_for_node db node"

definition queue_run :: "(cenv \<times> queue_event) list \<Rightarrow> db \<Rightarrow> db" where
  "queue_run events db = fold queue_step events db"

lemma queue_run_simps [simp]:
  "queue_run [] db = db" "queue_run (e # es) db = queue_run es (queue_step e db)"
  by (simp_all add: queue_run_def)

subsection \<open>The contract of a queue\<close>

text \<open>
  \<open>jobs\<close> is what a state still owes, \<open>adds\<close> what an event adds, \<open>drops\<close> what it removes. A job is
  owed from the event that adds it up to the first that drops it.
\<close>

locale job_queue =
  fixes jobs :: "'s \<Rightarrow> 'j set" and step :: "'e \<Rightarrow> 's \<Rightarrow> 's"
    and adds :: "'e \<Rightarrow> 's \<Rightarrow> 'j set" and drops :: "'e \<Rightarrow> 'j \<Rightarrow> bool"
  assumes step_jobs: "jobs (step e s) = {j \<in> jobs s. \<not> drops e j} \<union> adds e s"
begin

lemma owed_until_dropped:
  "j \<in> jobs s \<Longrightarrow> \<forall>e \<in> set es. \<not> drops e j \<Longrightarrow> j \<in> jobs (fold step es s)"
  by (induction es arbitrary: s) (auto simp: step_jobs)

lemma owed_was_added:
  "j \<in> jobs (fold step es s) \<Longrightarrow> j \<in> jobs s \<or> (\<exists>us e vs. es = us @ e # vs \<and> j \<in> adds e (fold step us s))"
proof (induction es rule: rev_induct)
  case (snoc e es)
  then have "j \<in> jobs (fold step es s) \<or> j \<in> adds e (fold step es s)" by (auto simp: step_jobs)
  then show ?case
  proof
    assume "j \<in> adds e (fold step es s)"
    then show ?case by auto
  next
    assume "j \<in> jobs (fold step es s)"
    with snoc.IH consider "j \<in> jobs s" | us e' vs where "es = us @ e' # vs" "j \<in> adds e' (fold step us s)"
      by blast
    then show ?case
    proof cases
      case 2
      then have "es @ [e] = us @ e' # (vs @ [e])" by simp
      with 2 show ?thesis by blast
    qed simp
  qed
qed simp

end

definition job :: "pending_row \<Rightarrow> nat \<times> str \<times> str \<times> str \<times> str" where
  "job r = (pd_id r, pd_node r, pd_run r, pd_spec r, pd_params r)"

definition owed :: "db \<Rightarrow> (nat \<times> str \<times> str \<times> str \<times> str) set" where
  "owed db = job ` set (t_pending db)"

fun event_adds :: "cenv \<times> queue_event \<Rightarrow> db \<Rightarrow> (nat \<times> str \<times> str \<times> str \<times> str) set" where
  "event_adds (env, QEnqueue node run spec params) db =
     (if ce_parse env params \<noteq> None \<and> node_exists db node then {(t_pending_next db, node, run, spec, params)} else {})"
| "event_adds _ db = {}"

fun event_drops :: "cenv \<times> queue_event \<Rightarrow> nat \<times> str \<times> str \<times> str \<times> str \<Rightarrow> bool" where
  "event_drops (env, QAck node run) (i, n, r, _) = (n = node \<and> r = run)"
| "event_drops _ _ = False"

lemma job_update [simp]:
  "job (r\<lparr>pd_in_flight := t\<rparr>) = job r" "job (r\<lparr>pd_in_flight := t, pd_attempts := a\<rparr>) = job r"
  by (simp_all add: job_def)

lemma owed_update:
  "(\<And>r. job (f r) = job r) \<Longrightarrow> job ` set (update_where P f rows) = job ` set rows"
proof -
  assume "\<And>r. job (f r) = job r"
  then have "\<And>r. job (if P r then f r else r) = job r" by simp
  then show ?thesis unfolding update_where_def set_map image_image by simp
qed

lemma owed_step: "owed (queue_step ev db) = {j \<in> owed db. \<not> event_drops ev j} \<union> event_adds ev db"
proof (cases ev)
  case (Pair env e)
  show ?thesis
  proof (cases e)
    case (QEnqueue node run spec params)
    then show ?thesis using Pair
      by (auto simp: enqueue_dispatch_def insert_pending_def owed_def job_def)
  next
    case (QAck node run)
    then show ?thesis using Pair
      by (auto simp: ack_pending_dispatch_def owed_def job_def)
  next
    case (QClaim node timeout)
    then show ?thesis using Pair by (simp add: claim_pending_dispatches_def Let_def owed_def owed_update)
  next
    case (QMarkLive node run)
    then show ?thesis using Pair by (simp add: mark_in_flight_def owed_def owed_update)
  next
    case (QRequeue ids)
    then show ?thesis using Pair by (simp add: requeue_pending_dispatches_def owed_def owed_update)
  next
    case (QRequeueNode node)
    then show ?thesis using Pair by (simp add: requeue_in_flight_for_node_def owed_def owed_update)
  qed
qed

interpretation dispatches: job_queue owed queue_step event_adds event_drops
  by unfold_locales (rule owed_step)

subsection \<open>When a dispatch is claimed\<close>

definition in_flight_by :: "nat \<Rightarrow> db \<Rightarrow> bool" where
  "in_flight_by T db = (\<forall>r \<in> set (t_pending db). \<forall>t. pd_in_flight r = Some t \<longrightarrow> t \<le> T)"

lemma in_flight_by_step:
  assumes "in_flight_by T db" "ce_now (fst ev) \<le> T"
  shows "in_flight_by T (queue_step ev db)"
  using assms
  by (cases ev; cases "snd ev")
    (auto simp: in_flight_by_def enqueue_dispatch_def insert_pending_def claim_pending_dispatches_def Let_def
      mark_in_flight_def ack_pending_dispatch_def requeue_pending_dispatches_def requeue_in_flight_for_node_def
      update_where_def split: if_splits)

lemma in_flight_by_run:
  "in_flight_by T db \<Longrightarrow> \<forall>ev \<in> set events. ce_now (fst ev) \<le> T \<Longrightarrow> in_flight_by T (queue_run events db)"
  by (induction events arbitrary: db) (auto simp: in_flight_by_step)

lemma claimed_rows:
  "set (snd (claim_pending_dispatches env db node timeout)) =
     (\<lambda>r. \<lparr>cd_id = pd_id r, cd_run = pd_run r, cd_spec = pd_spec r, cd_params = reprint env (JObj []) (pd_params r)\<rparr>)
       ` {r \<in> set (t_pending db). pd_node r = node \<and> claimable (ce_now env) timeout r}"
  by (simp add: claim_pending_dispatches_def Let_def)

text \<open>
  C12. Delivery at least once: a dispatch that was queued and that its node has not reported on is
  handed out by every claim of the node that comes later than the time limit after the last event,
  whatever claims, live deliveries, requeues and reports of other runs happened in between.
\<close>

theorem dispatch_at_least_once:
  assumes "enqueue_dispatch env0 db node run spec params = Ok (db0, qid)" "in_flight_by T db"
    "\<forall>ev \<in> set events. ce_now (fst ev) \<le> T \<and> snd ev \<noteq> QAck node run"
    "T + timeout < ce_now env"
  shows "\<exists>c \<in> set (snd (claim_pending_dispatches env (queue_run events db0) node timeout)).
    cd_id c = qid \<and> cd_run c = run \<and> cd_spec c = spec \<and> cd_params c = reprint env (JObj []) params"
proof -
  let ?j = "(qid, node, run, spec, params)"
  have j: "?j \<in> owed db0" and t: "in_flight_by T db0"
    using assms(1,2)
    by (auto simp: enqueue_dispatch_def insert_pending_def owed_def job_def in_flight_by_def split: if_splits)
  have nodrop: "\<forall>ev \<in> set events. \<not> event_drops ev ?j"
  proof
    fix ev assume "ev \<in> set events"
    with assms(3) have "snd ev \<noteq> QAck node run" by blast
    then show "\<not> event_drops ev ?j" by (cases ev; cases "snd ev") auto
  qed
  have "?j \<in> owed (queue_run events db0)"
    unfolding queue_run_def by (rule dispatches.owed_until_dropped [OF j nodrop])
  then obtain r where r: "r \<in> set (t_pending (queue_run events db0))" "job r = ?j"
    by (auto simp: owed_def)
  have "in_flight_by T (queue_run events db0)" using in_flight_by_run [OF t] assms(3) by blast
  with r(1) assms(4) have "claimable (ce_now env) timeout r"
    by (fastforce simp: in_flight_by_def claimable_def split: option.splits)
  with r show ?thesis by (fastforce simp: claimed_rows job_def)
qed

definition one_node :: db where
  "one_node = empty_db\<lparr>t_nodes := [sample_node ''n'']\<rparr>"

lemma dispatch_at_least_once_witness:
  "\<exists>c \<in> set (snd (claim_pending_dispatches (sample_cenv 70)
      (queue_run [(sample_cenv 5, QClaim ''n'' 60), (sample_cenv 6, QAck ''n'' ''other'')]
        (insert_pending one_node ''n'' ''run'' ''cpu'' ''{}'')) ''n'' 60)).
     cd_id c = 1 \<and> cd_run c = ''run'' \<and> cd_spec c = ''cpu''"
proof -
  have e: "enqueue_dispatch (sample_cenv 1) one_node ''n'' ''run'' ''cpu'' ''{}'' =
      Ok (insert_pending one_node ''n'' ''run'' ''cpu'' ''{}'', 1)"
    by (simp add: enqueue_dispatch_def sample_cenv_def one_node_def empty_db_def node_exists_def sample_node_def)
  have i: "in_flight_by 6 one_node" by (simp add: in_flight_by_def one_node_def empty_db_def)
  have t: "\<forall>ev \<in> set [(sample_cenv 5, QClaim ''n'' 60), (sample_cenv 6, QAck ''n'' ''other'')].
      ce_now (fst ev) \<le> 6 \<and> snd ev \<noteq> QAck ''n'' ''run''"
    by (simp add: sample_cenv_def)
  have "6 + 60 < ce_now (sample_cenv 70)" by (simp add: sample_cenv_def)
  from dispatch_at_least_once [OF e i t this] show ?thesis by blast
qed

text \<open>
  The second half of the contract: within the time limit a claimed dispatch is not handed out again,
  unless it was put back.
\<close>

definition no_requeue :: "queue_event \<Rightarrow> bool" where
  "no_requeue e = (case e of QRequeue _ \<Rightarrow> False | QRequeueNode _ \<Rightarrow> False | _ \<Rightarrow> True)"

definition in_flight_since :: "nat \<Rightarrow> nat \<Rightarrow> db \<Rightarrow> bool" where
  "in_flight_since t i db =
     (i < t_pending_next db \<and> (\<forall>r \<in> set (t_pending db). pd_id r = i \<longrightarrow> (\<exists>t'. pd_in_flight r = Some t' \<and> t \<le> t')))"

lemma in_flight_since_step:
  assumes "in_flight_since t i db" "t \<le> ce_now (fst ev)" "no_requeue (snd ev)"
  shows "in_flight_since t i (queue_step ev db)"
  using assms
  by (cases ev; cases "snd ev")
    (auto simp: in_flight_since_def no_requeue_def enqueue_dispatch_def insert_pending_def
      claim_pending_dispatches_def Let_def mark_in_flight_def ack_pending_dispatch_def update_where_def split: if_splits)

lemma in_flight_since_run:
  "in_flight_since t i db \<Longrightarrow> \<forall>ev \<in> set events. t \<le> ce_now (fst ev) \<and> no_requeue (snd ev) \<Longrightarrow>
     in_flight_since t i (queue_run events db)"
  by (induction events arbitrary: db) (auto simp: in_flight_since_step)

definition queue_ok :: "db \<Rightarrow> bool" where
  "queue_ok db = (distinct (map pd_id (t_pending db)) \<and> (\<forall>r \<in> set (t_pending db). pd_id r < t_pending_next db))"

lemma update_where_pd_id [simp]:
  "map pd_id (update_where P (\<lambda>r. r\<lparr>pd_in_flight := t, pd_attempts := a r\<rparr>) rows) = map pd_id rows"
  "map pd_id (update_where P (\<lambda>r. r\<lparr>pd_in_flight := t\<rparr>) rows) = map pd_id rows"
  by (rule update_where_keys, simp)+

lemma queue_ok_ids:
  "queue_ok db \<longleftrightarrow> distinct (map pd_id (t_pending db)) \<and> (\<forall>i \<in> set (map pd_id (t_pending db)). i < t_pending_next db)"
  by (simp add: queue_ok_def)

lemma queue_ok_step: "queue_ok db \<Longrightarrow> queue_ok (queue_step ev db)"
proof (cases ev)
  case (Pair env e)
  assume ok: "queue_ok db"
  show ?thesis
  proof (cases e)
    case (QAck node run)
    then show ?thesis using Pair ok
      by (simp add: queue_ok_def ack_pending_dispatch_def)
  qed (use Pair ok in \<open>auto simp: queue_ok_ids enqueue_dispatch_def insert_pending_def claim_pending_dispatches_def
      mark_in_flight_def requeue_pending_dispatches_def requeue_in_flight_for_node_def Let_def simp del: set_map\<close>)
qed

text \<open>
  C27. No double delivery within the time limit: what one claim hands out, no claim up to the time limit
  later hands out again, unless the rows were put back in between (the session ended, the node
  registered again, or sending failed).
\<close>

theorem claim_exclusive:
  assumes "queue_ok db" "claim_pending_dispatches env db node timeout = (db1, cs)"
    "\<forall>ev \<in> set events. ce_now env \<le> ce_now (fst ev) \<and> no_requeue (snd ev)"
    "ce_now env2 \<le> ce_now env + timeout2"
    "claim_pending_dispatches env2 (queue_run events db1) node2 timeout2 = (db2, cs2)"
  shows "cd_id ` set cs \<inter> cd_id ` set cs2 = {}"
proof -
  have "cd_id c \<noteq> cd_id c2" if "c \<in> set cs" "c2 \<in> set cs2" for c c2
  proof
    assume same: "cd_id c = cd_id c2"
    have cs: "cs = snd (claim_pending_dispatches env db node timeout)"
      and db1: "db1 = fst (claim_pending_dispatches env db node timeout)" using assms(2) by simp_all
    obtain r where r: "r \<in> set (t_pending db)" "pd_node r = node" "claimable (ce_now env) timeout r" "cd_id c = pd_id r"
      using \<open>c \<in> set cs\<close> unfolding cs claimed_rows by auto
    have "in_flight_since (ce_now env) (pd_id r) db1"
    proof -
      have "\<And>q. q \<in> set (t_pending db) \<Longrightarrow> pd_id q = pd_id r \<Longrightarrow> q = r"
        using assms(1) r(1) by (metis queue_ok_def row_at_distinct option.inject)
      moreover have "pd_id r < t_pending_next db" using assms(1) r(1) by (simp add: queue_ok_def)
      ultimately show ?thesis using r
        by (auto simp: in_flight_since_def db1 claim_pending_dispatches_def Let_def update_where_def)
    qed
    then have "in_flight_since (ce_now env) (pd_id r) (queue_run events db1)"
      using assms(3) by (rule in_flight_since_run)
    moreover have "cs2 = snd (claim_pending_dispatches env2 (queue_run events db1) node2 timeout2)"
      using assms(5) by simp
    with \<open>c2 \<in> set cs2\<close> obtain r2 where "r2 \<in> set (t_pending (queue_run events db1))"
        "claimable (ce_now env2) timeout2 r2" "cd_id c2 = pd_id r2"
      by (auto simp: claimed_rows)
    ultimately obtain t' where "pd_in_flight r2 = Some t'" "ce_now env \<le> t'" "claimable (ce_now env2) timeout2 r2"
      using same r(4) by (auto simp: in_flight_since_def)
    with assms(4) show False by (simp add: claimable_def)
  qed
  then show ?thesis by blast
qed

lemma claim_exclusive_witness:
  "cd_id ` set (snd (claim_pending_dispatches (sample_cenv 5) (insert_pending one_node ''n'' ''run'' ''cpu'' ''{}'') ''n'' 60))
   \<inter> cd_id ` set (snd (claim_pending_dispatches (sample_cenv 65) (queue_run [(sample_cenv 6, QAck ''n'' ''other'')]
       (fst (claim_pending_dispatches (sample_cenv 5) (insert_pending one_node ''n'' ''run'' ''cpu'' ''{}'') ''n'' 60))) ''n'' 60)) = {}"
proof -
  have ok: "queue_ok (insert_pending one_node ''n'' ''run'' ''cpu'' ''{}'')"
    by (simp add: queue_ok_def insert_pending_def one_node_def empty_db_def)
  have e: "\<forall>ev \<in> set [(sample_cenv 6, QAck ''n'' ''other'')].
      ce_now (sample_cenv 5) \<le> ce_now (fst ev) \<and> no_requeue (snd ev)"
    by (simp add: sample_cenv_def no_requeue_def)
  have "ce_now (sample_cenv 65) \<le> ce_now (sample_cenv 5) + 60" by (simp add: sample_cenv_def)
  from claim_exclusive [OF ok surjective_pairing e this surjective_pairing] show ?thesis .
qed

end
