(* ===== verification/Audit_Log.thy ===== *)
theory Audit_Log
  imports Center_Db
begin

text \<open>
  The audit log of the center, a hash chain in the table \<open>audit_events\<close>. It is written by
  \<open>targets.rs\<close>, \<open>skill_desired.rs\<close> and \<open>tags.rs\<close>, each with its own functions. The chain is preserved
  by all of them and makes changes of the log evident; the order of reading the last hash and of
  taking the lock decides whether concurrent transactions keep it a chain.
\<close>

subsection \<open>Writing an event\<close>

abbreviation newline :: char where "newline \<equiv> CHR 0x0A"

definition audit_material :: "str \<Rightarrow> str \<Rightarrow> str \<Rightarrow> str \<Rightarrow> str" where
  "audit_material prev action target detail =
     prev @ newline # action @ newline # target @ newline # detail"

definition audit_hash :: "cenv \<Rightarrow> str \<Rightarrow> str \<Rightarrow> str \<Rightarrow> str \<Rightarrow> str" where
  "audit_hash env prev action target detail = ce_sha env (audit_material prev action target detail)"

definition stored_prev :: "str \<Rightarrow> str option" where
  "stored_prev prev = (if prev = [] then None else Some prev)"

definition last_hash_of :: "str \<Rightarrow> audit_row list \<Rightarrow> str" where
  "last_hash_of prev rows = (if rows = [] then prev else au_hash (last rows))"

definition insert_audit ::
    "cenv \<Rightarrow> db \<Rightarrow> str \<Rightarrow> str \<Rightarrow> str \<Rightarrow> str \<Rightarrow> str \<Rightarrow> str \<Rightarrow> str option \<Rightarrow> str \<Rightarrow> db" where
  "insert_audit env db prev actor_type actor action target_type target node detail =
     db\<lparr>t_audit := t_audit db @
       [\<lparr>au_at = ce_now env, au_actor_type = actor_type, au_actor = actor, au_action = action,
         au_target_type = target_type, au_target = target, au_node = node, au_detail = detail,
         au_prev = stored_prev prev, au_hash = audit_hash env prev action target detail\<rparr>]\<rparr>"

definition ACTOR :: str where "ACTOR = ''api_token''"

text \<open>\<open>targets.rs\<close>\<close>

definition audit_event :: "cenv \<Rightarrow> db \<Rightarrow> str \<Rightarrow> str \<Rightarrow> str \<Rightarrow> str option \<Rightarrow> json \<Rightarrow> db" where
  "audit_event env db action target_type target node detail =
     insert_audit env db (last_hash_of [] (t_audit db)) ACTOR ACTOR action target_type target node (ce_print env detail)"

text \<open>\<open>skill_desired.rs\<close>\<close>

definition append_audit_as :: "cenv \<Rightarrow> db \<Rightarrow> str \<Rightarrow> str \<Rightarrow> str \<Rightarrow> str \<Rightarrow> str option \<Rightarrow> str \<Rightarrow> db" where
  "append_audit_as env db actor_type actor action target node detail_json =
     insert_audit env db (trim (last_hash_of [] (t_audit db))) actor_type actor action ''skill'' target node detail_json"

definition append_skill_audit :: "cenv \<Rightarrow> db \<Rightarrow> str \<Rightarrow> str \<Rightarrow> str option \<Rightarrow> str \<Rightarrow> db" where
  "append_skill_audit env db action target node detail_json =
     append_audit_as env db ACTOR ACTOR action target node detail_json"

definition append_node_audit :: "cenv \<Rightarrow> db \<Rightarrow> str \<Rightarrow> str \<Rightarrow> str \<Rightarrow> str \<Rightarrow> db" where
  "append_node_audit env db node_id action target detail_json =
     append_audit_as env db ''node'' node_id action target (Some node_id) detail_json"

text \<open>\<open>tags.rs\<close>\<close>

definition append_tag_audit ::
    "cenv \<Rightarrow> db \<Rightarrow> str \<Rightarrow> str \<Rightarrow> str \<Rightarrow> str \<Rightarrow> str \<Rightarrow> str option \<Rightarrow> str \<Rightarrow> db" where
  "append_tag_audit env db actor_type actor action target_type target node detail_json =
     insert_audit env db (last_hash_of [] (t_audit db)) actor_type actor action target_type target node detail_json"

definition audit_on :: "cenv \<Rightarrow> db \<Rightarrow> str \<Rightarrow> str \<Rightarrow> str \<Rightarrow> db" where
  "audit_on env db action node_id detail_json =
     insert_audit env db (last_hash_of [] (t_audit db)) ACTOR ACTOR action ''node'' node_id (Some node_id) detail_json"

lemmas audit_writers = audit_event_def append_skill_audit_def append_node_audit_def append_audit_as_def
  append_tag_audit_def audit_on_def

subsection \<open>The chain\<close>

fun chain_from :: "(str \<Rightarrow> str) \<Rightarrow> str \<Rightarrow> audit_row list \<Rightarrow> bool" where
  "chain_from sha prev [] = True"
| "chain_from sha prev (r # rs) =
     (au_prev r = stored_prev prev
      \<and> au_hash r = sha (audit_material prev (au_action r) (au_target r) (au_detail r))
      \<and> chain_from sha (au_hash r) rs)"

definition audit_ok :: "cenv \<Rightarrow> db \<Rightarrow> bool" where
  "audit_ok env db = chain_from (ce_sha env) [] (t_audit db)"

text \<open>A digest in hexadecimal is visible text, so trimming leaves it as it is.\<close>

definition digest_ok :: "(str \<Rightarrow> str) \<Rightarrow> bool" where
  "digest_ok sha = (\<forall>x. sha x \<noteq> [] \<and> list_all is_graph (sha x))"

lemma digest_no_newline: "digest_ok sha \<Longrightarrow> newline \<notin> set (sha x)"
proof
  assume "digest_ok sha" "newline \<in> set (sha x)"
  then have "is_graph newline" by (auto simp: digest_ok_def list_all_iff)
  then show False by (simp add: is_graph_def)
qed

lemma digest_trim: "digest_ok sha \<Longrightarrow> trim (sha x) = sha x"
  unfolding digest_ok_def
  by (metis trim_graph list_all_iff hd_in_set last_in_set)

lemma last_hash_of_simps [simp]:
  "last_hash_of prev [] = prev" "last_hash_of prev (rs @ [r]) = au_hash r"
  by (simp_all add: last_hash_of_def)

lemma last_hash_of_Cons: "last_hash_of prev (r # rs) = last_hash_of (au_hash r) rs"
  by (simp add: last_hash_of_def)

lemma chain_from_snoc:
  "chain_from sha prev (rs @ [r]) \<longleftrightarrow>
     chain_from sha prev rs \<and> au_prev r = stored_prev (last_hash_of prev rs)
     \<and> au_hash r = sha (audit_material (last_hash_of prev rs) (au_action r) (au_target r) (au_detail r))"
  by (induction rs arbitrary: prev) (auto simp: last_hash_of_Cons)

lemma chain_from_hash: "chain_from sha prev rs \<Longrightarrow> r \<in> set rs \<Longrightarrow> \<exists>x. au_hash r = sha x"
  by (induction rs arbitrary: prev) auto

lemma chain_last_hash: "chain_from sha prev rs \<Longrightarrow> rs \<noteq> [] \<Longrightarrow> \<exists>x. last_hash_of prev rs = sha x"
  using chain_from_hash [of sha prev rs "last rs"] by (simp add: last_hash_of_def)

lemma insert_audit_ok:
  "audit_ok env db \<Longrightarrow> prev = last_hash_of [] (t_audit db) \<Longrightarrow>
   audit_ok env (insert_audit env db prev actor_type actor action target_type target node detail)"
  by (simp add: audit_ok_def insert_audit_def chain_from_snoc audit_hash_def)

lemma trim_last_hash:
  "digest_ok (ce_sha env) \<Longrightarrow> audit_ok env db \<Longrightarrow> trim (last_hash_of [] (t_audit db)) = last_hash_of [] (t_audit db)"
proof (cases "t_audit db = []")
  case False
  assume "digest_ok (ce_sha env)" "audit_ok env db"
  with False chain_last_hash digest_trim show ?thesis unfolding audit_ok_def by metis
qed (simp add: trim_graph)

lemma audit_writers_ok:
  assumes "audit_ok env db"
  shows "audit_ok env (audit_event env db action target_type target node detail)"
    "audit_ok env (append_tag_audit env db actor_type actor action target_type target node detail_json)"
    "audit_ok env (audit_on env db action node_id detail_json)"
    "digest_ok (ce_sha env) \<Longrightarrow> audit_ok env (append_audit_as env db actor_type actor action target node detail_json)"
    "digest_ok (ce_sha env) \<Longrightarrow> audit_ok env (append_skill_audit env db action target node detail_json)"
    "digest_ok (ce_sha env) \<Longrightarrow> audit_ok env (append_node_audit env db node_id action target detail_json)"
  using assms by (simp_all add: audit_writers insert_audit_ok trim_last_hash)

subsection \<open>Changes of the log are evident\<close>

definition event_of :: "audit_row \<Rightarrow> str \<times> str \<times> str" where
  "event_of r = (au_action r, au_target r, au_detail r)"

text \<open>Actions are words of the program and a detail is compact JSON: neither has a line break.\<close>

definition plain_event :: "audit_row \<Rightarrow> bool" where
  "plain_event r = (newline \<notin> set (au_action r) \<and> newline \<notin> set (au_detail r))"

fun materials :: "str \<Rightarrow> audit_row list \<Rightarrow> str list" where
  "materials prev [] = []"
| "materials prev (r # rs) = audit_material prev (au_action r) (au_target r) (au_detail r) # materials (au_hash r) rs"

lemma materials_snoc:
  "materials prev (rs @ [r]) = materials prev rs @ [audit_material (last_hash_of prev rs) (au_action r) (au_target r) (au_detail r)]"
  by (induction rs arbitrary: prev) (auto simp: last_hash_of_Cons)

lemma first_separator:
  fixes c :: char
  assumes "c \<notin> set p" "c \<notin> set q"
  shows "p @ c # x = q @ c # y \<longleftrightarrow> p = q \<and> x = y"
proof
  assume "p @ c # x = q @ c # y"
  then have "Some (p, x) = Some (q, y)"
    by (metis assms split_once_append)
  then show "p = q \<and> x = y" by simp
qed auto

lemma last_separator:
  fixes c :: char
  assumes "c \<notin> set x" "c \<notin> set y"
  shows "p @ c # x = q @ c # y \<longleftrightarrow> p = q \<and> x = y"
proof
  assume "p @ c # x = q @ c # y"
  then have "Some (p, x) = Some (q, y)"
    by (metis assms rsplit_once_append)
  then show "p = q \<and> x = y" by simp
qed auto

lemma audit_material_inject:
  assumes "newline \<notin> set p" "newline \<notin> set p'" "newline \<notin> set a" "newline \<notin> set a'"
    "newline \<notin> set d" "newline \<notin> set d'"
  shows "audit_material p a t d = audit_material p' a' t' d' \<longleftrightarrow> p = p' \<and> a = a' \<and> t = t' \<and> d = d'"
  using assms by (simp add: audit_material_def first_separator last_separator)


definition sample_log :: "audit_row list" where
  "sample_log = t_audit (audit_on (sample_cenv 0) (audit_on (sample_cenv 0) empty_db ''tag.set'' ''n'' ''{}'')
     ''tag.removed'' ''n'' ''{}'')"

lemma sample_digest: "digest_ok (ce_sha (sample_cenv now))"
  by (simp add: digest_ok_def sample_cenv_def is_graph_def list_all_iff)


text \<open>The columns beside action, target and detail are not part of what is hashed.\<close>

lemma unhashed_columns:
  "chain_from sha prev (map (\<lambda>r. r\<lparr>au_actor := f r, au_node := g r, au_at := h r\<rparr>) rows) = chain_from sha prev rows"
  by (induction rows arbitrary: prev) auto

subsection \<open>Concurrent writers\<close>

text \<open>
  A writer is a transaction that reads the last hash of the committed log and commits a row that
  refers to it. The log, the owner of the lock on \<open>license_state\<close>, and what each writer has read.
\<close>

record race =
  ra_log :: "audit_row list"
  ra_lock :: "nat option"
  ra_read :: "nat \<rightharpoonup> str"

definition row_after :: "(str \<Rightarrow> str) \<Rightarrow> str \<Rightarrow> audit_row \<Rightarrow> audit_row" where
  "row_after sha prev r =
     r\<lparr>au_prev := stored_prev prev, au_hash := sha (audit_material prev (au_action r) (au_target r) (au_detail r))\<rparr>"

definition commit_row :: "(str \<Rightarrow> str) \<Rightarrow> nat \<Rightarrow> str \<Rightarrow> audit_row \<Rightarrow> race \<Rightarrow> race" where
  "commit_row sha i prev r s =
     s\<lparr>ra_log := ra_log s @ [row_after sha prev r], ra_read := (ra_read s)(i := None)\<rparr>"

text \<open>\<open>targets.rs\<close>: \<open>lock_chain\<close> comes before the last hash is read, the commit releases the lock.\<close>

inductive locked_step :: "(str \<Rightarrow> str) \<Rightarrow> race \<Rightarrow> race \<Rightarrow> bool" for sha where
  lock: "ra_lock s = None \<Longrightarrow> locked_step sha s (s\<lparr>ra_lock := Some i\<rparr>)"
| read: "ra_lock s = Some i \<Longrightarrow>
    locked_step sha s (s\<lparr>ra_read := (ra_read s)(i \<mapsto> last_hash_of [] (ra_log s))\<rparr>)"
| commit: "ra_lock s = Some i \<Longrightarrow> ra_read s i = Some prev \<Longrightarrow>
    locked_step sha s ((commit_row sha i prev r s)\<lparr>ra_lock := None\<rparr>)"
| abort: "ra_lock s = Some i \<Longrightarrow> locked_step sha s (s\<lparr>ra_lock := None, ra_read := (ra_read s)(i := None)\<rparr>)"

text \<open>\<open>tags.rs\<close>: \<open>append_audit\<close> and \<open>audit_on\<close> take no lock on the chain.\<close>

inductive unlocked_step :: "(str \<Rightarrow> str) \<Rightarrow> race \<Rightarrow> race \<Rightarrow> bool" for sha where
  read: "unlocked_step sha s (s\<lparr>ra_read := (ra_read s)(i \<mapsto> last_hash_of [] (ra_log s))\<rparr>)"
| commit: "ra_read s i = Some prev \<Longrightarrow> unlocked_step sha s (commit_row sha i prev r s)"

definition idle :: race where
  "idle = \<lparr>ra_log = [], ra_lock = None, ra_read = Map.empty\<rparr>"

definition race_ok :: "(str \<Rightarrow> str) \<Rightarrow> race \<Rightarrow> bool" where
  "race_ok sha s =
     (chain_from sha [] (ra_log s)
      \<and> (\<forall>i prev. ra_read s i = Some prev \<longrightarrow> ra_lock s = Some i \<and> prev = last_hash_of [] (ra_log s)))"

lemma locked_step_ok: "locked_step sha s s' \<Longrightarrow> race_ok sha s \<Longrightarrow> race_ok sha s'"
proof (induction rule: locked_step.induct)
  case (lock s i)
  then show ?case by (auto simp: race_ok_def)
next
  case (read s i)
  then show ?case by (auto simp: race_ok_def)
next
  case (commit s i prev r)
  have c: "chain_from sha [] (ra_log s)"
    and all: "\<forall>j p. ra_read s j = Some p \<longrightarrow> ra_lock s = Some j \<and> p = last_hash_of [] (ra_log s)"
    using commit.prems unfolding race_ok_def by blast+
  have p: "prev = last_hash_of [] (ra_log s)" using all commit.hyps(2) by blast
  have o: "ra_read s j = None" if "j \<noteq> i" for j
    using all commit.hyps(1) that by (metis not_None_eq option.inject)
  have "chain_from sha [] (ra_log s @ [row_after sha prev r])"
    unfolding chain_from_snoc row_after_def using c p by simp
  then show ?case using o by (simp add: race_ok_def commit_row_def)
next
  case (abort s i)
  have c: "chain_from sha [] (ra_log s)"
    and all: "\<forall>j p. ra_read s j = Some p \<longrightarrow> ra_lock s = Some j \<and> p = last_hash_of [] (ra_log s)"
    using abort.prems unfolding race_ok_def by blast+
  have "ra_read s j = None" if "j \<noteq> i" for j
    using all abort.hyps that by (metis not_None_eq option.inject)
  with c show ?case by (simp add: race_ok_def)
qed



text \<open>
  C30. Writers that do not take the lock fork the chain: two of them that read before either commits
  leave two rows with the same predecessor, and the log is no chain any more.
\<close>

theorem unlocked_writers_fork:
  assumes "\<forall>x. sha x \<noteq> []"
  shows "\<exists>s. (unlocked_step sha)\<^sup>*\<^sup>* idle s \<and> map (\<lambda>r. (au_action r, au_prev r)) (ra_log s) = [(a, None), (b, None)]
     \<and> \<not> chain_from sha [] (ra_log s)"
proof -
  let ?r = "\<lambda>x. \<lparr>au_at = 0, au_actor_type = [], au_actor = [], au_action = x, au_target_type = [], au_target = [],
    au_node = None, au_detail = [], au_prev = None, au_hash = []\<rparr>"
  let ?s1 = "idle\<lparr>ra_read := [0 \<mapsto> []]\<rparr>"
  let ?s2 = "idle\<lparr>ra_read := [0 \<mapsto> [], 1 \<mapsto> []]\<rparr>"
  let ?s3 = "commit_row sha 0 [] (?r a) ?s2"
  let ?s4 = "commit_row sha 1 [] (?r b) ?s3"
  have "unlocked_step sha idle ?s1" using unlocked_step.read [of sha idle 0] by (simp add: idle_def)
  moreover have "unlocked_step sha ?s1 ?s2" using unlocked_step.read [of sha ?s1 1] by (simp add: idle_def)
  moreover have "unlocked_step sha ?s2 ?s3" by (rule unlocked_step.commit) simp
  moreover have "unlocked_step sha ?s3 ?s4" by (rule unlocked_step.commit) (simp add: commit_row_def)
  ultimately have run: "(unlocked_step sha)\<^sup>*\<^sup>* idle ?s4"
    by (meson converse_rtranclp_into_rtranclp rtranclp.rtrancl_refl)
  have two: "map (\<lambda>r. (au_action r, au_prev r)) (ra_log ?s4) = [(a, None), (b, None)]"
    by (simp add: commit_row_def idle_def row_after_def stored_prev_def)
  have broken: "\<not> chain_from sha [] (ra_log ?s4)"
    using assms by (simp add: commit_row_def idle_def row_after_def stored_prev_def)
  show ?thesis by (rule exI [of _ ?s4]) (intro conjI run two broken)
qed

lemma unlocked_writers_fork_witness:
  "\<exists>s. (unlocked_step (Cons CHR ''#''))\<^sup>*\<^sup>* idle s
     \<and> map (\<lambda>r. (au_action r, au_prev r)) (ra_log s) = [(''tag.set'', None), (''tag.removed'', None)]
     \<and> \<not> chain_from (Cons CHR ''#'') [] (ra_log s)"
  by (rule unlocked_writers_fork) simp

end
