(* ===== verification/Hub.thy ===== *)
theory Hub
  imports Rust_Str
begin

text \<open>
  \<open>crates/novbot-center/src/hub.rs\<close>: the live sessions of nodes, the ABI each node advertised, and the
  tickets for fetching a package. A channel to a session is a number; whether it still has a
  receiver is the argument \<open>alive\<close>. \<open>Instant\<close> is a number of milliseconds, and the fresh ticket of
  \<open>issue_ticket\<close> an argument. The locks of the code make each operation one step.
\<close>

subsection \<open>State\<close>

record ticket_rec =
  tk_node :: str
  tk_sha :: str
  tk_expires :: nat

record hub =
  hb_inner :: "str \<rightharpoonup> nat"
  hb_abi :: "str \<rightharpoonup> str"
  hb_tickets :: "str \<rightharpoonup> ticket_rec"

definition hub_new :: hub where
  "hub_new = \<lparr>hb_inner = Map.empty, hb_abi = Map.empty, hb_tickets = Map.empty\<rparr>"

definition TICKET_TTL :: nat where "TICKET_TTL = 15 * 60 * 1000"

subsection \<open>Sessions\<close>

definition hub_register :: "hub \<Rightarrow> str \<Rightarrow> nat \<Rightarrow> hub" where
  "hub_register h node_id tx = h\<lparr>hb_inner := (hb_inner h)(node_id \<mapsto> tx)\<rparr>"

definition hub_unregister :: "hub \<Rightarrow> str \<Rightarrow> nat \<Rightarrow> hub" where
  "hub_unregister h node_id tx =
     (case hb_inner h node_id of
        Some existing \<Rightarrow> if existing = tx then h\<lparr>hb_inner := (hb_inner h)(node_id := None)\<rparr> else h
      | None \<Rightarrow> h)"

definition hub_evict :: "hub \<Rightarrow> str \<Rightarrow> hub" where
  "hub_evict h node_id = h\<lparr>hb_inner := (hb_inner h)(node_id := None)\<rparr>"

definition is_connected :: "hub \<Rightarrow> str \<Rightarrow> bool" where
  "is_connected h node_id = (hb_inner h node_id \<noteq> None)"

text \<open>The channel a message is put on, if it is delivered.\<close>

definition hub_send :: "hub \<Rightarrow> (nat \<Rightarrow> bool) \<Rightarrow> str \<Rightarrow> nat option" where
  "hub_send h alive node_id =
     (case hb_inner h node_id of Some tx \<Rightarrow> if alive tx then Some tx else None | None \<Rightarrow> None)"

definition note_abi :: "hub \<Rightarrow> str \<Rightarrow> str \<Rightarrow> hub" where
  "note_abi h node_id abi = h\<lparr>hb_abi := (hb_abi h)(node_id \<mapsto> abi)\<rparr>"

definition skill_abi :: "hub \<Rightarrow> str \<Rightarrow> str option" where
  "skill_abi h node_id = hb_abi h node_id"

subsection \<open>Tickets\<close>

definition norm_sha :: "str \<Rightarrow> str" where
  "norm_sha sha = to_ascii_lowercase (trim sha)"

definition issue_ticket_ttl :: "nat \<Rightarrow> str \<Rightarrow> hub \<Rightarrow> str \<Rightarrow> str \<Rightarrow> nat \<Rightarrow> hub" where
  "issue_ticket_ttl now ticket h node_id sha ttl =
     (let live = (\<lambda>t. case hb_tickets h t of Some r \<Rightarrow> if tk_expires r > now then Some r else None | None \<Rightarrow> None)
      in h\<lparr>hb_tickets := live(ticket \<mapsto>
            \<lparr>tk_node = node_id, tk_sha = norm_sha sha, tk_expires = now + ttl\<rparr>)\<rparr>)"

definition issue_ticket :: "nat \<Rightarrow> str \<Rightarrow> hub \<Rightarrow> str \<Rightarrow> str \<Rightarrow> hub" where
  "issue_ticket now ticket h node_id sha = issue_ticket_ttl now ticket h node_id sha TICKET_TTL"

definition check_ticket :: "nat \<Rightarrow> hub \<Rightarrow> str \<Rightarrow> str \<Rightarrow> str \<Rightarrow> hub \<times> (unit, str) result" where
  "check_ticket now h ticket node_id sha =
     (case hb_tickets h ticket of
        None \<Rightarrow> (h, Err ''bad'')
      | Some r \<Rightarrow>
          if now \<ge> tk_expires r then (h\<lparr>hb_tickets := (hb_tickets h)(ticket := None)\<rparr>, Err ''expired'')
          else if tk_node r \<noteq> node_id \<or> tk_sha r \<noteq> norm_sha sha then (h, Err ''mismatch'')
          else (h, Ok ()))"

subsection \<open>A session only removes itself\<close>

lemma unregister_other:
  "hb_inner h node_id \<noteq> Some tx \<Longrightarrow> hub_unregister h node_id tx = h"
  by (auto simp: hub_unregister_def split: option.splits)

lemma unregister_after_reconnect:
  "hb_inner (hub_unregister (hub_register h node_id tx2) node_id tx1) node_id =
     (if tx1 = tx2 then None else Some tx2)"
  by (simp add: hub_unregister_def hub_register_def)

subsection \<open>What a ticket opens\<close>

datatype ticket_event =
    TIssue nat str str str nat
  | TCheck nat str str str

fun ticket_time :: "ticket_event \<Rightarrow> nat" where
  "ticket_time (TIssue now _ _ _ _) = now"
| "ticket_time (TCheck now _ _ _) = now"

fun ticket_step :: "hub \<Rightarrow> ticket_event \<Rightarrow> hub" where
  "ticket_step h (TIssue now t n s ttl) = issue_ticket_ttl now t h n s ttl"
| "ticket_step h (TCheck now t n s) = fst (check_ticket now h t n s)"

definition ticket_run :: "ticket_event list \<Rightarrow> hub" where
  "ticket_run events = foldl ticket_step hub_new events"

fun issued :: "ticket_event list \<Rightarrow> str list" where
  "issued [] = []"
| "issued (TIssue now t n s ttl # es) = t # issued es"
| "issued (TCheck now t n s # es) = issued es"

lemma issued_append [simp]: "issued (xs @ ys) = issued xs @ issued ys"
  by (induction xs rule: issued.induct) auto

lemma issued_iff: "t \<in> set (issued es) \<longleftrightarrow> (\<exists>now n s ttl. TIssue now t n s ttl \<in> set es)"
  by (induction es rule: issued.induct) auto

text \<open>Every live record stems from an issue, and no issue is forgotten before it expires.\<close>

lemma ticket_run_sound:
  "hb_tickets (ticket_run es) t = Some r \<Longrightarrow>
   \<exists>t0 s0 ttl. TIssue t0 t (tk_node r) s0 ttl \<in> set es \<and> tk_sha r = norm_sha s0 \<and> tk_expires r = t0 + ttl"
proof (induction es arbitrary: r rule: rev_induct)
  case Nil
  then show ?case by (simp add: ticket_run_def hub_new_def)
next
  case (snoc e es)
  have old: "hb_tickets (ticket_run es) t = Some r \<Longrightarrow> ?case" using snoc.IH by fastforce
  show ?case
  proof (cases e)
    case (TIssue now t' n s ttl)
    then show ?thesis using snoc.prems old
      by (fastforce simp: ticket_run_def issue_ticket_ttl_def Let_def split: if_splits option.splits)
  next
    case (TCheck now t' n s)
    then show ?thesis using snoc.prems old
      by (auto simp: ticket_run_def check_ticket_def split: if_splits option.splits)
  qed
qed

lemma ticket_run_complete:
  "TIssue t0 t n s ttl \<in> set es \<Longrightarrow> distinct (issued es) \<Longrightarrow> \<forall>e \<in> set es. ticket_time e < t0 + ttl \<Longrightarrow>
   hb_tickets (ticket_run es) t = Some \<lparr>tk_node = n, tk_sha = norm_sha s, tk_expires = t0 + ttl\<rparr>"
proof (induction es rule: rev_induct)
  case (snoc e es)
  show ?case
  proof (cases "e = TIssue t0 t n s ttl")
    case True
    then show ?thesis by (simp add: ticket_run_def issue_ticket_ttl_def Let_def)
  next
    case False
    with snoc.prems have "TIssue t0 t n s ttl \<in> set es" by auto
    moreover from snoc.prems have d: "distinct (issued es)" by simp
    ultimately have r: "hb_tickets (ticket_run es) t = Some \<lparr>tk_node = n, tk_sha = norm_sha s, tk_expires = t0 + ttl\<rparr>"
      using snoc.IH snoc.prems(3) by simp
    show ?thesis
    proof (cases e)
      case (TIssue now t' n' s' ttl')
      then have "t' \<noteq> t" using snoc.prems(2) \<open>TIssue t0 t n s ttl \<in> set es\<close> issued_iff by fastforce
      then show ?thesis using TIssue r snoc.prems(3)
        by (simp add: ticket_run_def issue_ticket_ttl_def Let_def)
    next
      case (TCheck now t' n' s')
      then show ?thesis using r snoc.prems(3)
        by (auto simp: ticket_run_def check_ticket_def split: option.splits)
    qed
  qed
qed simp

text \<open>
  C28. A ticket opens exactly one package for exactly one node: whatever tickets were issued and checked
  before, a check succeeds if and only if this ticket was issued for this node and this hash, up to
  case and surrounding white space, and its life time has not passed.
\<close>

theorem ticket_opens_exactly:
  assumes "distinct (issued es)" "\<forall>e \<in> set es. ticket_time e \<le> now"
  shows "snd (check_ticket now (ticket_run es) t n s) = Ok () \<longleftrightarrow>
    (\<exists>t0 s0 ttl. TIssue t0 t n s0 ttl \<in> set es \<and> norm_sha s0 = norm_sha s \<and> now < t0 + ttl)"
proof
  assume "snd (check_ticket now (ticket_run es) t n s) = Ok ()"
  then obtain r where r: "hb_tickets (ticket_run es) t = Some r" "now < tk_expires r" "tk_node r = n" "tk_sha r = norm_sha s"
    by (auto simp: check_ticket_def split: option.splits if_splits)
  from ticket_run_sound [OF r(1)] r(2-) show "\<exists>t0 s0 ttl. TIssue t0 t n s0 ttl \<in> set es \<and> norm_sha s0 = norm_sha s \<and> now < t0 + ttl"
    by metis
next
  assume "\<exists>t0 s0 ttl. TIssue t0 t n s0 ttl \<in> set es \<and> norm_sha s0 = norm_sha s \<and> now < t0 + ttl"
  then obtain t0 s0 ttl where i: "TIssue t0 t n s0 ttl \<in> set es" "norm_sha s0 = norm_sha s" "now < t0 + ttl" by blast
  have "\<forall>e \<in> set es. ticket_time e < t0 + ttl" using assms(2) i(3) by fastforce
  from ticket_run_complete [OF i(1) assms(1) this] i(2,3) show "snd (check_ticket now (ticket_run es) t n s) = Ok ()"
    by (simp add: check_ticket_def)
qed

lemma ticket_opens_exactly_witness:
  "snd (check_ticket 20 (ticket_run [TIssue 5 ''t1'' ''node-a'' ''ABC'' 100, TCheck 6 ''t1'' ''node-b'' ''abc'']) ''t1'' ''node-a'' ''abc '')
     = Ok ()"
proof -
  have e: "distinct (issued [TIssue 5 ''t1'' ''node-a'' ''ABC'' 100, TCheck 6 ''t1'' ''node-b'' ''abc''])"
    "\<forall>e \<in> set [TIssue 5 ''t1'' ''node-a'' ''ABC'' 100, TCheck 6 ''t1'' ''node-b'' ''abc'']. ticket_time e \<le> 20"
    by simp_all
  have "norm_sha ''ABC'' = norm_sha ''abc ''" by code_simp
  then show ?thesis unfolding ticket_opens_exactly [OF e] by auto
qed

end
