(* ===== verification/Targets.thy ===== *)
theory Targets
  imports Audit_Log Hub Selector
begin

text \<open>
  \<open>crates/novbot-center/src/targets.rs\<close>, first half: resolving a target, a selector or a list of
  node ids, against the inventory, the checks of a submission with the guard for production nodes,
  the frozen resolution, and dispatching a spec to the nodes of a target. JSON columns that only
  this module writes and reads are their values. A handler returns the new database and its result.
\<close>

subsection \<open>Requests and errors\<close>

definition MAX_TARGETS :: nat where "MAX_TARGETS = 5000"

datatype target_error =
    Invalid str
  | SelectorInvalid selector_error
  | UnknownNodes "str list"
  | Changed "str list" "str list"
  | NoTargets
  | TooMany
  | ProdUnconfirmed "str list" nat
  | Timing str
  | ScheduleUnknown
  | OperationUnknown
  | TargetInternal str

record target_body =
  tb_selector :: "str option"
  tb_node_ids :: "str list option"
  tb_exclude :: "str list"
  tb_expected :: "str list option"

record node_hit =
  nh_id :: str
  nh_hostname :: str
  nh_online :: bool
  nh_registered :: bool
  nh_prod :: bool
  nh_tags :: "str \<rightharpoonup> str"

record frozen =
  fz_selector :: "str option"
  fz_picked :: "str list option"
  fz_excluded :: "str list"
  fz_node_ids :: "str list"
  fz_nodes :: "node_hit list"
  fz_prod :: "str list"
  fz_sha :: str
  fz_at :: nat
  fz_prod_confirmed :: bool

record resolution_view =
  rv_id :: "str option"
  rv_selector :: "str option"
  rv_at :: nat
  rv_node_ids :: "str list"
  rv_excluded :: "str list"
  rv_nodes :: "node_hit list"
  rv_count :: nat
  rv_offline :: nat
  rv_prod :: "str list"
  rv_prod_count :: nat
  rv_sha :: str

definition frozen_view :: "frozen \<Rightarrow> resolution_view" where
  "frozen_view f =
     \<lparr>rv_id = None, rv_selector = fz_selector f, rv_at = fz_at f, rv_node_ids = fz_node_ids f,
      rv_excluded = fz_excluded f, rv_nodes = fz_nodes f, rv_count = length (fz_node_ids f),
      rv_offline = length (filter (\<lambda>n. \<not> nh_online n) (fz_nodes f)), rv_prod = fz_prod f,
      rv_prod_count = length (fz_prod f), rv_sha = fz_sha f\<rparr>"

record inventory_node =
  iv_id :: str
  iv_hostname :: str
  iv_version :: str
  iv_last_seen :: "nat option"
  iv_tags :: "str \<rightharpoonup> str"
  iv_prod :: bool

datatype target_mode = BySelector selector_parse | ByNodes "str list"

record parsed_target =
  pt_mode :: target_mode
  pt_selector :: "str option"
  pt_picked :: "str list option"
  pt_excluded :: "str list"
  pt_expected :: "str list option"

subsection \<open>Parsing a target\<close>

definition has_mode :: "target_body \<Rightarrow> bool" where
  "has_mode t =
     ((case tb_selector t of Some v \<Rightarrow> trim v \<noteq> [] | None \<Rightarrow> False) \<or> tb_node_ids t \<noteq> None)"

definition one_of_message :: str where
  "one_of_message = ''target must set exactly one of selector or node_ids''"

definition coalesce_target :: "target_body option \<Rightarrow> str list \<Rightarrow> (target_body, target_error) result" where
  "coalesce_target target node_ids =
     (if (case target of Some t \<Rightarrow> has_mode t | None \<Rightarrow> False) then Ok (the target)
      else if list_ex (\<lambda>i. trim i \<noteq> []) node_ids
      then Ok \<lparr>tb_selector = None, tb_node_ids = Some node_ids, tb_exclude = [], tb_expected = None\<rparr>
      else Err (Invalid one_of_message))"

definition sorted_unique :: "str list \<Rightarrow> str list" where
  "sorted_unique ids = sort_dedup (filter (\<lambda>i. i \<noteq> []) (map trim ids))"

definition parse_target :: "target_body \<Rightarrow> (parsed_target, target_error) result" where
  "parse_target body =
     (let sel = (case tb_selector body of
            Some v \<Rightarrow> (let t = trim v in if t = [] then None else Some t) | None \<Rightarrow> None);
          excluded = sorted_unique (tb_exclude body);
          expected = map_option sorted_unique (tb_expected body)
      in case (sel, tb_node_ids body) of
           (Some raw, None) \<Rightarrow>
             (case parse_selector raw of
                Inl e \<Rightarrow> Err (SelectorInvalid e)
              | Inr Empty \<Rightarrow> Err (Invalid one_of_message)
              | Inr All \<Rightarrow> Ok \<lparr>pt_mode = BySelector All, pt_selector = Some ''*'', pt_picked = None,
                    pt_excluded = excluded, pt_expected = expected\<rparr>
              | Inr (Filter s) \<Rightarrow> Ok \<lparr>pt_mode = BySelector (Filter s), pt_selector = Some (canonical s),
                    pt_picked = None, pt_excluded = excluded, pt_expected = expected\<rparr>)
         | (None, Some ids0) \<Rightarrow>
             (let ids = sorted_unique ids0
              in Ok \<lparr>pt_mode = ByNodes ids, pt_selector = None, pt_picked = Some ids,
                    pt_excluded = excluded, pt_expected = expected\<rparr>)
         | _ \<Rightarrow> Err (Invalid one_of_message))"

definition diff_ids :: "str list \<Rightarrow> str list \<Rightarrow> str list \<times> str list" where
  "diff_ids expected live =
     (filter (\<lambda>i. i \<notin> set expected) live, filter (\<lambda>i. i \<notin> set live) expected)"

definition ensure_size :: "nat \<Rightarrow> (unit, target_error) result" where
  "ensure_size n = (if n > MAX_TARGETS then Err TooMany else Ok ())"

definition sha_of :: "cenv \<Rightarrow> str list \<Rightarrow> str" where
  "sha_of env node_ids = ce_sha env (ce_print env (JArr (map JStr node_ids)))"

subsection \<open>The inventory\<close>

definition registered_node :: "str \<Rightarrow> nat option \<Rightarrow> bool" where
  "registered_node version last_seen =
     (if last_seen \<noteq> None then True else version \<noteq> [] \<and> version \<noteq> ''http-admin'')"

definition declared_prod :: "tag_row \<Rightarrow> bool" where
  "declared_prod t =
     (tg_source t = ''node'' \<and> \<not> tg_valid t \<and> eq_ignore_ascii_case (tg_key t) ''env''
      \<and> eq_ignore_ascii_case (tg_value t) ''prod'')"

definition inventory_tags :: "tag_row list \<Rightarrow> str \<Rightarrow> str \<rightharpoonup> str" where
  "inventory_tags ts node_id =
     foldl (\<lambda>m t. m(tg_key t \<mapsto> tg_value t)) Map.empty (filter (\<lambda>t. tg_node t = node_id) (node_tags_effective ts))"

definition load_inventory :: "db \<Rightarrow> inventory_node list" where
  "load_inventory db =
     map (\<lambda>n. (let tags = inventory_tags (t_tags db) (nd_id n) in
         \<lparr>iv_id = nd_id n, iv_hostname = nd_hostname n, iv_version = nd_version n, iv_last_seen = nd_last_seen n,
          iv_tags = tags,
          iv_prod = (tags ''env'' = Some ''prod'' \<or> list_ex (\<lambda>t. declared_prod t \<and> tg_node t = nd_id n) (t_tags db))\<rparr>))
       (sort_key nd_id (t_nodes db))"

definition hits :: "inventory_node list \<Rightarrow> hub \<Rightarrow> node_hit list" where
  "hits nodes h =
     map (\<lambda>n. \<lparr>nh_id = iv_id n, nh_hostname = iv_hostname n, nh_online = is_connected h (iv_id n),
               nh_registered = registered_node (iv_version n) (iv_last_seen n), nh_prod = iv_prod n,
               nh_tags = iv_tags n\<rparr>) nodes"

definition by_id :: "inventory_node list \<Rightarrow> str \<rightharpoonup> inventory_node" where
  "by_id inventory = foldl (\<lambda>m n. m(iv_id n \<mapsto> n)) Map.empty inventory"

text \<open>\<open>Vec::dedup_by\<close> keeps the first of a run of equal elements.\<close>

fun dedup_key :: "('a \<Rightarrow> 'b) \<Rightarrow> 'a list \<Rightarrow> 'a list" where
  "dedup_key f [] = []"
| "dedup_key f [x] = [x]"
| "dedup_key f (x # y # xs) = (if f x = f y then dedup_key f (x # xs) else x # dedup_key f (y # xs))"

definition pick_nodes ::
    "inventory_node list \<Rightarrow> str list \<Rightarrow> str list \<Rightarrow> str list \<times> inventory_node list" where
  "pick_nodes inventory excluded ids =
     (filter (\<lambda>i. by_id inventory i = None) ids,
      List.map_filter (\<lambda>i. case by_id inventory i of
          Some n \<Rightarrow> if i \<notin> set excluded then Some n else None | None \<Rightarrow> None) ids)"

definition resolve_parsed ::
    "inventory_node list \<Rightarrow> parsed_target \<Rightarrow> (inventory_node list, target_error) result" where
  "resolve_parsed inventory parsed =
     and_then
       (case pt_mode parsed of
          BySelector All \<Rightarrow> Ok (filter (\<lambda>n. iv_id n \<notin> set (pt_excluded parsed)) inventory)
        | BySelector (Filter s) \<Rightarrow>
            Ok (filter (\<lambda>n. iv_id n \<notin> set (pt_excluded parsed) \<and> selector_matches s (iv_tags n)) inventory)
        | BySelector Empty \<Rightarrow> Err (Invalid one_of_message)
        | ByNodes ids \<Rightarrow>
            (let (unknown, out) = pick_nodes inventory (pt_excluded parsed) ids
             in if unknown \<noteq> [] then Err (UnknownNodes (sort unknown)) else Ok out))
       (\<lambda>matched. Ok (dedup_key iv_id (sort_key iv_id matched)))"

subsection \<open>Freezing and submitting\<close>

definition freeze ::
    "cenv \<Rightarrow> parsed_target \<Rightarrow> inventory_node list \<Rightarrow> hub \<Rightarrow> nat option \<Rightarrow> frozen" where
  "freeze env parsed matched h confirm =
     (let nodes = hits matched h;
          node_ids = map nh_id nodes;
          prods = map nh_id (filter nh_prod nodes)
      in \<lparr>fz_selector = pt_selector parsed, fz_picked = pt_picked parsed, fz_excluded = pt_excluded parsed,
          fz_node_ids = node_ids, fz_nodes = nodes, fz_prod = prods, fz_sha = sha_of env node_ids,
          fz_at = ce_now env, fz_prod_confirmed = (prods \<noteq> [] \<and> confirm = Some (length prods))\<rparr>)"

definition preview :: "cenv \<Rightarrow> db \<Rightarrow> hub \<Rightarrow> target_body \<Rightarrow> (resolution_view, target_error) result" where
  "preview env db h target =
     and_then (parse_target target) (\<lambda>parsed.
     and_then (resolve_parsed (load_inventory db) parsed) (\<lambda>matched.
     and_then (ensure_size (length matched)) (\<lambda>_.
       Ok (frozen_view (freeze env parsed matched h None)))))"

definition refuse :: "cenv \<Rightarrow> db \<Rightarrow> str \<Rightarrow> str \<Rightarrow> str \<Rightarrow> str option \<Rightarrow> str list \<Rightarrow> db" where
  "refuse env db kind target_id code sel prods =
     audit_event env db ''target.refused'' kind target_id None
       (JObj [(''code'', JStr code), (''selector'', jopt JStr sel), (''prod_node_ids'', JArr (map JStr prods))])"

definition check_submit ::
    "cenv \<Rightarrow> db \<Rightarrow> hub \<Rightarrow> target_body \<Rightarrow> nat option \<Rightarrow> str \<Rightarrow> str \<Rightarrow> db \<times> (frozen, target_error) result" where
  "check_submit env db h target confirm kind target_id =
     (case parse_target target of
        Inl e \<Rightarrow> (db, Err e)
      | Inr parsed \<Rightarrow>
          (case resolve_parsed (load_inventory db) parsed of
             Inl e \<Rightarrow> (db, Err e)
           | Inr matched \<Rightarrow>
               (let f = freeze env parsed matched h confirm;
                    refused = (\<lambda>code. refuse env db kind target_id code (pt_selector parsed) (fz_prod f));
                    d = (case pt_expected parsed of Some ex \<Rightarrow> diff_ids ex (fz_node_ids f) | None \<Rightarrow> ([], []))
                in if fst d \<noteq> [] \<or> snd d \<noteq> []
                   then (refused ''target_changed'', Err (Changed (fst d) (snd d)))
                   else if fz_node_ids f = [] then (db, Err NoTargets)
                   else (case ensure_size (length (fz_node_ids f)) of
                           Inl e \<Rightarrow> (refused ''too_many_targets'', Err e)
                         | Inr _ \<Rightarrow>
                             if fz_prod f \<noteq> [] \<and> \<not> fz_prod_confirmed f
                             then (refused ''prod_confirmation_required'',
                                   Err (ProdUnconfirmed (fz_prod f) (length (fz_prod f))))
                             else (db, Ok f)))))"

definition prod_ids_among :: "db \<Rightarrow> str list \<Rightarrow> str list" where
  "prod_ids_among db node_ids =
     sort (map iv_id (filter (\<lambda>n. iv_prod n \<and> iv_id n \<in> set node_ids) (load_inventory db)))"

definition ensure_prod_confirm ::
    "cenv \<Rightarrow> db \<Rightarrow> str list \<Rightarrow> nat option \<Rightarrow> str \<Rightarrow> str \<Rightarrow> db \<times> (unit, target_error) result" where
  "ensure_prod_confirm env db node_ids confirm kind target_id =
     (let prods = prod_ids_among db node_ids in
      if prods = [] then (db, Ok ())
      else if confirm \<noteq> Some (length prods)
      then (refuse env db kind target_id ''prod_confirmation_required'' None prods,
            Err (ProdUnconfirmed prods (length prods)))
      else (db, Ok ()))"

definition insert_resolution ::
    "cenv \<Rightarrow> db \<Rightarrow> str \<Rightarrow> str \<Rightarrow> frozen \<Rightarrow> str option \<Rightarrow> str \<times> db" where
  "insert_resolution env db0 kind ref_id f supersedes =
     (let (rid, db) = new_uuid env db0;
          db' = db\<lparr>t_resolutions := t_resolutions db @
            [\<lparr>rr_id = rid, rr_kind = kind, rr_ref = ref_id, rr_selector = fz_selector f, rr_picked = fz_picked f,
              rr_excluded = fz_excluded f, rr_node_ids = fz_node_ids f, rr_prod = fz_prod f,
              rr_prod_confirmed = fz_prod_confirmed f, rr_sha = fz_sha f, rr_at = fz_at f,
              rr_supersedes = supersedes\<rparr>]\<rparr>
      in (rid, audit_event env db' ''target.resolved'' kind ref_id None (JObj
            [(''resolution_id'', JStr rid), (''selector'', jopt JStr (fz_selector f)),
             (''picked_node_ids'', jopt (\<lambda>xs. JArr (map JStr xs)) (fz_picked f)),
             (''excluded_node_ids'', JArr (map JStr (fz_excluded f))),
             (''node_ids'', JArr (map JStr (fz_node_ids f))), (''prod_node_ids'', JArr (map JStr (fz_prod f))),
             (''prod_confirmed'', JBool (fz_prod_confirmed f)), (''resolution_sha256'', JStr (fz_sha f))])))"

subsection \<open>Dispatching\<close>

record dispatch_request =
  dq_target :: target_body
  dq_spec_id :: str
  dq_params :: "json option"
  dq_confirm :: "nat option"

record dispatch_outcome =
  ou_operation :: str
  ou_resolution :: resolution_view
  ou_per_node :: "(str \<times> str \<times> str) list"
  ou_warnings :: "(str \<times> str) list"

text \<open>Inside the transaction: one row of the queue, one of the operation and one event per node.\<close>

fun plan_runs ::
    "cenv \<Rightarrow> str \<Rightarrow> str \<Rightarrow> str \<Rightarrow> str \<Rightarrow> str list \<Rightarrow> db \<Rightarrow> db \<times> (str \<times> str) list" where
  "plan_runs env op rid spec_id params_json [] db = (db, [])"
| "plan_runs env op rid spec_id params_json (node_id # ids) db =
     (let (run_id, db1) = new_uuid env db;
          db2 = insert_pending db1 node_id run_id spec_id params_json;
          db3 = db2\<lparr>t_runs := t_runs db2 @
            [\<lparr>dr_operation = op, dr_node = node_id, dr_run = run_id, dr_delivered = ''queued''\<rparr>]\<rparr>;
          db4 = audit_event env db3 ''dispatch.requested'' ''node'' node_id (Some node_id) (JObj
            [(''operation_id'', JStr op), (''resolution_id'', JStr rid), (''spec_id'', JStr spec_id),
             (''run_id'', JStr run_id)]);
          (db5, planned) = plan_runs env op rid spec_id params_json ids db4
      in (db5, (node_id, run_id) # planned))"

text \<open>After the commit: the nodes with a live session get the dispatch at once.\<close>

fun send_runs ::
    "cenv \<Rightarrow> hub \<Rightarrow> (nat \<Rightarrow> bool) \<Rightarrow> str \<Rightarrow> (str \<times> str) list \<Rightarrow> db
      \<Rightarrow> db \<times> (nat \<times> str) list \<times> (str \<times> str \<times> str) list" where
  "send_runs env h alive op [] db = (db, [], [])"
| "send_runs env h alive op ((node_id, run_id) # planned) db =
     (let live = hub_send h alive node_id;
          db1 = (if live = None then db
            else (let db' = mark_in_flight env db node_id run_id
              in db'\<lparr>t_runs := update_where (\<lambda>r. dr_operation r = op \<and> dr_node r = node_id)
                   (\<lambda>r. r\<lparr>dr_delivered := ''live''\<rparr>) (t_runs db')\<rparr>));
          (db2, sent, per_node) = send_runs env h alive op planned db1
      in (db2, (case live of Some tx \<Rightarrow> [(tx, run_id)] | None \<Rightarrow> []) @ sent,
          (node_id, run_id, if live = None then ''queued'' else ''live'') # per_node))"

definition spec_present :: "cenv \<Rightarrow> str \<Rightarrow> str \<Rightarrow> bool" where
  "spec_present env specs_json spec_id =
     (case ce_parse env specs_json of
        Some v \<Rightarrow> (case as_array v of
            Some specs \<Rightarrow> list_ex (\<lambda>s. (case json_get s ''id'' of Some x \<Rightarrow> as_str x | None \<Rightarrow> None) = Some spec_id) specs
          | None \<Rightarrow> False)
      | None \<Rightarrow> False)"

definition spec_warnings :: "cenv \<Rightarrow> db \<Rightarrow> str \<Rightarrow> str list \<Rightarrow> (str \<times> str) list" where
  "spec_warnings env db spec_id node_ids =
     map (\<lambda>n. (n, ''spec_missing''))
       (filter (\<lambda>n. \<not> (case get_config env db n of
            Some c \<Rightarrow> spec_present env (cf_specs c) spec_id | None \<Rightarrow> False)) node_ids)"

definition dispatch_target ::
    "cenv \<Rightarrow> db \<Rightarrow> hub \<Rightarrow> (nat \<Rightarrow> bool) \<Rightarrow> dispatch_request
      \<Rightarrow> db \<times> (nat \<times> str) list \<times> (dispatch_outcome, target_error) result" where
  "dispatch_target env db h alive body =
     (let spec_id = trim (dq_spec_id body) in
      if spec_id = [] then (db, [], Err (Invalid ''spec_id is required''))
      else (case check_submit env db h (dq_target body) (dq_confirm body) ''dispatch'' spec_id of
          (db', Inl e) \<Rightarrow> (db', [], Err e)
        | (db', Inr f) \<Rightarrow>
            (let params_json = ce_print env (unwrap_or (dq_params body) (JObj []));
                 (op, db1) = new_uuid env db';
                 (rid, db2) = insert_resolution env db1 ''dispatch'' op f None;
                 db3 = db2\<lparr>t_dispatches := t_dispatches db2 @
                   [\<lparr>do_id = op, do_spec = spec_id, do_params = params_json, do_resolution = rid, do_at = ce_now env\<rparr>]\<rparr>;
                 (db4, planned) = plan_runs env op rid spec_id params_json (fz_node_ids f) db3;
                 (db5, sent, per_node) = send_runs env h alive op planned db4
             in (db5, sent, Ok \<lparr>ou_operation = op, ou_resolution = (frozen_view f)\<lparr>rv_id := Some rid\<rparr>,
                  ou_per_node = per_node, ou_warnings = spec_warnings env db5 spec_id (fz_node_ids f)\<rparr>))))"

subsection \<open>Reading back\<close>

definition resolve_nodes_lenient :: "inventory_node list \<Rightarrow> str list \<Rightarrow> inventory_node list" where
  "resolve_nodes_lenient inventory live = List.map_filter (by_id inventory) live"

definition load_resolution_view :: "cenv \<Rightarrow> db \<Rightarrow> str \<Rightarrow> (resolution_view, target_error) result" where
  "load_resolution_view env db rid =
     (case row_at rr_id (t_resolutions db) rid of
        None \<Rightarrow> Err (TargetInternal ''resolution missing'')
      | Some r \<Rightarrow>
          (let parsed = \<lparr>pt_mode = ByNodes (rr_node_ids r), pt_selector = rr_selector r, pt_picked = None,
                 pt_excluded = rr_excluded r, pt_expected = None\<rparr>;
               view = frozen_view (freeze env parsed
                 (resolve_nodes_lenient (load_inventory db) (rr_node_ids r)) hub_new None)
           in Ok (view\<lparr>rv_id := Some (rr_id r),
                rv_selector := (case rr_selector r of Some s \<Rightarrow> if s = [] then None else Some s | None \<Rightarrow> None),
                rv_node_ids := rr_node_ids r, rv_excluded := rr_excluded r, rv_prod := rr_prod r,
                rv_prod_count := length (rr_prod r), rv_count := length (rr_node_ids r),
                rv_sha := rr_sha r, rv_at := rr_at r\<rparr>)))"

record dispatch_view =
  dv_id :: str
  dv_spec :: str
  dv_params :: json
  dv_resolution :: resolution_view
  dv_at :: nat
  dv_per_node :: "(str \<times> str \<times> str) list"

definition dispatch_operation_from_row :: "cenv \<Rightarrow> db \<Rightarrow> dispatch_row \<Rightarrow> (dispatch_view, target_error) result" where
  "dispatch_operation_from_row env db row =
     and_then (load_resolution_view env db (do_resolution row)) (\<lambda>view.
       Ok \<lparr>dv_id = do_id row, dv_spec = do_spec row,
           dv_params = unwrap_or (ce_parse env (do_params row)) (JObj []), dv_resolution = view, dv_at = do_at row,
           dv_per_node = map (\<lambda>r. (dr_node r, dr_run r, dr_delivered r))
             (sort_key dr_node (filter (\<lambda>r. dr_operation r = do_id row) (t_runs db)))\<rparr>)"

fun collect_ok :: "('a \<Rightarrow> ('b, 'e) result) \<Rightarrow> 'a list \<Rightarrow> ('b list, 'e) result" where
  "collect_ok f [] = Ok []"
| "collect_ok f (x # xs) = and_then (f x) (\<lambda>y. and_then (collect_ok f xs) (\<lambda>ys. Ok (y # ys)))"

definition list_dispatch_operations :: "cenv \<Rightarrow> db \<Rightarrow> (dispatch_view list, target_error) result" where
  "list_dispatch_operations env db =
     collect_ok (dispatch_operation_from_row env db) (take 100 (rev (sort_key do_at (t_dispatches db))))"

definition get_dispatch_operation :: "cenv \<Rightarrow> db \<Rightarrow> str \<Rightarrow> (dispatch_view, target_error) result" where
  "get_dispatch_operation env db op =
     (case row_at do_id (t_dispatches db) op of
        None \<Rightarrow> Err OperationUnknown
      | Some row \<Rightarrow> dispatch_operation_from_row env db row)"

end
