(* ===== verification/Targets_Correct.thy ===== *)
theory Targets_Correct
  imports Targets
begin

text \<open>
  What a submission promises: the frozen resolution is exactly the set of nodes the target names
  at that moment, production nodes are only reached with a confirmation of their number, a refusal
  leaves nothing but its audit event, and a dispatch queues one job per frozen node.
\<close>

subsection \<open>The inventory as a map\<close>

lemma by_id_iff:
  "distinct (map iv_id iy) \<Longrightarrow> by_id iy i = Some n \<longleftrightarrow> n \<in> set iy \<and> iv_id n = i"
  unfolding by_id_def by (induction iy rule: rev_induct) (auto simp: image_iff)

lemma by_id_None: "distinct (map iv_id iy) \<Longrightarrow> by_id iy i = None \<longleftrightarrow> i \<notin> iv_id ` set iy"
  using by_id_iff [of iy i] by (metis imageE image_eqI not_Some_eq)

lemma dedup_key_distinct: "distinct (map f xs) \<Longrightarrow> dedup_key f xs = xs"
  by (induction f xs rule: dedup_key.induct) auto

lemma map_filter_ids:
  "map iv_id (List.map_filter (\<lambda>i. case by_id iy i of Some n \<Rightarrow> if P i then Some n else None | None \<Rightarrow> None) ids)
     = filter (\<lambda>i. P i \<and> by_id iy i \<noteq> None) ids"
  if "distinct (map iv_id iy)"
proof -
  have "by_id iy i = Some n \<Longrightarrow> iv_id n = i" for i n using by_id_iff [OF that] by blast
  then show ?thesis
    by (induction ids) (auto simp: List.map_filter_simps split: option.splits)
qed

lemma map_filter_members:
  "n \<in> set (List.map_filter f xs) \<longleftrightarrow> (\<exists>x \<in> set xs. f x = Some n)"
  by (induction xs) (auto simp: List.map_filter_simps split: option.splits)

lemma load_inventory_ids: "map iv_id (load_inventory db) = map nd_id (sort_key nd_id (t_nodes db))"
  by (simp add: load_inventory_def Let_def comp_def)

lemma load_inventory_distinct: "distinct (map nd_id (t_nodes db)) \<Longrightarrow> distinct (map iv_id (load_inventory db))"
  by (simp only: load_inventory_ids) (metis distinct_map distinct_sort set_sort)

subsection \<open>Resolving\<close>

definition mode_matches :: "parsed_target \<Rightarrow> inventory_node \<Rightarrow> bool" where
  "mode_matches p n = (case pt_mode p of
       BySelector All \<Rightarrow> True | BySelector (Filter s) \<Rightarrow> selector_matches s (iv_tags n)
     | BySelector Empty \<Rightarrow> False | ByNodes ids \<Rightarrow> iv_id n \<in> set ids)"

definition mode_distinct :: "parsed_target \<Rightarrow> bool" where
  "mode_distinct p = (case pt_mode p of ByNodes ids \<Rightarrow> distinct ids | _ \<Rightarrow> True)"

lemma distinct_filter_key: "distinct (map f xs) \<Longrightarrow> distinct (map f (filter P xs))"
  by (rule distinct_map_filter)

lemma resolve_parsed_exact:
  assumes iy: "distinct (map iv_id iy)" and r: "resolve_parsed iy p = Ok ms" and d: "mode_distinct p"
  shows "set ms = {n \<in> set iy. iv_id n \<notin> set (pt_excluded p) \<and> mode_matches p n}"
    "sorted (map iv_id ms)" "distinct (map iv_id ms)"
proof -
  obtain xs where xs: "ms = dedup_key iv_id (sort_key iv_id xs)" "distinct (map iv_id xs)"
      "set xs = {n \<in> set iy. iv_id n \<notin> set (pt_excluded p) \<and> mode_matches p n}"
  proof (cases "pt_mode p")
    case (BySelector s)
    with r iy that show thesis
      by (cases s) (auto simp: resolve_parsed_def mode_matches_def distinct_filter_key)
  next
    case (ByNodes ids)
    define out where "out = List.map_filter (\<lambda>i. case by_id iy i of
        Some n \<Rightarrow> if i \<notin> set (pt_excluded p) then Some n else None | None \<Rightarrow> None) ids"
    from r ByNodes have m: "ms = dedup_key iv_id (sort_key iv_id out)"
      by (auto simp: resolve_parsed_def pick_nodes_def out_def split: if_splits)
    have "distinct (map iv_id out)"
      using d ByNodes unfolding out_def map_filter_ids [OF iy] by (simp add: mode_distinct_def)
    moreover have "set out = {n \<in> set iy. iv_id n \<notin> set (pt_excluded p) \<and> mode_matches p n}"
    proof -
      have "n \<in> set out \<longleftrightarrow> (\<exists>i \<in> set ids. by_id iy i = Some n \<and> i \<notin> set (pt_excluded p))" for n
        by (auto simp: out_def map_filter_members split: option.splits if_splits)
      then show ?thesis using ByNodes by (auto simp: by_id_iff [OF iy] mode_matches_def)
    qed
    ultimately show thesis using that m by blast
  qed
  have s: "distinct (map iv_id (sort_key iv_id xs))" using xs(2) by (metis distinct_map distinct_sort set_sort)
  with xs show "set ms = {n \<in> set iy. iv_id n \<notin> set (pt_excluded p) \<and> mode_matches p n}"
    "sorted (map iv_id ms)" "distinct (map iv_id ms)"
    by (simp_all add: dedup_key_distinct)
qed

text \<open>The specification: which nodes a target names.\<close>

definition named_ids :: "str list \<Rightarrow> str set" where
  "named_ids ids = {i. i \<in> trim ` set ids \<and> i \<noteq> []}"

definition wanted :: "target_body \<Rightarrow> inventory_node \<Rightarrow> bool" where
  "wanted t n = (iv_id n \<notin> named_ids (tb_exclude t) \<and>
     (case tb_node_ids t of
        Some ids \<Rightarrow> iv_id n \<in> named_ids ids
      | None \<Rightarrow> (case parse_selector (trim (unwrap_or (tb_selector t) [])) of
            Inr All \<Rightarrow> True | Inr (Filter s) \<Rightarrow> selector_matches s (iv_tags n) | _ \<Rightarrow> False)))"

lemma set_sorted_unique [simp]: "set (sorted_unique ids) = named_ids ids"
  by (auto simp: sorted_unique_def named_ids_def)

lemma sorted_unique_sorted [simp]: "sorted (sorted_unique ids)" "distinct (sorted_unique ids)"
  by (simp_all add: sorted_unique_def)

lemma parse_target_wanted:
  assumes "parse_target t = Ok p"
  shows "iv_id n \<notin> set (pt_excluded p) \<and> mode_matches p n \<longleftrightarrow> wanted t n" "mode_distinct p"
    "pt_expected p = map_option sorted_unique (tb_expected t)"
  using assms
  by (auto simp: parse_target_def wanted_def mode_matches_def mode_distinct_def Let_def
      split: option.splits if_splits sum.splits selector_parse.splits)

lemma freeze_simps [simp]:
  "fz_node_ids (freeze env p ms h c) = map iv_id ms"
  "fz_prod (freeze env p ms h c) = map iv_id (filter iv_prod ms)"
  "fz_prod_confirmed (freeze env p ms h c) \<longleftrightarrow> filter iv_prod ms \<noteq> [] \<and> c = Some (length (filter iv_prod ms))"
  "fz_selector (freeze env p ms h c) = pt_selector p" "fz_sha (freeze env p ms h c) = sha_of env (map iv_id ms)"
  by (auto simp: freeze_def Let_def hits_def comp_def filter_map)

lemma diff_ids_empty: "fst (diff_ids ex live) = [] \<and> snd (diff_ids ex live) = [] \<longleftrightarrow> set ex = set live"
  by (auto simp: diff_ids_def filter_empty_conv)

subsection \<open>Submitting\<close>

lemma check_submit_Ok:
  "check_submit env db h t c kind tid = (db', Ok f) \<longleftrightarrow>
   (\<exists>p ms. parse_target t = Ok p \<and> resolve_parsed (load_inventory db) p = Ok ms
      \<and> f = freeze env p ms h c \<and> db' = db
      \<and> (\<forall>ex. pt_expected p = Some ex \<longrightarrow> set ex = set (map iv_id ms))
      \<and> ms \<noteq> [] \<and> length ms \<le> MAX_TARGETS
      \<and> (filter iv_prod ms \<noteq> [] \<longrightarrow> c = Some (length (filter iv_prod ms))))"
proof (cases "parse_target t")
  case (Inr p)
  show ?thesis
  proof (cases "resolve_parsed (load_inventory db) p")
    case (Inr ms)
    with \<open>parse_target t = Inr p\<close> show ?thesis
      by (cases "pt_expected p")
        (auto simp: check_submit_def Let_def ensure_size_def diff_ids_empty [symmetric]
          simp del: set_map split: if_splits)
  qed (simp add: check_submit_def \<open>parse_target t = Inr p\<close>)
qed (simp add: check_submit_def)

lemma check_submit_distinct:
  "distinct (map nd_id (t_nodes db)) \<Longrightarrow> check_submit env db h t c kind tid = (db', Ok f) \<Longrightarrow> distinct (fz_node_ids f)"
  using resolve_parsed_exact(3) [OF load_inventory_distinct] parse_target_wanted(2)
  by (fastforce simp: check_submit_Ok)

text \<open>
  C13. A submission that is accepted froze exactly the nodes the target names: the resolution is
  sorted, without repetitions, not empty and within the limit; it holds every node of the inventory
  the selector matches or the list names, less the excluded ones; where the client says what it
  expects, that is the same set; and if one of the nodes is a production node, the client has
  confirmed exactly their number.
\<close>

theorem submit_exact:
  assumes "distinct (map nd_id (t_nodes db))" "check_submit env db h t c kind tid = (db', Ok f)"
  shows "db' = db
    \<and> set (fz_node_ids f) = {iv_id n | n. n \<in> set (load_inventory db) \<and> wanted t n}
    \<and> sorted (fz_node_ids f) \<and> distinct (fz_node_ids f)
    \<and> fz_node_ids f \<noteq> [] \<and> length (fz_node_ids f) \<le> 5000
    \<and> set (fz_prod f) = {iv_id n | n. n \<in> set (load_inventory db) \<and> wanted t n \<and> iv_prod n}
    \<and> (fz_prod f \<noteq> [] \<longrightarrow> c = Some (card (set (fz_prod f))))
    \<and> (\<forall>ex. tb_expected t = Some ex \<longrightarrow> named_ids ex = set (fz_node_ids f))"
proof -
  from assms(2) obtain p ms where p: "parse_target t = Ok p" "resolve_parsed (load_inventory db) p = Ok ms"
      "f = freeze env p ms h c" "db' = db" "ms \<noteq> []" "length ms \<le> MAX_TARGETS"
      "\<forall>ex. pt_expected p = Some ex \<longrightarrow> set ex = set (map iv_id ms)"
      "filter iv_prod ms \<noteq> [] \<longrightarrow> c = Some (length (filter iv_prod ms))"
    unfolding check_submit_Ok by blast
  have r: "set ms = {n \<in> set (load_inventory db). wanted t n}" "sorted (map iv_id ms)" "distinct (map iv_id ms)"
    using resolve_parsed_exact [OF load_inventory_distinct [OF assms(1)] p(2)] parse_target_wanted [OF p(1)]
    by auto
  have "card (iv_id ` {n \<in> set ms. iv_prod n}) = length (filter iv_prod ms)"
    using distinct_card [OF distinct_filter_key [OF r(3), of iv_prod]] by simp
  moreover have "named_ids ex = set (map iv_id ms)" if "tb_expected t = Some ex" for ex
    using p(7) parse_target_wanted(3) [OF p(1)] that by fastforce
  ultimately show ?thesis using p r by (auto simp: MAX_TARGETS_def image_iff)
qed

definition sample_fleet :: db where
  "sample_fleet = empty_db\<lparr>t_nodes := map sample_node [''web-1'', ''db-1'', ''web-2''],
     t_tags := [\<lparr>tg_node = ''web-1'', tg_source = ''center'', tg_key = ''env'', tg_value = ''prod'', tg_valid = True,
                 tg_reason = None, tg_by = ''x''\<rparr>]\<rparr>"

definition sample_target :: target_body where
  "sample_target = \<lparr>tb_selector = None, tb_node_ids = Some [''web-2'', '' web-1'', ''web-2''], tb_exclude = [], tb_expected = None\<rparr>"

lemma submit_exact_witness:
  "\<exists>db' f. check_submit (sample_cenv 0) sample_fleet hub_new sample_target (Some 1) ''dispatch'' ''s'' = (db', Ok f)
     \<and> db' = sample_fleet \<and> sorted (fz_node_ids f) \<and> fz_node_ids f \<noteq> []"
proof -
  have d: "distinct (map nd_id (t_nodes sample_fleet))"
    by (simp add: sample_fleet_def sample_node_def)
  have "is_ok (snd (check_submit (sample_cenv 0) sample_fleet hub_new sample_target (Some 1) ''dispatch'' ''s''))"
    by code_simp
  then obtain db' f where "check_submit (sample_cenv 0) sample_fleet hub_new sample_target (Some 1) ''dispatch'' ''s'' = (db', Ok f)"
    by (metis is_ok_simps(2) sumE prod.collapse)
  with submit_exact [OF d this] show ?thesis by blast
qed

subsection \<open>Refusing\<close>

definition refused_for :: "target_error \<Rightarrow> bool" where
  "refused_for e = (case e of Changed _ _ \<Rightarrow> True | TooMany \<Rightarrow> True | ProdUnconfirmed _ _ \<Rightarrow> True | _ \<Rightarrow> False)"

lemma parse_target_not_refused: "parse_target t = Err e \<Longrightarrow> \<not> refused_for e"
  by (auto simp: parse_target_def refused_for_def Let_def
      split: option.splits sum.splits selector_parse.splits if_splits)

lemma resolve_not_refused: "resolve_parsed iy p = Err e \<Longrightarrow> \<not> refused_for e"
  by (auto simp: resolve_parsed_def refused_for_def and_then_def
      split: target_mode.splits selector_parse.splits sum.splits prod.splits if_splits)

lemma check_submit_Err:
  assumes "check_submit env db h t c kind tid = (db', Err e)"
  shows "(\<not> refused_for e \<and> db' = db)
    \<or> (refused_for e \<and> (\<exists>code sel ids. db' = refuse env db kind tid code sel ids))"
proof (cases "parse_target t")
  case (Inl x)
  with assms parse_target_not_refused show ?thesis by (auto simp: check_submit_def)
next
  case p: (Inr p)
  show ?thesis
  proof (cases "resolve_parsed (load_inventory db) p")
    case (Inl x)
    with assms p resolve_not_refused show ?thesis by (auto simp: check_submit_def)
  next
    case (Inr ms)
    with assms p show ?thesis
      by (auto simp: check_submit_def Let_def ensure_size_def refused_for_def split: if_splits)
  qed
qed

lemma refuse_audits:
  "\<exists>r. refuse env db kind tid code sel ids = db\<lparr>t_audit := t_audit db @ [r]\<rparr> \<and> au_action r = ''target.refused''"
  unfolding refuse_def audit_event_def insert_audit_def by (rule exI, rule conjI, rule refl, simp)

text \<open>
  C19. A dispatch that is not accepted does nothing: no message is sent, no job is queued, no table is
  changed but the audit log, and that gets one event \<open>target.refused\<close> exactly when the submission was
  refused for a changed target, for its size or for unconfirmed production nodes.
\<close>

theorem rejected_dispatch_only_audits:
  assumes "dispatch_target env db h alive body = (db', sent, Err e)"
  shows "sent = [] \<and> (\<exists>rows. db' = db\<lparr>t_audit := t_audit db @ rows\<rparr>
     \<and> length rows = (if refused_for e then 1 else 0) \<and> list_all (\<lambda>r. au_action r = ''target.refused'') rows)"
proof (cases "trim (dq_spec_id body) = []")
  case True
  with assms show ?thesis by (auto simp: dispatch_target_def refused_for_def intro: exI [of _ "[]"])
next
  case False
  with assms have "sent = []"
    "check_submit env db h (dq_target body) (dq_confirm body) ''dispatch'' (trim (dq_spec_id body)) = (db', Err e)"
    by (auto simp: dispatch_target_def Let_def split: prod.splits sum.splits)
  from check_submit_Err [OF this(2)] consider
      "\<not> refused_for e" "db' = db" | r where "refused_for e" "db' = db\<lparr>t_audit := t_audit db @ [r]\<rparr>" "au_action r = ''target.refused''"
    using refuse_audits by metis
  then show ?thesis using \<open>sent = []\<close>
  proof cases
    case 1
    then show ?thesis using \<open>sent = []\<close> by (auto intro: exI [of _ "[]"])
  next
    case 2
    then show ?thesis using \<open>sent = []\<close> by (auto intro: exI [of _ "[r]"])
  qed
qed

lemma rejected_dispatch_only_audits_witness:
  "\<exists>db' sent e. dispatch_target (sample_cenv 0) sample_fleet hub_new (\<lambda>n. True)
      \<lparr>dq_target = sample_target, dq_spec_id = ''s'', dq_params = None, dq_confirm = None\<rparr> = (db', sent, Err e)
     \<and> sent = [] \<and> t_pending db' = []"
proof -
  let ?d = "dispatch_target (sample_cenv 0) sample_fleet hub_new (\<lambda>n. True)
      \<lparr>dq_target = sample_target, dq_spec_id = ''s'', dq_params = None, dq_confirm = None\<rparr>"
  have "\<not> is_ok (snd (snd ?d))" by code_simp
  then obtain db' sent e where d: "?d = (db', sent, Err e)"
    by (metis is_ok_simps(1) sumE prod.collapse)
  have "t_pending sample_fleet = []" by (simp add: sample_fleet_def empty_db_def)
  with rejected_dispatch_only_audits [OF d] have "sent = [] \<and> t_pending db' = []" by auto
  with d show ?thesis by blast
qed

subsection \<open>Dispatching\<close>

definition queue_row :: "str \<Rightarrow> str \<Rightarrow> nat \<times> str \<times> str \<Rightarrow> pending_row" where
  "queue_row spec_id params_json = (\<lambda>(i, n, run).
     \<lparr>pd_id = i, pd_node = n, pd_run = run, pd_spec = spec_id, pd_params = params_json, pd_in_flight = None,
      pd_attempts = 0\<rparr>)"

lemma plan_runs_queue:
  "plan_runs env op rid s pj ids db = (db', planned) \<Longrightarrow>
   t_pending db' = t_pending db @ map (queue_row s pj) (enumerate (t_pending_next db) planned)
   \<and> map fst planned = ids
   \<and> map snd planned = map (ce_uuid env) [uuids_drawn db ..< uuids_drawn db + length ids]"
proof (induction ids arbitrary: db db' planned)
  case (Cons n ids)
  from Cons.prems obtain db4 p where p: "plan_runs env op rid s pj ids db4 = (db', p)"
      "planned = (n, ce_uuid env (uuids_drawn db)) # p"
      "t_pending db4 = t_pending db @ [queue_row s pj (t_pending_next db, n, ce_uuid env (uuids_drawn db))]"
      "t_pending_next db4 = Suc (t_pending_next db)" "uuids_drawn db4 = Suc (uuids_drawn db)"
    by (auto simp: new_uuid_def insert_pending_def audit_event_def insert_audit_def queue_row_def Let_def
        split: prod.splits)
  have "[uuids_drawn db ..< uuids_drawn db + length (n # ids)]
      = uuids_drawn db # [Suc (uuids_drawn db) ..< Suc (uuids_drawn db) + length ids]"
    by (simp add: upt_conv_Cons del: upt_Suc)
  with Cons.IH [OF p(1)] p(2-) show ?case by (simp del: upt_Suc)
qed simp

definition delivered_live :: "hub \<Rightarrow> (nat \<Rightarrow> bool) \<Rightarrow> str \<Rightarrow> bool" where
  "delivered_live h alive n = (hub_send h alive n \<noteq> None)"

definition bump :: "cenv \<Rightarrow> pending_row \<Rightarrow> pending_row" where
  "bump env r = r\<lparr>pd_in_flight := Some (ce_now env), pd_attempts := pd_attempts r + 1\<rparr>"

lemma send_runs_queue:
  "send_runs env h alive op planned db = (db', sent, per_node) \<Longrightarrow> distinct (map snd planned) \<Longrightarrow>
   t_pending db' = update_where (\<lambda>r. (pd_node r, pd_run r) \<in> set planned \<and> delivered_live h alive (pd_node r)) (bump env)
     (t_pending db)
   \<and> per_node = map (\<lambda>(n, run). (n, run, if delivered_live h alive n then ''live'' else ''queued'')) planned
   \<and> map snd sent = map snd (filter (\<lambda>(n, run). delivered_live h alive n) planned)"
proof (induction planned arbitrary: db db' sent per_node)
  case Nil
  then show ?case by (simp add: update_where_def)
next
  case (Cons x planned)
  obtain n run where x: "x = (n, run)" by (cases x)
  from Cons.prems(1) obtain db1 sent1 per1 where s: "send_runs env h alive op planned db1 = (db', sent1, per1)"
      "t_pending db1 = update_where (\<lambda>r. pd_node r = n \<and> pd_run r = run \<and> delivered_live h alive n) (bump env) (t_pending db)"
      "per_node = (n, run, if delivered_live h alive n then ''live'' else ''queued'') # per1"
      "map snd sent = (if delivered_live h alive n then [run] else []) @ map snd sent1"
    by (cases "hub_send h alive n")
      (auto simp: x mark_in_flight_def delivered_live_def update_where_def bump_def [abs_def] Let_def
        split: prod.splits)
  from Cons.prems(2) have "run \<notin> snd ` set planned" by (simp add: x)
  then have "(m, run) \<notin> set planned" for m by force
  then show ?case using Cons.IH [OF s(1)] Cons.prems(2) s(2-)
    by (auto simp: x update_where_def bump_def)
qed

lemma dispatch_target_Ok:
  assumes "dispatch_target env db h alive body = (db', sent, Ok out)"
  shows "\<exists>f op rid db3 db4 planned.
     check_submit env db h (dq_target body) (dq_confirm body) ''dispatch'' (trim (dq_spec_id body)) = (db, Ok f)
     \<and> plan_runs env op rid (trim (dq_spec_id body)) (ce_print env (unwrap_or (dq_params body) (JObj []))) (fz_node_ids f) db3
         = (db4, planned)
     \<and> send_runs env h alive op planned db4 = (db', sent, ou_per_node out)
     \<and> t_pending db3 = t_pending db \<and> t_pending_next db3 = t_pending_next db \<and> uuids_drawn db3 = uuids_drawn db + 2"
proof -
  let ?c = "check_submit env db h (dq_target body) (dq_confirm body) ''dispatch'' (trim (dq_spec_id body))"
  obtain d1 f where c: "?c = (d1, Ok f)"
    using assms by (auto simp: dispatch_target_def Let_def split: prod.splits sum.splits if_splits)
  then have "?c = (db, Ok f)" using check_submit_Ok by metis
  moreover from this assms show ?thesis
    by (auto simp: dispatch_target_def Let_def new_uuid_def insert_resolution_def audit_event_def insert_audit_def
        split: prod.splits if_splits intro!: exI)
qed

lemma dispatch_ok_iff:
  "is_ok (snd (snd (dispatch_target env db h alive body))) \<longleftrightarrow> trim (dq_spec_id body) \<noteq> []
     \<and> is_ok (snd (check_submit env db h (dq_target body) (dq_confirm body) ''dispatch'' (trim (dq_spec_id body))))"
  by (auto simp: dispatch_target_def Let_def split: prod.splits sum.splits)

lemma enumerate_map: "enumerate k (map g xs) = map (\<lambda>(i, x). (i, g x)) (enumerate k xs)"
  by (induction xs arbitrary: k) simp_all

lemma enumerate_member: "(i, x) \<in> set (enumerate k xs) \<Longrightarrow> x \<in> set xs"
  by (auto simp: in_set_enumerate_eq)

text \<open>
  C14. An accepted dispatch queues exactly one job per node of the frozen resolution, in its order, with
  a run identifier of its own, and leaves the jobs that were queued before as they are. The
  job is marked as in flight, and its message sent, exactly when the node has a live session; the reply
  reports that for each node.
\<close>

theorem dispatch_queues_one_job_per_node:
  assumes "dispatch_target env db h alive body = (db', sent, Ok out)"
    and fresh: "inj (ce_uuid env)" "\<forall>r \<in> set (t_pending db). \<forall>k \<ge> uuids_drawn db. pd_run r \<noteq> ce_uuid env k"
  shows "\<exists>f pj. check_submit env db h (dq_target body) (dq_confirm body) ''dispatch'' (trim (dq_spec_id body)) = (db, Ok f)
     \<and> map fst (ou_per_node out) = fz_node_ids f
     \<and> distinct (map (fst \<circ> snd) (ou_per_node out))
     \<and> (\<forall>(n, run, d) \<in> set (ou_per_node out). d = (if hub_send h alive n = None then ''queued'' else ''live''))
     \<and> t_pending db' = t_pending db @ map (\<lambda>(i, n, run, d).
           \<lparr>pd_id = i, pd_node = n, pd_run = run, pd_spec = trim (dq_spec_id body), pd_params = pj,
            pd_in_flight = (if d = ''live'' then Some (ce_now env) else None),
            pd_attempts = (if d = ''live'' then 1 else 0)\<rparr>) (enumerate (t_pending_next db) (ou_per_node out))
     \<and> map snd sent = map (fst \<circ> snd) (filter (\<lambda>(n, run, d). d = ''live'') (ou_per_node out))"
proof -
  let ?s = "trim (dq_spec_id body)" and ?pj = "ce_print env (unwrap_or (dq_params body) (JObj []))"
  from dispatch_target_Ok [OF assms(1)] obtain f op rid db3 db4 planned where
      f: "check_submit env db h (dq_target body) (dq_confirm body) ''dispatch'' ?s = (db, Ok f)"
      and p: "plan_runs env op rid ?s ?pj (fz_node_ids f) db3 = (db4, planned)"
      and d: "send_runs env h alive op planned db4 = (db', sent, ou_per_node out)"
      and db3: "t_pending db3 = t_pending db" "t_pending_next db3 = t_pending_next db" "uuids_drawn db3 = uuids_drawn db + 2"
    by blast
  note q = plan_runs_queue [OF p]
  have dp: "distinct (map snd planned)" using q fresh(1) by (simp add: distinct_map inj_on_def inj_def)
  note r = send_runs_queue [OF d dp]
  let ?P = "\<lambda>r. (pd_node r, pd_run r) \<in> set planned \<and> delivered_live h alive (pd_node r)"
  have "snd x \<in> set (map (ce_uuid env) [uuids_drawn db3 ..< uuids_drawn db3 + length (fz_node_ids f)])" if "x \<in> set planned" for x
    using q that by (metis image_eqI set_map)
  then have "pd_run w \<noteq> snd x" if "w \<in> set (t_pending db)" "x \<in> set planned" for w x
    using fresh(2) that db3(3) by fastforce
  then have old: "update_where ?P (bump env) (t_pending db) = t_pending db"
    unfolding update_where_def by (intro map_idI) force
  have new: "update_where ?P (bump env) (map (queue_row ?s ?pj) (enumerate k planned)) = map (\<lambda>(i, n, run, d).
           \<lparr>pd_id = i, pd_node = n, pd_run = run, pd_spec = ?s, pd_params = ?pj,
            pd_in_flight = (if d = ''live'' then Some (ce_now env) else None),
            pd_attempts = (if d = ''live'' then 1 else 0)\<rparr>) (enumerate k (ou_per_node out))" for k
    unfolding conjunct1 [OF conjunct2 [OF r]]
    by (auto simp: enumerate_map update_where_def queue_row_def bump_def dest: enumerate_member)
  have "map fst (ou_per_node out) = fz_node_ids f" "map (fst \<circ> snd) (ou_per_node out) = map snd planned"
    using q r by (auto simp: comp_def split_beta)
  moreover have "map snd sent = map (fst \<circ> snd) (filter (\<lambda>(n, run, d). d = ''live'') (ou_per_node out))"
  proof -
    have "filter (\<lambda>(n, run, d). d = ''live'') (ou_per_node out)
        = map (\<lambda>(n, run). (n, run, ''live'')) (filter (\<lambda>(n, run). delivered_live h alive n) planned)"
      unfolding conjunct1 [OF conjunct2 [OF r]] by (induction planned) auto
    then show ?thesis using r by (simp add: split_beta comp_def)
  qed
  moreover have "\<forall>(n, run, d) \<in> set (ou_per_node out). d = (if hub_send h alive n = None then ''queued'' else ''live'')"
    using r by (auto simp: delivered_live_def)
  moreover have "update_where ?P (bump env) (xs @ ys) = update_where ?P (bump env) xs @ update_where ?P (bump env) ys" for xs ys
    by (simp add: update_where_def)
  ultimately show ?thesis using f q r old new dp db3 by (intro exI [of _ f] exI [of _ ?pj]) simp
qed

lemma dispatch_queues_one_job_per_node_witness:
  "\<exists>db' sent out. dispatch_target (sample_cenv 0) sample_fleet (hub_register hub_new ''web-2'' 7) (\<lambda>n. True)
      \<lparr>dq_target = sample_target, dq_spec_id = ''s'', dq_params = None, dq_confirm = Some 1\<rparr> = (db', sent, Ok out)
     \<and> distinct (map (fst \<circ> snd) (ou_per_node out))"
proof -
  let ?d = "dispatch_target (sample_cenv 0) sample_fleet (hub_register hub_new ''web-2'' 7) (\<lambda>n. True)
      \<lparr>dq_target = sample_target, dq_spec_id = ''s'', dq_params = None, dq_confirm = Some 1\<rparr>"
  have "trim ''s'' \<noteq> [] \<and> is_ok (snd (check_submit (sample_cenv 0) sample_fleet (hub_register hub_new ''web-2'' 7) sample_target (Some 1)
      ''dispatch'' (trim ''s'')))" by code_simp
  then have "is_ok (snd (snd ?d))" by (simp add: dispatch_ok_iff)
  then obtain db' sent out where d: "?d = (db', sent, Ok out)"
    by (metis is_ok_simps(2) sumE prod.collapse)
  have "inj (ce_uuid (sample_cenv 0))"
    unfolding sample_cenv_def by (rule injI) (drule arg_cong [of _ _ length], simp)
  moreover have "\<forall>r \<in> set (t_pending sample_fleet). \<forall>k \<ge> uuids_drawn sample_fleet. pd_run r \<noteq> ce_uuid (sample_cenv 0) k"
    by (simp add: sample_fleet_def empty_db_def)
  ultimately show ?thesis using dispatch_queues_one_job_per_node [OF d] d by blast
qed

subsection \<open>The audit chain\<close>

lemma insert_resolution_audit: "audit_ok env db \<Longrightarrow> audit_ok env (snd (insert_resolution env db kind ref_id f old))"
  unfolding insert_resolution_def
  by (auto simp: new_uuid_def Let_def intro!: audit_writers_ok(1)) (simp add: audit_ok_def)

lemma check_submit_audit: "audit_ok env db \<Longrightarrow> audit_ok env (fst (check_submit env db h t c kind tid))"
proof -
  assume a: "audit_ok env db"
  obtain db' r where c: "check_submit env db h t c kind tid = (db', r)" by (metis prod.exhaust)
  show ?thesis
  proof (cases r)
    case (Inl e)
    with c check_submit_Err have "db' = db \<or> (\<exists>code sel ids. db' = refuse env db kind tid code sel ids)" by metis
    with a c show ?thesis by (auto simp: refuse_def audit_writers_ok)
  next
    case (Inr f)
    with c check_submit_Ok have "db' = db" by metis
    with a c show ?thesis by simp
  qed
qed

lemma plan_runs_audit: "audit_ok env db \<Longrightarrow> audit_ok env (fst (plan_runs env op rid s pj ids db))"
proof (induction ids arbitrary: db)
  case (Cons n ids)
  let ?db4 = "audit_event env ((insert_pending (snd (new_uuid env db)) n (fst (new_uuid env db)) s pj)\<lparr>t_runs := t_runs db @
            [\<lparr>dr_operation = op, dr_node = n, dr_run = fst (new_uuid env db), dr_delivered = ''queued''\<rparr>]\<rparr>)
          ''dispatch.requested'' ''node'' n (Some n) (JObj
            [(''operation_id'', JStr op), (''resolution_id'', JStr rid), (''spec_id'', JStr s),
             (''run_id'', JStr (fst (new_uuid env db)))])"
  have "audit_ok env ?db4"
    by (rule audit_writers_ok(1)) (use Cons.prems in \<open>simp add: audit_ok_def new_uuid_def insert_pending_def\<close>)
  from Cons.IH [OF this] show ?case
    by (simp add: new_uuid_def insert_pending_def Let_def split_beta)
qed simp

lemma send_runs_audit: "t_audit (fst (send_runs env h alive op planned db)) = t_audit db"
  by (induction planned arbitrary: db) (auto simp: mark_in_flight_def Let_def split_beta)

lemma dispatch_target_audit: "audit_ok env db \<Longrightarrow> audit_ok env (fst (dispatch_target env db h alive body))"
proof -
  assume a: "audit_ok env db"
  let ?c = "check_submit env db h (dq_target body) (dq_confirm body) ''dispatch'' (trim (dq_spec_id body))"
  obtain d1 r where c: "?c = (d1, r)" by (metis prod.exhaust)
  then have d1: "audit_ok env d1" using check_submit_audit [OF a] by (metis fst_conv)
  show ?thesis
  proof (cases r)
    case (Inl e)
    with a c d1 show ?thesis by (simp add: dispatch_target_def Let_def)
  next
    case (Inr f)
    let ?i = "insert_resolution env (snd (new_uuid env d1)) ''dispatch'' (fst (new_uuid env d1)) f None"
    have "audit_ok env (snd ?i)"
      by (rule insert_resolution_audit) (use d1 in \<open>simp add: audit_ok_def new_uuid_def\<close>)
    then have "audit_ok env ((snd ?i)\<lparr>t_dispatches := ds\<rparr>)" for ds by (simp add: audit_ok_def)
    note plan_runs_audit [OF this]
    then show ?thesis using Inr a c
      by (simp add: dispatch_target_def Let_def split_beta audit_ok_def send_runs_audit)
  qed
qed

end
