(* ===== verification/Target_Schedules.thy ===== *)
theory Target_Schedules
  imports Targets
begin

text \<open>
  \<open>crates/novbot-center/src/targets.rs\<close>, second half: schedules of a target. A schedule puts an
  entry that carries its origin into the configuration of each of its nodes, remembers the state per
  node, and can be patched, deleted and resolved again. A transaction that fails leaves the
  database as it found it, identifiers it drew apart.
\<close>

subsection \<open>Requests and views\<close>

type_synonym node_state = "str \<times> str"

record create_request =
  cr_target :: target_body
  cr_spec_id :: str
  cr_interval :: "nat option"
  cr_cron :: "str option"
  cr_enabled :: bool
  cr_confirm :: "nat option"

record create_reply =
  cp_id :: str
  cp_resolution :: resolution_view
  cp_per_node :: "node_state list"
  cp_warnings :: "(str \<times> str) list"

record schedule_view =
  sw_id :: str
  sw_spec :: str
  sw_interval :: "nat option"
  sw_cron :: "str option"
  sw_enabled :: bool
  sw_resolution :: str
  sw_selector :: "str option"
  sw_node_ids :: "str list"
  sw_at :: nat
  sw_nodes :: "node_state list"
  sw_drift :: "str list \<times> str list"

record patch_request =
  ph_interval :: "nat option"
  ph_cron :: "str option"
  ph_enabled :: "bool option"
  ph_clear_interval :: bool
  ph_clear_cron :: bool

record re_resolve_request =
  rq_dry_run :: bool
  rq_expected :: "(str list \<times> str list) option"
  rq_confirm :: "nat option"

record re_resolve_reply =
  rl_dry_run :: bool
  rl_added :: "str list"
  rl_removed :: "str list"
  rl_prod :: "str list"
  rl_per_node :: "node_state list"
  rl_resolution :: "str option"
  rl_warnings :: "(str \<times> str) list"

record timing =
  tm_interval :: "nat option"
  tm_cron :: "str option"

definition filter_text :: "str option \<Rightarrow> str option" where
  "filter_text v = (case v of Some s \<Rightarrow> if s = [] then None else Some s | None \<Rightarrow> None)"

definition validate_timing :: "nat option \<Rightarrow> str option \<Rightarrow> (timing, target_error) result" where
  "validate_timing interval cron0 =
     (let cron = filter_text (map_option trim cron0) in
      if interval = None \<and> cron = None then Err (Timing ''interval_secs or cron is required'')
      else if interval = Some 0 then Err (Timing ''interval_secs must be greater than 0'')
      else if (case cron of Some expr \<Rightarrow> length (split_whitespace expr) \<noteq> 5 | None \<Rightarrow> False)
      then Err (Timing ''cron must be 5 fields'')
      else Ok \<lparr>tm_interval = interval, tm_cron = cron\<rparr>)"

text \<open>An interval is bound \<open>as i64\<close> and read back with \<open>u64::try_from\<close>.\<close>

definition u64_as_i64 :: "nat \<Rightarrow> int" where
  "u64_as_i64 n = (if int n < 9223372036854775808 then int n else int n - 18446744073709551616)"

definition i64_to_u64 :: "int \<Rightarrow> nat option" where
  "i64_to_u64 i = (if i \<ge> 0 then Some (nat i) else None)"

subsection \<open>Entries of a node's configuration\<close>

definition origin_of :: "str \<Rightarrow> str" where
  "origin_of schedule_id = ''sch_'' @ schedule_id"

definition text_field :: "str \<Rightarrow> json \<Rightarrow> str option" where
  "text_field key entry = (case json_get entry key of Some v \<Rightarrow> as_str v | None \<Rightarrow> None)"

text \<open>A JSON object is a sorted map.\<close>

definition map_remove :: "str \<Rightarrow> (str \<times> json) list \<Rightarrow> (str \<times> json) list" where
  "map_remove key fs = filter (\<lambda>f. fst f \<noteq> key) fs"

definition map_insert :: "str \<Rightarrow> json \<Rightarrow> (str \<times> json) list \<Rightarrow> (str \<times> json) list" where
  "map_insert key v fs = insort_key fst (key, v) (map_remove key fs)"

definition schedule_entry :: "str \<Rightarrow> nat option \<Rightarrow> str option \<Rightarrow> bool \<Rightarrow> str \<Rightarrow> json" where
  "schedule_entry spec_id interval cron enabled origin =
     (let m0 = map_insert ''spec_id'' (JStr spec_id) [];
          m1 = (case interval of Some i \<Rightarrow> map_insert ''interval_secs'' (jnat i) m0 | None \<Rightarrow> m0);
          m2 = (case cron of Some c \<Rightarrow> map_insert ''cron'' (JStr c) m1 | None \<Rightarrow> m1)
      in JObj (map_insert ''origin'' (JStr origin) (map_insert ''enabled'' (JBool enabled) m2)))"

definition has_spec :: "json list \<Rightarrow> str \<Rightarrow> bool" where
  "has_spec entries spec_id = list_ex (\<lambda>e. text_field ''spec_id'' e = Some spec_id) entries"

definition has_origin :: "json list \<Rightarrow> str \<Rightarrow> bool" where
  "has_origin entries origin = list_ex (\<lambda>e. text_field ''origin'' e = Some origin) entries"

definition parse_entries :: "cenv \<Rightarrow> str \<Rightarrow> json list" where
  "parse_entries env raw = (case ce_parse env raw of Some (JArr xs) \<Rightarrow> xs | _ \<Rightarrow> [])"

definition lock_config :: "cenv \<Rightarrow> db \<Rightarrow> str \<Rightarrow> (db \<times> json list \<times> str, target_error) result" where
  "lock_config env db node_id =
     (let db' = (if row_at cf_node (t_configs db) node_id = None \<and> node_exists db node_id
          then db\<lparr>t_configs := insert_ignore cf_node
            \<lparr>cf_node = node_id, cf_generation = 1, cf_specs = ''[]'', cf_schedules = ''[]''\<rparr> (t_configs db)\<rparr> else db)
      in case row_at cf_node (t_configs db') node_id of
           None \<Rightarrow> Err (TargetInternal ''no rows returned'')
         | Some r \<Rightarrow> Ok (db', parse_entries env (cf_schedules r), cf_specs r))"

definition write_schedules :: "cenv \<Rightarrow> db \<Rightarrow> str \<Rightarrow> json list \<Rightarrow> db" where
  "write_schedules env db node_id entries =
     db\<lparr>t_configs := update_where (\<lambda>c. cf_node c = node_id)
          (\<lambda>c. c\<lparr>cf_schedules := ce_print env (JArr entries), cf_generation := cf_generation c + 1\<rparr>) (t_configs db)\<rparr>"

text \<open>The part of the loops of \<open>create_schedule\<close> and \<open>re_resolve_schedule\<close> that gives a node its entry.\<close>

definition give_entry ::
    "cenv \<Rightarrow> db \<Rightarrow> str \<Rightarrow> nat option \<Rightarrow> str option \<Rightarrow> bool \<Rightarrow> str \<Rightarrow> str
      \<Rightarrow> (db \<times> str \<times> (str \<times> str) list, target_error) result" where
  "give_entry env db spec_id interval cron enabled origin node_id =
     and_then (lock_config env db node_id) (\<lambda>(db', entries, specs_json).
       let warnings = (if spec_present env specs_json spec_id then [] else [(node_id, ''spec_missing'')])
       in if has_spec entries spec_id then Ok (db', ''skipped_exists'', warnings)
          else Ok (write_schedules env db' node_id
                     (entries @ [schedule_entry spec_id interval cron enabled origin]), ''active'', warnings))"

definition take_entry :: "cenv \<Rightarrow> db \<Rightarrow> str \<Rightarrow> str \<Rightarrow> (db, target_error) result" where
  "take_entry env db origin node_id =
     and_then (lock_config env db node_id) (\<lambda>(db', entries, _).
       Ok (write_schedules env db' node_id (filter (\<lambda>e. text_field ''origin'' e \<noteq> Some origin) entries)))"

subsection \<open>Creating\<close>

definition node_state_key :: "schedule_node_row \<Rightarrow> str \<times> str" where
  "node_state_key r = (sn_schedule r, sn_node r)"

fun create_nodes ::
    "cenv \<Rightarrow> str \<Rightarrow> str \<Rightarrow> timing \<Rightarrow> bool \<Rightarrow> str list \<Rightarrow> db
      \<Rightarrow> (db \<times> node_state list \<times> (str \<times> str) list, target_error) result" where
  "create_nodes env sid spec_id tm enabled [] db = Ok (db, [], [])"
| "create_nodes env sid spec_id tm enabled (n # ns) db =
     and_then (give_entry env db spec_id (tm_interval tm) (tm_cron tm) enabled (origin_of sid) n) (\<lambda>(db1, state, ws).
       if \<not> node_exists db1 n \<or> list_ex (\<lambda>r. node_state_key r = (sid, n)) (t_schedule_nodes db1)
       then Err (TargetInternal ''constraint'')
       else and_then (create_nodes env sid spec_id tm enabled ns
              (db1\<lparr>t_schedule_nodes := t_schedule_nodes db1 @ [\<lparr>sn_schedule = sid, sn_node = n, sn_state = state\<rparr>]\<rparr>))
         (\<lambda>(db2, per_node, ws'). Ok (db2, (n, state) # per_node, ws @ ws')))"

definition rolled_back :: "db \<Rightarrow> nat \<Rightarrow> db" where
  "rolled_back db drawn = db\<lparr>uuids_drawn := drawn\<rparr>"

definition create_schedule ::
    "cenv \<Rightarrow> db \<Rightarrow> hub \<Rightarrow> create_request \<Rightarrow> db \<times> (create_reply, target_error) result" where
  "create_schedule env db h body =
     (let spec_id = trim (cr_spec_id body) in
      if spec_id = [] then (db, Err (Invalid ''spec_id is required''))
      else (case validate_timing (cr_interval body) (cr_cron body) of
          Inl e \<Rightarrow> (db, Err e)
        | Inr tm \<Rightarrow>
          (case check_submit env db h (cr_target body) (cr_confirm body) ''schedule'' spec_id of
            (db', Inl e) \<Rightarrow> (db', Err e)
          | (db', Inr f) \<Rightarrow>
              (let (sid, db1) = new_uuid env db';
                   (rid, db2) = insert_resolution env db1 ''schedule'' sid f None;
                   db3 = db2\<lparr>t_schedules := t_schedules db2 @
                     [\<lparr>sc_id = sid, sc_spec = spec_id, sc_interval = map_option u64_as_i64 (tm_interval tm),
                       sc_cron = tm_cron tm, sc_enabled = cr_enabled body, sc_resolution = rid, sc_at = ce_now env\<rparr>]\<rparr>
               in case create_nodes env sid spec_id tm (cr_enabled body) (fz_node_ids f) db3 of
                    Inl e \<Rightarrow> (rolled_back db' (uuids_drawn db2), Err e)
                  | Inr (db4, per_node, warnings) \<Rightarrow>
                      (audit_event env db4 ''schedule.created'' ''schedule'' sid None (JObj
                         [(''spec_id'', JStr spec_id), (''interval_secs'', jopt jnat (tm_interval tm)),
                          (''cron'', jopt JStr (tm_cron tm)), (''enabled'', JBool (cr_enabled body)),
                          (''resolution_id'', JStr rid), (''added'', JArr (map JStr (fz_node_ids f))),
                          (''removed'', JArr [])]),
                       Ok \<lparr>cp_id = sid, cp_resolution = (frozen_view f)\<lparr>rv_id := Some rid\<rparr>,
                           cp_per_node = per_node, cp_warnings = warnings\<rparr>)))))"

subsection \<open>Reading\<close>

definition rematch ::
    "db \<Rightarrow> str option \<Rightarrow> str list option \<Rightarrow> str list \<Rightarrow> (str list, target_error) result" where
  "rematch db sel picked excluded =
     (let resolve = (\<lambda>body. and_then (parse_target body) (\<lambda>parsed.
            case pt_mode parsed of
              ByNodes ids \<Rightarrow> Ok (filter (\<lambda>i. i \<notin> set (pt_excluded parsed)
                 \<and> list_ex (\<lambda>n. iv_id n = i) (load_inventory db)) ids)
            | _ \<Rightarrow> and_then (resolve_parsed (load_inventory db) parsed) (\<lambda>ms. Ok (map iv_id ms))))
      in case filter_text sel of
           Some s \<Rightarrow> resolve \<lparr>tb_selector = Some s, tb_node_ids = None, tb_exclude = excluded, tb_expected = None\<rparr>
         | None \<Rightarrow> (case picked of
               Some ids \<Rightarrow> resolve \<lparr>tb_selector = None, tb_node_ids = Some ids, tb_exclude = excluded, tb_expected = None\<rparr>
             | None \<Rightarrow> Ok []))"

definition current_drift ::
    "db \<Rightarrow> str option \<Rightarrow> str list option \<Rightarrow> str list \<Rightarrow> str list \<Rightarrow> (str list \<times> str list, target_error) result" where
  "current_drift db sel picked excluded stored =
     and_then (rematch db sel picked excluded) (\<lambda>live. Ok (diff_ids stored live))"

text \<open>The join of a schedule with its resolution.\<close>

definition schedule_join :: "db \<Rightarrow> str \<Rightarrow> (schedule_row \<times> resolution_row, target_error) result" where
  "schedule_join db sid =
     (case row_at sc_id (t_schedules db) sid of
        None \<Rightarrow> Err ScheduleUnknown
      | Some s \<Rightarrow> (case row_at rr_id (t_resolutions db) (sc_resolution s) of
            None \<Rightarrow> Err ScheduleUnknown | Some r \<Rightarrow> Ok (s, r)))"

definition states_of :: "db \<Rightarrow> str \<Rightarrow> node_state list" where
  "states_of db sid =
     map (\<lambda>r. (sn_node r, sn_state r)) (sort_key sn_node (filter (\<lambda>r. sn_schedule r = sid) (t_schedule_nodes db)))"

definition load_schedule_view :: "db \<Rightarrow> str \<Rightarrow> (schedule_view, target_error) result" where
  "load_schedule_view db sid =
     and_then (schedule_join db sid) (\<lambda>(s, r).
     and_then (current_drift db (rr_selector r) (rr_picked r) (rr_excluded r) (rr_node_ids r)) (\<lambda>drift.
       Ok \<lparr>sw_id = sc_id s, sw_spec = sc_spec s, sw_interval = Option.bind (sc_interval s) i64_to_u64,
           sw_cron = filter_text (sc_cron s), sw_enabled = sc_enabled s, sw_resolution = sc_resolution s,
           sw_selector = filter_text (rr_selector r), sw_node_ids = rr_node_ids r, sw_at = rr_at r,
           sw_nodes = states_of db sid, sw_drift = drift\<rparr>))"

definition set_state :: "db \<Rightarrow> (schedule_node_row \<Rightarrow> bool) \<Rightarrow> str \<Rightarrow> db" where
  "set_state db P state =
     db\<lparr>t_schedule_nodes := update_where P (\<lambda>r. r\<lparr>sn_state := state\<rparr>) (t_schedule_nodes db)\<rparr>"

definition refresh_removed_states :: "cenv \<Rightarrow> db \<Rightarrow> str \<Rightarrow> db" where
  "refresh_removed_states env db sid =
     foldl (\<lambda>d n.
         let entries = (case get_config env d n of Some c \<Rightarrow> parse_entries env (cf_schedules c) | None \<Rightarrow> [])
         in if has_origin entries (origin_of sid) then d
            else set_state d (\<lambda>r. sn_schedule r = sid \<and> sn_node r = n \<and> sn_state r = ''active'') ''removed_by_node_edit'')
       db (map sn_node (filter (\<lambda>r. sn_schedule r = sid \<and> sn_state r = ''active'') (t_schedule_nodes db)))"

definition get_schedule :: "cenv \<Rightarrow> db \<Rightarrow> str \<Rightarrow> db \<times> (schedule_view, target_error) result" where
  "get_schedule env db sid =
     (let db' = refresh_removed_states env db sid in (db', load_schedule_view db' sid))"

fun get_schedules :: "cenv \<Rightarrow> str list \<Rightarrow> db \<Rightarrow> db \<times> schedule_view list" where
  "get_schedules env [] db = (db, [])"
| "get_schedules env (sid # sids) db =
     (case get_schedule env db sid of
        (db1, r) \<Rightarrow> (case get_schedules env sids db1 of
          (db2, items) \<Rightarrow> (db2, (case r of Inr v \<Rightarrow> [v] | Inl _ \<Rightarrow> []) @ items)))"

definition list_schedules :: "cenv \<Rightarrow> db \<Rightarrow> db \<times> schedule_view list" where
  "list_schedules env db = get_schedules env (map sc_id (take 100 (rev (sort_key sc_at (t_schedules db))))) db"

text \<open>Called after an operator has replaced the schedules of a node.\<close>

definition note_node_schedule_edit :: "cenv \<Rightarrow> db \<Rightarrow> str \<Rightarrow> str \<Rightarrow> db" where
  "note_node_schedule_edit env db node_id schedules_json =
     foldl (\<lambda>d sid.
         if has_origin (parse_entries env schedules_json) (origin_of sid) then d
         else set_state d (\<lambda>r. sn_schedule r = sid \<and> sn_node r = node_id) ''removed_by_node_edit'')
       db (map sn_schedule (filter (\<lambda>r. sn_node r = node_id \<and> sn_state r = ''active'') (t_schedule_nodes db)))"

subsection \<open>Changing\<close>

definition patch_entry :: "timing \<Rightarrow> bool \<Rightarrow> json \<Rightarrow> json" where
  "patch_entry tm enabled entry =
     (case entry of
        JObj fs \<Rightarrow>
          (let fs1 = (case tm_interval tm of
                 Some i \<Rightarrow> map_insert ''interval_secs'' (jnat i) fs | None \<Rightarrow> map_remove ''interval_secs'' fs);
               fs2 = (case tm_cron tm of
                 Some c \<Rightarrow> map_insert ''cron'' (JStr c) fs1 | None \<Rightarrow> map_remove ''cron'' fs1)
           in JObj (map_insert ''enabled'' (JBool enabled) fs2))
      | _ \<Rightarrow> entry)"

definition patch_node :: "cenv \<Rightarrow> db \<Rightarrow> str \<Rightarrow> timing \<Rightarrow> bool \<Rightarrow> str \<Rightarrow> (db, target_error) result" where
  "patch_node env db origin tm enabled node_id =
     and_then (lock_config env db node_id) (\<lambda>(db', entries, _).
       if has_origin entries origin
       then Ok (write_schedules env db' node_id
              (map (\<lambda>e. if text_field ''origin'' e = Some origin then patch_entry tm enabled e else e) entries))
       else Ok db')"

fun each_node :: "(db \<Rightarrow> str \<Rightarrow> (db, target_error) result) \<Rightarrow> str list \<Rightarrow> db \<Rightarrow> (db, target_error) result" where
  "each_node f [] db = Ok db"
| "each_node f (n # ns) db = and_then (f db n) (each_node f ns)"

definition patch_schedule ::
    "cenv \<Rightarrow> db \<Rightarrow> str \<Rightarrow> patch_request \<Rightarrow> db \<times> (schedule_view, target_error) result" where
  "patch_schedule env db sid body =
     (case load_schedule_view db sid of
        Inl e \<Rightarrow> (db, Err e)
      | Inr current \<Rightarrow>
          (let interval = (if ph_clear_interval body then None
                 else (case ph_interval body of Some i \<Rightarrow> Some i | None \<Rightarrow> sw_interval current));
               cron = (if ph_clear_cron body then None
                 else (case filter_text (map_option trim (ph_cron body)) of Some c \<Rightarrow> Some c | None \<Rightarrow> sw_cron current))
           in case validate_timing interval cron of
                Inl e \<Rightarrow> (db, Err e)
              | Inr tm \<Rightarrow>
                  (let enabled = unwrap_or (ph_enabled body) (sw_enabled current);
                       db1 = db\<lparr>t_schedules := update_where (\<lambda>s. sc_id s = sid)
                         (\<lambda>s. s\<lparr>sc_interval := map_option u64_as_i64 (tm_interval tm), sc_cron := tm_cron tm,
                            sc_enabled := enabled\<rparr>) (t_schedules db)\<rparr>
                   in case each_node (\<lambda>d n. patch_node env d (origin_of sid) tm enabled n)
                             (map fst (filter (\<lambda>(n, st). st = ''active'') (sw_nodes current))) db1 of
                        Inl e \<Rightarrow> (db, Err e)
                      | Inr db2 \<Rightarrow>
                          (let db3 = audit_event env db2 ''schedule.updated'' ''schedule'' sid None (JObj
                                 [(''spec_id'', JStr (sw_spec current)), (''interval_secs'', jopt jnat (tm_interval tm)),
                                  (''cron'', jopt JStr (tm_cron tm)), (''enabled'', JBool enabled),
                                  (''resolution_id'', JStr (sw_resolution current)), (''added'', JArr []),
                                  (''removed'', JArr [])])
                           in (db3, load_schedule_view db3 sid)))))"

definition delete_schedule :: "cenv \<Rightarrow> db \<Rightarrow> str \<Rightarrow> db \<times> (unit, target_error) result" where
  "delete_schedule env db sid =
     (case row_at sc_id (t_schedules db) sid of
        None \<Rightarrow> (db, Err ScheduleUnknown)
      | Some s \<Rightarrow>
          (let removed = map sn_node (filter (\<lambda>r. sn_schedule r = sid) (t_schedule_nodes db))
           in case each_node (\<lambda>d n. take_entry env d (origin_of sid) n) removed db of
                Inl e \<Rightarrow> (db, Err e)
              | Inr db1 \<Rightarrow>
                  (let db2 = db1\<lparr>t_schedules := delete_where (\<lambda>x. sc_id x = sid) (t_schedules db1),
                         t_schedule_nodes := delete_where (\<lambda>r. sn_schedule r = sid) (t_schedule_nodes db1)\<rparr>
                   in (audit_event env db2 ''schedule.deleted'' ''schedule'' sid None (JObj
                         [(''spec_id'', JStr (sc_spec s)), (''resolution_id'', JStr (sc_resolution s)),
                          (''added'', JArr []), (''removed'', JArr (map JStr removed))]), Ok ()))))"

subsection \<open>Resolving again\<close>

definition project_states :: "schedule_view \<Rightarrow> str list \<Rightarrow> str list \<Rightarrow> node_state list" where
  "project_states current live added =
     map (\<lambda>n. if n \<in> set added then (n, ''active'')
              else (case find (\<lambda>(m, st). m = n) (sw_nodes current) of Some x \<Rightarrow> x | None \<Rightarrow> (n, ''active''))) live"

definition drop_state :: "cenv \<Rightarrow> str \<Rightarrow> db \<Rightarrow> str \<Rightarrow> (db, target_error) result" where
  "drop_state env sid db n =
     and_then (take_entry env db (origin_of sid) n) (\<lambda>d.
       Ok (d\<lparr>t_schedule_nodes := delete_where (\<lambda>r. sn_schedule r = sid \<and> sn_node r = n) (t_schedule_nodes d)\<rparr>))"

fun live_nodes ::
    "cenv \<Rightarrow> schedule_view \<Rightarrow> str \<Rightarrow> str list \<Rightarrow> str list \<Rightarrow> str list \<Rightarrow> db
      \<Rightarrow> (db \<times> node_state list \<times> (str \<times> str) list, target_error) result" where
  "live_nodes env current sid added removed [] db = Ok (db, [], [])"
| "live_nodes env current sid added removed (n # ns) db =
     (if n \<in> set removed then live_nodes env current sid added removed ns db
      else if n \<in> set added then
        and_then (give_entry env db (sw_spec current) (sw_interval current) (sw_cron current) (sw_enabled current)
            (origin_of sid) n) (\<lambda>(db1, state, ws).
          if \<not> node_exists db1 n then Err (TargetInternal ''constraint'')
          else and_then (live_nodes env current sid added removed ns
                 (db1\<lparr>t_schedule_nodes := upsert node_state_key \<lparr>sn_schedule = sid, sn_node = n, sn_state = state\<rparr>
                    (\<lambda>r. r\<lparr>sn_state := state\<rparr>) (t_schedule_nodes db1)\<rparr>))
            (\<lambda>(db2, per_node, ws'). Ok (db2, (n, state) # per_node, ws @ ws')))
      else and_then (live_nodes env current sid added removed ns db) (\<lambda>(db2, per_node, ws').
          Ok (db2, (case find (\<lambda>(m, st). m = n) (sw_nodes current) of Some x \<Rightarrow> x # per_node | None \<Rightarrow> per_node), ws')))"

definition re_resolve_target :: "resolution_row \<Rightarrow> str list \<Rightarrow> target_body" where
  "re_resolve_target r live =
     (case filter_text (rr_selector r) of
        Some s \<Rightarrow> \<lparr>tb_selector = Some s, tb_node_ids = None, tb_exclude = rr_excluded r, tb_expected = Some live\<rparr>
      | None \<Rightarrow> \<lparr>tb_selector = None,
            tb_node_ids = (case rr_picked r of Some ids \<Rightarrow> Some ids | None \<Rightarrow> Some live),
            tb_exclude = rr_excluded r, tb_expected = Some live\<rparr>)"

definition live_prod :: "db \<Rightarrow> str list \<Rightarrow> str list" where
  "live_prod db live = map iv_id (filter (\<lambda>n. iv_prod n \<and> iv_id n \<in> set live) (load_inventory db))"

definition apply_re_resolve ::
    "cenv \<Rightarrow> db \<Rightarrow> hub \<Rightarrow> str \<Rightarrow> re_resolve_request \<Rightarrow> schedule_view \<Rightarrow> resolution_row \<Rightarrow> str list
      \<Rightarrow> db \<times> (re_resolve_reply, target_error) result" where
  "apply_re_resolve env db h sid body current r live =
     (case parse_target (re_resolve_target r live) of
        Inl e \<Rightarrow> (db, Err e)
      | Inr parsed \<Rightarrow>
          (let prods = live_prod db live;
               (added, removed) = diff_ids (sw_node_ids current) live;
               f0 = freeze env parsed (resolve_nodes_lenient (load_inventory db) live) h (rq_confirm body);
               f = f0\<lparr>fz_node_ids := live, fz_prod := prods, fz_prod_confirmed := prods \<noteq> [], fz_sha := sha_of env live\<rparr>;
               (rid, db1) = insert_resolution env db ''schedule'' sid f (Some (rr_id r));
               db2 = db1\<lparr>t_schedules := update_where (\<lambda>s. sc_id s = sid) (\<lambda>s. s\<lparr>sc_resolution := rid\<rparr>) (t_schedules db1)\<rparr>
           in case and_then (each_node (drop_state env sid) removed db2)
                     (live_nodes env current sid added removed live) of
                Inl e \<Rightarrow> (rolled_back db (uuids_drawn db1), Err e)
              | Inr (db3, per_live, warnings) \<Rightarrow>
                  (audit_event env db3 ''schedule.re_resolved'' ''schedule'' sid None (JObj
                     [(''spec_id'', JStr (sw_spec current)), (''interval_secs'', jopt jnat (sw_interval current)),
                      (''cron'', jopt JStr (sw_cron current)), (''resolution_id'', JStr rid),
                      (''added'', JArr (map JStr added)), (''removed'', JArr (map JStr removed))]),
                   Ok \<lparr>rl_dry_run = False, rl_added = added, rl_removed = removed, rl_prod = prods,
                       rl_per_node = sort_key fst (map (\<lambda>n. (n, ''removed'')) removed @ per_live),
                       rl_resolution = Some rid, rl_warnings = warnings\<rparr>)))"

definition re_resolve_schedule ::
    "cenv \<Rightarrow> db \<Rightarrow> hub \<Rightarrow> str \<Rightarrow> re_resolve_request \<Rightarrow> db \<times> (re_resolve_reply, target_error) result" where
  "re_resolve_schedule env db h sid body =
     (case load_schedule_view db sid of
        Inl e \<Rightarrow> (db, Err e)
      | Inr current \<Rightarrow>
     (case schedule_join db sid of
        Inl e \<Rightarrow> (db, Err e)
      | Inr (s, r) \<Rightarrow>
     (case rematch db (rr_selector r) (rr_picked r) (rr_excluded r) of
        Inl e \<Rightarrow> (db, Err e)
      | Inr live \<Rightarrow>
          (let (added, removed) = diff_ids (sw_node_ids current) live;
               prods = live_prod db live
           in if (case rq_expected body of
                    Some (ea, er) \<Rightarrow> sorted_unique ea \<noteq> added \<or> sorted_unique er \<noteq> removed | None \<Rightarrow> False)
              then (refuse env db ''schedule'' sid ''target_changed'' (rr_selector r) [], Err (Changed added removed))
              else (case ensure_size (length live) of
                  Inl e \<Rightarrow> (db, Err e)
                | Inr _ \<Rightarrow>
                    if rq_dry_run body
                    then (db, Ok \<lparr>rl_dry_run = True, rl_added = added, rl_removed = removed, rl_prod = prods,
                           rl_per_node = project_states current live added, rl_resolution = None, rl_warnings = []\<rparr>)
                    else if prods \<noteq> [] \<and> rq_confirm body \<noteq> Some (length prods)
                    then (refuse env db ''schedule'' sid ''prod_confirmation_required'' (rr_selector r) prods,
                          Err (ProdUnconfirmed prods (length prods)))
                    else apply_re_resolve env db h sid body current r live)))))"

subsection \<open>An operator edits a node\<close>

text \<open>The handler \<open>put_schedules\<close> of \<open>http.rs\<close>.\<close>

definition put_schedules_handler :: "cenv \<Rightarrow> db \<Rightarrow> str \<Rightarrow> str \<Rightarrow> (db \<times> config_row, str) result" where
  "put_schedules_handler env db node_id schedules_json =
     and_then (put_schedules env db node_id schedules_json) (\<lambda>(db', c).
       Ok (note_node_schedule_edit env db' node_id schedules_json, c))"

end
