(* ===== verification/Target_Entries.thy ===== *)
theory Target_Entries
  imports Target_Schedules Targets_Correct
begin

text \<open>
  The entries of schedules in the configurations of nodes: what giving, taking and patching an entry
  does to the entries of every node, and the agreement between the states of a schedule and the
  entries, kept by each of them.
\<close>

subsection \<open>The entries of a node\<close>

definition json_map :: "(str \<times> json) list \<Rightarrow> bool" where
  "json_map fs \<longleftrightarrow> sorted (map fst fs) \<and> distinct (map fst fs)"

lemma map_of_remove [simp]: "map_of (map_remove k fs) = (map_of fs)(k := None)"
  by (induction fs) (auto simp: map_remove_def fun_eq_iff)

lemma map_of_insort: "fst x \<notin> fst ` set fs \<Longrightarrow> map_of (insort_key fst x fs) = (map_of fs)(fst x \<mapsto> snd x)"
  by (induction fs) (auto simp: fun_eq_iff)

lemma map_of_insert [simp]: "map_of (map_insert k v fs) = (map_of fs)(k \<mapsto> v)"
proof -
  have "fst (k, v) \<notin> fst ` set (map_remove k fs)" by (auto simp: map_remove_def)
  from map_of_insort [OF this] show ?thesis by (simp add: map_insert_def)
qed

lemma json_map_remove [simp]: "json_map fs \<Longrightarrow> json_map (map_remove k fs)"
  by (simp add: json_map_def map_remove_def sorted_filter distinct_map_filter)

lemma json_map_insert [simp]: "json_map fs \<Longrightarrow> json_map (map_insert k v fs)"
proof -
  assume "json_map fs"
  then have r: "sorted (map fst (map_remove k fs))" "distinct (map fst (map_remove k fs))"
    using json_map_remove by (simp_all add: json_map_def)
  have k: "k \<notin> fst ` set (map_remove k fs)" by (auto simp: map_remove_def)
  have "sorted (map fst (insort_key fst (k, v) (map_remove k fs)))"
    using r(1) by (simp add: sorted_insort_key)
  moreover have "mset (map fst (insort_key fst (k, v) (map_remove k fs))) = mset (k # map fst (map_remove k fs))" by simp
  then have "distinct (map fst (insort_key fst (k, v) (map_remove k fs)))"
    using r(2) k by (metis distinct.simps(2) list.set_map mset_eq_imp_distinct_iff)
  ultimately show ?thesis by (simp add: json_map_def map_insert_def)
qed

lemma json_map_Nil [simp]: "json_map []"
  by (simp add: json_map_def)

lemma json_map_eq: "json_map fs \<Longrightarrow> json_map gs \<Longrightarrow> map_of fs = map_of gs \<Longrightarrow> fs = gs"
proof -
  assume f: "json_map fs" and g: "json_map gs" and m: "map_of fs = map_of gs"
  then have s: "set fs = set gs"
    unfolding json_map_def by (metis map_of_inject_set)
  have "inj_on fst (set fs \<union> set gs)" using f s by (simp add: json_map_def distinct_map)
  with f g s show "fs = gs" unfolding json_map_def by (metis map_sorted_distinct_set_unique)
qed

text \<open>
  The values \<open>serde_json\<close> prints and parses exactly: no floating-point number, whose digits may change,
  integers of 64 bits, objects with the sorted keys of its map, nesting within its recursion limit.
\<close>

fun plain_to :: "nat \<Rightarrow> json \<Rightarrow> bool" where
  "plain_to d (JInt i) = (- 9223372036854775808 \<le> i \<and> i < 18446744073709551616)"
| "plain_to d (JFloat r) = False"
| "plain_to d (JArr vs) = (0 < d \<and> (\<forall>v \<in> set vs. plain_to (d - 1) v))"
| "plain_to d (JObj fs) = (0 < d \<and> json_map fs \<and> (\<forall>f \<in> set fs. plain_to (d - 1) (snd f)))"
| "plain_to d _ = True"

definition plain_entry :: "json \<Rightarrow> bool" where
  "plain_entry e = plain_to 126 e"

definition plain_entries :: "json list \<Rightarrow> bool" where
  "plain_entries es \<longleftrightarrow> (\<forall>e \<in> set es. plain_entry e)"

lemma plain_entries_simps [simp]:
  "plain_entries []" "plain_entries (e # xs) \<longleftrightarrow> plain_entry e \<and> plain_entries xs" "plain_entries (xs @ ys) \<longleftrightarrow> plain_entries xs \<and> plain_entries ys"
  "plain_entries xs \<Longrightarrow> plain_entries (filter P xs)"
  by (auto simp: plain_entries_def)

text \<open>
  What the program relies on \<open>serde_json\<close> for: such a value survives printing and parsing, and what
  prints as an array is one.
\<close>

definition serde_ok :: "cenv \<Rightarrow> bool" where
  "serde_ok env \<longleftrightarrow> (\<forall>v. plain_to 127 v \<longrightarrow> ce_parse env (ce_print env v) = Some v)
     \<and> (\<forall>v xs. ce_parse env (ce_print env v) = Some (JArr xs) \<longrightarrow> (\<exists>ys. v = JArr ys)) \<and> ce_parse env ''[]'' = Some (JArr [])"

lemma parse_print_entries [simp]:
  "serde_ok env \<Longrightarrow> plain_entries es \<Longrightarrow> parse_entries env (ce_print env (JArr es)) = es"
  by (simp add: serde_ok_def parse_entries_def plain_entries_def plain_entry_def)

lemma parse_entries_empty [simp]: "serde_ok env \<Longrightarrow> parse_entries env ''[]'' = []"
  by (simp add: serde_ok_def parse_entries_def)

definition entries_of :: "cenv \<Rightarrow> db \<Rightarrow> str \<Rightarrow> json list" where
  "entries_of env db n =
     (case row_at cf_node (t_configs db) n of Some c \<Rightarrow> parse_entries env (cf_schedules c) | None \<Rightarrow> [])"

lemma entries_of_cong: "t_configs db = t_configs db' \<Longrightarrow> entries_of env db n = entries_of env db' n"
  by (simp add: entries_of_def)

lemma entries_of_update [simp]:
  "entries_of env (db\<lparr>t_schedule_nodes := ns\<rparr>) n = entries_of env db n"
  "entries_of env (db\<lparr>t_schedules := ss\<rparr>) n = entries_of env db n"
  "entries_of env (db\<lparr>t_resolutions := rs\<rparr>) n = entries_of env db n"
  "entries_of env (db\<lparr>t_audit := au\<rparr>) n = entries_of env db n"
  "entries_of env (db\<lparr>uuids_drawn := k\<rparr>) n = entries_of env db n"
  by (simp_all add: entries_of_def)

definition same_but_configs :: "db \<Rightarrow> db \<Rightarrow> bool" where
  "same_but_configs db db' = (db' = db\<lparr>t_configs := t_configs db'\<rparr>)"

lemma same_but_configs_simps:
  assumes "same_but_configs db db'"
  shows "t_nodes db' = t_nodes db" "t_tags db' = t_tags db" "t_schedules db' = t_schedules db"
    "t_schedule_nodes db' = t_schedule_nodes db" "t_resolutions db' = t_resolutions db" "t_audit db' = t_audit db"
    "uuids_drawn db' = uuids_drawn db"
  using assms unfolding same_but_configs_def
  by (metis db.select_convs db.surjective db.update_convs(3))+

lemma same_but_configs_refl [simp]: "same_but_configs db db"
  by (simp add: same_but_configs_def)

lemma same_but_configs_trans: "same_but_configs a b \<Longrightarrow> same_but_configs b c \<Longrightarrow> same_but_configs a c"
  unfolding same_but_configs_def by (metis db.surjective db.update_convs(3))

lemma same_but_configs_update [simp]: "same_but_configs db (db\<lparr>t_configs := cs\<rparr>)"
  by (simp add: same_but_configs_def)

lemma lock_config_entries:
  assumes "serde_ok env" "lock_config env db n = Ok (db', es, specs)"
  shows "es = entries_of env db n" "entries_of env db' m = entries_of env db m" "same_but_configs db db'"
    "row_at cf_node (t_configs db') n \<noteq> None"
  using assms
  by (auto simp: lock_config_def entries_of_def Let_def row_at_insert_ignore split: if_splits option.splits)

lemma write_schedules_entries:
  assumes "serde_ok env" "row_at cf_node (t_configs db) n \<noteq> None" "m = n \<Longrightarrow> plain_entries es"
  shows "entries_of env (write_schedules env db n es) m = (if m = n then es else entries_of env db m)"
proof -
  have "row_at cf_node (t_configs (write_schedules env db n es)) m = map_option
      (\<lambda>c. if cf_node c = n then c\<lparr>cf_schedules := ce_print env (JArr es), cf_generation := cf_generation c + 1\<rparr> else c)
      (row_at cf_node (t_configs db) m)"
    unfolding write_schedules_def update_where_def by (simp, rule row_at_map) simp
  with assms row_at_key [of cf_node "t_configs db" m] show ?thesis
    by (auto simp: entries_of_def split: option.splits)
qed

lemma write_schedules_frame [simp]: "same_but_configs db (write_schedules env db n es)"
  by (simp add: write_schedules_def)

text \<open>The entries a schedule writes are plain when its interval fits \<open>i64\<close>.\<close>

definition small_interval :: "nat option \<Rightarrow> bool" where
  "small_interval i = (case i of Some n \<Rightarrow> int n < 9223372036854775808 | None \<Rightarrow> True)"

lemma map_insert_set: "set (map_insert k v fs) \<subseteq> insert (k, v) (set fs)" "set (map_remove k fs) \<subseteq> set fs"
  by (auto simp: map_insert_def map_remove_def set_insort_key)

definition plain_fields :: "(str \<times> json) list \<Rightarrow> bool" where
  "plain_fields fs \<longleftrightarrow> json_map fs \<and> (\<forall>f \<in> set fs. plain_to 125 (snd f))"

lemma plain_fields_simps [simp]:
  "plain_fields []" "plain_fields fs \<Longrightarrow> plain_fields (map_remove k fs)"
  "plain_fields fs \<Longrightarrow> plain_to 125 v \<Longrightarrow> plain_fields (map_insert k v fs)"
  using map_insert_set by (fastforce simp: plain_fields_def)+

lemma plain_JObj [simp]: "plain_entry (JObj fs) \<longleftrightarrow> plain_fields fs"
  by (simp add: plain_fields_def plain_entry_def)

lemma plain_schedule_entry [simp]:
  "small_interval interval \<Longrightarrow> plain_entry (schedule_entry spec_id interval cron enabled origin)"
  by (cases interval; cases cron) (simp_all add: schedule_entry_def small_interval_def Let_def)

lemma plain_patch_entry [simp]:
  "small_interval (tm_interval tm) \<Longrightarrow> plain_entry e \<Longrightarrow> plain_entry (patch_entry tm enabled e)"
proof (cases e)
  case (JObj fs)
  assume "small_interval (tm_interval tm)" "plain_entry e"
  with JObj show ?thesis
    by (cases "tm_interval tm"; cases "tm_cron tm") (simp_all add: patch_entry_def small_interval_def Let_def)
qed (simp_all add: patch_entry_def)

lemma give_entry_entries:
  assumes "serde_ok env" "give_entry env db spec_id interval cron enabled origin n = Ok (db', state, ws)"
  shows "plain_entries (entries_of env db m) \<Longrightarrow> small_interval interval \<Longrightarrow>
      entries_of env db' m = (if m = n \<and> state = ''active''
       then entries_of env db n @ [schedule_entry spec_id interval cron enabled origin] else entries_of env db m)"
    "same_but_configs db db'" "state \<in> {''active'', ''skipped_exists''}"
    "state = ''skipped_exists'' \<longleftrightarrow> has_spec (entries_of env db n) spec_id"
proof -
  from assms(2) obtain db1 es specs where l: "lock_config env db n = Ok (db1, es, specs)"
      and g: "if has_spec es spec_id then db' = db1 \<and> state = ''skipped_exists''
        else db' = write_schedules env db1 n (es @ [schedule_entry spec_id interval cron enabled origin]) \<and> state = ''active''"
    by (auto simp: give_entry_def Let_def split: if_splits)
  note lock = lock_config_entries [OF assms(1) l]
  show "plain_entries (entries_of env db m) \<Longrightarrow> small_interval interval \<Longrightarrow>
      entries_of env db' m = (if m = n \<and> state = ''active''
       then entries_of env db n @ [schedule_entry spec_id interval cron enabled origin] else entries_of env db m)"
    using g lock write_schedules_entries [OF assms(1) lock(4)] by (auto split: if_splits)
  show "same_but_configs db db'" using g lock(3) same_but_configs_trans write_schedules_frame by (auto split: if_splits)
  show "state \<in> {''active'', ''skipped_exists''}" "state = ''skipped_exists'' \<longleftrightarrow> has_spec (entries_of env db n) spec_id"
    using g lock(1) by (auto split: if_splits)
qed

definition others :: "str \<Rightarrow> json list \<Rightarrow> json list" where
  "others origin es = filter (\<lambda>e. text_field ''origin'' e \<noteq> Some origin) es"

definition own :: "str \<Rightarrow> json list \<Rightarrow> json list" where
  "own origin es = filter (\<lambda>e. text_field ''origin'' e = Some origin) es"

lemma own_simps [simp]:
  "own origin [] = []" "own origin (xs @ ys) = own origin xs @ own origin ys" "own origin (others origin es) = []"
  "others origin [] = []" "others origin (xs @ ys) = others origin xs @ others origin ys"
  "others origin (others origin es) = others origin es" "plain_entries es \<Longrightarrow> plain_entries (others origin es)"
  by (auto simp: own_def others_def)

lemma own_others: "origin \<noteq> origin' \<Longrightarrow> own origin (others origin' es) = own origin es"
  unfolding own_def others_def filter_filter by (rule filter_cong) auto

lemma has_origin_own: "has_origin es origin \<longleftrightarrow> own origin es \<noteq> []"
  by (auto simp: has_origin_def own_def list_ex_iff filter_empty_conv)

lemma take_entry_entries:
  assumes "serde_ok env" "take_entry env db origin n = Ok db'"
  shows "plain_entries (entries_of env db m) \<Longrightarrow> entries_of env db' m = (if m = n then others origin (entries_of env db n) else entries_of env db m)"
    "same_but_configs db db'"
proof -
  from assms(2) obtain db1 es specs where l: "lock_config env db n = Ok (db1, es, specs)"
      and g: "db' = write_schedules env db1 n (others origin es)"
    by (auto simp: take_entry_def others_def)
  note lock = lock_config_entries [OF assms(1) l]
  show "plain_entries (entries_of env db m) \<Longrightarrow>
      entries_of env db' m = (if m = n then others origin (entries_of env db n) else entries_of env db m)"
    using g lock write_schedules_entries [OF assms(1) lock(4)] by auto
  show "same_but_configs db db'" using g lock(3) same_but_configs_trans write_schedules_frame by blast
qed

subsection \<open>The entry of a schedule\<close>

lemma schedule_entry_fields [simp]:
  "text_field ''origin'' (schedule_entry spec_id interval cron enabled origin) = Some origin"
  "text_field ''spec_id'' (schedule_entry spec_id interval cron enabled origin) = Some spec_id"
  by (cases interval; cases cron; simp add: schedule_entry_def map_insert_def map_remove_def text_field_def Let_def)+

lemma own_entry [simp]:
  "own origin [schedule_entry spec_id interval cron enabled origin'] =
     (if origin = origin' then [schedule_entry spec_id interval cron enabled origin'] else [])"
  by (simp add: own_def)

lemma others_entry [simp]:
  "others origin [schedule_entry spec_id interval cron enabled origin'] =
     (if origin = origin' then [] else [schedule_entry spec_id interval cron enabled origin'])"
  by (simp add: others_def)

text \<open>Patching the entry of a schedule gives the entry of the patched schedule.\<close>

lemma patch_schedule_entry:
  "patch_entry tm enabled (schedule_entry spec_id interval cron e origin) =
     schedule_entry spec_id (tm_interval tm) (tm_cron tm) enabled origin"
  unfolding schedule_entry_def patch_entry_def Let_def json.case json.inject
  by (rule json_map_eq; cases interval; cases cron; cases "tm_interval tm"; cases "tm_cron tm")
    (simp_all add: fun_eq_iff)

lemma patch_entry_origin [simp]: "text_field ''origin'' (patch_entry tm enabled e) = text_field ''origin'' e"
  by (cases e; cases "tm_interval tm"; cases "tm_cron tm"; simp add: patch_entry_def text_field_def Let_def)

subsection \<open>States and entries agree\<close>

definition entry_for :: "schedule_row \<Rightarrow> json" where
  "entry_for s = schedule_entry (sc_spec s) (Option.bind (sc_interval s) i64_to_u64) (filter_text (sc_cron s))
     (sc_enabled s) (origin_of (sc_id s))"

text \<open>The agreement on all nodes outside \<open>K\<close>.\<close>

definition states_ok :: "cenv \<Rightarrow> str set \<Rightarrow> db \<Rightarrow> bool" where
  "states_ok env K db \<longleftrightarrow>
     (\<forall>r \<in> set (t_schedule_nodes db). sn_node r \<notin> K \<longrightarrow> sn_state r = ''active'' \<longrightarrow>
        (\<exists>s. row_at sc_id (t_schedules db) (sn_schedule r) = Some s
           \<and> own (origin_of (sn_schedule r)) (entries_of env db (sn_node r)) = [entry_for s]))
     \<and> (\<forall>sid n. n \<notin> K \<longrightarrow> own (origin_of sid) (entries_of env db n) \<noteq> [] \<longrightarrow>
        (\<exists>r \<in> set (t_schedule_nodes db). sn_schedule r = sid \<and> sn_node r = n \<and> sn_state r = ''active''))
     \<and> (\<forall>n. n \<notin> K \<longrightarrow> plain_entries (entries_of env db n))"

lemma states_okI:
  assumes "\<And>r. r \<in> set (t_schedule_nodes db) \<Longrightarrow> sn_node r \<notin> K \<Longrightarrow> sn_state r = ''active'' \<Longrightarrow>
      \<exists>s. row_at sc_id (t_schedules db) (sn_schedule r) = Some s
        \<and> own (origin_of (sn_schedule r)) (entries_of env db (sn_node r)) = [entry_for s]"
    "\<And>sid n. n \<notin> K \<Longrightarrow> own (origin_of sid) (entries_of env db n) \<noteq> [] \<Longrightarrow>
      \<exists>r \<in> set (t_schedule_nodes db). sn_schedule r = sid \<and> sn_node r = n \<and> sn_state r = ''active''"
    "\<And>n. n \<notin> K \<Longrightarrow> plain_entries (entries_of env db n)"
  shows "states_ok env K db"
  using assms unfolding states_ok_def by blast

lemma states_okD1:
  "states_ok env K db \<Longrightarrow> r \<in> set (t_schedule_nodes db) \<Longrightarrow> sn_node r \<notin> K \<Longrightarrow> sn_state r = ''active'' \<Longrightarrow>
   \<exists>s. row_at sc_id (t_schedules db) (sn_schedule r) = Some s
     \<and> own (origin_of (sn_schedule r)) (entries_of env db (sn_node r)) = [entry_for s]"
  unfolding states_ok_def by blast

lemma states_okD2:
  "states_ok env K db \<Longrightarrow> n \<notin> K \<Longrightarrow> own (origin_of sid) (entries_of env db n) \<noteq> [] \<Longrightarrow>
   \<exists>r \<in> set (t_schedule_nodes db). sn_schedule r = sid \<and> sn_node r = n \<and> sn_state r = ''active''"
  unfolding states_ok_def by blast

lemma states_okD3: "states_ok env K db \<Longrightarrow> n \<notin> K \<Longrightarrow> plain_entries (entries_of env db n)"
  unfolding states_ok_def by blast

lemma states_ok_cong:
  "states_ok env K db \<Longrightarrow> t_configs db' = t_configs db \<Longrightarrow> t_schedules db' = t_schedules db \<Longrightarrow>
   t_schedule_nodes db' = t_schedule_nodes db \<Longrightarrow> states_ok env K db'"
  by (simp add: states_ok_def entries_of_def)

lemma states_ok_mono: "states_ok env K db \<Longrightarrow> K \<subseteq> L \<Longrightarrow> states_ok env L db"
  unfolding states_ok_def by blast

lemma origin_of_inject [simp]: "origin_of a = origin_of b \<longleftrightarrow> a = b"
  by (simp add: origin_of_def)

text \<open>Nodes get the entry of a schedule.\<close>

definition attached :: "cenv \<Rightarrow> str \<Rightarrow> json \<Rightarrow> node_state list \<Rightarrow> db \<Rightarrow> db \<Rightarrow> bool" where
  "attached env sid e per db db' \<longleftrightarrow>
     (\<forall>m. plain_entries (entries_of env db m) \<longrightarrow>
        entries_of env db' m = entries_of env db m @ (if (m, ''active'') \<in> set per then [e] else []))
     \<and> t_schedule_nodes db' = t_schedule_nodes db @ map (\<lambda>(n, st). \<lparr>sn_schedule = sid, sn_node = n, sn_state = st\<rparr>) per
     \<and> t_nodes db' = t_nodes db \<and> t_tags db' = t_tags db \<and> t_schedules db' = t_schedules db
     \<and> t_resolutions db' = t_resolutions db \<and> t_audit db' = t_audit db \<and> uuids_drawn db' = uuids_drawn db"

lemma attached_Nil [simp]: "attached env sid e [] db db"
  by (simp add: attached_def)

lemma attached_Cons:
  assumes "serde_ok env" "give_entry env db spec_id interval cron enabled (origin_of sid) n = Ok (db1, state, ws)"
    "attached env sid (schedule_entry spec_id interval cron enabled (origin_of sid)) per
       (db1\<lparr>t_schedule_nodes := t_schedule_nodes db1 @ [\<lparr>sn_schedule = sid, sn_node = n, sn_state = state\<rparr>]\<rparr>) db'"
    "n \<notin> fst ` set per" "small_interval interval"
  shows "attached env sid (schedule_entry spec_id interval cron enabled (origin_of sid)) ((n, state) # per) db db'"
proof -
  note g = give_entry_entries [OF assms(1,2)]
  let ?e = "schedule_entry spec_id interval cron enabled (origin_of sid)"
  have e: "plain_entry ?e" using assms(5) by simp
  have "(n, ''active'') \<notin> set per" using assms(4) by force
  moreover have one: "entries_of env db1 m = entries_of env db m @ (if m = n \<and> state = ''active'' then [?e] else [])"
      "plain_entries (entries_of env db1 m)" if "plain_entries (entries_of env db m)" for m
  proof -
    have "entries_of env db1 m = (if m = n \<and> state = ''active'' then entries_of env db n @ [?e] else entries_of env db m)"
      by (rule g(1) [OF that assms(5)])
    then show "entries_of env db1 m = entries_of env db m @ (if m = n \<and> state = ''active'' then [?e] else [])"
      by simp
    with that e show "plain_entries (entries_of env db1 m)" by (auto simp: plain_entries_def)
  qed
  moreover have "entries_of env db' m = entries_of env db1 m @ (if (m, ''active'') \<in> set per then [?e] else [])"
    if "plain_entries (entries_of env db m)" for m
    using assms(3) one(2) [OF that] by (simp add: attached_def)
  ultimately show ?thesis
    using assms(3) same_but_configs_simps [OF g(2)]
    by (simp add: attached_def) fastforce
qed

lemma create_nodes_attached:
  assumes "serde_ok env" "create_nodes env sid spec_id tm enabled ns db = Ok (db', per, ws)" "distinct ns"
    "small_interval (tm_interval tm)"
  shows "attached env sid (schedule_entry spec_id (tm_interval tm) (tm_cron tm) enabled (origin_of sid)) per db db'
    \<and> map fst per = ns \<and> (\<forall>n \<in> set ns. (sid, n) \<notin> node_state_key ` set (t_schedule_nodes db))"
  using assms(2,3)
proof (induction ns arbitrary: db per ws)
  case (Cons n ns)
  from Cons.prems(1) obtain db1 state ws1 per1 ws2 where
      g: "give_entry env db spec_id (tm_interval tm) (tm_cron tm) enabled (origin_of sid) n = Ok (db1, state, ws1)"
      and k: "\<forall>r \<in> set (t_schedule_nodes db1). node_state_key r \<noteq> (sid, n)"
      and c: "create_nodes env sid spec_id tm enabled ns
        (db1\<lparr>t_schedule_nodes := t_schedule_nodes db1 @ [\<lparr>sn_schedule = sid, sn_node = n, sn_state = state\<rparr>]\<rparr>) = Ok (db', per1, ws2)"
      and p: "per = (n, state) # per1"
    by (auto simp: list_ex_iff split: if_splits)
  have "t_schedule_nodes db1 = t_schedule_nodes db"
    using same_but_configs_simps(4) [OF give_entry_entries(2) [OF assms(1) g]] .
  moreover note i = Cons.IH [OF c]
  moreover have "n \<notin> fst ` set per1" using i Cons.prems(2) by (metis distinct.simps(2) list.set_map)
  ultimately show ?case
    using attached_Cons [OF assms(1) g _ _ assms(4), of per1 db'] i k p Cons.prems(2) by (auto simp: image_iff node_state_key_def)
qed simp

lemma attached_states_ok:
  assumes ok: "states_ok env K db" and at: "attached env sid (entry_for s) per db db'"
    and s: "row_at sc_id (t_schedules db) sid = Some s"
    and new: "\<forall>n \<in> fst ` set per. (sid, n) \<notin> node_state_key ` set (t_schedule_nodes db)"
    and pl: "plain_entry (entry_for s)"
  shows "states_ok env K db'"
proof (rule states_okI)
  have sid: "sc_id s = sid" using row_at_key [OF s] by simp
  have e: "own (origin_of k) [entry_for s] = (if k = sid then [entry_for s] else [])" for k
    by (auto simp: entry_for_def sid)
  have en: "entries_of env db' m = entries_of env db m @ (if (m, ''active'') \<in> set per then [entry_for s] else [])"
    if "m \<notin> K" for m using at states_okD3 [OF ok that] by (simp add: attached_def)
  have rows: "t_schedule_nodes db' = t_schedule_nodes db @ map (\<lambda>(n, st). \<lparr>sn_schedule = sid, sn_node = n, sn_state = st\<rparr>) per"
    and sch: "t_schedules db' = t_schedules db" using at by (simp_all add: attached_def)
  have clean: "own (origin_of sid) (entries_of env db n) = []" if "(n, st) \<in> set per" "n \<notin> K" for n st
    using states_okD2 [OF ok that(2), of sid] new that(1) by (force simp: node_state_key_def)
  fix r assume r: "r \<in> set (t_schedule_nodes db')" "sn_node r \<notin> K" "sn_state r = ''active''"
  show "\<exists>s. row_at sc_id (t_schedules db') (sn_schedule r) = Some s
      \<and> own (origin_of (sn_schedule r)) (entries_of env db' (sn_node r)) = [entry_for s]"
  proof (cases "r \<in> set (t_schedule_nodes db)")
    case True
    then have "\<not> (sn_schedule r = sid \<and> (sn_node r, ''active'') \<in> set per)"
      using new by (force simp: node_state_key_def)
    then show ?thesis using states_okD1 [OF ok True r(2,3)] r(2) by (auto simp: en e sch)
  next
    case False
    then obtain n st where "(n, st) \<in> set per" "r = \<lparr>sn_schedule = sid, sn_node = n, sn_state = st\<rparr>"
      using r(1) rows by auto
    then show ?thesis using r(2,3) clean s by (simp add: en e sch)
  qed
next
  fix k n
  have sid: "sc_id s = sid" using row_at_key [OF s] by simp
  assume n: "n \<notin> K" and "own (origin_of k) (entries_of env db' n) \<noteq> []"
  then consider "own (origin_of k) (entries_of env db n) \<noteq> []" | "k = sid" "(n, ''active'') \<in> set per"
    using at sid states_okD3 [OF ok n] by (auto simp: attached_def entry_for_def split: if_splits)
  then show "\<exists>r \<in> set (t_schedule_nodes db'). sn_schedule r = k \<and> sn_node r = n \<and> sn_state r = ''active''"
  proof cases
    case 1
    then show ?thesis using states_okD2 [OF ok n] at by (fastforce simp: attached_def)
  next
    case 2
    let ?r = "\<lparr>sn_schedule = sid, sn_node = n, sn_state = ''active''\<rparr>"
    have "?r \<in> set (t_schedule_nodes db')" using 2 at by (force simp: attached_def)
    with 2 show ?thesis by (intro bexI [of _ ?r]) simp_all
  qed
next
  fix n assume "n \<notin> K"
  with states_okD3 [OF ok this] at pl show "plain_entries (entries_of env db' n)"
    by (simp add: attached_def plain_entries_def) blast
qed

text \<open>Nodes lose the entry of a schedule.\<close>

lemma drop_state_entries:
  assumes "serde_ok env" "drop_state env sid db n = Ok db'"
  shows "plain_entries (entries_of env db m) \<Longrightarrow> entries_of env db' m = (if m = n then others (origin_of sid) (entries_of env db n) else entries_of env db m)"
    "t_schedule_nodes db' = delete_where (\<lambda>r. sn_schedule r = sid \<and> sn_node r = n) (t_schedule_nodes db)"
    "t_nodes db' = t_nodes db" "t_schedules db' = t_schedules db" "t_resolutions db' = t_resolutions db"
    "t_audit db' = t_audit db" "uuids_drawn db' = uuids_drawn db" "t_tags db' = t_tags db"
proof -
  from assms(2) obtain d where d: "take_entry env db (origin_of sid) n = Ok d"
      "db' = d\<lparr>t_schedule_nodes := delete_where (\<lambda>r. sn_schedule r = sid \<and> sn_node r = n) (t_schedule_nodes d)\<rparr>"
    by (auto simp: drop_state_def)
  note t = take_entry_entries [OF assms(1) d(1)]
  show "plain_entries (entries_of env db m) \<Longrightarrow> entries_of env db' m = (if m = n then others (origin_of sid) (entries_of env db n) else entries_of env db m)"
    using t(1) d(2) by simp
  show "t_schedule_nodes db' = delete_where (\<lambda>r. sn_schedule r = sid \<and> sn_node r = n) (t_schedule_nodes db)"
    "t_nodes db' = t_nodes db" "t_schedules db' = t_schedules db" "t_resolutions db' = t_resolutions db"
    "t_audit db' = t_audit db" "uuids_drawn db' = uuids_drawn db" "t_tags db' = t_tags db"
    using same_but_configs_simps [OF t(2)] d(2) by simp_all
qed

lemma own_others_cases: "own (origin_of k) (others (origin_of sid) es) = (if k = sid then [] else own (origin_of k) es)"
  by (simp add: own_others)

lemma drop_state_ok:
  assumes "serde_ok env" "states_ok env K db" "drop_state env sid db n = Ok db'"
  shows "states_ok env K db'"
proof (rule states_okI)
  note d = drop_state_entries [OF assms(1,3)]
  fix r assume r: "r \<in> set (t_schedule_nodes db')" "sn_node r \<notin> K" "sn_state r = ''active''"
  then have "r \<in> set (t_schedule_nodes db)" "\<not> (sn_schedule r = sid \<and> sn_node r = n)" by (simp_all add: d(2))
  then show "\<exists>s. row_at sc_id (t_schedules db') (sn_schedule r) = Some s
      \<and> own (origin_of (sn_schedule r)) (entries_of env db' (sn_node r)) = [entry_for s]"
    using states_okD1 [OF assms(2) _ r(2,3)] d(1) [OF states_okD3 [OF assms(2) r(2)]] by (auto simp: d(4) own_others_cases)
next
  note d = drop_state_entries [OF assms(1,3)]
  fix k m assume m: "m \<notin> K" and "own (origin_of k) (entries_of env db' m) \<noteq> []"
  then have "own (origin_of k) (entries_of env db m) \<noteq> []" "\<not> (k = sid \<and> m = n)"
    using states_okD3 [OF assms(2) m] by (auto simp: d(1) own_others_cases split: if_splits)
  then show "\<exists>r \<in> set (t_schedule_nodes db'). sn_schedule r = k \<and> sn_node r = m \<and> sn_state r = ''active''"
    using states_okD2 [OF assms(2) m] by (fastforce simp: d(2))
next
  fix m assume m: "m \<notin> K"
  then show "plain_entries (entries_of env db' m)"
    using drop_state_entries(1) [OF assms(1,3), of m] states_okD3 [OF assms(2)] by (auto split: if_splits)
qed

lemma drop_states_ok:
  assumes "serde_ok env" "states_ok env K db" "each_node (drop_state env sid) ns db = Ok db'"
  shows "states_ok env K db'
    \<and> t_schedule_nodes db' = delete_where (\<lambda>r. sn_schedule r = sid \<and> sn_node r \<in> set ns) (t_schedule_nodes db)
    \<and> t_nodes db' = t_nodes db \<and> t_schedules db' = t_schedules db \<and> t_resolutions db' = t_resolutions db
    \<and> t_audit db' = t_audit db \<and> uuids_drawn db' = uuids_drawn db \<and> t_tags db' = t_tags db"
  using assms(2,3)
proof (induction ns arbitrary: db)
  case Nil
  then show ?case by (simp add: delete_where_def)
next
  case (Cons n ns)
  then obtain d where d: "drop_state env sid db n = Ok d" "each_node (drop_state env sid) ns d = Ok db'" by auto
  from Cons.IH [OF drop_state_ok [OF assms(1) Cons.prems(1) d(1)] d(2)] drop_state_entries(2-) [OF assms(1) d(1)]
  show ?case by (auto simp: delete_where_def intro: filter_cong)
qed

lemma take_entries:
  assumes "serde_ok env" "each_node (\<lambda>d n. take_entry env d origin n) ns db = Ok db'"
  shows "(\<forall>m. plain_entries (entries_of env db m) \<longrightarrow>
      entries_of env db' m = (if m \<in> set ns then others origin (entries_of env db m) else entries_of env db m))
    \<and> same_but_configs db db'"
  using assms(2)
proof (induction ns arbitrary: db)
  case (Cons n ns)
  then obtain d where d: "take_entry env db origin n = Ok d" "each_node (\<lambda>d n. take_entry env d origin n) ns d = Ok db'" by auto
  note t = take_entry_entries [OF assms(1) d(1)]
  have step: "plain_entries (entries_of env db m) \<Longrightarrow> plain_entries (entries_of env d m)
      \<and> entries_of env d m = (if m = n then others origin (entries_of env db m) else entries_of env db m)" for m
    using t(1) [of m] by auto
  have "plain_entries (entries_of env db m) \<Longrightarrow>
      entries_of env db' m = (if m \<in> set (n # ns) then others origin (entries_of env db m) else entries_of env db m)" for m
    using Cons.IH [OF d(2)] step [of m] by auto
  with Cons.IH [OF d(2)] t(2) same_but_configs_trans show ?case by blast
qed simp

text \<open>The entries of a schedule are patched.\<close>

definition patch_own :: "str \<Rightarrow> timing \<Rightarrow> bool \<Rightarrow> json list \<Rightarrow> json list" where
  "patch_own origin tm enabled = map (\<lambda>e. if text_field ''origin'' e = Some origin then patch_entry tm enabled e else e)"

lemma own_patch_own: "own origin' (patch_own origin tm enabled es) =
    (if origin' = origin then map (patch_entry tm enabled) (own origin es) else own origin' es)"
  by (induction es) (auto simp: own_def patch_own_def)

lemma others_patch_own [simp]: "others origin (patch_own origin tm enabled es) = others origin es"
  by (induction es) (auto simp: others_def patch_own_def)

lemma plain_patch_own [simp]:
  "small_interval (tm_interval tm) \<Longrightarrow> plain_entries es \<Longrightarrow> plain_entries (patch_own origin tm enabled es)"
  by (auto simp: plain_entries_def patch_own_def)

lemma patch_own_none: "\<not> has_origin es origin \<Longrightarrow> patch_own origin tm enabled es = es"
  by (induction es) (auto simp: has_origin_def patch_own_def)

lemma patch_node_entries:
  assumes "serde_ok env" "patch_node env db origin tm enabled n = Ok db'"
  shows "plain_entries (entries_of env db m) \<Longrightarrow> small_interval (tm_interval tm) \<Longrightarrow>
      entries_of env db' m = (if m = n then patch_own origin tm enabled (entries_of env db n) else entries_of env db m)"
    "same_but_configs db db'"
proof -
  from assms(2) obtain db1 es specs where l: "lock_config env db n = Ok (db1, es, specs)"
    by (auto simp: patch_node_def)
  with assms(2) have g: "db' = (if has_origin es origin then write_schedules env db1 n (patch_own origin tm enabled es) else db1)"
    by (simp add: patch_node_def patch_own_def split: if_splits)
  note lock = lock_config_entries [OF assms(1) l]
  show "plain_entries (entries_of env db m) \<Longrightarrow> small_interval (tm_interval tm) \<Longrightarrow>
      entries_of env db' m = (if m = n then patch_own origin tm enabled (entries_of env db n) else entries_of env db m)"
    using g lock write_schedules_entries [OF assms(1) lock(4)] patch_own_none by auto
  show "same_but_configs db db'" using g lock(3) same_but_configs_trans write_schedules_frame by auto
qed

lemma patch_nodes_entries:
  assumes "serde_ok env" "each_node (\<lambda>d n. patch_node env d origin tm enabled n) ns db = Ok db'" "distinct ns"
    "small_interval (tm_interval tm)"
  shows "(\<forall>m. plain_entries (entries_of env db m) \<longrightarrow>
      entries_of env db' m = (if m \<in> set ns then patch_own origin tm enabled (entries_of env db m) else entries_of env db m))
    \<and> same_but_configs db db'"
  using assms(2,3)
proof (induction ns arbitrary: db)
  case (Cons n ns)
  then obtain d where d: "patch_node env db origin tm enabled n = Ok d"
    "each_node (\<lambda>d n. patch_node env d origin tm enabled n) ns d = Ok db'" by auto
  note t = patch_node_entries [OF assms(1) d(1)]
  have step: "plain_entries (entries_of env db m) \<Longrightarrow> plain_entries (entries_of env d m)
      \<and> entries_of env d m = (if m = n then patch_own origin tm enabled (entries_of env db m) else entries_of env db m)" for m
    using t(1) [of m] assms(4) by auto
  have ih: "(\<forall>m. plain_entries (entries_of env d m) \<longrightarrow>
      entries_of env db' m = (if m \<in> set ns then patch_own origin tm enabled (entries_of env d m) else entries_of env d m))
    \<and> same_but_configs d db'"
    by (rule Cons.IH [OF d(2)]) (use Cons.prems(2) in simp)
  have "plain_entries (entries_of env db m) \<Longrightarrow>
      entries_of env db' m = (if m \<in> set (n # ns) then patch_own origin tm enabled (entries_of env db m) else entries_of env db m)" for m
    using ih step [of m] Cons.prems(2) by auto
  with ih t(2) same_but_configs_trans show ?case by blast
qed simp

end
