(* ===== verification/Target_Schedules_Correct.thy ===== *)
theory Target_Schedules_Correct
  imports Target_Entries "HOL-Library.Countable"
begin

text \<open>
  The schedules of targets are consistent with the configurations of the nodes: where a schedule
  says that it is active, the node has exactly one entry with its origin, made from the
  schedule's own row, and no entry outlives its schedule. The invariant is kept by every
  operation, so it holds after any sequence of them.
\<close>

subsection \<open>The invariant of schedules\<close>

definition rows_of :: "db \<Rightarrow> str \<Rightarrow> str set" where
  "rows_of db sid = {sn_node r | r. r \<in> set (t_schedule_nodes db) \<and> sn_schedule r = sid}"

definition row_fits :: "schedule_row \<Rightarrow> bool" where
  "row_fits s \<longleftrightarrow> (\<exists>i. small_interval i \<and> sc_interval s = map_option u64_as_i64 i) \<and> filter_text (sc_cron s) = sc_cron s"

definition drawn :: "cenv \<Rightarrow> db \<Rightarrow> str \<Rightarrow> bool" where
  "drawn env db i \<longleftrightarrow> (\<exists>k < uuids_drawn db. i = ce_uuid env k)"

definition row_ok :: "cenv \<Rightarrow> db \<Rightarrow> schedule_row \<Rightarrow> bool" where
  "row_ok env db s \<longleftrightarrow> drawn env db (sc_id s) \<and> row_fits s
     \<and> (\<exists>r. row_at rr_id (t_resolutions db) (sc_resolution s) = Some r \<and> rows_of db (sc_id s) = set (rr_node_ids r))"

definition rows_ok :: "cenv \<Rightarrow> db \<Rightarrow> bool" where
  "rows_ok env db \<longleftrightarrow>
     distinct (map node_state_key (t_schedule_nodes db)) \<and> distinct (map nd_id (t_nodes db))
     \<and> distinct (map sc_id (t_schedules db)) \<and> (\<forall>s \<in> set (t_schedules db). row_ok env db s)
     \<and> (\<forall>r \<in> set (t_schedule_nodes db). sn_schedule r \<in> sc_id ` set (t_schedules db))
     \<and> (\<forall>r \<in> set (t_resolutions db). drawn env db (rr_id r))"

definition sched_ok :: "cenv \<Rightarrow> str set \<Rightarrow> db \<Rightarrow> bool" where
  "sched_ok env K db \<longleftrightarrow> states_ok env K db \<and> rows_ok env db"

lemma drawn_mono: "drawn env db i \<Longrightarrow> uuids_drawn db \<le> uuids_drawn db' \<Longrightarrow> drawn env db' i"
  by (auto simp: drawn_def intro: less_le_trans)

lemma drawn_fresh: "inj (ce_uuid env) \<Longrightarrow> uuids_drawn db \<le> k \<Longrightarrow> \<not> drawn env db (ce_uuid env k)"
  by (auto simp: drawn_def inj_eq)

lemma i64_roundtrip: "small_interval i \<Longrightarrow> Option.bind (map_option u64_as_i64 i) i64_to_u64 = i"
  by (cases i) (auto simp: small_interval_def u64_as_i64_def i64_to_u64_def)

lemma row_fits_plain: "row_fits s \<Longrightarrow> plain_entry (entry_for s)"
  unfolding entry_for_def by (rule plain_schedule_entry) (auto simp: row_fits_def i64_roundtrip)

lemma sched_ok_cong:
  assumes "sched_ok env K db" "t_configs db' = t_configs db" "t_schedules db' = t_schedules db"
    "t_schedule_nodes db' = t_schedule_nodes db" "t_resolutions db' = t_resolutions db" "t_nodes db' = t_nodes db"
    "uuids_drawn db \<le> uuids_drawn db'"
  shows "sched_ok env K db'"
proof -
  have "row_ok env db s \<Longrightarrow> row_ok env db' s" for s
    using drawn_mono assms(7) by (auto simp: row_ok_def rows_of_def assms)
  then show ?thesis using assms(1) drawn_mono [OF _ assms(7)] states_ok_cong [OF _ assms(2-4)]
    by (auto simp: sched_ok_def rows_ok_def assms(3-6))
qed

lemma row_at_append_Some: "row_at key xs k = Some r \<Longrightarrow> row_at key (xs @ ys) k = Some r"
  by (simp add: row_at_append)

lemma check_submit_sched_ok:
  "sched_ok env K db \<Longrightarrow> check_submit env db h t c kind tid = (db', r) \<Longrightarrow> sched_ok env K db'"
proof (cases r)
  case (Inl e)
  assume ok: "sched_ok env K db" and "check_submit env db h t c kind tid = (db', r)"
  with Inl check_submit_Err have "db' = db \<or> (\<exists>code sel ids. db' = refuse env db kind tid code sel ids)" by metis
  with refuse_audits have "\<exists>rows. db' = db\<lparr>t_audit := rows\<rparr>" by (metis db.surjective db.update_convs(8))
  with ok show ?thesis by (auto intro: sched_ok_cong)
next
  case (Inr f)
  assume "sched_ok env K db" "check_submit env db h t c kind tid = (db', r)"
  with Inr check_submit_Ok show ?thesis by metis
qed

lemma insert_resolution_rows:
  assumes "insert_resolution env db kind ref_id f old = (rid, db')"
  shows "\<exists>row. t_resolutions db' = t_resolutions db @ [row] \<and> rr_id row = rid \<and> rr_node_ids row = fz_node_ids f
      \<and> rr_selector row = fz_selector f \<and> rr_picked row = fz_picked f \<and> rr_excluded row = fz_excluded f"
    "rid = ce_uuid env (uuids_drawn db)" "uuids_drawn db' = Suc (uuids_drawn db)"
    "t_configs db' = t_configs db" "t_nodes db' = t_nodes db" "t_schedules db' = t_schedules db"
    "t_schedule_nodes db' = t_schedule_nodes db" "t_tags db' = t_tags db"
  using assms
  by (auto simp: insert_resolution_def new_uuid_def audit_event_def insert_audit_def Let_def)

lemma row_at_append_new: "key x \<notin> key ` set xs \<Longrightarrow> row_at key (xs @ [x]) (key x) = Some x"
  using row_at_None [of key xs "key x"] by (auto simp: row_at_append)

lemma states_ok_more:
  assumes "states_ok env K db" "t_configs db3 = t_configs db" "t_schedule_nodes db3 = t_schedule_nodes db"
    "t_schedules db3 = t_schedules db @ ss"
  shows "states_ok env K db3"
proof (rule states_okI)
  have en: "entries_of env db3 n = entries_of env db n" for n by (rule entries_of_cong) (rule assms(2))
  fix r assume "r \<in> set (t_schedule_nodes db3)" "sn_node r \<notin> K" "sn_state r = ''active''"
  then show "\<exists>s. row_at sc_id (t_schedules db3) (sn_schedule r) = Some s
      \<and> own (origin_of (sn_schedule r)) (entries_of env db3 (sn_node r)) = [entry_for s]"
    using states_okD1 [OF assms(1)] row_at_append_Some [of sc_id "t_schedules db"] unfolding en assms(3,4) by metis
next
  fix sid n assume "n \<notin> K" "own (origin_of sid) (entries_of env db3 n) \<noteq> []"
  then show "\<exists>r \<in> set (t_schedule_nodes db3). sn_schedule r = sid \<and> sn_node r = n \<and> sn_state r = ''active''"
    using states_okD2 [OF assms(1)] unfolding assms(3) by (metis entries_of_cong assms(2))
next
  fix n assume "n \<notin> K"
  then show "plain_entries (entries_of env db3 n)"
    using states_okD3 [OF assms(1)] by (metis entries_of_cong assms(2))
qed

lemma rows_of_iff: "n \<in> rows_of db sid \<longleftrightarrow> (\<exists>r \<in> set (t_schedule_nodes db). sn_schedule r = sid \<and> sn_node r = n)"
  by (auto simp: rows_of_def)

lemma rows_of_appended:
  "t_schedule_nodes db' = xs @ map (\<lambda>(n, st). \<lparr>sn_schedule = sid, sn_node = n, sn_state = st\<rparr>) pa \<Longrightarrow>
   rows_of db' k = {sn_node r | r. r \<in> set xs \<and> sn_schedule r = k} \<union> (if k = sid then set (map fst pa) else {})"
proof -
  assume a: "t_schedule_nodes db' = xs @ map (\<lambda>(n, st). \<lparr>sn_schedule = sid, sn_node = n, sn_state = st\<rparr>) pa"
  have m: "(\<exists>r \<in> set (map (\<lambda>(n, st). \<lparr>sn_schedule = sid, sn_node = n, sn_state = st\<rparr>) pa). sn_schedule r = k \<and> sn_node r = n)
      \<longleftrightarrow> k = sid \<and> n \<in> set (map fst pa)" for n
    by (induction pa) auto
  have "n \<in> rows_of db' k \<longleftrightarrow> (\<exists>r \<in> set xs. sn_schedule r = k \<and> sn_node r = n) \<or> k = sid \<and> n \<in> set (map fst pa)" for n
    unfolding rows_of_iff a set_append bex_Un m ..
  then show ?thesis by (simp only: set_eq_iff) (auto simp del: set_map)
qed

text \<open>A schedule is added together with its nodes.\<close>

lemma attached_sched_ok:
  assumes inj: "inj (ce_uuid env)" and ok: "sched_ok env K db"
    and db3: "t_configs db3 = t_configs db" "t_nodes db3 = t_nodes db" "t_schedule_nodes db3 = t_schedule_nodes db"
      "t_schedules db3 = t_schedules db @ [s]" "t_resolutions db3 = t_resolutions db @ [row]"
      "uuids_drawn db < uuids_drawn db3"
    and ids: "sc_id s = ce_uuid env (uuids_drawn db)" "sc_resolution s = rr_id row" "rr_id row = ce_uuid env k"
      "uuids_drawn db \<le> k" "k < uuids_drawn db3" "row_fits s"
    and at: "attached env (sc_id s) (entry_for s) per db3 db'"
    and per: "set (map fst per) = set (rr_node_ids row)" "distinct (map fst per)"
  shows "sched_ok env K db'"
proof -
  have so: "states_ok env K db" and ro: "rows_ok env db" using ok by (simp_all add: sched_ok_def)
  have sid: "sc_id s \<notin> sc_id ` set (t_schedules db)"
    using ro drawn_fresh [OF inj order_refl, of db] ids(1) unfolding rows_ok_def row_ok_def by (metis imageE)
  have rid: "rr_id row \<notin> rr_id ` set (t_resolutions db)"
    using ro drawn_fresh [OF inj ids(4)] ids(3) unfolding rows_ok_def by (metis imageE)
  have norow: "\<forall>r \<in> set (t_schedule_nodes db). sn_schedule r \<noteq> sc_id s"
    using ro sid unfolding rows_ok_def by metis
  have "states_ok env K db3" using states_ok_more [OF so db3(1,3,4)] .
  moreover have "row_at sc_id (t_schedules db3) (sc_id s) = Some s"
    using row_at_append_new [OF sid] by (simp add: db3(4))
  moreover have "\<forall>n \<in> fst ` set per. (sc_id s, n) \<notin> node_state_key ` set (t_schedule_nodes db3)"
    using norow by (auto simp: node_state_key_def db3(3))
  ultimately have "states_ok env K db'" using attached_states_ok at row_fits_plain [OF ids(6)] by blast
  moreover have "rows_ok env db'"
  proof -
    have t: "t_schedule_nodes db' = t_schedule_nodes db @ map (\<lambda>(n, st). \<lparr>sn_schedule = sc_id s, sn_node = n, sn_state = st\<rparr>) per"
      "t_nodes db' = t_nodes db" "t_schedules db' = t_schedules db @ [s]" "t_resolutions db' = t_resolutions db @ [row]"
      "uuids_drawn db' = uuids_drawn db3" using at db3 by (simp_all add: attached_def)
    have rows: "rows_of db' k = (if k = sc_id s then set (rr_node_ids row) else rows_of db k)" for k
    proof -
      have "rows_of db (sc_id s) = {}" using norow by (auto simp: rows_of_def)
      with rows_of_appended [OF t(1), folded rows_of_def] per(1) show ?thesis by simp
    qed
    have up: "drawn env db i \<Longrightarrow> drawn env db' i" for i using db3(6) t(5) by (auto intro: drawn_mono)
    have "row_ok env db' x" if "x \<in> set (t_schedules db)" for x
      using ro that sid up row_at_append_Some unfolding rows_ok_def row_ok_def t(4) rows by (metis imageI)
    moreover have "row_ok env db' s"
    proof -
      have "drawn env db' (sc_id s)" unfolding drawn_def t ids(1) using db3(6) by blast
      then show ?thesis using row_at_append_new [OF rid] ids(2,6) by (simp add: row_ok_def rows t)
    qed
    moreover have "drawn env db' (rr_id row)" using ids by (auto simp: drawn_def t)
    moreover have "distinct (map node_state_key (t_schedule_nodes db'))"
    proof -
      have "map node_state_key (t_schedule_nodes db') = map node_state_key (t_schedule_nodes db) @ map (Pair (sc_id s)) (map fst per)"
        by (simp add: t(1) node_state_key_def split_beta)
      moreover have "distinct (map (Pair (sc_id s)) (map fst per))"
        unfolding distinct_map [of "Pair (sc_id s)"] using per(2) by (simp add: inj_on_def)
      moreover have "set (map node_state_key (t_schedule_nodes db)) \<inter> set (map (Pair (sc_id s)) (map fst per)) = {}"
        using norow by (auto simp: node_state_key_def)
      moreover have "distinct (map node_state_key (t_schedule_nodes db))" using ro by (simp add: rows_ok_def)
      ultimately show ?thesis by (simp only: distinct_append simp_thms)
    qed
    ultimately show ?thesis using ro sid up by (auto simp: rows_ok_def t)
  qed
  ultimately show ?thesis by (simp add: sched_ok_def)
qed

subsection \<open>Each operation preserves the invariant\<close>

lemma validate_timing_fits:
  "validate_timing i c = Ok tm \<Longrightarrow> tm_interval tm = i \<and> filter_text (tm_cron tm) = tm_cron tm"
  by (auto simp: validate_timing_def Let_def filter_text_def split: if_splits option.splits)

lemma filter_text_idem [simp]: "filter_text (filter_text c) = filter_text c"
  by (simp add: filter_text_def split: option.split)

lemma audit_event_sched_ok: "sched_ok env K db \<Longrightarrow> sched_ok env K (audit_event env db a t i n d)"
  by (erule sched_ok_cong) (simp_all add: audit_event_def insert_audit_def)

lemma rolled_back_sched_ok: "sched_ok env K db \<Longrightarrow> uuids_drawn db \<le> k \<Longrightarrow> sched_ok env K (rolled_back db k)"
  by (erule sched_ok_cong) (simp_all add: rolled_back_def)

lemma create_sched_ok:
  assumes env: "inj (ce_uuid env)" "serde_ok env" and ok: "sched_ok env K db" and small: "small_interval (cr_interval body)"
  shows "sched_ok env K (fst (create_schedule env db h body))"
proof -
  let ?s = "trim (cr_spec_id body)"
  obtain db1 res where c: "check_submit env db h (cr_target body) (cr_confirm body) ''schedule'' ?s = (db1, res)"
    by (metis prod.exhaust)
  note ok1 = check_submit_sched_ok [OF ok c]
  show ?thesis
  proof (cases "?s = [] \<or> (\<exists>e. validate_timing (cr_interval body) (cr_cron body) = Err e) \<or> (\<exists>e. res = Err e)")
    case True
    then show ?thesis using ok ok1 c by (auto simp: create_schedule_def Let_def split: sum.splits)
  next
    case False
    then obtain tm f where tm: "validate_timing (cr_interval body) (cr_cron body) = Ok tm" and res: "res = Ok f" and s: "?s \<noteq> []"
      by (metis sumE)
    note fits = validate_timing_fits [OF tm]
    have db1: "db1 = db" using c res check_submit_Ok by metis
    obtain rid db2 where ir: "insert_resolution env (snd (new_uuid env db)) ''schedule'' (ce_uuid env (uuids_drawn db)) f None = (rid, db2)"
      by (metis prod.exhaust)
    note row = insert_resolution_rows [OF ir]
    define x where "x = \<lparr>sc_id = ce_uuid env (uuids_drawn db), sc_spec = ?s, sc_interval = map_option u64_as_i64 (tm_interval tm),
        sc_cron = tm_cron tm, sc_enabled = cr_enabled body, sc_resolution = rid, sc_at = ce_now env\<rparr>"
    let ?db3 = "db2\<lparr>t_schedules := t_schedules db2 @ [x]\<rparr>"
    have x: "entry_for x = schedule_entry ?s (tm_interval tm) (tm_cron tm) (cr_enabled body) (origin_of (sc_id x))"
      using fits small by (simp add: entry_for_def x_def i64_roundtrip)
    let ?sid = "ce_uuid env (uuids_drawn db)"
    have sid: "sc_id x = ?sid" by (simp add: x_def)
    have cs: "create_schedule env db h body = (case create_nodes env ?sid ?s tm (cr_enabled body) (fz_node_ids f) ?db3 of
         Inl e \<Rightarrow> (rolled_back db (uuids_drawn db2), Err e)
       | Inr (db4, per_node, warnings) \<Rightarrow>
           (audit_event env db4 ''schedule.created'' ''schedule'' ?sid None (JObj
                         [(''spec_id'', JStr ?s), (''interval_secs'', jopt jnat (tm_interval tm)),
                          (''cron'', jopt JStr (tm_cron tm)), (''enabled'', JBool (cr_enabled body)),
                          (''resolution_id'', JStr rid), (''added'', JArr (map JStr (fz_node_ids f))),
                          (''removed'', JArr [])]),
                       Ok \<lparr>cp_id = ?sid, cp_resolution = (frozen_view f)\<lparr>rv_id := Some rid\<rparr>,
                           cp_per_node = per_node, cp_warnings = warnings\<rparr>))"
      using s tm c res ir by (simp add: create_schedule_def Let_def db1 new_uuid_def x_def)
    show ?thesis
    proof (cases "create_nodes env ?sid ?s tm (cr_enabled body) (fz_node_ids f) ?db3")
      case (Inl e)
      then show ?thesis using ok row(3) by (simp add: cs rolled_back_sched_ok new_uuid_def)
    next
      case (Inr y)
      then obtain db4 per ws where n: "create_nodes env ?sid ?s tm (cr_enabled body) (fz_node_ids f) ?db3 = Ok (db4, per, ws)"
        by (metis prod_cases3)
      have "distinct (map nd_id (t_nodes db))" using ok by (simp add: sched_ok_def rows_ok_def)
      then have dist: "distinct (fz_node_ids f)"
        using check_submit_distinct c res by metis
      have tms: "small_interval (tm_interval tm)" using fits small by simp
      note at = create_nodes_attached [OF env(2) n dist tms, folded sid]
      obtain r where r: "t_resolutions db2 = t_resolutions db @ [r]" "rr_id r = rid" "rr_node_ids r = fz_node_ids f"
        using row(1) by (auto simp: new_uuid_def)
      have "sched_ok env K db4"
      proof (rule attached_sched_ok [OF env(1) ok, of ?db3 x r "uuids_drawn db + 1"])
        show "row_fits x" unfolding row_fits_def x_def using fits small by auto
        show "attached env (sc_id x) (entry_for x) per ?db3 db4" using at x by simp
        show "set (map fst per) = set (rr_node_ids r)" "distinct (map fst per)" using at r dist by simp_all
      qed (use row r in \<open>simp_all add: new_uuid_def x_def\<close>)
      then show ?thesis by (simp add: cs n audit_event_sched_ok)
    qed
  qed
qed

lemma row_at_update_where:
  "(\<And>r. key (f r) = key r) \<Longrightarrow> row_at key (update_where P f rows) k = map_option (\<lambda>r. if P r then f r else r) (row_at key rows k)"
  unfolding update_where_def by (rule row_at_map) simp

lemma load_view_row:
  assumes "load_schedule_view db sid = Ok v"
  shows "\<exists>s r. row_at sc_id (t_schedules db) sid = Some s \<and> row_at rr_id (t_resolutions db) (sc_resolution s) = Some r
     \<and> sw_spec v = sc_spec s \<and> sw_interval v = Option.bind (sc_interval s) i64_to_u64 \<and> sw_cron v = filter_text (sc_cron s)
     \<and> sw_enabled v = sc_enabled s \<and> sw_node_ids v = rr_node_ids r \<and> sw_nodes v = states_of db sid
     \<and> schedule_join db sid = Ok (s, r)"
proof -
  from assms obtain s r where j: "schedule_join db sid = Ok (s, r)"
    by (auto simp: load_schedule_view_def)
  then have "row_at sc_id (t_schedules db) sid = Some s" "row_at rr_id (t_resolutions db) (sc_resolution s) = Some r"
    by (auto simp: schedule_join_def split: option.splits)
  with assms j show ?thesis by (auto simp: load_schedule_view_def)
qed

lemma distinct_nodes_of:
  assumes "distinct (map node_state_key rows)"
  shows "distinct (map sn_node (filter (\<lambda>r. sn_schedule r = sid) rows))"
proof -
  have "map node_state_key (filter (\<lambda>r. sn_schedule r = sid) rows) = map (Pair sid) (map sn_node (filter (\<lambda>r. sn_schedule r = sid) rows))"
    by (simp add: node_state_key_def)
  with distinct_map_filter [OF assms] show ?thesis by (metis distinct_map)
qed

lemma active_nodes_of:
  "map fst (filter (\<lambda>(n, st). st = ''active'') (states_of db sid))
     = map sn_node (filter (\<lambda>r. sn_state r = ''active'') (sort_key sn_node (filter (\<lambda>r. sn_schedule r = sid) (t_schedule_nodes db))))"
  by (simp add: states_of_def filter_map comp_def split_beta)

definition retimed :: "timing \<Rightarrow> bool \<Rightarrow> schedule_row \<Rightarrow> schedule_row" where
  "retimed tm enabled s = s\<lparr>sc_interval := map_option u64_as_i64 (tm_interval tm), sc_cron := tm_cron tm, sc_enabled := enabled\<rparr>"

lemma retimed_simps [simp]: "sc_id (retimed tm enabled s) = sc_id s" "sc_resolution (retimed tm enabled s) = sc_resolution s"
  by (simp_all add: retimed_def)

lemma patched_ok:
  assumes env: "serde_ok env" and ok: "sched_ok env K db"
    and p: "each_node (\<lambda>d n. patch_node env d (origin_of sid) tm enabled n)
        (map fst (filter (\<lambda>(n, st). st = ''active'') (states_of db sid)))
        (db\<lparr>t_schedules := update_where (\<lambda>s. sc_id s = sid) (retimed tm enabled) (t_schedules db)\<rparr>) = Ok db2"
    and tm: "small_interval (tm_interval tm)" "filter_text (tm_cron tm) = tm_cron tm"
  shows "sched_ok env K db2"
proof -
  let ?ns = "map fst (filter (\<lambda>(n, st). st = ''active'') (states_of db sid))"
  have st: "states_ok env K db" and ro: "rows_ok env db" using ok by (simp_all add: sched_ok_def)
  have ns: "n \<in> set ?ns \<longleftrightarrow> (\<exists>r \<in> set (t_schedule_nodes db). sn_schedule r = sid \<and> sn_node r = n \<and> sn_state r = ''active'')" for n
    unfolding active_nodes_of by auto
  have "distinct (map sn_node (sort_key sn_node (filter (\<lambda>r. sn_schedule r = sid) (t_schedule_nodes db))))"
    using ro distinct_nodes_of unfolding rows_ok_def by (metis distinct_map distinct_sort set_sort)
  then have "distinct ?ns" unfolding active_nodes_of by (rule distinct_map_filter)
  note pn = patch_nodes_entries [OF env p this tm(1)]
  have en: "entries_of env db2 m = (if m \<in> set ?ns then patch_own (origin_of sid) tm enabled (entries_of env db m) else entries_of env db m)"
    if "m \<notin> K" for m using pn states_okD3 [OF st that] by simp
  have frame: "t_schedules db2 = update_where (\<lambda>s. sc_id s = sid) (retimed tm enabled) (t_schedules db)"
      "t_schedule_nodes db2 = t_schedule_nodes db" "t_nodes db2 = t_nodes db" "t_resolutions db2 = t_resolutions db"
      "uuids_drawn db2 = uuids_drawn db"
    using same_but_configs_simps [OF conjunct2 [OF pn]] by simp_all
  have row: "row_at sc_id (t_schedules db2) k = map_option (\<lambda>x. if sc_id x = sid then retimed tm enabled x else x) (row_at sc_id (t_schedules db) k)" for k
    unfolding frame by (rule row_at_update_where) simp
  have ef: "patch_entry tm enabled (entry_for x) = entry_for (retimed tm enabled x)" for x
    using tm by (simp add: entry_for_def retimed_def patch_schedule_entry i64_roundtrip)
  have own2: "own (origin_of k) (entries_of env db2 m) =
      (if k = sid \<and> m \<in> set ?ns then map (patch_entry tm enabled) (own (origin_of k) (entries_of env db m))
       else own (origin_of k) (entries_of env db m))" if "m \<notin> K" for k m
    by (simp add: en [OF that] own_patch_own)
  have "states_ok env K db2"
  proof (rule states_okI)
    fix r assume r: "r \<in> set (t_schedule_nodes db2)" "sn_node r \<notin> K" "sn_state r = ''active''"
    then obtain x where x: "row_at sc_id (t_schedules db) (sn_schedule r) = Some x"
        "own (origin_of (sn_schedule r)) (entries_of env db (sn_node r)) = [entry_for x]"
      using states_okD1 [OF st] frame by metis
    moreover have "sn_schedule r = sid \<Longrightarrow> sn_node r \<in> set ?ns" using r ns frame by metis
    ultimately show "\<exists>s. row_at sc_id (t_schedules db2) (sn_schedule r) = Some s
        \<and> own (origin_of (sn_schedule r)) (entries_of env db2 (sn_node r)) = [entry_for s]"
      using row_at_key [OF x(1)] by (auto simp: row own2 [OF r(2)] ef simp del: set_map)
  next
    fix k m assume m: "m \<notin> K" and "own (origin_of k) (entries_of env db2 m) \<noteq> []"
    then show "\<exists>r \<in> set (t_schedule_nodes db2). sn_schedule r = k \<and> sn_node r = m \<and> sn_state r = ''active''"
      using states_okD2 [OF st m] frame by (auto simp: own2 [OF m] split: if_splits simp del: set_map)
  next
    fix m assume "m \<notin> K"
    then show "plain_entries (entries_of env db2 m)" using en states_okD3 [OF st] tm(1) by simp
  qed
  moreover have "rows_ok env db2"
  proof -
    have "row_ok env db2 (retimed tm enabled x)" "row_ok env db2 x" if "row_ok env db x" for x
      using that tm by (auto simp: row_ok_def drawn_def rows_of_def frame) (auto simp: row_fits_def retimed_def)
    then have "\<forall>x \<in> set (t_schedules db2). row_ok env db2 x"
      using ro by (auto simp: rows_ok_def frame(1) update_where_def)
    moreover have ids: "map sc_id (t_schedules db2) = map sc_id (t_schedules db)" unfolding frame(1) by simp
    moreover have "sc_id ` set (t_schedules db2) = sc_id ` set (t_schedules db)" using ids by (metis list.set_map)
    ultimately show ?thesis using ro unfolding rows_ok_def drawn_def frame(2-) by simp
  qed
  ultimately show ?thesis by (simp add: sched_ok_def)
qed

lemma patch_sched_ok:
  assumes env: "serde_ok env" and ok: "sched_ok env K db" and small: "small_interval (ph_interval body)"
  shows "sched_ok env K (fst (patch_schedule env db sid body))"
proof (cases "load_schedule_view db sid")
  case (Inl e)
  then show ?thesis using ok by (simp add: patch_schedule_def)
next
  case (Inr v)
  define interval where "interval = (if ph_clear_interval body then None
                 else (case ph_interval body of Some i \<Rightarrow> Some i | None \<Rightarrow> sw_interval v))"
  define cron where "cron = (if ph_clear_cron body then None
                 else (case filter_text (map_option trim (ph_cron body)) of Some c \<Rightarrow> Some c | None \<Rightarrow> sw_cron v))"
  show ?thesis
  proof (cases "validate_timing interval cron")
    case (Inl e)
    with Inr ok show ?thesis by (simp add: patch_schedule_def Let_def interval_def cron_def)
  next
    case tm: (Inr tm)
    let ?e = "unwrap_or (ph_enabled body) (sw_enabled v)"
    let ?db1 = "db\<lparr>t_schedules := update_where (\<lambda>s. sc_id s = sid) (retimed tm ?e) (t_schedules db)\<rparr>"
    let ?p = "each_node (\<lambda>d n. patch_node env d (origin_of sid) tm ?e n)
        (map fst (filter (\<lambda>(n, st). st = ''active'') (states_of db sid))) ?db1"
    obtain s where s: "row_at sc_id (t_schedules db) sid = Some s" "sw_nodes v = states_of db sid"
        "sw_interval v = Option.bind (sc_interval s) i64_to_u64"
      using load_view_row [OF Inr] by blast
    have "row_fits s" using ok row_at_key [OF s(1)] by (auto simp: sched_ok_def rows_ok_def row_ok_def)
    then have "small_interval (sw_interval v)" using i64_roundtrip s(3) unfolding row_fits_def by metis
    then have "small_interval interval"
      using small by (auto simp: interval_def small_interval_def split: option.splits)
    then have fits: "small_interval (tm_interval tm)" "filter_text (tm_cron tm) = tm_cron tm"
      using validate_timing_fits [OF tm] by auto
    have "fst (patch_schedule env db sid body) = (case ?p of Inl _ \<Rightarrow> db
       | Inr db2 \<Rightarrow> fst (patch_schedule env db sid body))"
      using Inr tm s(2) by (simp add: patch_schedule_def Let_def interval_def cron_def retimed_def [abs_def] split: sum.split)
    moreover have "?p = Inr db2 \<Longrightarrow> \<exists>d. fst (patch_schedule env db sid body)
         = audit_event env db2 ''schedule.updated'' ''schedule'' sid None d" for db2
      using Inr tm s(2) by (auto simp: patch_schedule_def Let_def interval_def cron_def retimed_def [abs_def])
    ultimately show ?thesis
      using ok patched_ok [OF env ok _ fits] audit_event_sched_ok by (cases ?p) (fastforce split: sum.splits)+
  qed
qed

lemma delete_rows:
  assumes "serde_ok env" "sched_ok env K db" "delete_schedule env db sid = (db', Ok ())"
  shows "m \<notin> K \<Longrightarrow> entries_of env db' m = others (origin_of sid) (entries_of env db m)"
    "t_schedules db' = delete_where (\<lambda>x. sc_id x = sid) (t_schedules db)"
    "t_schedule_nodes db' = delete_where (\<lambda>r. sn_schedule r = sid) (t_schedule_nodes db)"
    "t_nodes db' = t_nodes db" "t_resolutions db' = t_resolutions db" "uuids_drawn db' = uuids_drawn db"
proof -
  let ?ns = "map sn_node (filter (\<lambda>r. sn_schedule r = sid) (t_schedule_nodes db))"
  obtain s where s: "row_at sc_id (t_schedules db) sid = Some s"
    using assms(3) by (auto simp: delete_schedule_def split: option.splits)
  obtain db1 where t: "each_node (\<lambda>d n. take_entry env d (origin_of sid) n) ?ns db = Ok db1"
    using assms(3) s by (auto simp: delete_schedule_def Let_def split: sum.splits)
  then obtain d where d: "db' = audit_event env (db1\<lparr>t_schedules := delete_where (\<lambda>x. sc_id x = sid) (t_schedules db1),
      t_schedule_nodes := delete_where (\<lambda>r. sn_schedule r = sid) (t_schedule_nodes db1)\<rparr>) ''schedule.deleted'' ''schedule'' sid None d"
    using assms(3) s by (auto simp: delete_schedule_def Let_def)
  note te = take_entries [OF assms(1) t]
  have "others (origin_of sid) (entries_of env db m) = entries_of env db m" if "m \<notin> set ?ns" "m \<notin> K"
  proof -
    have "own (origin_of sid) (entries_of env db m) = []"
      using states_okD2 [of env K db m sid] that assms(2) unfolding sched_ok_def by force
    then show ?thesis by (auto simp: own_def others_def filter_empty_conv filter_id_conv)
  qed
  with te states_okD3 [of env K db m] assms(2)
  show "m \<notin> K \<Longrightarrow> entries_of env db' m = others (origin_of sid) (entries_of env db m)"
    by (simp add: d audit_event_def insert_audit_def sched_ok_def)
  show "t_schedules db' = delete_where (\<lambda>x. sc_id x = sid) (t_schedules db)"
    "t_schedule_nodes db' = delete_where (\<lambda>r. sn_schedule r = sid) (t_schedule_nodes db)"
    "t_nodes db' = t_nodes db" "t_resolutions db' = t_resolutions db" "uuids_drawn db' = uuids_drawn db"
    using same_but_configs_simps [OF conjunct2 [OF te]] by (simp_all add: d audit_event_def insert_audit_def)
qed

lemma delete_sched_ok:
  assumes "serde_ok env" "sched_ok env K db"
  shows "sched_ok env K (fst (delete_schedule env db sid))"
proof (cases "\<exists>db'. delete_schedule env db sid = (db', Ok ())")
  case False
  then have "fst (delete_schedule env db sid) = db"
    by (auto simp: delete_schedule_def Let_def split: option.splits sum.splits)
  with assms show ?thesis by simp
next
  case True
  then obtain db' where del: "delete_schedule env db sid = (db', Ok ())" by blast
  note d = delete_rows [OF assms del]
  have st: "states_ok env K db" and ro: "rows_ok env db" using assms(2) by (simp_all add: sched_ok_def)
  have row: "row_at sc_id (t_schedules db') k = (if k = sid then None else row_at sc_id (t_schedules db) k)" for k
    using ro row_at_key [of sc_id "t_schedules db" k] unfolding d(2) rows_ok_def
    by (auto simp: row_at_delete split: option.splits)
  have "states_ok env K db'"
  proof (rule states_okI)
    fix r assume "r \<in> set (t_schedule_nodes db')" "sn_node r \<notin> K" "sn_state r = ''active''"
    then show "\<exists>s. row_at sc_id (t_schedules db') (sn_schedule r) = Some s
        \<and> own (origin_of (sn_schedule r)) (entries_of env db' (sn_node r)) = [entry_for s]"
      using states_okD1 [OF st] by (auto simp: d(1,3) row own_others_cases)
  next
    fix k m assume m: "m \<notin> K" and "own (origin_of k) (entries_of env db' m) \<noteq> []"
    then show "\<exists>r \<in> set (t_schedule_nodes db'). sn_schedule r = k \<and> sn_node r = m \<and> sn_state r = ''active''"
      using states_okD2 [OF st m] by (fastforce simp: d own_others_cases split: if_splits)
  next
    fix m assume "m \<notin> K"
    then show "plain_entries (entries_of env db' m)" using d(1) states_okD3 [OF st] by simp
  qed
  moreover have "rows_ok env db'"
  proof -
    have "row_ok env db' x" if "row_ok env db x" "sc_id x \<noteq> sid" for x
    proof -
      have "rows_of db' (sc_id x) = rows_of db (sc_id x)" using that(2) by (auto simp: rows_of_def d)
      with that(1) show ?thesis by (auto simp: row_ok_def drawn_def d)
    qed
    then show ?thesis using ro unfolding rows_ok_def d(2-) drawn_def by (auto simp: d(6))
  qed
  ultimately show ?thesis using del by (simp add: sched_ok_def)
qed

lemma rematch_distinct:
  assumes "distinct (map nd_id (t_nodes db))" "rematch db sel picked ex = Ok live"
  shows "distinct live"
proof -
  have inv: "distinct (map iv_id (load_inventory db))" by (rule load_inventory_distinct) (rule assms(1))
  have one: "distinct live" if p: "parse_target t = Ok p" and c: "(case pt_mode p of
              ByNodes ids \<Rightarrow> Ok (filter (\<lambda>i. i \<notin> set (pt_excluded p) \<and> list_ex (\<lambda>n. iv_id n = i) (load_inventory db)) ids)
            | _ \<Rightarrow> and_then (resolve_parsed (load_inventory db) p) (\<lambda>ms. Ok (map iv_id ms))) = Ok live" for t p
  proof (cases "pt_mode p")
    case (ByNodes ids)
    then show ?thesis using c parse_target_wanted(2) [OF p] by (auto simp: mode_distinct_def)
  next
    case (BySelector s)
    then obtain ms where "resolve_parsed (load_inventory db) p = Ok ms" "live = map iv_id ms" using c by auto
    then show ?thesis using resolve_parsed_exact(3) [OF inv _ parse_target_wanted(2) [OF p]] by simp
  qed
  show ?thesis
    using assms(2) one by (auto simp: rematch_def Let_def split: option.splits)
qed

lemma live_nodes_attached:
  assumes "serde_ok env" "live_nodes env v sid added removed ns db = Ok (db', per, ws)" "distinct ns" "small_interval (sw_interval v)"
    "\<forall>n \<in> set ns. n \<in> set added \<longrightarrow> (sid, n) \<notin> node_state_key ` set (t_schedule_nodes db)"
  shows "\<exists>pa. attached env sid (schedule_entry (sw_spec v) (sw_interval v) (sw_cron v) (sw_enabled v) (origin_of sid)) pa db db'
    \<and> map fst pa = filter (\<lambda>n. n \<in> set added \<and> n \<notin> set removed) ns"
  using assms(2,3,5)
proof (induction ns arbitrary: db per ws)
  case Nil
  then show ?case by (auto intro: exI [of _ "[]"])
next
  case (Cons n ns)
  consider (skip) "n \<in> set removed \<or> n \<notin> set added" | (add) "n \<notin> set removed" "n \<in> set added" by blast
  then show ?case
  proof cases
    case skip
    then obtain per1 ws1 where "live_nodes env v sid added removed ns db = Ok (db', per1, ws1)"
      using Cons.prems(1) by (auto split: if_splits)
    from Cons.IH [OF this] Cons.prems(2,3) skip show ?thesis by auto
  next
    case add
    then obtain db1 state ws1 per1 ws2 where
        g: "give_entry env db (sw_spec v) (sw_interval v) (sw_cron v) (sw_enabled v) (origin_of sid) n = Ok (db1, state, ws1)"
        and l: "live_nodes env v sid added removed ns (db1\<lparr>t_schedule_nodes := upsert node_state_key
           \<lparr>sn_schedule = sid, sn_node = n, sn_state = state\<rparr> (\<lambda>r. r\<lparr>sn_state := state\<rparr>) (t_schedule_nodes db1)\<rparr>) = Ok (db', per1, ws2)"
      using Cons.prems(1) by (auto split: if_splits)
    have rows: "t_schedule_nodes db1 = t_schedule_nodes db"
      using same_but_configs_simps(4) [OF give_entry_entries(2) [OF assms(1) g]] .
    have up: "upsert node_state_key \<lparr>sn_schedule = sid, sn_node = n, sn_state = state\<rparr> (\<lambda>r. r\<lparr>sn_state := state\<rparr>) (t_schedule_nodes db1)
        = t_schedule_nodes db1 @ [\<lparr>sn_schedule = sid, sn_node = n, sn_state = state\<rparr>]"
    proof -
      have k: "node_state_key \<lparr>sn_schedule = sid, sn_node = n, sn_state = state\<rparr> = (sid, n)" by (simp add: node_state_key_def)
      have "\<not> list_ex (\<lambda>r. node_state_key r = (sid, n)) (t_schedule_nodes db1)"
        unfolding list_ex_key rows using Cons.prems(3) add(2) by simp
      then show ?thesis by (simp only: upsert_def k if_False)
    qed
    let ?db2 = "db1\<lparr>t_schedule_nodes := t_schedule_nodes db1 @ [\<lparr>sn_schedule = sid, sn_node = n, sn_state = state\<rparr>]\<rparr>"
    have "\<forall>m \<in> set ns. m \<in> set added \<longrightarrow> (sid, m) \<notin> node_state_key ` set (t_schedule_nodes ?db2)"
      using Cons.prems(2,3) by (auto simp: rows node_state_key_def)
    from Cons.IH [OF l [unfolded up] _ this] Cons.prems(2) obtain pa where
        pa: "attached env sid (schedule_entry (sw_spec v) (sw_interval v) (sw_cron v) (sw_enabled v) (origin_of sid)) pa ?db2 db'"
        "map fst pa = filter (\<lambda>n. n \<in> set added \<and> n \<notin> set removed) ns" by auto
    have "set (map fst pa) \<subseteq> set ns" unfolding pa(2) by auto
    then have "n \<notin> fst ` set pa" using Cons.prems(2) by auto
    with attached_Cons [OF assms(1) g pa(1) _ assms(4)] pa(2) add show ?thesis
      by (intro exI [of _ "(n, state) # pa"]) simp
  qed
qed

lemma diff_ids_sets: "diff_ids ex live = (added, removed) \<Longrightarrow> set added = set live - set ex \<and> set removed = set ex - set live"
  by (auto simp: diff_ids_def)

lemma states_ok_rows:
  assumes "states_ok env K db" "t_configs db2 = t_configs db" "t_schedule_nodes db2 = t_schedule_nodes db"
    "\<And>k. row_at sc_id (t_schedules db2) k = map_option g (row_at sc_id (t_schedules db) k)"
    "\<And>x. entry_for (g x) = entry_for x"
  shows "states_ok env K db2"
proof (rule states_okI)
  have en: "entries_of env db2 n = entries_of env db n" for n by (rule entries_of_cong) (rule assms(2))
  fix r assume "r \<in> set (t_schedule_nodes db2)" "sn_node r \<notin> K" "sn_state r = ''active''"
  then show "\<exists>s. row_at sc_id (t_schedules db2) (sn_schedule r) = Some s
      \<and> own (origin_of (sn_schedule r)) (entries_of env db2 (sn_node r)) = [entry_for s]"
    using states_okD1 [OF assms(1)] unfolding en assms(3,4) by (metis option.simps(9) assms(5))
next
  fix sid n assume "n \<notin> K" "own (origin_of sid) (entries_of env db2 n) \<noteq> []"
  then show "\<exists>r \<in> set (t_schedule_nodes db2). sn_schedule r = sid \<and> sn_node r = n \<and> sn_state r = ''active''"
    using states_okD2 [OF assms(1)] unfolding assms(3) by (metis entries_of_cong assms(2))
next
  fix n assume "n \<notin> K"
  then show "plain_entries (entries_of env db2 n)"
    using states_okD3 [OF assms(1)] by (metis entries_of_cong assms(2))
qed

text \<open>The rows of a schedule that is moved to a new resolution.\<close>

lemma moved_sched_ok:
  assumes inj: "inj (ce_uuid env)" and serde: "serde_ok env" and ok: "sched_ok env K db"
    and s: "row_at sc_id (t_schedules db) sid = Some s" "row_at rr_id (t_resolutions db) (sc_resolution s) = Some r"
    and db2: "t_configs db2 = t_configs db" "t_nodes db2 = t_nodes db" "t_schedule_nodes db2 = t_schedule_nodes db"
      "t_schedules db2 = update_where (\<lambda>s. sc_id s = sid) (\<lambda>s. s\<lparr>sc_resolution := rr_id row\<rparr>) (t_schedules db)"
      "t_resolutions db2 = t_resolutions db @ [row]" "uuids_drawn db2 = Suc (uuids_drawn db)"
      "rr_id row = ce_uuid env (uuids_drawn db)" "rr_node_ids row = live"
    and v: "sw_spec v = sc_spec s" "sw_interval v = Option.bind (sc_interval s) i64_to_u64" "sw_cron v = filter_text (sc_cron s)"
      "sw_enabled v = sc_enabled s"
    and diff: "diff_ids (rr_node_ids r) live = (added, removed)" and dist: "distinct live"
    and run: "each_node (drop_state env sid) removed db2 = Ok db3" "live_nodes env v sid added removed live db3 = Ok (db4, per, ws)"
  shows "sched_ok env K db4"
proof -
  have st: "states_ok env K db" and ro: "rows_ok env db" using ok by (simp_all add: sched_ok_def)
  have sid: "sc_id s = sid" "s \<in> set (t_schedules db)" using row_at_key [OF s(1)] by auto
  have stored: "rows_of db sid = set (rr_node_ids r)" using ro s(2) sid by (auto simp: rows_ok_def row_ok_def)
  let ?move = "\<lambda>x. if sc_id x = sid then x\<lparr>sc_resolution := rr_id row\<rparr> else x"
  have row2: "row_at sc_id (t_schedules db2) k = map_option ?move (row_at sc_id (t_schedules db) k)" for k
    unfolding db2(4) by (rule row_at_update_where) simp
  have ef: "entry_for (?move x) = entry_for x" for x by (simp add: entry_for_def)
  have st2: "states_ok env K db2"
    using states_ok_rows [OF st db2(1,3) row2 ef] .
  note dr = drop_states_ok [OF serde st2 run(1)]
  have keys3: "\<forall>n \<in> set live. n \<in> set added \<longrightarrow> (sid, n) \<notin> node_state_key ` set (t_schedule_nodes db3)"
    using stored diff_ids_sets [OF diff] dr by (auto simp: db2(3) node_state_key_def rows_of_def)
  have fit: "row_fits s" using ro s sid by (auto simp: rows_ok_def row_ok_def)
  then have "small_interval (sw_interval v)" unfolding row_fits_def v(2) by (metis i64_roundtrip)
  from live_nodes_attached [OF serde run(2) dist this keys3] obtain pa where
      at: "attached env sid (schedule_entry (sw_spec v) (sw_interval v) (sw_cron v) (sw_enabled v) (origin_of sid)) pa db3 db4"
      and pa: "map fst pa = filter (\<lambda>n. n \<in> set added \<and> n \<notin> set removed) live" by blast
  have set_pa: "fst ` set pa = set added" 
  proof -
    have "set (map fst pa) = set added" unfolding pa using diff_ids_sets [OF diff] by auto
    then show ?thesis by simp
  qed
  have s3: "row_at sc_id (t_schedules db3) sid = Some (?move s)" using dr row2 s(1) by simp
  have e: "entry_for (?move s) = schedule_entry (sw_spec v) (sw_interval v) (sw_cron v) (sw_enabled v) (origin_of sid)"
    using v sid by (simp add: entry_for_def)
  have new: "\<forall>n \<in> fst ` set pa. (sid, n) \<notin> node_state_key ` set (t_schedule_nodes db3)"
    using keys3 set_pa diff_ids_sets [OF diff] by blast
  have "states_ok env K db4" using attached_states_ok [OF _ at [folded e] s3 new] dr row_fits_plain [OF fit] ef [of s] by simp
  moreover have "rows_ok env db4"
  proof -
    have rows4: "t_schedule_nodes db4 = delete_where (\<lambda>x. sn_schedule x = sid \<and> sn_node x \<in> set removed) (t_schedule_nodes db)
        @ map (\<lambda>(n, st). \<lparr>sn_schedule = sid, sn_node = n, sn_state = st\<rparr>) pa"
      and t4: "t_nodes db4 = t_nodes db" "t_schedules db4 = t_schedules db2" "t_resolutions db4 = t_resolutions db @ [row]"
        "uuids_drawn db4 = Suc (uuids_drawn db)"
      using at dr db2 by (simp_all add: attached_def)
    have live: "rows_of db4 sid = set live"
    proof -
      have "rows_of db4 sid = (rows_of db sid - set removed) \<union> fst ` set pa"
        unfolding rows_of_appended [OF rows4] by (auto simp: rows_of_def)
      then show ?thesis using stored set_pa diff_ids_sets [OF diff] by auto
    qed
    have other: "rows_of db4 k = rows_of db k" if "k \<noteq> sid" for k using that by (auto simp: rows_of_def rows4)
    have up: "drawn env db i \<Longrightarrow> drawn env db4 i" for i using t4(4) by (auto intro: drawn_mono)
    have rid: "rr_id row \<notin> rr_id ` set (t_resolutions db)"
      using ro drawn_fresh [OF inj order_refl, of db] db2(7) unfolding rows_ok_def by (metis imageE)
    have "row_ok env db4 x" if x: "x \<in> set (t_schedules db)" "sc_id x \<noteq> sid" for x
    proof -
      have "row_ok env db x" using ro x by (simp add: rows_ok_def)
      then show ?thesis using up other [OF x(2)] row_at_append_Some unfolding row_ok_def t4(3) by metis
    qed
    moreover have "row_ok env db4 (x\<lparr>sc_resolution := rr_id row\<rparr>)" if x: "x \<in> set (t_schedules db)" "sc_id x = sid" for x
    proof -
      have "drawn env db4 sid" "row_fits x" using ro x up by (auto simp: rows_ok_def row_ok_def)
      then show ?thesis using row_at_append_new [OF rid] x(2) live db2(8) by (simp add: row_ok_def t4 row_fits_def)
    qed
    ultimately have "\<forall>x \<in> set (t_schedules db4). row_ok env db4 x"
      by (auto simp: t4(2) db2(4) update_where_def)
    moreover have ids: "map sc_id (t_schedules db4) = map sc_id (t_schedules db)" unfolding t4(2) db2(4) by simp
    moreover have "sc_id ` set (t_schedules db4) = sc_id ` set (t_schedules db)" using ids by (metis list.set_map)
    moreover have "sid \<in> sc_id ` set (t_schedules db)" using sid by blast
    moreover have "drawn env db4 (rr_id row)" unfolding drawn_def t4 db2(7) by blast
    moreover have "distinct (map node_state_key (t_schedule_nodes db4))"
    proof -
      have "distinct (map fst pa)" unfolding pa using dist by simp
      then have "distinct (map (Pair sid) (map fst pa))" unfolding distinct_map [of "Pair sid"] by (simp add: inj_on_def)
      moreover have "map node_state_key (t_schedule_nodes db4) = map node_state_key (t_schedule_nodes db3) @ map (Pair sid) (map fst pa)"
        using at by (simp add: attached_def node_state_key_def split_beta)
      moreover have "set (map node_state_key (t_schedule_nodes db3)) \<inter> set (map (Pair sid) (map fst pa)) = {}"
        using new by auto
      moreover have "distinct (map node_state_key (t_schedule_nodes db3))"
        using ro dr by (simp add: rows_ok_def db2(3))
      ultimately show ?thesis by (simp only: distinct_append simp_thms)
    qed
    ultimately show ?thesis using ro up by (auto simp: rows_ok_def t4(1,3) rows4)
  qed
  ultimately show ?thesis by (simp add: sched_ok_def)
qed

lemma apply_re_resolve_ok:
  assumes inj: "inj (ce_uuid env)" and serde: "serde_ok env" and ok: "sched_ok env K db"
    and v: "load_schedule_view db sid = Ok v" "schedule_join db sid = Ok (s, r)"
    and live: "rematch db (rr_selector r) (rr_picked r) (rr_excluded r) = Ok live"
  shows "sched_ok env K (fst (apply_re_resolve env db h sid body v r live))"
proof (cases "parse_target (re_resolve_target r live)")
  case (Inl e)
  with ok show ?thesis by (simp add: apply_re_resolve_def)
next
  case p: (Inr p)
  obtain added removed where diff: "diff_ids (sw_node_ids v) live = (added, removed)" by (metis prod.exhaust)
  let ?f = "(freeze env p (resolve_nodes_lenient (load_inventory db) live) h (rq_confirm body))
      \<lparr>fz_node_ids := live, fz_prod := live_prod db live, fz_prod_confirmed := live_prod db live \<noteq> [], fz_sha := sha_of env live\<rparr>"
  obtain rid db1 where ir: "insert_resolution env db ''schedule'' sid ?f (Some (rr_id r)) = (rid, db1)" by (metis prod.exhaust)
  note row = insert_resolution_rows [OF ir]
  obtain x where x: "t_resolutions db1 = t_resolutions db @ [x]" "rr_id x = rid" "rr_node_ids x = live"
    using row(1) by auto
  let ?db2 = "db1\<lparr>t_schedules := update_where (\<lambda>s. sc_id s = sid) (\<lambda>s. s\<lparr>sc_resolution := rid\<rparr>) (t_schedules db1)\<rparr>"
  let ?run = "and_then (each_node (drop_state env sid) removed ?db2) (live_nodes env v sid added removed live)"
  show ?thesis
  proof (cases ?run)
    case (Inl e)
    with p diff ir have "fst (apply_re_resolve env db h sid body v r live) = rolled_back db (uuids_drawn db1)"
      by (simp add: apply_re_resolve_def Let_def)
    with ok row(3) show ?thesis by (simp add: rolled_back_sched_ok)
  next
    case (Inr y)
    obtain db4 per ws where y: "y = (db4, per, ws)" by (cases y)
    with Inr obtain db3 where run: "each_node (drop_state env sid) removed ?db2 = Ok db3"
        "live_nodes env v sid added removed live db3 = Ok (db4, per, ws)" by auto
    obtain s' where s: "row_at sc_id (t_schedules db) sid = Some s" "row_at rr_id (t_resolutions db) (sc_resolution s) = Some r"
        "sw_spec v = sc_spec s" "sw_interval v = Option.bind (sc_interval s) i64_to_u64" "sw_cron v = filter_text (sc_cron s)"
        "sw_enabled v = sc_enabled s" "sw_node_ids v = rr_node_ids r"
      using load_view_row [OF v(1)] v(2) by auto
    have "distinct (map nd_id (t_nodes db))" using ok by (simp add: sched_ok_def rows_ok_def)
    from rematch_distinct [OF this live] have dist: "distinct live" .
    have "sched_ok env K db4"
      by (rule moved_sched_ok [OF inj serde ok s(1,2) _ _ _ _ _ _ _ _ s(3-6) diff [unfolded s(7)] dist run])
        (use row x in simp_all)
    moreover have "\<exists>d. fst (apply_re_resolve env db h sid body v r live)
        = audit_event env db4 ''schedule.re_resolved'' ''schedule'' sid None d"
      using p diff ir Inr y by (auto simp: apply_re_resolve_def Let_def simp del: and_then_eq_Inr)
    ultimately show ?thesis using audit_event_sched_ok by metis
  qed
qed

lemma re_resolve_sched_ok:
  assumes "inj (ce_uuid env)" "serde_ok env" "sched_ok env K db"
  shows "sched_ok env K (fst (re_resolve_schedule env db h sid body))"
proof -
  have refused: "sched_ok env K (refuse env db k t code sel ids)" for k t code sel ids
    using audit_event_sched_ok assms(3) by (simp add: refuse_def)
  show ?thesis
  proof (cases "load_schedule_view db sid")
    case v: (Inr v)
    then obtain s r where j: "schedule_join db sid = Ok (s, r)" using load_view_row by blast
    show ?thesis
    proof (cases "rematch db (rr_selector r) (rr_picked r) (rr_excluded r)")
      case live: (Inr live)
      note ap = apply_re_resolve_ok [OF assms v j live]
      obtain added removed where d: "diff_ids (sw_node_ids v) live = (added, removed)" by (metis prod.exhaust)
      show ?thesis
        using assms(3) refused ap by (auto simp: re_resolve_schedule_def v j live d Let_def split: sum.splits)
    qed (use assms(3) v j in \<open>simp add: re_resolve_schedule_def\<close>)
  qed (use assms(3) in \<open>simp add: re_resolve_schedule_def\<close>)
qed

text \<open>
  A change of the configurations and of the states of rows that leaves the nodes outside \<open>L\<close> alone.
\<close>

lemma elsewhere_sched_ok:
  assumes ok: "sched_ok env K db" and L: "K \<subseteq> L"
    and en: "\<And>m. m \<notin> L \<Longrightarrow> entries_of env db' m = entries_of env db m"
    and rows: "t_schedule_nodes db' = map f (t_schedule_nodes db)"
    and f: "\<And>r. sn_node (f r) = sn_node r \<and> sn_schedule (f r) = sn_schedule r \<and> (sn_node r \<notin> L \<longrightarrow> f r = r)"
    and frame: "t_schedules db' = t_schedules db" "t_nodes db' = t_nodes db" "t_resolutions db' = t_resolutions db"
      "uuids_drawn db' = uuids_drawn db"
  shows "sched_ok env L db'"
proof -
  have st: "states_ok env K db" and ro: "rows_ok env db" using ok by (simp_all add: sched_ok_def)
  have same: "r \<in> set (t_schedule_nodes db') \<longleftrightarrow> r \<in> set (t_schedule_nodes db)" if "sn_node r \<notin> L" for r
    unfolding rows list.set_map [of f] using f that by (metis image_iff)
  have "states_ok env L db'"
  proof (rule states_okI)
    fix r assume r: "r \<in> set (t_schedule_nodes db')" "sn_node r \<notin> L" "sn_state r = ''active''"
    then show "\<exists>s. row_at sc_id (t_schedules db') (sn_schedule r) = Some s
        \<and> own (origin_of (sn_schedule r)) (entries_of env db' (sn_node r)) = [entry_for s]"
      using states_okD1 [OF st _ _ r(3)] same [OF r(2)] en [OF r(2)] L unfolding frame(1) by auto
  next
    fix k m assume m: "m \<notin> L" and "own (origin_of k) (entries_of env db' m) \<noteq> []"
    then show "\<exists>r \<in> set (t_schedule_nodes db'). sn_schedule r = k \<and> sn_node r = m \<and> sn_state r = ''active''"
      using states_okD2 [OF st, of m k] same en [OF m] L m by auto
  next
    fix m assume "m \<notin> L"
    then show "plain_entries (entries_of env db' m)" using states_okD3 [OF st] en L by (metis subsetD)
  qed
  moreover have "rows_ok env db'"
  proof -
    have "rows_of db' k = rows_of db k" for k by (rule set_eqI) (simp add: rows_of_iff rows f)
    moreover have "map node_state_key (t_schedule_nodes db') = map node_state_key (t_schedule_nodes db)"
      by (simp add: rows node_state_key_def f)
    moreover have "(\<forall>r \<in> set (t_schedule_nodes db'). sn_schedule r \<in> S) \<longleftrightarrow> (\<forall>r \<in> set (t_schedule_nodes db). sn_schedule r \<in> S)" for S
      by (simp add: rows f)
    ultimately show ?thesis using ro by (simp add: rows_ok_def row_ok_def drawn_def frame)
  qed
  ultimately show ?thesis by (simp add: sched_ok_def)
qed

text \<open>Reading a schedule first looks for entries an operator removed.\<close>

lemma get_config_entries:
  assumes "serde_ok env" "plain_entries (entries_of env db n)"
  shows "(case get_config env db n of Some c \<Rightarrow> parse_entries env (cf_schedules c) | None \<Rightarrow> []) = entries_of env db n"
proof (cases "row_at cf_node (t_configs db) n")
  case (Some c)
  show ?thesis
  proof (cases "\<exists>xs. ce_parse env (cf_schedules c) = Some (JArr xs)")
    case True
    then obtain xs where xs: "ce_parse env (cf_schedules c) = Some (JArr xs)" by blast
    with Some have "entries_of env db n = xs" by (simp add: entries_of_def parse_entries_def)
    with Some xs assms show ?thesis by (simp add: get_config_def decode_config_def reprint_def)
  next
    case False
    then have "parse_entries env (cf_schedules c) = []"
      by (auto simp: parse_entries_def split: option.split json.split)
    moreover have "parse_entries env (reprint env (JArr []) (cf_schedules c)) = []"
    proof (cases "ce_parse env (cf_schedules c)")
      case None
      then show ?thesis using assms(1) by (simp add: reprint_def)
    next
      case (Some v)
      with False have "\<And>ys. v \<noteq> JArr ys" by auto
      then have "\<And>xs. ce_parse env (ce_print env v) \<noteq> Some (JArr xs)" using assms(1) by (auto simp: serde_ok_def)
      then show ?thesis by (auto simp: Some reprint_def parse_entries_def split: option.split json.split)
    qed
    ultimately show ?thesis by (simp add: Some get_config_def decode_config_def entries_of_def)
  qed
qed (simp add: get_config_def entries_of_def)

lemma refresh_rows:
  assumes "serde_ok env" "sched_ok env K db"
  shows "\<exists>f. refresh_removed_states env db sid = db\<lparr>t_schedule_nodes := map f (t_schedule_nodes db)\<rparr>
    \<and> (\<forall>r. sn_node (f r) = sn_node r \<and> sn_schedule (f r) = sn_schedule r \<and> (sn_node r \<notin> K \<longrightarrow> f r = r))"
proof -
  define step where "step = (\<lambda>d n. let entries = (case get_config env d n of Some c \<Rightarrow> parse_entries env (cf_schedules c) | None \<Rightarrow> [])
         in if has_origin entries (origin_of sid) then d
            else set_state d (\<lambda>r. sn_schedule r = sid \<and> sn_node r = n \<and> sn_state r = ''active'') ''removed_by_node_edit'')"
  have st: "states_ok env K db" using assms(2) by (simp add: sched_ok_def)
  have fold: "\<exists>f. foldl step d ns = d\<lparr>t_schedule_nodes := map f (t_schedule_nodes d)\<rparr>
    \<and> (\<forall>r. sn_node (f r) = sn_node r \<and> sn_schedule (f r) = sn_schedule r \<and> (sn_node r \<notin> K \<longrightarrow> f r = r))"
    if "\<forall>n \<in> set ns. n \<notin> K \<longrightarrow> has_origin (entries_of env db n) (origin_of sid)" "t_configs d = t_configs db" for ns d
    using that
  proof (induction ns arbitrary: d)
    case Nil
    show ?case by (intro exI [of _ "\<lambda>r. r"]) simp
  next
    case (Cons n ns)
    have "\<exists>f. step d n = d\<lparr>t_schedule_nodes := map f (t_schedule_nodes d)\<rparr>
      \<and> (\<forall>r. sn_node (f r) = sn_node r \<and> sn_schedule (f r) = sn_schedule r \<and> (sn_node r \<notin> K \<longrightarrow> f r = r))"
    proof (cases "has_origin (case get_config env d n of Some c \<Rightarrow> parse_entries env (cf_schedules c) | None \<Rightarrow> []) (origin_of sid)")
      case True
      then show ?thesis by (intro exI [of _ "\<lambda>r. r"]) (simp add: step_def)
    next
      case False
      have "entries_of env d n = entries_of env db n" by (rule entries_of_cong) (rule Cons.prems(2))
      then have "n \<in> K"
        using get_config_entries [OF assms(1), of d n] states_okD3 [OF st, of n] Cons.prems(1) False by force
      with False show ?thesis
        by (intro exI [of _ "\<lambda>r. if sn_schedule r = sid \<and> sn_node r = n \<and> sn_state r = ''active''
               then r\<lparr>sn_state := ''removed_by_node_edit''\<rparr> else r"])
          (auto simp: step_def set_state_def update_where_def)
    qed
    then obtain f where f: "step d n = d\<lparr>t_schedule_nodes := map f (t_schedule_nodes d)\<rparr>"
      "\<forall>r. sn_node (f r) = sn_node r \<and> sn_schedule (f r) = sn_schedule r \<and> (sn_node r \<notin> K \<longrightarrow> f r = r)" by blast
    have "\<exists>g. foldl step (step d n) ns = (step d n)\<lparr>t_schedule_nodes := map g (t_schedule_nodes (step d n))\<rparr>
      \<and> (\<forall>r. sn_node (g r) = sn_node r \<and> sn_schedule (g r) = sn_schedule r \<and> (sn_node r \<notin> K \<longrightarrow> g r = r))"
      by (rule Cons.IH) (use Cons.prems f(1) in simp_all)
    then obtain g where
        g: "foldl step (step d n) ns = (step d n)\<lparr>t_schedule_nodes := map g (t_schedule_nodes (step d n))\<rparr>"
      "\<forall>r. sn_node (g r) = sn_node r \<and> sn_schedule (g r) = sn_schedule r \<and> (sn_node r \<notin> K \<longrightarrow> g r = r)" by blast
    have "foldl step d (n # ns) = d\<lparr>t_schedule_nodes := map (g \<circ> f) (t_schedule_nodes d)\<rparr>"
      unfolding foldl_Cons g(1) by (simp add: f(1))
    then show ?case using f(2) g(2) by (intro exI [of _ "g \<circ> f"]) simp
  qed
  have "\<forall>n \<in> set (map sn_node (filter (\<lambda>r. sn_schedule r = sid \<and> sn_state r = ''active'') (t_schedule_nodes db))).
      n \<notin> K \<longrightarrow> has_origin (entries_of env db n) (origin_of sid)"
    using states_okD1 [OF st] by (force simp: has_origin_own)
  from fold [OF this refl] show ?thesis unfolding refresh_removed_states_def step_def .
qed

lemma read_sched_ok:
  assumes "serde_ok env" "sched_ok env K db"
  shows "sched_ok env K (fst (get_schedule env db sid))"
proof -
  from refresh_rows [OF assms] obtain f where
    f: "refresh_removed_states env db sid = db\<lparr>t_schedule_nodes := map f (t_schedule_nodes db)\<rparr>"
    "\<forall>r. sn_node (f r) = sn_node r \<and> sn_schedule (f r) = sn_schedule r \<and> (sn_node r \<notin> K \<longrightarrow> f r = r)" by blast
  show ?thesis
    by (rule elsewhere_sched_ok [OF assms(2) subset_refl, of _ f]) (use f in \<open>simp_all add: get_schedule_def Let_def\<close>)
qed

subsection \<open>Edits of a node and other operations\<close>

definition disown :: "str \<Rightarrow> json list \<Rightarrow> str set \<Rightarrow> schedule_node_row \<Rightarrow> schedule_node_row" where
  "disown n es sids r =
     (if sn_node r = n \<and> sn_schedule r \<in> sids \<and> \<not> has_origin es (origin_of (sn_schedule r))
      then r\<lparr>sn_state := ''removed_by_node_edit''\<rparr> else r)"

lemma disown_simps [simp]: "sn_node (disown n es sids r) = sn_node r" "sn_schedule (disown n es sids r) = sn_schedule r"
  "node_state_key (disown n es sids r) = node_state_key r"
  by (simp_all add: disown_def node_state_key_def)

lemma disown_active:
  assumes "sn_state (disown n es sids r) = ''active''"
  shows "disown n es sids r = r" "sn_state r = ''active''"
    "sn_node r = n \<Longrightarrow> sn_schedule r \<in> sids \<Longrightarrow> has_origin es (origin_of (sn_schedule r))"
  using assms by (auto simp: disown_def split: if_splits)

lemma note_edit_rows:
  "note_node_schedule_edit env db n js = db\<lparr>t_schedule_nodes :=
     map (disown n (parse_entries env js)
       (set (map sn_schedule (filter (\<lambda>r. sn_node r = n \<and> sn_state r = ''active'') (t_schedule_nodes db)))))
       (t_schedule_nodes db)\<rparr>"
proof -
  let ?es = "parse_entries env js"
  have one: "(if has_origin ?es (origin_of a) then d
      else set_state d (\<lambda>r. sn_schedule r = a \<and> sn_node r = n) ''removed_by_node_edit'')
    = d\<lparr>t_schedule_nodes := map (disown n ?es {a}) (t_schedule_nodes d)\<rparr>" for d :: db and a
  proof (cases "has_origin ?es (origin_of a)")
    case True
    then have "map (disown n ?es {a}) rows = rows" for rows by (intro map_idI) (auto simp: disown_def)
    with True show ?thesis by simp
  next
    case False
    have "update_where (\<lambda>r. sn_schedule r = a \<and> sn_node r = n) (\<lambda>r. r\<lparr>sn_state := ''removed_by_node_edit''\<rparr>) rows
        = map (disown n ?es {a}) rows" for rows
      unfolding update_where_def using False by (intro map_cong) (auto simp: disown_def)
    with False show ?thesis by (simp add: set_state_def)
  qed
  have two: "disown n ?es B (disown n ?es {a} r) = disown n ?es (insert a B) r" for a B r
    by (auto simp: disown_def)
  have "foldl (\<lambda>d sid. if has_origin ?es (origin_of sid) then d
      else set_state d (\<lambda>r. sn_schedule r = sid \<and> sn_node r = n) ''removed_by_node_edit'') d sids
    = d\<lparr>t_schedule_nodes := map (disown n ?es (set sids)) (t_schedule_nodes d)\<rparr>" for d :: db and sids
    unfolding one
  proof (induction sids arbitrary: d)
    case Nil
    have "map (disown n ?es {}) rows = rows" for rows by (intro map_idI) (simp add: disown_def)
    then show ?case by simp
  next
    case (Cons a sids)
    then show ?case by (simp add: two comp_def)
  qed
  then show ?thesis unfolding note_node_schedule_edit_def .
qed

lemma put_schedules_entries:
  assumes "put_schedules env db n js = Ok (db', c)"
  shows "entries_of env db' m = (if m = n then parse_entries env js else entries_of env db m)" "same_but_configs db db'"
proof -
  have d: "db' = db\<lparr>t_configs := update_where (\<lambda>c. cf_node c = n)
        (\<lambda>c. c\<lparr>cf_schedules := js, cf_generation := cf_generation c + 1\<rparr>) (t_configs db)\<rparr>"
    and e: "list_ex (\<lambda>c. cf_node c = n) (t_configs db)"
    using assms by (auto simp: put_schedules_def Let_def split: if_splits option.splits)
  have "row_at cf_node (t_configs db') m = map_option
      (\<lambda>c. if cf_node c = n then c\<lparr>cf_schedules := js, cf_generation := cf_generation c + 1\<rparr> else c) (row_at cf_node (t_configs db) m)"
    unfolding d by (simp, rule row_at_update_where) simp
  moreover have "row_at cf_node (t_configs db) n \<noteq> None" using e by (simp add: row_at_None list_ex_key)
  ultimately show "entries_of env db' m = (if m = n then parse_entries env js else entries_of env db m)"
    using row_at_key [of cf_node "t_configs db" m] by (auto simp: entries_of_def split: option.splits)
  show "same_but_configs db db'" unfolding d by simp
qed

text \<open>An edit that keeps the entries of a schedule as they are or removes them.\<close>

definition keeps_or_drops :: "json list \<Rightarrow> json list \<Rightarrow> bool" where
  "keeps_or_drops old new \<longleftrightarrow> (\<forall>sid. own (origin_of sid) new \<in> {[], own (origin_of sid) old})"

lemma edit_sched_ok:
  assumes ok: "sched_ok env K db" and put: "put_schedules_handler env db n js = Ok (db', c)"
    and keep: "keeps_or_drops (entries_of env db n) (parse_entries env js)" and pl: "plain_entries (parse_entries env js)"
  shows "sched_ok env K db'"
proof -
  let ?S = "set (map sn_schedule (filter (\<lambda>r. sn_node r = n \<and> sn_state r = ''active'') (t_schedule_nodes db)))"
  let ?es = "parse_entries env js"
  obtain db1 where p: "put_schedules env db n js = Ok (db1, c)" and d: "db' = note_node_schedule_edit env db1 n js"
    using put by (auto simp: put_schedules_handler_def)
  note e1 = put_schedules_entries [OF p]
  note f1 = same_but_configs_simps [OF e1(2)]
  have rows: "t_schedule_nodes db' = map (disown n ?es ?S) (t_schedule_nodes db)"
    by (simp add: d note_edit_rows f1)
  have en: "entries_of env db' m = (if m = n then ?es else entries_of env db m)" for m
    by (simp add: d note_edit_rows e1)
  have frame: "t_schedules db' = t_schedules db" "t_nodes db' = t_nodes db" "t_resolutions db' = t_resolutions db"
      "uuids_drawn db' = uuids_drawn db"
    by (simp_all add: d note_edit_rows f1)
  have st: "states_ok env K db" and ro: "rows_ok env db" using ok by (simp_all add: sched_ok_def)
  have kept: "has_origin ?es (origin_of k) \<Longrightarrow> own (origin_of k) ?es = own (origin_of k) (entries_of env db n)" for k
    using keep by (auto simp: keeps_or_drops_def has_origin_own)
  have "states_ok env K db'"
  proof (rule states_okI)
    fix r' assume r': "r' \<in> set (t_schedule_nodes db')" "sn_node r' \<notin> K" "sn_state r' = ''active''"
    then obtain r where r: "r \<in> set (t_schedule_nodes db)" "r' = disown n ?es ?S r" unfolding rows by auto
    note act = disown_active [OF r'(3) [unfolded r(2)], folded r(2)]
    have "sn_node r \<notin> K" using r'(2) act(1) by simp
    moreover have "sn_node r = n \<Longrightarrow> has_origin ?es (origin_of (sn_schedule r))"
      using act(2,3) r(1) by auto
    ultimately show "\<exists>s. row_at sc_id (t_schedules db') (sn_schedule r') = Some s
        \<and> own (origin_of (sn_schedule r')) (entries_of env db' (sn_node r')) = [entry_for s]"
      using states_okD1 [OF st r(1) _ act(2)] kept act(1) by (auto simp: en frame)
  next
    fix k m assume m: "m \<notin> K" and o: "own (origin_of k) (entries_of env db' m) \<noteq> []"
    then have "own (origin_of k) (entries_of env db m) \<noteq> []"
      using kept [of k] unfolding en has_origin_own by (metis (full_types))
    then obtain r where r: "r \<in> set (t_schedule_nodes db)" "sn_schedule r = k" "sn_node r = m" "sn_state r = ''active''"
      using states_okD2 [OF st m] by blast
    have "sn_node r = n \<Longrightarrow> has_origin ?es (origin_of (sn_schedule r))" using o r(2,3) by (simp add: en has_origin_own)
    then have "disown n ?es ?S r = r" unfolding disown_def by metis
    moreover have "disown n ?es ?S r \<in> set (t_schedule_nodes db')"
      unfolding rows list.set_map [of "disown n ?es ?S"] using r(1) by (rule imageI)
    ultimately have "r \<in> set (t_schedule_nodes db')" by simp
    then show "\<exists>r \<in> set (t_schedule_nodes db'). sn_schedule r = k \<and> sn_node r = m \<and> sn_state r = ''active''"
      using r(2-4) by blast
  next
    fix m assume "m \<notin> K"
    then show "plain_entries (entries_of env db' m)" using states_okD3 [OF st] pl by (simp add: en)
  qed
  moreover have "rows_ok env db'"
  proof -
    have "rows_of db' k = rows_of db k" for k by (rule set_eqI) (simp add: rows_of_iff rows)
    then show ?thesis using ro by (simp add: rows_ok_def row_ok_def drawn_def frame) (simp add: rows comp_def)
  qed
  ultimately show ?thesis by (simp add: sched_ok_def)
qed

text \<open>
  The operator replaces the entries of a node, by either request; \<open>PUT /nodes/{id}/config\<close> with
  schedules does not tell the schedules.
\<close>

lemma replace_sched_ok:
  assumes ok: "sched_ok env K db" and put: "put_schedules_handler env db n js = Ok (db', c)"
  shows "sched_ok env (insert n K) db'"
proof -
  let ?S = "set (map sn_schedule (filter (\<lambda>r. sn_node r = n \<and> sn_state r = ''active'') (t_schedule_nodes db)))"
  obtain db1 where p: "put_schedules env db n js = Ok (db1, c)" and d: "db' = note_node_schedule_edit env db1 n js"
    using put by (auto simp: put_schedules_handler_def)
  note e1 = put_schedules_entries [OF p]
  note f1 = same_but_configs_simps [OF e1(2)]
  show ?thesis
    by (rule elsewhere_sched_ok [OF ok, of _ _ "disown n (parse_entries env js) ?S"])
      (auto simp: d note_edit_rows f1 e1 disown_def)
qed

lemma put_config_entries:
  assumes "put_config env db n specs (Some js) = Ok (db', c)"
  shows "entries_of env db' m = (if m = n then parse_entries env js else entries_of env db m)" "same_but_configs db db'"
proof -
  have d: "db' = db\<lparr>t_configs := upsert cf_node \<lparr>cf_node = n, cf_generation = 1, cf_specs = specs, cf_schedules = js\<rparr>
        (\<lambda>c. c\<lparr>cf_generation := cf_generation c + 1, cf_specs := specs, cf_schedules := js\<rparr>) (t_configs db)\<rparr>"
    using assms by (auto simp: put_config_def Let_def split: if_splits option.splits)
  show "entries_of env db' m = (if m = n then parse_entries env js else entries_of env db m)"
    using configs.row_at_upsert [of n "(specs, js)" "t_configs db" m]
    by (auto simp: d entries_of_def split: option.splits)
  show "same_but_configs db db'" unfolding d by simp
qed

lemma override_sched_ok:
  assumes ok: "sched_ok env K db" and put: "put_config env db n specs (Some js) = Ok (db', c)"
  shows "sched_ok env (insert n K) db'"
  by (rule elsewhere_sched_ok [OF ok, of _ _ "\<lambda>r. r"])
    (use put_config_entries(1) [OF put] same_but_configs_simps [OF put_config_entries(2) [OF put]] in auto)

lemma grown_sched_ok:
  assumes inj: "inj (ce_uuid env)" and ok: "sched_ok env K db"
    and g: "t_configs db' = t_configs db" "t_schedules db' = t_schedules db" "t_schedule_nodes db' = t_schedule_nodes db"
      "t_nodes db' = t_nodes db" "t_resolutions db' = t_resolutions db @ [row]" "rr_id row = ce_uuid env k"
      "k < uuids_drawn db'" "uuids_drawn db \<le> uuids_drawn db'"
  shows "sched_ok env K db'"
proof -
  have up: "drawn env db i \<Longrightarrow> drawn env db' i" for i using g(8) by (auto intro: drawn_mono)
  have rows: "rows_of db' k = rows_of db k" for k by (simp add: rows_of_def g)
  have "row_ok env db s \<Longrightarrow> row_ok env db' s" for s
    using up row_at_append_Some unfolding row_ok_def g(5) rows by metis
  moreover have "drawn env db' (rr_id row)" using g(6,7) by (auto simp: drawn_def)
  ultimately show ?thesis using ok up states_ok_cong [OF _ g(1-3)]
    by (auto simp: sched_ok_def rows_ok_def g(2-5))
qed

lemma plan_runs_frame:
  "plan_runs env op rid s pj ids db = (db', planned) \<Longrightarrow>
   t_configs db' = t_configs db \<and> t_schedules db' = t_schedules db \<and> t_schedule_nodes db' = t_schedule_nodes db
   \<and> t_nodes db' = t_nodes db \<and> t_resolutions db' = t_resolutions db \<and> uuids_drawn db \<le> uuids_drawn db'"
proof (induction ids arbitrary: db db' planned)
  case (Cons n ids)
  then show ?case
    by (fastforce simp: new_uuid_def insert_pending_def audit_event_def insert_audit_def Let_def split: prod.splits)
qed simp

lemma send_runs_frame:
  "send_runs env h alive op planned db = (db', sent, per) \<Longrightarrow>
   t_configs db' = t_configs db \<and> t_schedules db' = t_schedules db \<and> t_schedule_nodes db' = t_schedule_nodes db
   \<and> t_nodes db' = t_nodes db \<and> t_resolutions db' = t_resolutions db \<and> uuids_drawn db' = uuids_drawn db"
proof (induction planned arbitrary: db db' sent per)
  case (Cons x planned)
  then show ?case
    by (cases x) (fastforce simp: mark_in_flight_def Let_def split: prod.splits if_splits)
qed simp

lemma dispatch_sched_ok:
  assumes inj: "inj (ce_uuid env)" and ok: "sched_ok env K db"
  shows "sched_ok env K (fst (dispatch_target env db h alive body))"
proof -
  let ?s = "trim (dq_spec_id body)"
  obtain d1 res where c: "check_submit env db h (dq_target body) (dq_confirm body) ''dispatch'' ?s = (d1, res)" by (metis prod.exhaust)
  note ok1 = check_submit_sched_ok [OF ok c]
  show ?thesis
  proof (cases res)
    case (Inl e)
    with c ok ok1 show ?thesis by (simp add: dispatch_target_def Let_def)
  next
    case (Inr f)
    obtain rid d2 where ir: "insert_resolution env (snd (new_uuid env d1)) ''dispatch'' (ce_uuid env (uuids_drawn d1)) f None = (rid, d2)"
      by (metis prod.exhaust)
    note row = insert_resolution_rows [OF ir]
    let ?pj = "ce_print env (unwrap_or (dq_params body) (JObj []))"
    obtain x where x: "t_resolutions d2 = t_resolutions d1 @ [x]" "rr_id x = rid" using row(1) by (auto simp: new_uuid_def)
    let ?d3 = "d2\<lparr>t_dispatches := t_dispatches d2 @ [\<lparr>do_id = ce_uuid env (uuids_drawn d1), do_spec = ?s, do_params = ?pj,
         do_resolution = rid, do_at = ce_now env\<rparr>]\<rparr>"
    obtain d4 planned where p: "plan_runs env (ce_uuid env (uuids_drawn d1)) rid ?s ?pj (fz_node_ids f) ?d3 = (d4, planned)"
      by (metis prod.exhaust)
    obtain d5 sent per where q: "send_runs env h alive (ce_uuid env (uuids_drawn d1)) planned d4 = (d5, sent, per)"
      by (metis prod_cases3)
    have fst: "fst (dispatch_target env db h alive body) = (if ?s = [] then db else d5)"
      using c Inr ir p q by (simp add: dispatch_target_def Let_def new_uuid_def)
    have "sched_ok env K d5"
      by (rule grown_sched_ok [OF inj ok1, of d5 x "uuids_drawn d1 + 1"])
        (use row x plan_runs_frame [OF p] send_runs_frame [OF q] in \<open>simp_all add: new_uuid_def\<close>)
    with fst ok show ?thesis by simp
  qed
qed

lemma upsert_node_sched_ok:
  assumes "serde_ok env" "sched_ok env K db"
  shows "sched_ok env K (upsert_node env db n hn ver labels)"
proof -
  let ?db' = "upsert_node env db n hn ver labels"
  have en: "entries_of env ?db' m = entries_of env db m" for m
    using assms(1) by (auto simp: entries_of_def upsert_node_def Let_def row_at_insert_ignore split: option.splits)
  have "distinct (map nd_id (t_nodes db)) \<Longrightarrow> distinct (map nd_id (t_nodes ?db'))"
    using nodes.upsert_distinct [of "t_nodes db" n "(hn, ver, ce_print env (labels_value labels), Some (ce_now env))"]
    by (simp add: upsert_node_def Let_def)
  moreover have "t_schedules ?db' = t_schedules db" "t_schedule_nodes ?db' = t_schedule_nodes db"
    "t_resolutions ?db' = t_resolutions db" "uuids_drawn ?db' = uuids_drawn db"
    by (simp_all add: upsert_node_def Let_def)
  ultimately show ?thesis
    using assms(2) by (simp add: sched_ok_def rows_ok_def row_ok_def rows_of_def drawn_def states_ok_def en)
qed

lemma put_specs_sched_ok:
  assumes "serde_ok env" "sched_ok env K db" "put_config env db n specs None = Ok (db', c)"
  shows "sched_ok env K db'"
proof -
  define sch where "sch = (case get_config env db n of Some c \<Rightarrow> cf_schedules c | None \<Rightarrow> ''[]'')"
  have d: "db' = db\<lparr>t_configs := upsert cf_node \<lparr>cf_node = n, cf_generation = 1, cf_specs = specs, cf_schedules = sch\<rparr>
        (\<lambda>c. c\<lparr>cf_generation := cf_generation c + 1, cf_specs := specs, cf_schedules := sch\<rparr>) (t_configs db)\<rparr>"
    using assms(3) by (auto simp: put_config_def Let_def sch_def split: if_splits option.splits)
  have e: "entries_of env db' m = entries_of env db m" if "m \<notin> K" for m
  proof -
    have "m = n \<Longrightarrow> parse_entries env sch = entries_of env db n"
      using get_config_entries [OF assms(1), of db n] assms(1,2) states_okD3 [of env K db n] that
      by (auto simp: sch_def sched_ok_def split: option.splits)
    then show ?thesis
      using configs.row_at_upsert [of n "(specs, sch)" "t_configs db" m]
      by (auto simp: d entries_of_def split: option.splits)
  qed
  show ?thesis
    by (rule elsewhere_sched_ok [OF assms(2) subset_refl e, where f = "\<lambda>r. r"]) (simp_all add: d)
qed

subsection \<open>Any sequence of operations\<close>

text \<open>
  The operations on schedules and on the configurations of nodes. With the database goes the set of
  the nodes whose entries an operator has replaced: by \<open>PUT /nodes/{id}/schedules\<close> in another way than
  keeping or removing the entries of schedules, or by \<open>PUT /nodes/{id}/config\<close> with schedules.
\<close>

inductive sched_step :: "cenv \<Rightarrow> str set \<times> db \<Rightarrow> str set \<times> db \<Rightarrow> bool" for env where
  create: "small_interval (cr_interval body) \<Longrightarrow> sched_step env (K, db) (K, fst (create_schedule env db h body))"
| patch: "small_interval (ph_interval body) \<Longrightarrow> sched_step env (K, db) (K, fst (patch_schedule env db sid body))"
| delete: "sched_step env (K, db) (K, fst (delete_schedule env db sid))"
| re_resolve: "sched_step env (K, db) (K, fst (re_resolve_schedule env db h sid body))"
| read: "sched_step env (K, db) (K, fst (get_schedule env db sid))"
| edit: "put_schedules_handler env db n js = Ok (db', c) \<Longrightarrow> keeps_or_drops (entries_of env db n) (parse_entries env js) \<Longrightarrow>
    plain_entries (parse_entries env js) \<Longrightarrow> sched_step env (K, db) (K, db')"
| replace: "put_schedules_handler env db n js = Ok (db', c) \<Longrightarrow> sched_step env (K, db) (insert n K, db')"
| override: "put_config env db n specs (Some js) = Ok (db', c) \<Longrightarrow> sched_step env (K, db) (insert n K, db')"
| put_specs: "put_config env db n specs None = Ok (db', c) \<Longrightarrow> sched_step env (K, db) (K, db')"
| register: "sched_step env (K, db) (K, upsert_node env db n hn ver labels)"
| dispatch: "sched_step env (K, db) (K, fst (dispatch_target env db h alive req))"

lemma sched_step_ok:
  "sched_step env c c' \<Longrightarrow> inj (ce_uuid env) \<Longrightarrow> serde_ok env \<Longrightarrow> sched_ok env (fst c) (snd c)
   \<Longrightarrow> sched_ok env (fst c') (snd c')"
  by (induction rule: sched_step.induct; unfold fst_conv snd_conv)
    (rule create_sched_ok patch_sched_ok delete_sched_ok re_resolve_sched_ok read_sched_ok edit_sched_ok
      replace_sched_ok override_sched_ok put_specs_sched_ok upsert_node_sched_ok dispatch_sched_ok; assumption)+

lemma sched_steps_ok:
  assumes "inj (ce_uuid env)" "serde_ok env" "sched_ok env K db" "(sched_step env)\<^sup>*\<^sup>* (K, db) (L, db')"
  shows "sched_ok env L db'"
proof -
  have "sched_ok env (fst (L, db')) (snd (L, db'))" using assms(4)
    by (induction rule: rtranclp_induct) (use assms sched_step_ok in \<open>simp, blast\<close>)
  then show ?thesis by simp
qed


text \<open>
  Why replaced nodes are set apart: \<open>PUT /nodes/{id}/config\<close> with schedules takes the entry away and
  leaves the state of the schedule active.
\<close>

lemma put_config_orphans_state:
  assumes "put_config env db n specs (Some js) = Ok (db', c)" "parse_entries env js = []"
    "r \<in> set (t_schedule_nodes db)" "sn_node r = n" "sn_state r = ''active''"
  shows "r \<in> set (t_schedule_nodes db')" "\<not> has_origin (entries_of env db' n) (origin_of (sn_schedule r))"
  using put_config_entries(1) [OF assms(1)] same_but_configs_simps(4) [OF put_config_entries(2) [OF assms(1)]] assms(2-)
  by (simp_all add: has_origin_def)

text \<open>Printing by enumeration: a concrete \<open>serde_json\<close> for the sample runs.\<close>

instance json :: countable
  by countable_datatype

definition counting_cenv :: cenv where
  "counting_cenv = \<lparr>ce_now = 0, ce_uuid = (\<lambda>n. replicate n CHR ''u''), ce_sha = (\<lambda>s. ''0''),
     ce_print = (\<lambda>v. if v = JArr [] then ''[]'' else replicate (to_nat v) CHR ''x''),
     ce_parse = (\<lambda>s. Some (if s = ''[]'' then JArr [] else from_nat (length s)))\<rparr>"

lemma counting_cenv_ok: "inj (ce_uuid counting_cenv)" "serde_ok counting_cenv"
proof -
  show "inj (ce_uuid counting_cenv)"
    unfolding counting_cenv_def by (rule injI) (drule arg_cong [of _ _ length], simp)
  have x: "replicate k CHR ''x'' \<noteq> ''[]''" for k by (cases k) auto
  then have "ce_parse counting_cenv (ce_print counting_cenv v) = Some v" for v by (simp add: counting_cenv_def)
  then show "serde_ok counting_cenv" by (simp add: serde_ok_def) (simp add: counting_cenv_def)
qed

lemma sample_fleet_ok: "sched_ok counting_cenv K sample_fleet"
  by (simp add: sched_ok_def states_ok_def rows_ok_def sample_fleet_def empty_db_def entries_of_def sample_node_def)

definition sample_create :: create_request where
  "sample_create = \<lparr>cr_target = sample_target, cr_spec_id = ''s'', cr_interval = Some 60, cr_cron = None,
     cr_enabled = True, cr_confirm = Some 1\<rparr>"

text \<open>A fleet with a schedule that is active on one node, and an operator who replaces the entries of another.\<close>

definition hourly :: schedule_row where
  "hourly = \<lparr>sc_id = ''u'', sc_spec = ''s'', sc_interval = Some 3600, sc_cron = None, sc_enabled = True,
     sc_resolution = ''uu'', sc_at = 0\<rparr>"

definition active_fleet :: db where
  "active_fleet = sample_fleet\<lparr>t_schedules := [hourly],
     t_resolutions := [\<lparr>rr_id = ''uu'', rr_kind = ''schedule'', rr_ref = ''u'', rr_selector = None, rr_picked = Some [''web-2''],
        rr_excluded = [], rr_node_ids = [''web-2''], rr_prod = [], rr_prod_confirmed = False, rr_sha = [], rr_at = 0,
        rr_supersedes = None\<rparr>],
     t_schedule_nodes := [\<lparr>sn_schedule = ''u'', sn_node = ''web-2'', sn_state = ''active''\<rparr>],
     t_configs := [\<lparr>cf_node = ''web-2'', cf_generation = 1, cf_specs = ''[]'',
        cf_schedules = ce_print counting_cenv (JArr [entry_for hourly])\<rparr>], uuids_drawn := 3\<rparr>"

lemma hourly_fits: "row_fits hourly"
proof -
  have "small_interval (Some 3600) \<and> Some 3600 = map_option u64_as_i64 (Some 3600)"
    by (simp add: small_interval_def u64_as_i64_def)
  then show ?thesis unfolding row_fits_def by (auto simp: hourly_def filter_text_def)
qed

lemma active_fleet_entries: "entries_of counting_cenv active_fleet m = (if m = ''web-2'' then [entry_for hourly] else [])"
  using counting_cenv_ok(2) row_fits_plain [OF hourly_fits] by (simp add: entries_of_def active_fleet_def)

lemma active_fleet_ok: "sched_ok counting_cenv {} active_fleet"
proof -
  have d: "drawn counting_cenv active_fleet ''u''" "drawn counting_cenv active_fleet ''uu''"
    unfolding drawn_def by (auto simp: active_fleet_def counting_cenv_def intro: exI [of _ 1] exI [of _ 2])
      (auto simp: numeral_2_eq_2 intro: exI [of _ 2])
  have "states_ok counting_cenv {} active_fleet"
  proof (rule states_okI)
    fix sid n assume "own (origin_of sid) (entries_of counting_cenv active_fleet n) \<noteq> []"
    then have "n = ''web-2'' \<and> sid = ''u''"
      by (auto simp: active_fleet_entries entry_for_def hourly_def split: if_splits)
    then show "\<exists>r \<in> set (t_schedule_nodes active_fleet). sn_schedule r = sid \<and> sn_node r = n \<and> sn_state r = ''active''"
      by (simp add: active_fleet_def)
  next
    fix n
    show "plain_entries (entries_of counting_cenv active_fleet n)"
      using row_fits_plain [OF hourly_fits] by (simp add: active_fleet_entries)
  next
    fix r assume "r \<in> set (t_schedule_nodes active_fleet)"
    then have "r = \<lparr>sn_schedule = ''u'', sn_node = ''web-2'', sn_state = ''active''\<rparr>" by (simp add: active_fleet_def)
    moreover have "row_at sc_id (t_schedules active_fleet) ''u'' = Some hourly" by (simp add: active_fleet_def hourly_def)
    ultimately show "\<exists>s. row_at sc_id (t_schedules active_fleet) (sn_schedule r) = Some s
        \<and> own (origin_of (sn_schedule r)) (entries_of counting_cenv active_fleet (sn_node r)) = [entry_for s]"
      by (simp add: active_fleet_entries) (simp add: entry_for_def hourly_def)
  qed
  moreover have "rows_ok counting_cenv active_fleet"
    using d hourly_fits
    by (simp add: rows_ok_def row_ok_def) (simp add: active_fleet_def sample_fleet_def sample_node_def empty_db_def rows_of_def hourly_def)
  ultimately show ?thesis by (simp add: sched_ok_def)
qed


end
