(* ===== verification/Target_Spares.thy ===== *)
theory Target_Spares
  imports Target_Schedules_Correct
begin

text \<open>
  A schedule only touches the entries that carry its origin: each operation on a schedule leaves all
  others as they are, on the nodes whose entries \<open>serde_json\<close> prints exactly.
\<close>

subsection \<open>Entries of others are left alone\<close>

definition spares :: "cenv \<Rightarrow> str \<Rightarrow> db \<Rightarrow> db \<Rightarrow> bool" where
  "spares env origin db db' \<longleftrightarrow> (\<forall>n. plain_entries (entries_of env db n) \<longrightarrow>
     plain_entries (entries_of env db' n) \<and> others origin (entries_of env db' n) = others origin (entries_of env db n))"

lemma spares_refl [simp]: "spares env origin db db"
  by (simp add: spares_def)

lemma spares_trans: "spares env origin a b \<Longrightarrow> spares env origin b c \<Longrightarrow> spares env origin a c"
  by (simp add: spares_def)

lemma spares_configs: "t_configs b = t_configs a \<Longrightarrow> spares env origin a b"
  by (simp add: spares_def entries_of_def)

lemma spares_configs_right: "spares env origin a b \<Longrightarrow> t_configs c = t_configs b \<Longrightarrow> spares env origin a c"
  using spares_configs spares_trans by blast

lemma spares_configs_left: "spares env origin b c \<Longrightarrow> t_configs b = t_configs a \<Longrightarrow> spares env origin a c"
  using spares_configs spares_trans by blast

lemma spares_each_node:
  "(\<And>d n d'. f d n = Ok d' \<Longrightarrow> spares env origin d d') \<Longrightarrow> each_node f ns db = Ok db' \<Longrightarrow> spares env origin db db'"
  by (induction ns arbitrary: db) (auto, metis spares_trans)

lemma give_entry_spares:
  "serde_ok env \<Longrightarrow> small_interval i \<Longrightarrow> give_entry env db spec_id i c e origin n = Ok (db', st, ws) \<Longrightarrow>
   spares env origin db db'"
  by (auto simp: spares_def give_entry_entries)

lemma drop_state_spares: "serde_ok env \<Longrightarrow> drop_state env sid db n = Ok db' \<Longrightarrow> spares env (origin_of sid) db db'"
  by (auto simp: spares_def drop_state_entries)

lemma take_entry_spares: "serde_ok env \<Longrightarrow> take_entry env db origin n = Ok db' \<Longrightarrow> spares env origin db db'"
  by (auto simp: spares_def take_entry_entries)

lemma patch_node_spares:
  "serde_ok env \<Longrightarrow> small_interval (tm_interval tm) \<Longrightarrow> patch_node env db origin tm e n = Ok db' \<Longrightarrow> spares env origin db db'"
  by (auto simp: spares_def patch_node_entries)

lemma create_nodes_spares:
  "create_nodes env sid spec_id tm enabled ns db = Ok (db', per, ws) \<Longrightarrow> serde_ok env \<Longrightarrow>
   small_interval (tm_interval tm) \<Longrightarrow> spares env (origin_of sid) db db'"
proof (induction ns arbitrary: db per ws)
  case (Cons n ns)
  from Cons.prems(1) obtain db1 st ws1 per1 ws2 where
      g: "give_entry env db spec_id (tm_interval tm) (tm_cron tm) enabled (origin_of sid) n = Ok (db1, st, ws1)"
      and c: "create_nodes env sid spec_id tm enabled ns
        (db1\<lparr>t_schedule_nodes := t_schedule_nodes db1 @ [\<lparr>sn_schedule = sid, sn_node = n, sn_state = st\<rparr>]\<rparr>) = Ok (db', per1, ws2)"
    by (auto split: if_splits)
  have "spares env (origin_of sid) db1 db'" using spares_configs_left [OF Cons.IH [OF c Cons.prems(2,3)]] by simp
  then show ?case using give_entry_spares [OF Cons.prems(2,3) g] spares_trans by blast
qed simp

lemma live_nodes_spares:
  "live_nodes env v sid added removed ns db = Ok (db', per, ws) \<Longrightarrow> serde_ok env \<Longrightarrow>
   small_interval (sw_interval v) \<Longrightarrow> spares env (origin_of sid) db db'"
proof (induction ns arbitrary: db per ws)
  case (Cons n ns)
  show ?case
  proof (cases "n \<in> set removed \<or> n \<notin> set added")
    case True
    with Cons.prems(1) obtain per1 ws1 where "live_nodes env v sid added removed ns db = Ok (db', per1, ws1)"
      by (auto split: if_splits)
    from Cons.IH [OF this Cons.prems(2,3)] show ?thesis .
  next
    case False
    with Cons.prems(1) obtain db1 st ws1 per1 ws2 where
      g: "give_entry env db (sw_spec v) (sw_interval v) (sw_cron v) (sw_enabled v) (origin_of sid) n = Ok (db1, st, ws1)"
      and l: "live_nodes env v sid added removed ns (db1\<lparr>t_schedule_nodes := upsert node_state_key
         \<lparr>sn_schedule = sid, sn_node = n, sn_state = st\<rparr> (\<lambda>r. r\<lparr>sn_state := st\<rparr>) (t_schedule_nodes db1)\<rparr>) = Ok (db', per1, ws2)"
      by (auto split: if_splits)
    have "spares env (origin_of sid) db1 db'" using spares_configs_left [OF Cons.IH [OF l Cons.prems(2,3)]] by simp
    then show ?thesis using give_entry_spares [OF Cons.prems(2,3) g] spares_trans by blast
  qed
qed simp

lemma audit_configs [simp]: "t_configs (audit_event env db a t i n d) = t_configs db"
  "t_configs (refuse env db k i c s ids) = t_configs db" "t_configs (rolled_back db u) = t_configs db"
  by (simp_all add: refuse_def audit_event_def insert_audit_def rolled_back_def)

lemma check_submit_configs:
  "check_submit env db h t c kind tid = (db', r) \<Longrightarrow> t_configs db' = t_configs db"
  by (cases r) (auto dest: check_submit_Err simp: check_submit_Ok)

lemma create_spares:
  assumes "serde_ok env" "small_interval (cr_interval body)" "create_schedule env db h body = (db', Ok rep)"
  shows "spares env (origin_of (cp_id rep)) db db'"
proof -
  let ?s = "trim (cr_spec_id body)"
  obtain d1 res where c: "check_submit env db h (cr_target body) (cr_confirm body) ''schedule'' ?s = (d1, res)" by (metis prod.exhaust)
  then obtain tm f where tm: "validate_timing (cr_interval body) (cr_cron body) = Ok tm" and f: "res = Ok f" and ne: "?s \<noteq> []"
    using assms(3) by (auto simp: create_schedule_def Let_def split: if_splits sum.splits)
  obtain rid d2 where ir: "insert_resolution env (snd (new_uuid env d1)) ''schedule'' (ce_uuid env (uuids_drawn d1)) f None = (rid, d2)"
    by (metis prod.exhaust)
  obtain d3 d4 per ws where n: "create_nodes env (cp_id rep) ?s tm (cr_enabled body) (fz_node_ids f) d3 = Ok (d4, per, ws)"
    "t_configs d3 = t_configs d2" "t_configs db' = t_configs d4"
    using assms(3) ne tm c f ir
    by (auto simp: create_schedule_def Let_def new_uuid_def split: sum.splits)
  have "t_configs d2 = t_configs db"
    using insert_resolution_rows(4) [OF ir] check_submit_configs [OF c] by (simp add: new_uuid_def)
  with create_nodes_spares [OF n(1) assms(1)] validate_timing_fits [OF tm] assms(2) n(2,3) show ?thesis
    by (metis spares_configs_left spares_configs_right)
qed

text \<open>The intervals of the rows are of type \<open>i64\<close>.\<close>

lemma view_interval:
  assumes "load_schedule_view db sid = Ok v" "\<forall>s \<in> set (t_schedules db). row_fits s"
  shows "small_interval (sw_interval v)"
proof -
  obtain s where s: "row_at sc_id (t_schedules db) sid = Some s" "sw_interval v = Option.bind (sc_interval s) i64_to_u64"
    using load_view_row [OF assms(1)] by blast
  then have "row_fits s" using row_at_key [OF s(1)] assms(2) by blast
  then show ?thesis unfolding s(2) row_fits_def by (metis i64_roundtrip)
qed

lemma patch_spares:
  assumes "serde_ok env" "small_interval (ph_interval body)" "\<forall>s \<in> set (t_schedules db). row_fits s"
  shows "spares env (origin_of sid) db (fst (patch_schedule env db sid body))"
proof -
  have p: "spares env (origin_of sid) db db2"
    if "each_node (\<lambda>d n. patch_node env d (origin_of sid) tm e n) ns (db\<lparr>t_schedules := ss\<rparr>) = Ok db2"
      "small_interval (tm_interval tm)" for db2 tm e ns ss
    using spares_configs_left [OF spares_each_node [OF patch_node_spares [OF assms(1) that(2)] that(1)], where a = db] by simp
  show ?thesis
  proof (cases "load_schedule_view db sid")
    case (Inr v)
    define interval where "interval = (if ph_clear_interval body then None
                 else (case ph_interval body of Some i \<Rightarrow> Some i | None \<Rightarrow> sw_interval v))"
    define cron where "cron = (if ph_clear_cron body then None
                 else (case filter_text (map_option trim (ph_cron body)) of Some c \<Rightarrow> Some c | None \<Rightarrow> sw_cron v))"
    show ?thesis
    proof (cases "validate_timing interval cron")
      case tm: (Inr tm)
      have small: "small_interval (tm_interval tm)"
        using assms(2) view_interval [OF Inr assms(3)] validate_timing_fits [OF tm]
        by (auto simp: interval_def small_interval_def split: option.splits if_splits)
      let ?p = "each_node (\<lambda>d n. patch_node env d (origin_of sid) tm (unwrap_or (ph_enabled body) (sw_enabled v)) n)
        (map fst (filter (\<lambda>(n, st). st = ''active'') (sw_nodes v))) (db\<lparr>t_schedules := update_where (\<lambda>s. sc_id s = sid)
           (\<lambda>s. s\<lparr>sc_interval := map_option u64_as_i64 (tm_interval tm), sc_cron := tm_cron tm,
                            sc_enabled := unwrap_or (ph_enabled body) (sw_enabled v)\<rparr>) (t_schedules db)\<rparr>)"
      show ?thesis
      proof (cases ?p)
        case (Inl e)
        then have "fst (patch_schedule env db sid body) = db"
          using Inr tm by (simp add: patch_schedule_def Let_def interval_def cron_def)
        then show ?thesis by simp
      next
        case (Inr db2)
        then have "\<exists>d. fst (patch_schedule env db sid body) = audit_event env db2 ''schedule.updated'' ''schedule'' sid None d"
          using \<open>load_schedule_view db sid = Ok v\<close> tm by (auto simp: patch_schedule_def Let_def interval_def cron_def)
        then have "t_configs (fst (patch_schedule env db sid body)) = t_configs db2" by (metis audit_configs(1))
        then show ?thesis by (rule spares_configs_right [OF p [OF Inr small]])
      qed
    qed (use Inr in \<open>simp add: patch_schedule_def Let_def interval_def cron_def\<close>)
  qed (simp add: patch_schedule_def)
qed

lemma delete_spares:
  assumes "serde_ok env"
  shows "spares env (origin_of sid) db (fst (delete_schedule env db sid))"
proof -
  have p: "spares env (origin_of sid) db db2"
    if "each_node (\<lambda>d n. take_entry env d (origin_of sid) n) ns db = Ok db2" for db2 ns
    using spares_each_node [OF take_entry_spares [OF assms] that] .
  show ?thesis
    by (auto simp: delete_schedule_def Let_def split: sum.splits option.splits intro!: spares_configs_right [OF p])
qed

lemma apply_re_resolve_spares:
  assumes "serde_ok env" "small_interval (sw_interval v)"
  shows "spares env (origin_of sid) db (fst (apply_re_resolve env db h sid body v r live))"
proof (cases "parse_target (re_resolve_target r live)")
  case p: (Inr p)
  obtain added removed where diff: "diff_ids (sw_node_ids v) live = (added, removed)" by (metis prod.exhaust)
  let ?f = "(freeze env p (resolve_nodes_lenient (load_inventory db) live) h (rq_confirm body))
      \<lparr>fz_node_ids := live, fz_prod := live_prod db live, fz_prod_confirmed := live_prod db live \<noteq> [], fz_sha := sha_of env live\<rparr>"
  obtain rid db1 where ir: "insert_resolution env db ''schedule'' sid ?f (Some (rr_id r)) = (rid, db1)" by (metis prod.exhaust)
  let ?db2 = "db1\<lparr>t_schedules := update_where (\<lambda>s. sc_id s = sid) (\<lambda>s. s\<lparr>sc_resolution := rid\<rparr>) (t_schedules db1)\<rparr>"
  let ?run = "and_then (each_node (drop_state env sid) removed ?db2) (live_nodes env v sid added removed live)"
  have "spares env (origin_of sid) db db4" if "?run = Ok (db4, per, ws)" for db4 per ws
  proof -
    from that obtain db3 where run: "each_node (drop_state env sid) removed ?db2 = Ok db3"
        "live_nodes env v sid added removed live db3 = Ok (db4, per, ws)" by auto
    have "spares env (origin_of sid) ?db2 db3"
      by (rule spares_each_node [OF _ run(1)]) (rule drop_state_spares [OF assms(1)])
    moreover have "spares env (origin_of sid) db3 db4" using live_nodes_spares [OF run(2) assms] .
    ultimately have "spares env (origin_of sid) ?db2 db4" by (rule spares_trans)
    then show ?thesis using insert_resolution_rows(4) [OF ir] by (auto intro: spares_configs_left)
  qed
  then show ?thesis using p diff ir
    by (auto simp: apply_re_resolve_def Let_def simp del: and_then_eq_Inr split: sum.splits
        intro: spares_configs_right spares_configs)
qed (simp add: apply_re_resolve_def)

lemma re_resolve_spares:
  assumes "serde_ok env" "\<forall>s \<in> set (t_schedules db). row_fits s"
  shows "spares env (origin_of sid) db (fst (re_resolve_schedule env db h sid body))"
proof -
  have r: "spares env (origin_of sid) db (refuse env db k i c s ids)" for k i c s ids
    by (rule spares_configs) simp
  show ?thesis
    using apply_re_resolve_spares [OF assms(1) view_interval [OF _ assms(2)]] r
    by (auto simp: re_resolve_schedule_def Let_def split: sum.splits prod.splits)
qed

inductive schedule_op :: "cenv \<Rightarrow> str \<Rightarrow> db \<Rightarrow> db \<Rightarrow> bool" for env where
  create: "small_interval (cr_interval body) \<Longrightarrow> create_schedule env db h body = (db', Ok rep) \<Longrightarrow>
    schedule_op env (cp_id rep) db db'"
| patch: "small_interval (ph_interval body) \<Longrightarrow> schedule_op env sid db (fst (patch_schedule env db sid body))"
| delete: "schedule_op env sid db (fst (delete_schedule env db sid))"
| re_resolve: "schedule_op env sid db (fst (re_resolve_schedule env db h sid body))"


text \<open>The fleet with an entry of an operator beside that of the schedule, which is then deleted.\<close>

definition shared_fleet :: db where
  "shared_fleet = active_fleet\<lparr>t_configs := [\<lparr>cf_node = ''web-2'', cf_generation = 1, cf_specs = ''[]'',
     cf_schedules = ce_print counting_cenv (JArr [JObj [(''spec_id'', JStr ''m'')], entry_for hourly])\<rparr>]\<rparr>"

lemma shared_fleet_entries:
  "entries_of counting_cenv shared_fleet ''web-2'' = [JObj [(''spec_id'', JStr ''m'')], entry_for hourly]"
  "plain_entries (entries_of counting_cenv shared_fleet ''web-2'')"
proof -
  have p: "plain_entries [JObj [(''spec_id'', JStr ''m'')], entry_for hourly]"
    using row_fits_plain [OF hourly_fits] by (simp add: plain_fields_def json_map_def)
  then show e: "entries_of counting_cenv shared_fleet ''web-2'' = [JObj [(''spec_id'', JStr ''m'')], entry_for hourly]"
    using counting_cenv_ok(2) by (simp add: entries_of_def shared_fleet_def)
  show "plain_entries (entries_of counting_cenv shared_fleet ''web-2'')" using p by (simp add: e)
qed


end
