(* ===== verification/Target_Drift.thy ===== *)
theory Target_Drift
  imports Target_Schedules_Correct Selector_Correct
begin

text \<open>
  After a schedule has been resolved again its view shows no drift: what is stored, the canonical text
  of the selector or the picked nodes, resolves to the same nodes.
\<close>

subsection \<open>The canonical text is its own trimming\<close>

lemma last_join_terms: "xs \<noteq> [] \<Longrightarrow> last xs \<noteq> [] \<Longrightarrow> last (join sep xs) = last (last xs) \<and> join sep xs \<noteq> []"
  by (induction sep xs rule: join.induct) auto

lemma text_last_graph: "list_all is_tag_char v \<Longrightarrow> v \<noteq> [] \<Longrightarrow> is_graph (last v)"
  using tag_char_graph by (metis last_in_set list_all_iff)

lemma canonical_last_graph: "req_ok r \<Longrightarrow> req_canonical r \<noteq> [] \<and> is_graph (last (req_canonical r))"
proof (cases r)
  case (In k vs)
  then show ?thesis by (simp add: is_graph_def)
next
  case (NotIn k vs)
  then show ?thesis by (simp add: is_graph_def)
qed (auto simp: value_ok_iff key_ok_iff intro!: text_last_graph)

lemma trim_canonical:
  assumes "well_formed rs"
  shows "trim (canonical_of rs) = canonical_of rs" "canonical_of rs \<noteq> []"
proof -
  let ?n = "normal_form rs"
  have wf: "?n \<noteq> []" "list_all req_ok ?n" using well_formed_normal [OF assms] by (simp_all add: well_formed_def)
  obtain r rs' where n: "?n = r # rs'" using wf(1) by (cases ?n) auto
  then obtain a u where au: "req_canonical r = a # u" "is_graph a"
    using wf(2) canonical_graph [of r] by auto
  then have hd: "canonical_of rs \<noteq> []" "hd (canonical_of rs) = a"
    by (cases rs'; simp add: canonical_normal n)+
  have "last (map req_canonical ?n) \<noteq> [] \<and> is_graph (last (last (map req_canonical ?n)))"
    using wf canonical_last_graph by (simp add: last_map list_all_iff)
  then have "is_graph (last (canonical_of rs))"
    using wf(1) last_join_terms [of "map req_canonical ?n" "'',''"] by (simp add: canonical_normal)
  then show "trim (canonical_of rs) = canonical_of rs" using hd au(2) by (simp add: trim_graph)
  show "canonical_of rs \<noteq> []" by (rule hd)
qed

lemma parse_again:
  assumes "parse_selector inp = Ok (Filter sel)" "char_len (canonical sel) \<le> MAX_SELECTOR_CHARS"
  shows "\<exists>sel'. parse_selector (canonical sel) = Ok (Filter sel') \<and> canonical sel' = canonical sel
      \<and> selector_matches sel' = selector_matches sel"
    "trim (canonical sel) = canonical sel" "canonical sel \<noteq> []"
proof -
  have wf: "well_formed (requirements sel)" "canonical sel = canonical_of (requirements sel)"
    using accepted_well_formed [OF assms(1)] by simp_all
  show "\<exists>sel'. parse_selector (canonical sel) = Ok (Filter sel') \<and> canonical sel' = canonical sel
      \<and> selector_matches sel' = selector_matches sel"
    using parse_canonical [OF wf(1)] assms(2) wf(2)
    by (auto simp: fun_eq_iff selector_matches_def matches_normal)
  show "trim (canonical sel) = canonical sel" "canonical sel \<noteq> []"
    using trim_canonical [OF wf(1)] wf(2) by simp_all
qed

subsection \<open>What is stored resolves again\<close>

lemma named_ids_sorted_unique [simp]: "named_ids (sorted_unique ids) = named_ids ids"
proof -
  have "trim i = i" if "i \<in> named_ids ids" for i using that by (auto simp: named_ids_def)
  then have "trim ` named_ids ids = named_ids ids" by simp
  then show ?thesis unfolding named_ids_def [of "sorted_unique ids"] set_sorted_unique
    by (auto simp: named_ids_def)
qed

lemma sorted_unique_idem [simp]: "sorted_unique (sorted_unique ids) = sorted_unique ids"
  by (rule sorted_distinct_eq) simp_all

definition rematch_body :: "str option \<Rightarrow> str list option \<Rightarrow> str list \<Rightarrow> target_body option" where
  "rematch_body sel picked ex =
     (case filter_text sel of
        Some s \<Rightarrow> Some \<lparr>tb_selector = Some s, tb_node_ids = None, tb_exclude = ex, tb_expected = None\<rparr>
      | None \<Rightarrow> (case picked of
            Some ids \<Rightarrow> Some \<lparr>tb_selector = None, tb_node_ids = Some ids, tb_exclude = ex, tb_expected = None\<rparr>
          | None \<Rightarrow> None))"

definition rematch_parsed :: "inventory_node list \<Rightarrow> parsed_target \<Rightarrow> (str list, target_error) result" where
  "rematch_parsed iy p =
     (case pt_mode p of
        ByNodes ids \<Rightarrow> Ok (filter (\<lambda>i. i \<notin> set (pt_excluded p) \<and> list_ex (\<lambda>n. iv_id n = i) iy) ids)
      | _ \<Rightarrow> and_then (resolve_parsed iy p) (\<lambda>ms. Ok (map iv_id ms)))"

lemma rematch_alt:
  "rematch db sel picked ex = (case rematch_body sel picked ex of None \<Rightarrow> Ok []
     | Some b \<Rightarrow> and_then (parse_target b) (rematch_parsed (load_inventory db)))"
  by (simp add: rematch_def rematch_body_def rematch_parsed_def [abs_def] Let_def split: option.splits)

text \<open>Two parsed targets with the same nodes.\<close>

definition same_target :: "parsed_target \<Rightarrow> parsed_target \<Rightarrow> bool" where
  "same_target p q \<longleftrightarrow> set (pt_excluded p) = set (pt_excluded q) \<and>
     (case (pt_mode p, pt_mode q) of
        (ByNodes a, ByNodes b) \<Rightarrow> a = b
      | (BySelector All, BySelector All) \<Rightarrow> True
      | (BySelector (Filter s), BySelector (Filter t)) \<Rightarrow> selector_matches s = selector_matches t
      | _ \<Rightarrow> False)"

lemma same_target_rematch: "same_target p q \<Longrightarrow> rematch_parsed iy p = rematch_parsed iy q"
  by (auto simp: same_target_def rematch_parsed_def resolve_parsed_def
      split: target_mode.splits selector_parse.splits)

definition fits_column :: "parsed_target \<Rightarrow> bool" where
  "fits_column p = (case pt_selector p of Some s \<Rightarrow> char_len s \<le> MAX_SELECTOR_CHARS | None \<Rightarrow> True)"

lemma stored_again:
  assumes "parse_target b = Ok p" "fits_column p"
  shows "\<exists>b' p'. rematch_body (pt_selector p) (pt_picked p) (pt_excluded p) = Some b' \<and> parse_target b' = Ok p' \<and> same_target p' p"
proof (cases "tb_node_ids b")
  case (Some ids)
  with assms(1) have "pt_selector p = None" "pt_picked p = Some (sorted_unique ids)" "pt_mode p = ByNodes (sorted_unique ids)"
    "pt_excluded p = sorted_unique (tb_exclude b)"
    by (auto simp: parse_target_def Let_def split: option.splits if_splits)
  then show ?thesis by (auto simp: rematch_body_def filter_text_def parse_target_def same_target_def Let_def)
next
  case None
  from assms(1) None obtain raw s where r: "tb_selector b = Some raw" "trim raw \<noteq> []" "parse_selector (trim raw) = Ok s" "s \<noteq> Empty"
    by (auto simp: parse_target_def Let_def split: option.splits if_splits sum.splits selector_parse.splits)
  show ?thesis
  proof (cases s)
    case All
    have star: "trim ''*'' = ''*''" "parse_selector ''*'' = Ok All" by code_simp+
    from assms(1) None r All have "pt_selector p = Some ''*''" "pt_mode p = BySelector All"
      "pt_excluded p = sorted_unique (tb_exclude b)" by (auto simp: parse_target_def Let_def)
    then show ?thesis using star by (auto simp: rematch_body_def filter_text_def parse_target_def same_target_def Let_def)
  next
    case (Filter sel)
    from assms(1) None r Filter have p: "pt_selector p = Some (canonical sel)" "pt_mode p = BySelector (Filter sel)"
      "pt_excluded p = sorted_unique (tb_exclude b)" by (auto simp: parse_target_def Let_def)
    have "char_len (canonical sel) \<le> MAX_SELECTOR_CHARS" using assms(2) p by (simp add: fits_column_def)
    note again = parse_again [OF r(3) [unfolded Filter] this]
    obtain sel' where s': "parse_selector (canonical sel) = Ok (Filter sel')" "selector_matches sel' = selector_matches sel"
      using again(1) by blast
    show ?thesis using p s' again(2,3)
      by (auto simp: rematch_body_def filter_text_def parse_target_def same_target_def Let_def)
  qed (use r in simp)
qed

lemma rematch_again:
  assumes "parse_target b = Ok p" "fits_column p"
  shows "rematch db (pt_selector p) (pt_picked p) (pt_excluded p) = rematch_parsed (load_inventory db) p"
  using stored_again [OF assms] same_target_rematch by (fastforce simp: rematch_alt)

subsection \<open>Resolving a schedule again\<close>

lemma load_inventory_cong: "t_nodes db' = t_nodes db \<Longrightarrow> t_tags db' = t_tags db \<Longrightarrow> load_inventory db' = load_inventory db"
  by (simp add: load_inventory_def)

lemma parse_target_expected:
  "parse_target (b\<lparr>tb_expected := e\<rparr>) = and_then (parse_target b) (\<lambda>p. Ok (p\<lparr>pt_expected := map_option sorted_unique e\<rparr>))"
  by (auto simp: parse_target_def Let_def and_then_def split: option.splits sum.splits selector_parse.splits)

lemma rematch_parsed_cong:
  "pt_mode p = pt_mode q \<Longrightarrow> pt_excluded p = pt_excluded q \<Longrightarrow> rematch_parsed iy p = rematch_parsed iy q"
  by (cases "pt_mode q"; cases "case pt_mode q of BySelector x \<Rightarrow> x | _ \<Rightarrow> Empty")
    (auto simp: rematch_parsed_def resolve_parsed_def)

lemma re_resolve_rematch:
  assumes "rematch db (rr_selector r) (rr_picked r) (rr_excluded r) = Ok live" "parse_target (re_resolve_target r live) = Ok p"
  shows "rematch_parsed (load_inventory db) p = Ok live"
proof (cases "rematch_body (rr_selector r) (rr_picked r) (rr_excluded r)")
  case None
  then have "rr_picked r = None" "filter_text (rr_selector r) = None" "live = []"
    using assms(1) by (auto simp: rematch_alt rematch_body_def split: option.splits)
  then show ?thesis using assms(2)
    by (auto simp: re_resolve_target_def parse_target_def Let_def rematch_parsed_def sorted_unique_def)
next
  case (Some b)
  then have "re_resolve_target r live = b\<lparr>tb_expected := Some live\<rparr>"
    by (auto simp: re_resolve_target_def rematch_body_def split: option.splits)
  with assms(2) obtain q where q: "parse_target b = Ok q" "p = q\<lparr>pt_expected := Some (sorted_unique live)\<rparr>"
    by (auto simp: parse_target_expected)
  then have "rematch_parsed (load_inventory db) p = rematch_parsed (load_inventory db) q"
    by (intro rematch_parsed_cong) simp_all
  with assms(1) Some q(1) show ?thesis by (simp add: rematch_alt)
qed

text \<open>What neither giving nor taking entries changes.\<close>

definition frame_of :: "db \<Rightarrow> db \<Rightarrow> bool" where
  "frame_of db db' \<longleftrightarrow> t_nodes db' = t_nodes db \<and> t_tags db' = t_tags db \<and> t_schedules db' = t_schedules db
     \<and> t_resolutions db' = t_resolutions db"

lemma frame_of_trans: "frame_of a b \<Longrightarrow> frame_of b c \<Longrightarrow> frame_of a c"
  by (simp add: frame_of_def)

lemma same_but_configs_frame: "same_but_configs db db' \<Longrightarrow> frame_of db db'"
  by (simp add: frame_of_def same_but_configs_simps)

lemma lock_config_frame: "lock_config env db n = Ok (db', es, sp) \<Longrightarrow> frame_of db db'"
  by (auto simp: lock_config_def Let_def frame_of_def split: if_splits option.splits)

lemma give_entry_frame: "give_entry env db spec_id i c e origin n = Ok (db', st, ws) \<Longrightarrow> frame_of db db'"
  by (auto simp: give_entry_def Let_def frame_of_def write_schedules_def dest!: lock_config_frame split: if_splits)

lemma each_drop_frame: "each_node (drop_state env sid) ns db = Ok db' \<Longrightarrow> frame_of db db'"
proof (induction ns arbitrary: db)
  case (Cons n ns)
  then obtain d where d: "drop_state env sid db n = Ok d" "each_node (drop_state env sid) ns d = Ok db'" by auto
  have "frame_of db d" using d(1)
    by (auto simp: drop_state_def take_entry_def frame_of_def write_schedules_def dest!: lock_config_frame)
  with Cons.IH [OF d(2)] frame_of_trans show ?case by blast
qed (simp add: frame_of_def)

lemma live_nodes_frame: "live_nodes env v sid added removed ns db = Ok (db', per, ws) \<Longrightarrow> frame_of db db'"
proof (induction ns arbitrary: db per ws)
  case (Cons n ns)
  show ?case
  proof (cases "n \<in> set removed \<or> n \<notin> set added")
    case True
    with Cons show ?thesis by (auto split: if_splits)
  next
    case False
    with Cons.prems obtain db1 st ws1 per1 ws2 rows where
      g: "give_entry env db (sw_spec v) (sw_interval v) (sw_cron v) (sw_enabled v) (origin_of sid) n = Ok (db1, st, ws1)"
      and l: "live_nodes env v sid added removed ns (db1\<lparr>t_schedule_nodes := rows\<rparr>) = Ok (db', per1, ws2)"
      by (auto split: if_splits)
    have "frame_of db1 db'" using Cons.IH [OF l] by (simp add: frame_of_def)
    with give_entry_frame [OF g] frame_of_trans show ?thesis by blast
  qed
qed (simp add: frame_of_def)

lemma re_resolve_result:
  assumes "re_resolve_schedule env db h sid body = (db', Ok rep)" "\<not> rq_dry_run body"
  shows "\<exists>s r live p x. schedule_join db sid = Ok (s, r)
    \<and> rematch db (rr_selector r) (rr_picked r) (rr_excluded r) = Ok live
    \<and> parse_target (re_resolve_target r live) = Ok p
    \<and> t_resolutions db' = t_resolutions db @ [x] \<and> rr_id x = ce_uuid env (uuids_drawn db)
    \<and> rr_selector x = pt_selector p \<and> rr_picked x = pt_picked p \<and> rr_excluded x = pt_excluded p \<and> rr_node_ids x = live
    \<and> t_schedules db' = update_where (\<lambda>s. sc_id s = sid) (\<lambda>s. s\<lparr>sc_resolution := rr_id x\<rparr>) (t_schedules db)
    \<and> t_nodes db' = t_nodes db \<and> t_tags db' = t_tags db"
proof -
  from assms obtain v s r live added removed where v: "load_schedule_view db sid = Ok v"
      and j: "schedule_join db sid = Ok (s, r)"
      and l: "rematch db (rr_selector r) (rr_picked r) (rr_excluded r) = Ok live"
      and ap: "apply_re_resolve env db h sid body v r live = (db', Ok rep)"
    by (auto simp: re_resolve_schedule_def Let_def split: sum.splits prod.splits if_splits)
  then obtain p where p: "parse_target (re_resolve_target r live) = Ok p"
    by (auto simp: apply_re_resolve_def split: sum.splits)
  obtain added removed where diff: "diff_ids (sw_node_ids v) live = (added, removed)" by (metis prod.exhaust)
  let ?f = "(freeze env p (resolve_nodes_lenient (load_inventory db) live) h (rq_confirm body))
      \<lparr>fz_node_ids := live, fz_prod := live_prod db live, fz_prod_confirmed := live_prod db live \<noteq> [], fz_sha := sha_of env live\<rparr>"
  obtain rid db1 where ir: "insert_resolution env db ''schedule'' sid ?f (Some (rr_id r)) = (rid, db1)" by (metis prod.exhaust)
  have fz: "fz_picked (freeze env p ms h c) = pt_picked p" "fz_excluded (freeze env p ms h c) = pt_excluded p" for ms c
    by (simp_all add: freeze_def Let_def)
  note row = insert_resolution_rows [OF ir]
  let ?db2 = "db1\<lparr>t_schedules := update_where (\<lambda>s. sc_id s = sid) (\<lambda>s. s\<lparr>sc_resolution := rid\<rparr>) (t_schedules db1)\<rparr>"
  let ?run = "and_then (each_node (drop_state env sid) removed ?db2) (live_nodes env v sid added removed live)"
  obtain db4 per ws where y: "?run = Ok (db4, per, ws)"
    using ap p diff ir by (cases ?run) (auto simp: apply_re_resolve_def Let_def simp del: and_then_eq_Inr)
  have "\<exists>d. db' = audit_event env db4 ''schedule.re_resolved'' ''schedule'' sid None d"
    using ap p diff ir y by (auto simp: apply_re_resolve_def Let_def simp del: and_then_eq_Inr)
  then have a: "t_resolutions db' = t_resolutions db4" "t_schedules db' = t_schedules db4" "t_nodes db' = t_nodes db4"
      "t_tags db' = t_tags db4" by (auto simp: audit_event_def insert_audit_def)
  have "frame_of ?db2 db4"
    using y live_nodes_frame each_drop_frame frame_of_trans by fastforce
  then show ?thesis using j l p row a fz by (auto simp: frame_of_def)
qed

text \<open>
  C25. Resolving a schedule again removes its drift: after a run that is not a dry run and succeeds, and
  when the canonical selectors fit the column they are stored in, the schedule's view names no node as
  added or removed, and its stored nodes are those the old resolution would have matched.
\<close>

theorem re_resolve_leaves_no_drift:
  assumes "inj (ce_uuid env)" "sched_ok env K db"
    "re_resolve_schedule env db h sid body = (db', Ok rep)" "\<not> rq_dry_run body"
    "\<forall>r \<in> set (t_resolutions db'). char_len (unwrap_or (rr_selector r) []) \<le> 1024"
  shows "\<exists>v live. load_schedule_view db' sid = Ok v \<and> sw_drift v = ([], []) \<and> sw_node_ids v = live
    \<and> (\<exists>s r. schedule_join db sid = Ok (s, r) \<and> rematch db (rr_selector r) (rr_picked r) (rr_excluded r) = Ok live)"
proof -
  obtain s r live p x where j: "schedule_join db sid = Ok (s, r)"
    and l: "rematch db (rr_selector r) (rr_picked r) (rr_excluded r) = Ok live"
    and p: "parse_target (re_resolve_target r live) = Ok p"
    and x: "t_resolutions db' = t_resolutions db @ [x]" "rr_id x = ce_uuid env (uuids_drawn db)"
      "rr_selector x = pt_selector p" "rr_picked x = pt_picked p" "rr_excluded x = pt_excluded p" "rr_node_ids x = live"
    and t: "t_schedules db' = update_where (\<lambda>s. sc_id s = sid) (\<lambda>s. s\<lparr>sc_resolution := rr_id x\<rparr>) (t_schedules db)"
      "t_nodes db' = t_nodes db" "t_tags db' = t_tags db"
    using re_resolve_result [OF assms(3,4)] by blast
  have s: "row_at sc_id (t_schedules db) sid = Some s" "sc_id s = sid"
    using j row_at_key by (fastforce simp: schedule_join_def split: option.splits)+
  have "row_at sc_id (t_schedules db') sid = map_option (\<lambda>x'. if sc_id x' = sid then x'\<lparr>sc_resolution := rr_id x\<rparr> else x')
      (row_at sc_id (t_schedules db) sid)"
    unfolding t(1) by (rule row_at_update_where) simp
  then have row: "row_at sc_id (t_schedules db') sid = Some (s\<lparr>sc_resolution := rr_id x\<rparr>)" using s by simp
  have "rr_id x \<notin> rr_id ` set (t_resolutions db)"
    using assms(2) drawn_fresh [OF assms(1) order_refl, of db] x(2) unfolding sched_ok_def rows_ok_def by (metis imageE)
  then have join: "schedule_join db' sid = Ok (s\<lparr>sc_resolution := rr_id x\<rparr>, x)"
    using row row_at_append_new [of rr_id x] by (simp add: schedule_join_def x(1))
  have "fits_column p" using assms(5) x(1,3)
    by (auto simp: fits_column_def MAX_SELECTOR_CHARS_def split: option.split)
  then have "rematch db' (rr_selector x) (rr_picked x) (rr_excluded x) = Ok live"
    using rematch_again [OF p] re_resolve_rematch [OF l p] load_inventory_cong [OF t(2,3)] by (simp add: x)
  then have "current_drift db' (rr_selector x) (rr_picked x) (rr_excluded x) (rr_node_ids x) = Ok ([], [])"
    by (simp add: current_drift_def x(6) diff_ids_def)
  then show ?thesis using j l join x(6) by (auto simp: load_schedule_view_def)
qed

definition sample_scheduled :: db where
  "sample_scheduled = sample_fleet\<lparr>
     t_schedules := [\<lparr>sc_id = ''u'', sc_spec = ''s'', sc_interval = Some 60, sc_cron = None, sc_enabled = True,
        sc_resolution = ''uu'', sc_at = 0\<rparr>],
     t_resolutions := [\<lparr>rr_id = ''uu'', rr_kind = ''schedule'', rr_ref = ''u'', rr_selector = None, rr_picked = Some [''web-2''],
        rr_excluded = [], rr_node_ids = [''web-2''], rr_prod = [], rr_prod_confirmed = False, rr_sha = [], rr_at = 0,
        rr_supersedes = None\<rparr>],
     t_schedule_nodes := [\<lparr>sn_schedule = ''u'', sn_node = ''web-2'', sn_state = ''skipped_exists''\<rparr>], uuids_drawn := 3\<rparr>"

lemma sample_scheduled_ok: "sched_ok (sample_cenv 0) K sample_scheduled"
proof -
  have "uuids_drawn db = 3 \<Longrightarrow> drawn (sample_cenv 0) db ''u''" for db
    unfolding drawn_def by (intro exI [of _ 1]) (simp add: sample_cenv_def)
  moreover have "uuids_drawn db = 3 \<Longrightarrow> drawn (sample_cenv 0) db ''uu''" for db
    unfolding drawn_def by (intro exI [of _ 2]) (simp add: sample_cenv_def numeral_2_eq_2)
  moreover have "small_interval (Some 60) \<and> Some 60 = map_option u64_as_i64 (Some 60)"
    by (simp add: small_interval_def u64_as_i64_def)
  then have "\<exists>i. small_interval i \<and> Some 60 = map_option u64_as_i64 i" by blast
  ultimately show ?thesis
    by (auto simp: sched_ok_def states_ok_def rows_ok_def row_ok_def row_fits_def rows_of_iff set_eq_iff filter_text_def
        sample_scheduled_def sample_fleet_def empty_db_def entries_of_def sample_node_def)
qed

definition sample_re_resolve :: re_resolve_request where
  "sample_re_resolve = \<lparr>rq_dry_run = False, rq_expected = None, rq_confirm = None\<rparr>"

lemma re_resolve_leaves_no_drift_witness:
  "\<exists>db' rep v. re_resolve_schedule (sample_cenv 0) sample_scheduled hub_new ''u'' sample_re_resolve = (db', Ok rep)
     \<and> load_schedule_view db' ''u'' = Ok v \<and> sw_drift v = ([], [])"
proof -
  let ?r = "re_resolve_schedule (sample_cenv 0) sample_scheduled hub_new ''u'' sample_re_resolve"
  have c: "is_ok (snd ?r) \<and> list_all (\<lambda>r. char_len (unwrap_or (rr_selector r) []) \<le> 1024) (t_resolutions (fst ?r))"
    by code_simp
  then obtain db' rep where r: "?r = (db', Ok rep)" by (metis is_ok_simps(2) sumE prod.collapse)
  have "inj (ce_uuid (sample_cenv 0))"
    unfolding sample_cenv_def by (rule injI) (drule arg_cong [of _ _ length], simp)
  moreover have "\<not> rq_dry_run sample_re_resolve" by (simp add: sample_re_resolve_def)
  moreover have "\<forall>r \<in> set (t_resolutions db'). char_len (unwrap_or (rr_selector r) []) \<le> 1024"
    using c r by (simp add: list_all_iff)
  ultimately show ?thesis using re_resolve_leaves_no_drift [OF _ sample_scheduled_ok r] r by blast
qed

end
