(* ===== verification/Center_Tags.thy ===== *)
theory Center_Tags
  imports Targets
begin

text \<open>
  \<open>crates/novbot-center/src/tags.rs\<close>: the tags of nodes in the center's database. Each node has rows
  of three sources: \<open>system\<close> and \<open>node\<close> are replaced when the node registers, \<open>center\<close> rows are written
  by operators, one at a time or in bulk. A \<open>StoredTag\<close> is a row of the table \<open>node_tags\<close>.
\<close>

subsection \<open>Errors and requests\<close>

datatype tag_error =
    TagKeyInvalid
  | TagValueInvalid
  | TagKeyReserved
  | LimitExceeded
  | NodeUnknown
  | TagNotFound
  | TagNotCenter
  | TagConflict
  | TagSelector selector_error
  | TagProd "str list" nat
  | TooManyTargets
  | BadRequest str
  | TagInternal str

fun center_err :: "center_tag_error \<Rightarrow> tag_error" where
  "center_err KeyInvalid = TagKeyInvalid"
| "center_err ValueInvalid = TagValueInvalid"
| "center_err KeyReserved = TagKeyReserved"

fun public_message :: "tag_error \<Rightarrow> str" where
  "public_message TagKeyInvalid = ''tag key is invalid''"
| "public_message TagValueInvalid = ''tag value is invalid''"
| "public_message TagKeyReserved = ''tag key is reserved''"
| "public_message LimitExceeded = ''center tag limit exceeded''"
| "public_message NodeUnknown = ''unknown node''"
| "public_message TagNotFound = ''tag not found''"
| "public_message TagNotCenter = ''tag is not a center tag''"
| "public_message TagConflict = ''center tag value does not match if_value''"
| "public_message (TagSelector e) = se_message e"
| "public_message (TagProd _ _) = ''prod confirmation required''"
| "public_message TooManyTargets = ''too many targets''"
| "public_message (BadRequest m) = m"
| "public_message (TagInternal _) = ''internal error''"

record effective =
  ef_value :: str
  ef_source :: str
  ef_overridden :: bool

record put_tag_body =
  pt_value :: str
  pt_if_value :: "str option"
  pt_confirm :: "nat option"

record tag_mutation =
  tm_node :: str
  tm_key :: str
  tm_value :: str
  tm_overridden :: bool
  tm_node_value :: "str option"
  tm_effective :: str

record tag_row_view =
  tv_key :: str
  tv_value :: str
  tv_source :: str
  tv_effective :: bool
  tv_overridden :: bool
  tv_node_value :: "str option"
  tv_valid :: bool
  tv_reason :: "str option"

record bulk_body =
  bk_node_ids :: "str list"
  bk_add :: "(str \<times> str) list"
  bk_remove :: "str list"
  bk_dry_run :: bool
  bk_confirm :: "nat option"

record plan_item =
  pi_key :: str
  pi_action :: str
  pi_old :: "str option"
  pi_new :: "str option"
  pi_error :: "str option"
  pi_before :: "str option"
  pi_after :: "str option"
  pi_node_value :: "str option"
  pi_write :: "str option"

record node_plan =
  np_node :: str
  np_found :: bool
  np_prod :: bool
  np_items :: "plan_item list"

record bulk_response =
  br_operation :: "str option"
  br_dry_run :: bool
  br_prod :: "str list"
  br_counts :: "str \<Rightarrow> nat"
  br_per_node :: "(str \<times> plan_item list) list"

definition parse_list_selector :: "str option \<Rightarrow> (selector option, tag_error) result" where
  "parse_list_selector raw0 =
     (case raw0 of
        None \<Rightarrow> Ok None
      | Some raw \<Rightarrow> (case parse_selector raw of
            Inl e \<Rightarrow> Err (TagSelector e)
          | Inr (Filter sel) \<Rightarrow> Ok (Some sel)
          | Inr _ \<Rightarrow> Ok None))"

subsection \<open>What a node's rows mean\<close>

definition find_source :: "tag_row list \<Rightarrow> str \<Rightarrow> str \<Rightarrow> tag_row option" where
  "find_source rows key source = find (\<lambda>r. tg_valid r \<and> tg_key r = key \<and> tg_source r = source) rows"

definition or_else :: "'a option \<Rightarrow> 'a option \<Rightarrow> 'a option" where
  "or_else a b = (case a of Some x \<Rightarrow> Some x | None \<Rightarrow> b)"

definition effective_at :: "tag_row list \<Rightarrow> str \<Rightarrow> effective option" where
  "effective_at rows key =
     (let node = find_source rows key ''node'' in
      map_option (\<lambda>chosen. \<lparr>ef_value = tg_value chosen, ef_source = tg_source chosen,
          ef_overridden = (tg_source chosen = ''center'' \<and> node \<noteq> None)\<rparr>)
        (or_else (find_source rows key ''center'') (or_else node (find_source rows key ''system''))))"

text \<open>A \<open>BTreeMap\<close>: its entries in the order of the keys.\<close>

definition effective_of :: "tag_row list \<Rightarrow> (str \<times> effective) list" where
  "effective_of rows =
     List.map_filter (\<lambda>key. map_option (Pair key) (effective_at rows key))
       (sort_dedup (map tg_key (filter tg_valid rows)))"

definition eff_value :: "tag_row list \<Rightarrow> str \<Rightarrow> str option" where
  "eff_value rows key = map_option ef_value (map_of (effective_of rows) key)"

definition valid_node_value :: "tag_row list \<Rightarrow> str \<Rightarrow> str option" where
  "valid_node_value rows key = map_option tg_value (find_source rows key ''node'')"

definition center_value :: "tag_row list \<Rightarrow> str \<Rightarrow> str option" where
  "center_value rows key = map_option tg_value (find (\<lambda>r. tg_source r = ''center'' \<and> tg_key r = key) rows)"

definition center_count :: "tag_row list \<Rightarrow> nat" where
  "center_count rows = length (filter (\<lambda>r. tg_source r = ''center'') rows)"

definition counts_as_prod :: "tag_row list \<Rightarrow> bool" where
  "counts_as_prod rows =
     (if list_ex (\<lambda>r. tg_source r = ''node'' \<and> \<not> tg_valid r \<and> eq_ignore_ascii_case (tg_key r) ''env''
           \<and> eq_ignore_ascii_case (tg_value r) ''prod'') rows then True
      else eff_value rows ''env'' = Some ''prod'')"

definition center_row :: "str \<Rightarrow> str \<Rightarrow> str \<Rightarrow> tag_row" where
  "center_row node_id key v =
     \<lparr>tg_node = node_id, tg_source = ''center'', tg_key = key, tg_value = v, tg_valid = True, tg_reason = None, tg_by = ACTOR\<rparr>"

text \<open>Rows pushed by the overlay stand for rows of the node at hand.\<close>

definition apply_overlay :: "str \<Rightarrow> tag_row list \<Rightarrow> (str \<times> str option) list \<Rightarrow> tag_row list" where
  "apply_overlay node_id rows overlay =
     foldl (\<lambda>out (key, v). filter (\<lambda>r. \<not> (tg_source r = ''center'' \<and> tg_key r = key)) out
         @ (case v of Some x \<Rightarrow> [center_row node_id key x] | None \<Rightarrow> [])) rows overlay"

definition ensure_prod :: "str list \<Rightarrow> nat option \<Rightarrow> (unit, tag_error) result" where
  "ensure_prod ids confirm =
     (if ids = [] then Ok ()
      else if confirm \<noteq> Some (length ids) then Err (TagProd ids (length ids)) else Ok ())"

definition ensure_single_prod ::
    "str \<Rightarrow> tag_row list \<Rightarrow> (str \<times> str option) list \<Rightarrow> nat option \<Rightarrow> (unit, tag_error) result" where
  "ensure_single_prod node_id rows overlay confirm =
     (if \<not> (counts_as_prod rows \<or> counts_as_prod (apply_overlay node_id rows overlay)) then Ok ()
      else ensure_prod [node_id] confirm)"

subsection \<open>The table\<close>

definition tag_key_of :: "tag_row \<Rightarrow> str \<times> str \<times> str" where
  "tag_key_of r = (tg_node r, tg_source r, tg_key r)"

definition fetch_tags :: "db \<Rightarrow> str \<Rightarrow> tag_row list" where
  "fetch_tags db node_id = filter (\<lambda>r. tg_node r = node_id) (t_tags db)"

definition insert_tag :: "db \<Rightarrow> tag_row \<Rightarrow> db" where
  "insert_tag db row =
     db\<lparr>t_tags := upsert tag_key_of row
          (\<lambda>r. r\<lparr>tg_value := tg_value row, tg_valid := tg_valid row, tg_reason := tg_reason row, tg_by := tg_by row\<rparr>)
          (t_tags db)\<rparr>"

definition delete_center :: "db \<Rightarrow> str \<Rightarrow> str \<Rightarrow> db" where
  "delete_center db node_id key =
     db\<lparr>t_tags := delete_where (\<lambda>r. tg_node r = node_id \<and> tg_source r = ''center'' \<and> tg_key r = key) (t_tags db)\<rparr>"

subsection \<open>Registration\<close>

definition system_pairs :: "str \<Rightarrow> str \<Rightarrow> str \<Rightarrow> (str \<times> str) list" where
  "system_pairs version os arch =
     List.map_filter (\<lambda>(key, raw). map_option (Pair key) (normalize_system_value raw))
       [(''sys.version'', version), (''sys.os'', os), (''sys.arch'', arch)]"

type_synonym sig = "(str \<times> (str \<times> bool \<times> str option)) list"

text \<open>Collecting pairs into a \<open>BTreeMap\<close>: the last value of a key stays.\<close>

definition collect_map :: "(str \<times> 'v) list \<Rightarrow> (str \<times> 'v) list" where
  "collect_map ps = map (\<lambda>k. (k, the (map_of (rev ps) k))) (sort_dedup (map fst ps))"

definition node_sig :: "tag_row list \<Rightarrow> sig" where
  "node_sig rows = collect_map (map (\<lambda>r. (tg_key r, tg_value r, tg_valid r, tg_reason r))
     (filter (\<lambda>r. tg_source r = ''node'') rows))"

definition declared_sig :: "declared_tag list \<Rightarrow> sig" where
  "declared_sig ts = collect_map (map (\<lambda>t. (dt_key t, dt_value t, dt_valid t, dt_reason t)) ts)"

definition sig_item :: "str \<Rightarrow> str \<times> bool \<times> str option \<Rightarrow> json" where
  "sig_item key = (\<lambda>(v, valid, reason).
     JObj [(''key'', JStr key), (''value'', JStr v), (''valid'', JBool valid), (''invalid_reason'', jopt JStr reason)])"

definition node_reported_detail :: "sig \<Rightarrow> sig \<Rightarrow> json option" where
  "node_reported_detail old new =
     (if old = new then None
      else (let keys = sort_dedup (map fst old @ map fst new);
                added = List.map_filter (\<lambda>k. case (map_of old k, map_of new k) of
                    (None, Some x) \<Rightarrow> Some (sig_item k x) | _ \<Rightarrow> None) keys;
                removed = List.map_filter (\<lambda>k. case (map_of old k, map_of new k) of
                    (Some x, None) \<Rightarrow> Some (sig_item k x) | _ \<Rightarrow> None) keys;
                changed = List.map_filter (\<lambda>k. case (map_of old k, map_of new k) of
                    (Some b, Some a) \<Rightarrow> if b \<noteq> a then Some (JObj [(''key'', JStr k), (''old_value'', JStr (fst b)),
                        (''new_value'', JStr (fst a)), (''valid'', JBool (fst (snd a))),
                        (''invalid_reason'', jopt JStr (snd (snd a)))]) else None
                  | _ \<Rightarrow> None) keys;
                invalid = map (\<lambda>(k, v, _, reason). JObj [(''key'', JStr k), (''value'', JStr v),
                    (''invalid_reason'', jopt JStr reason)]) (filter (\<lambda>(_, _, valid, _). \<not> valid) new)
            in Some (JObj [(''added'', JArr added), (''changed'', JArr changed), (''removed'', JArr removed),
                 (''invalid'', JArr invalid)])))"

definition declared_row :: "str \<Rightarrow> str \<Rightarrow> declared_tag \<Rightarrow> tag_row" where
  "declared_row node_id who t =
     \<lparr>tg_node = node_id, tg_source = ''node'', tg_key = dt_key t, tg_value = dt_value t, tg_valid = dt_valid t,
      tg_reason = dt_reason t, tg_by = who\<rparr>"

definition system_row :: "str \<Rightarrow> str \<Rightarrow> str \<times> str \<Rightarrow> tag_row" where
  "system_row node_id who = (\<lambda>(key, v).
     \<lparr>tg_node = node_id, tg_source = ''system'', tg_key = key, tg_value = v, tg_valid = True, tg_reason = None, tg_by = who\<rparr>)"

definition register_node_once ::
    "cenv \<Rightarrow> db \<Rightarrow> str \<Rightarrow> str \<Rightarrow> str \<Rightarrow> (str \<times> str) list \<Rightarrow> str \<Rightarrow> str \<Rightarrow> db" where
  "register_node_once env db node_id hostname version declared os arch =
     (let classified = classify_declared_tags declared;
          db1 = upsert_node env db node_id hostname version declared;
          old_sig = node_sig (fetch_tags db1 node_id);
          db2 = db1\<lparr>t_tags := delete_where (\<lambda>r. tg_node r = node_id \<and> tg_source r \<in> {''node'', ''system''}) (t_tags db1)\<rparr>;
          db3 = foldl insert_tag db2 (map (declared_row node_id ''node'') classified);
          db4 = foldl insert_tag db3 (map (system_row node_id ''system'') (system_pairs version os arch))
      in case node_reported_detail old_sig (declared_sig classified) of
           Some detail \<Rightarrow> append_tag_audit env db4 ''node'' ''node'' ''tag.node_reported_changed'' ''node'' node_id
             (Some node_id) (ce_print env detail)
         | None \<Rightarrow> db4)"

text \<open>
  Deadlocks are retried: an attempt commits, deadlocks or fails otherwise, the latter two with a
  rollback. The result has the sleeps in milliseconds.
\<close>

datatype attempt = Commits | Deadlocks | Breaks

function with_retries :: "(nat \<Rightarrow> attempt) \<Rightarrow> nat \<Rightarrow> nat list \<times> bool" where
  "with_retries attempts waits =
     (case attempts waits of
        Commits \<Rightarrow> ([], True)
      | Breaks \<Rightarrow> ([], False)
      | Deadlocks \<Rightarrow>
          if waits < 4 then (case with_retries attempts (waits + 1) of (sleeps, ok) \<Rightarrow> (20 * (waits + 1) # sleeps, ok))
          else ([], False))"
  by pat_completeness auto
termination
  by (relation "measure (\<lambda>(attempts, waits). 4 - waits)") auto

declare with_retries.simps [simp del]

definition register_node ::
    "cenv \<Rightarrow> db \<Rightarrow> (nat \<Rightarrow> attempt) \<Rightarrow> str \<Rightarrow> str \<Rightarrow> str \<Rightarrow> (str \<times> str) list \<Rightarrow> str \<Rightarrow> str \<Rightarrow> db \<times> bool" where
  "register_node env db attempts node_id hostname version declared os arch =
     (if snd (with_retries attempts 0)
      then (register_node_once env db node_id hostname version declared os arch, True) else (db, False))"

definition parse_label_object :: "cenv \<Rightarrow> str \<Rightarrow> (str \<times> str) list" where
  "parse_label_object env raw =
     (case ce_parse env raw of
        Some (JObj fs) \<Rightarrow> List.map_filter (\<lambda>(k, v). map_option (Pair k) (as_str v)) fs
      | _ \<Rightarrow> [])"

definition backfill_one_tx :: "cenv \<Rightarrow> db \<Rightarrow> node_row \<Rightarrow> db" where
  "backfill_one_tx env db n =
     (let declared = parse_label_object env (nd_labels n);
          db1 = (if \<not> list_ex (\<lambda>r. tg_node r = nd_id n \<and> tg_source r = ''node'') (t_tags db) \<and> declared \<noteq> []
            then foldl insert_tag db (map (declared_row (nd_id n) ''migration'') (classify_declared_tags declared)) else db)
      in if \<not> list_ex (\<lambda>r. tg_node r = nd_id n \<and> tg_source r = ''system'' \<and> tg_key r = ''sys.version'') (t_tags db1)
            \<and> nd_version n \<noteq> [] \<and> nd_version n \<noteq> ''http-admin''
         then (case normalize_system_value (nd_version n) of
             Some v \<Rightarrow> insert_tag db1 (system_row (nd_id n) ''migration'' (''sys.version'', v)) | None \<Rightarrow> db1)
         else db1)"

definition backfill :: "cenv \<Rightarrow> db \<Rightarrow> db" where
  "backfill env db = foldl (backfill_one_tx env) db (t_nodes db)"

subsection \<open>Reading\<close>

definition source_rank :: "str \<Rightarrow> nat" where
  "source_rank source =
     (if source = ''center'' then 0 else if source = ''node'' then 1 else if source = ''system'' then 2 else 9)"

definition view_rows :: "tag_row list \<Rightarrow> tag_row_view list" where
  "view_rows rows =
     sort_key (\<lambda>v. (tv_key v, source_rank (tv_source v)))
       (map (\<lambda>r. \<lparr>tv_key = tg_key r, tv_value = tg_value r, tv_source = tg_source r,
            tv_effective = (tg_valid r \<and> (case map_of (effective_of rows) (tg_key r) of
               Some e \<Rightarrow> ef_source e = tg_source r \<and> ef_value e = tg_value r | None \<Rightarrow> False)),
            tv_overridden = (tg_source r = ''center'' \<and> valid_node_value rows (tg_key r) \<noteq> None),
            tv_node_value = valid_node_value rows (tg_key r), tv_valid = tg_valid r, tv_reason = tg_reason r\<rparr>) rows)"

definition node_tags :: "db \<Rightarrow> str \<Rightarrow> (tag_row_view list, tag_error) result" where
  "node_tags db node_id =
     (if \<not> node_exists db node_id then Err NodeUnknown else Ok (view_rows (fetch_tags db node_id)))"

subsection \<open>One tag\<close>

definition tag_set_detail ::
    "str \<Rightarrow> str option \<Rightarrow> str \<Rightarrow> str option \<Rightarrow> str option \<Rightarrow> str option \<Rightarrow> str option \<Rightarrow> bool \<Rightarrow> json" where
  "tag_set_detail key old new before after node_value operation prods =
     JObj [(''key'', JStr key), (''old_value'', jopt JStr old), (''new_value'', JStr new),
           (''effective_before'', jopt JStr before), (''effective_after'', jopt JStr after),
           (''node_value'', jopt JStr node_value), (''operation_id'', jopt JStr operation), (''prod_confirmed'', JBool prods)]"

definition tag_removed_detail :: "str \<Rightarrow> str option \<Rightarrow> str option \<Rightarrow> str option \<Rightarrow> bool \<Rightarrow> json" where
  "tag_removed_detail key old after operation prods =
     JObj [(''key'', JStr key), (''old_value'', jopt JStr old), (''effective_after'', jopt JStr after),
           (''operation_id'', jopt JStr operation), (''prod_confirmed'', JBool prods)]"

definition set_center_tag ::
    "cenv \<Rightarrow> db \<Rightarrow> str \<Rightarrow> str \<Rightarrow> put_tag_body \<Rightarrow> db \<times> (bool \<times> tag_mutation, tag_error) result" where
  "set_center_tag env db node_id key body =
     (case validate_center_tag key (pt_value body) of
        Inl e \<Rightarrow> (db, Err (center_err e))
      | Inr _ \<Rightarrow>
     if \<not> node_exists db node_id then (db, Err NodeUnknown)
     else (let rows = fetch_tags db node_id;
               current = center_value rows key;
               created = (current = None);
               overlay = [(key, Some (pt_value body))]
           in if pt_if_value body \<noteq> None \<and> current \<noteq> pt_if_value body then (db, Err TagConflict)
              else if created \<and> center_count rows \<ge> MAX_CENTER_TAGS then (db, Err LimitExceeded)
              else (case ensure_single_prod node_id rows overlay (pt_confirm body) of
                  Inl e \<Rightarrow> (db, Err e)
                | Inr _ \<Rightarrow>
                    (let db1 = insert_tag db (center_row node_id key (pt_value body));
                         rows' = apply_overlay node_id rows overlay;
                         node_value = valid_node_value rows key;
                         prods = (counts_as_prod rows \<or> counts_as_prod rows');
                         eff = map_of (effective_of rows') key
                     in (append_tag_audit env db1 ACTOR ACTOR ''tag.set'' ''node'' node_id (Some node_id)
                           (ce_print env (tag_set_detail key current (pt_value body) (eff_value rows key) (eff_value rows' key)
                              node_value None prods)),
                         Ok (created, \<lparr>tm_node = node_id, tm_key = key, tm_value = pt_value body,
                              tm_overridden = (case eff of Some e \<Rightarrow> ef_overridden e | None \<Rightarrow> False),
                              tm_node_value = node_value,
                              tm_effective = (case eff of Some e \<Rightarrow> ef_value e | None \<Rightarrow> [])\<rparr>))))))"

definition delete_center_tag ::
    "cenv \<Rightarrow> db \<Rightarrow> str \<Rightarrow> str \<Rightarrow> nat option \<Rightarrow> db \<times> (unit, tag_error) result" where
  "delete_center_tag env db node_id key confirm =
     (case validate_center_tag key ''x'' of
        Inl e \<Rightarrow> (db, Err (center_err (if e = ValueInvalid then KeyInvalid else e)))
      | Inr _ \<Rightarrow>
     if \<not> node_exists db node_id then (db, Err TagNotFound)
     else (let rows = fetch_tags db node_id;
               current = center_value rows key;
               overlay = [(key, None)]
           in if current = None
              then (db, Err (if list_ex (\<lambda>r. tg_key r = key) rows then TagNotCenter else TagNotFound))
              else (case ensure_single_prod node_id rows overlay confirm of
                  Inl e \<Rightarrow> (db, Err e)
                | Inr _ \<Rightarrow>
                    (let rows' = apply_overlay node_id rows overlay;
                         prods = (counts_as_prod rows \<or> counts_as_prod rows')
                     in (append_tag_audit env (delete_center db node_id key) ACTOR ACTOR ''tag.removed'' ''node'' node_id
                           (Some node_id) (ce_print env (tag_removed_detail key current (eff_value rows' key) None prods)),
                         Ok ())))))"

subsection \<open>Bulk changes\<close>

definition normalize_ids :: "str list \<Rightarrow> (str list, tag_error) result" where
  "normalize_ids ids =
     (let out = sorted_unique ids
      in if out = [] then Err (BadRequest ''node_ids is required'')
         else if length out > MAX_TARGETS then Err TooManyTargets else Ok out)"

definition normalize_remove :: "str list \<Rightarrow> (str list, tag_error) result" where
  "normalize_remove keys = Ok (sorted_unique keys)"

fun validate_adds :: "(str \<times> str) list \<Rightarrow> (unit, tag_error) result" where
  "validate_adds [] = Ok ()"
| "validate_adds ((key, v) # add) =
     (case validate_center_tag key v of Inl e \<Rightarrow> Err (center_err e) | Inr _ \<Rightarrow> validate_adds add)"

fun validate_removes :: "(str \<times> str) list \<Rightarrow> str list \<Rightarrow> (unit, tag_error) result" where
  "validate_removes add [] = Ok ()"
| "validate_removes add (key # keys) =
     (case validate_center_tag key ''x'' of
        Inl e \<Rightarrow> Err (center_err e)
      | Inr _ \<Rightarrow> if key \<in> fst ` set add
          then Err (BadRequest (''key `'' @ key @ ''` is in both add and remove''))
          else validate_removes add keys)"

definition validate_bulk_keys :: "(str \<times> str) list \<Rightarrow> str list \<Rightarrow> (unit, tag_error) result" where
  "validate_bulk_keys add remove =
     (if add = [] \<and> remove = [] then Err (BadRequest ''add or remove is required'')
      else and_then (validate_adds add) (\<lambda>_. validate_removes add remove))"

definition plan_item_of :: "str \<Rightarrow> str \<Rightarrow> plan_item" where
  "plan_item_of key action =
     \<lparr>pi_key = key, pi_action = action, pi_old = None, pi_new = None, pi_error = None, pi_before = None, pi_after = None,
      pi_node_value = None, pi_write = None\<rparr>"

text \<open>The state of the two loops of \<open>plan_node\<close>: the center keys, the overlay and the items.\<close>

type_synonym planning = "str set \<times> (str \<times> str option) list \<times> plan_item list"

definition plan_remove :: "tag_row list \<Rightarrow> planning \<Rightarrow> str \<Rightarrow> planning" where
  "plan_remove rows = (\<lambda>(center_keys, overlay, items) key.
     (case center_value rows key of
        Some old \<Rightarrow> (center_keys - {key}, overlay @ [(key, None)],
          items @ [(plan_item_of key ''removed'')\<lparr>pi_old := Some old, pi_node_value := valid_node_value rows key\<rparr>])
      | None \<Rightarrow>
          (case find (\<lambda>r. tg_key r = key \<and> tg_source r = ''node'') rows of
             Some r \<Rightarrow> (center_keys, overlay, items @ [(plan_item_of key ''not_changed_boot_reported'')
                 \<lparr>pi_old := Some (tg_value r), pi_before := eff_value rows key, pi_after := eff_value rows key,
                  pi_node_value := valid_node_value rows key\<rparr>])
           | None \<Rightarrow> (center_keys, overlay, items @ [plan_item_of key ''not_found'']))))"

definition plan_add :: "tag_row list \<Rightarrow> planning \<Rightarrow> str \<times> str \<Rightarrow> planning" where
  "plan_add rows = (\<lambda>(center_keys, overlay, items) (key, v).
     (let nv = valid_node_value rows key; eff = eff_value rows key in
      case center_value rows key of
        Some old \<Rightarrow>
          (if old = v
           then (center_keys, overlay, items @ [(plan_item_of key ''unchanged'')
             \<lparr>pi_old := Some old, pi_new := Some v, pi_before := eff, pi_after := eff, pi_node_value := nv\<rparr>])
           else (center_keys, overlay @ [(key, Some v)], items @ [(plan_item_of key ''changed'')
             \<lparr>pi_old := Some old, pi_new := Some v, pi_node_value := nv, pi_write := Some v\<rparr>]))
      | None \<Rightarrow>
          (if card center_keys \<ge> MAX_CENTER_TAGS
           then (center_keys, overlay, items @ [(plan_item_of key ''error'')
             \<lparr>pi_new := Some v, pi_error := Some ''tag_limit_exceeded'', pi_before := eff, pi_after := eff, pi_node_value := nv\<rparr>])
           else (insert key center_keys, overlay @ [(key, Some v)], items @ [(plan_item_of key ''added'')
             \<lparr>pi_new := Some v, pi_node_value := nv, pi_write := Some v\<rparr>]))))"

definition plan_node :: "tag_row list \<Rightarrow> str \<Rightarrow> bool \<Rightarrow> (str \<times> str) list \<Rightarrow> str list \<Rightarrow> node_plan" where
  "plan_node rows node_id found add remove =
     (if \<not> found
      then \<lparr>np_node = node_id, np_found = False, np_prod = False, np_items = [plan_item_of [] ''not_found'']\<rparr>
      else (let start = (tg_key ` set (filter (\<lambda>r. tg_source r = ''center'') rows), [], []);
                (_, overlay, items) = foldl (plan_add rows) (foldl (plan_remove rows) start remove) add;
                rows' = apply_overlay node_id rows (sort_key fst overlay)
            in \<lparr>np_node = node_id, np_found = True, np_prod = (counts_as_prod rows \<or> counts_as_prod rows'),
                np_items = map (\<lambda>i. if pi_action i \<in> {''added'', ''changed'', ''removed''}
                  then i\<lparr>pi_before := eff_value rows (pi_key i), pi_after := eff_value rows' (pi_key i)\<rparr> else i) items\<rparr>))"

definition load_plans :: "db \<Rightarrow> str list \<Rightarrow> (str \<times> str) list \<Rightarrow> str list \<Rightarrow> node_plan list" where
  "load_plans db ids add remove =
     map (\<lambda>n. (let found = node_exists db n
        in plan_node (if found then fetch_tags db n else []) n found add remove)) ids"

definition prod_ids_of :: "node_plan list \<Rightarrow> str list" where
  "prod_ids_of plans = map np_node (filter np_prod plans)"

definition count_action :: "node_plan list \<Rightarrow> str \<Rightarrow> nat" where
  "count_action plans action = length (filter (\<lambda>i. pi_action i = action) (concat (map np_items plans)))"

definition bulk_response_of :: "str option \<Rightarrow> bool \<Rightarrow> node_plan list \<Rightarrow> bulk_response" where
  "bulk_response_of operation_id dry_run plans =
     \<lparr>br_operation = operation_id, br_dry_run = dry_run, br_prod = prod_ids_of plans, br_counts = count_action plans,
      br_per_node = map (\<lambda>p. (np_node p, np_items p)) plans\<rparr>"

definition apply_item :: "cenv \<Rightarrow> str \<Rightarrow> str \<Rightarrow> bool \<Rightarrow> db \<Rightarrow> plan_item \<Rightarrow> db" where
  "apply_item env node_id op prods db i =
     (if pi_action i \<in> {''added'', ''changed''}
      then (case pi_write i of
          None \<Rightarrow> db
        | Some v \<Rightarrow> audit_on env (insert_tag db (center_row node_id (pi_key i) v)) ''tag.set'' node_id
            (ce_print env (tag_set_detail (pi_key i) (pi_old i) v (pi_before i) (pi_after i) (pi_node_value i) (Some op) prods)))
      else if pi_action i = ''removed''
      then audit_on env (delete_center db node_id (pi_key i)) ''tag.removed'' node_id
             (ce_print env (tag_removed_detail (pi_key i) (pi_old i) (pi_after i) (Some op) prods))
      else db)"

definition apply_plan :: "cenv \<Rightarrow> str \<Rightarrow> bool \<Rightarrow> db \<Rightarrow> node_plan \<Rightarrow> db" where
  "apply_plan env op prods db plan =
     (if \<not> np_found plan then db else foldl (apply_item env (np_node plan) op prods) db (np_items plan))"

definition bulk :: "cenv \<Rightarrow> db \<Rightarrow> bulk_body \<Rightarrow> db \<times> (bulk_response, tag_error) result" where
  "bulk env db body =
     (let add = bk_add body in
      case normalize_remove (bk_remove body) of
        Inl e \<Rightarrow> (db, Err e)
      | Inr remove \<Rightarrow>
     (case validate_bulk_keys add remove of
        Inl e \<Rightarrow> (db, Err e)
      | Inr _ \<Rightarrow>
     (case normalize_ids (bk_node_ids body) of
        Inl e \<Rightarrow> (db, Err e)
      | Inr ids \<Rightarrow>
          (let plans = load_plans db ids add remove; prods = prod_ids_of plans
           in if bk_dry_run body then (db, Ok (bulk_response_of None True plans))
              else (case ensure_prod prods (bk_confirm body) of
                  Inl e \<Rightarrow> (db, Err e)
                | Inr _ \<Rightarrow>
                    (let (op, db1) = new_uuid env db;
                         db2 = foldl (apply_plan env op (prods \<noteq> [])) db1 plans;
                         response = bulk_response_of (Some op) False plans
                     in (append_tag_audit env db2 ACTOR ACTOR ''tag.bulk_applied'' ''tag_bulk'' op None
                           (ce_print env (JObj [(''resolution_id'', JNull), (''add'', labels_value add),
                              (''remove'', JArr (map JStr remove)),
                              (''counts'', JObj (map (\<lambda>a. (a, jnat (br_counts response a)))
                                 [''added'', ''changed'', ''unchanged'', ''removed'', ''not_changed_boot_reported'',
                                  ''not_found'', ''error''])),
                              (''prod_confirmed'', JBool (prods \<noteq> []))])),
                         Ok response)))))))"

subsection \<open>The overview\<close>

record tag_overview =
  ov_keys :: "(str \<times> (str \<times> nat \<times> (str \<times> nat) list) list) list"
  ov_missing :: "(str \<times> nat) list"
  ov_rare :: "(str \<times> str) list"
  ov_invalid :: "(str \<times> str \<times> str \<times> str) list"

definition overview :: "db \<Rightarrow> tag_overview" where
  "overview db =
     (let effs = map (\<lambda>n. effective_of (fetch_tags db (nd_id n))) (t_nodes db);
          hits = map (\<lambda>(k, e). (k, ef_value e, ef_source e)) (concat effs);
          pairs = sort_dedup (map (\<lambda>(k, v, s). (k, v)) hits);
          nodes_of = (\<lambda>(k, v). length (filter (\<lambda>(k', v', _). k' = k \<and> v' = v) hits));
          sources_of = (\<lambda>(k, v). map (\<lambda>s. (s, length (filter (\<lambda>x. x = (k, v, s)) hits)))
             (sort_dedup (map (\<lambda>(_, _, s). s) (filter (\<lambda>(k', v', _). k' = k \<and> v' = v) hits))))
      in \<lparr>ov_keys = map (\<lambda>k. (k, map (\<lambda>p. (snd p, nodes_of p, sources_of p)) (filter (\<lambda>p. fst p = k) pairs)))
            (sort_dedup (map fst pairs)),
          ov_missing = map (\<lambda>k. (k, length (filter (\<lambda>e. map_of e k = None) effs))) [''env'', ''role''],
          ov_rare = filter (\<lambda>p. nodes_of p = 1) pairs,
          ov_invalid = sort_key (\<lambda>(n, k, v, _). (n, k, v))
            (map (\<lambda>r. (tg_node r, tg_key r, tg_value r, unwrap_or (tg_reason r) []))
              (filter (\<lambda>r. tg_source r = ''node'' \<and> \<not> tg_valid r) (t_tags db)))\<rparr>)"

end
