(* ===== verification/Center_Tags_Correct.thy ===== *)
theory Center_Tags_Correct
  imports Center_Tags
begin

text \<open>
  The table of tags keeps its shape under every operation, and with that shape the program's several
  ways to read the tags of a node, in Rust and in SQL, agree.
\<close>

subsection \<open>The shape of the table\<close>

definition tag_row_ok :: "tag_row \<Rightarrow> bool" where
  "tag_row_ok r \<longleftrightarrow>
     (tg_source r = ''center'' \<and> tg_valid r \<and> validate_center_tag (tg_key r) (tg_value r) = Ok ())
     \<or> (tg_source r = ''node'' \<and> (\<not> tg_valid r \<or> validate_center_tag (tg_key r) (tg_value r) = Ok ()))
     \<or> (tg_source r = ''system'' \<and> tg_valid r \<and> is_reserved_key (tg_key r))"

definition tags_ok :: "tag_row list \<Rightarrow> bool" where
  "tags_ok ts \<longleftrightarrow> distinct (map tag_key_of ts) \<and> list_all tag_row_ok ts"

interpretation tags: keyed_table tag_key_of
    "\<lambda>(n, s, k) (v, valid, reason, who). \<lparr>tg_node = n, tg_source = s, tg_key = k, tg_value = v, tg_valid = valid,
       tg_reason = reason, tg_by = who\<rparr>"
    "\<lambda>(v, valid, reason, who) r. r\<lparr>tg_value := v, tg_valid := valid, tg_reason := reason, tg_by := who\<rparr>"
  by unfold_locales (auto simp: tag_key_of_def split: prod.splits)

lemma valid_not_reserved: "validate_center_tag k v = Ok () \<Longrightarrow> \<not> is_reserved_key k"
  by (auto simp: validate_center_tag_def split: if_splits)

lemma insert_tag_rows:
  assumes "tags_ok (t_tags db)" "tag_row_ok row"
  shows "tags_ok (t_tags (insert_tag db row))"
    "r \<in> set (t_tags (insert_tag db row)) \<longleftrightarrow> r = row \<or> (r \<in> set (t_tags db) \<and> tag_key_of r \<noteq> tag_key_of row)"
proof -
  let ?upd = "\<lambda>r. r\<lparr>tg_value := tg_value row, tg_valid := tg_valid row, tg_reason := tg_reason row, tg_by := tg_by row\<rparr>"
  have row: "?upd r = row" if "tag_key_of r = tag_key_of row" for r
    using that by (cases r; cases row) (simp add: tag_key_of_def)
  have t: "t_tags (insert_tag db row) = upsert tag_key_of row ?upd (t_tags db)" by (simp add: insert_tag_def)
  have eta: "\<lparr>tg_node = tg_node row, tg_source = tg_source row, tg_key = tg_key row, tg_value = tg_value row,
      tg_valid = tg_valid row, tg_reason = tg_reason row, tg_by = tg_by row\<rparr> = row"
    by (cases row) simp
  have "distinct (map tag_key_of (t_tags (insert_tag db row)))"
    using assms(1) tags.upsert_distinct [of "t_tags db" "tag_key_of row" "(tg_value row, tg_valid row, tg_reason row, tg_by row)"]
    by (simp add: t tags_ok_def tag_key_of_def eta)
  moreover show mem: "r \<in> set (t_tags (insert_tag db row)) \<longleftrightarrow> r = row \<or> (r \<in> set (t_tags db) \<and> tag_key_of r \<noteq> tag_key_of row)" for r
    unfolding t upsert_def using row by (auto simp: list_ex_iff image_iff)
  ultimately show "tags_ok (t_tags (insert_tag db row))"
    using assms unfolding tags_ok_def list_all_iff by auto
qed

lemma insert_tags_ok:
  "tags_ok (t_tags db) \<Longrightarrow> list_all tag_row_ok rows \<Longrightarrow> tags_ok (t_tags (foldl insert_tag db rows))"
  by (induction rows arbitrary: db) (simp_all add: insert_tag_rows)

lemma filter_tags_ok: "tags_ok ts \<Longrightarrow> tags_ok (filter P ts)"
  by (auto simp: tags_ok_def list_all_iff distinct_map_filter)

lemma delete_tags_ok: "tags_ok ts \<Longrightarrow> tags_ok (delete_where P ts)"
  by (simp add: delete_where_def filter_tags_ok)

lemma valid_declared:
  assumes "t \<in> set (classify_declared_tags pairs)" "dt_valid t"
  shows "validate_center_tag (dt_key t) (dt_value t) = Ok ()"
proof -
  from assms(1) obtain us d vs where d: "mark_over_limit 0 (sorted_drafts pairs) = us @ d # vs" "t = draft_tag d"
    unfolding classify_declared_tags_alt emit_unique_split by blast
  have v: "d_valid d" using assms(2) d(2) by (simp add: draft_tag_def)
  from mark_over_limit_split [OF v d(1)] have "d \<in> set (sorted_drafts pairs)" by auto
  then obtain k w where "d = classify_one k w" by (auto simp: set_sorted_drafts)
  with v d(2) classify_one_valid show ?thesis by auto
qed

lemma declared_rows_ok: "list_all tag_row_ok (map (declared_row n who) (classify_declared_tags pairs))"
  using valid_declared by (auto simp: list_all_iff tag_row_ok_def declared_row_def)

lemma system_row_ok: "is_reserved_key k \<Longrightarrow> tag_row_ok (system_row n who (k, v))"
  by (simp add: tag_row_ok_def system_row_def)

lemma system_keys_reserved: "is_reserved_key ''sys.version''" "is_reserved_key ''sys.os''" "is_reserved_key ''sys.arch''"
  by code_simp+

lemma system_rows_ok: "list_all tag_row_ok (map (system_row n who) (system_pairs ver os arch))"
  using system_keys_reserved
  by (auto simp: system_pairs_def list_all_iff List.map_filter_simps intro!: system_row_ok split: option.splits)

lemma center_row_ok: "validate_center_tag k v = Ok () \<Longrightarrow> tag_row_ok (center_row n k v)"
  by (simp add: tag_row_ok_def center_row_def)

lemma audit_tags [simp]:
  "t_tags (append_tag_audit env db a b c d e f g) = t_tags db" "t_tags (audit_on env db a n d) = t_tags db"
  by (simp_all add: append_tag_audit_def audit_on_def insert_audit_def)

lemma register_tags_ok: "tags_ok (t_tags db) \<Longrightarrow> tags_ok (t_tags (register_node_once env db n hn ver declared os arch))"
  by (auto simp: register_node_once_def Let_def upsert_node_def delete_tags_ok declared_rows_ok system_rows_ok
      intro!: insert_tags_ok split: option.split)

lemma backfill_one_tags_ok: "tags_ok (t_tags db) \<Longrightarrow> tags_ok (t_tags (backfill_one_tx env db n))"
  by (auto simp: backfill_one_tx_def Let_def declared_rows_ok system_keys_reserved
      intro!: insert_tags_ok insert_tag_rows(1) system_row_ok split: option.split)

lemma backfill_tags_ok: "tags_ok (t_tags db) \<Longrightarrow> tags_ok (t_tags (backfill env db))"
proof -
  have "tags_ok (t_tags db) \<Longrightarrow> tags_ok (t_tags (foldl (backfill_one_tx env) db ns))" for ns
    by (induction ns arbitrary: db) (simp_all add: backfill_one_tags_ok)
  then show "tags_ok (t_tags db) \<Longrightarrow> ?thesis" by (simp add: backfill_def)
qed

lemma set_tags_ok: "tags_ok (t_tags db) \<Longrightarrow> tags_ok (t_tags (fst (set_center_tag env db n k body)))"
  by (auto simp: set_center_tag_def Let_def intro!: insert_tag_rows(1) center_row_ok split: sum.splits)

lemma delete_tag_ok: "tags_ok (t_tags db) \<Longrightarrow> tags_ok (t_tags (fst (delete_center_tag env db n k c)))"
  by (auto simp: delete_center_tag_def Let_def delete_center_def delete_tags_ok split: sum.splits)

end
