(* ===== verification/Center_Tags_Read.thy ===== *)
theory Center_Tags_Read
  imports Center_Tags_Correct
begin

text \<open>
  The effective tags of a node are computed four times in the program: by \<open>effective_of\<close> on the rows of
  one node, by the SQL view \<open>node_tags_effective\<close> for the inventory of \<open>targets.rs\<close>, by the same view with
  a sort for the list of nodes, and by the guards for production nodes. On a table that has its shape
  they are the same, and every operation keeps the shape.
\<close>

subsection \<open>The rows of one node by key and source\<close>

lemma tags_ok_unique: "tags_ok ts \<Longrightarrow> r \<in> set ts \<Longrightarrow> q \<in> set ts \<Longrightarrow> tag_key_of r = tag_key_of q \<Longrightarrow> r = q"
  unfolding tags_ok_def by (metis row_at_distinct option.inject)

lemma tags_ok_row: "tags_ok ts \<Longrightarrow> r \<in> set ts \<Longrightarrow> tag_row_ok r"
  by (simp add: tags_ok_def list_all_iff)

lemma find_source_iff:
  assumes "tags_ok ts" "rows = filter (\<lambda>r. tg_node r = n) ts"
  shows "find_source rows k s = Some r \<longleftrightarrow> r \<in> set ts \<and> tag_key_of r = (n, s, k) \<and> tg_valid r"
proof
  assume "find_source rows k s = Some r"
  then show "r \<in> set ts \<and> tag_key_of r = (n, s, k) \<and> tg_valid r"
    unfolding find_source_def using assms(2) by (auto simp: tag_key_of_def dest: find_Some_iff_prefix)
next
  assume r: "r \<in> set ts \<and> tag_key_of r = (n, s, k) \<and> tg_valid r"
  then have "r \<in> set rows" using assms(2) by (simp add: tag_key_of_def)
  with r have "find_source rows k s \<noteq> None" by (auto simp: find_source_def tag_key_of_def find_None_iff)
  then obtain q where q: "find_source rows k s = Some q" by blast
  then have "q \<in> set ts \<and> tag_key_of q = (n, s, k)"
    unfolding find_source_def using assms(2) by (auto simp: tag_key_of_def dest: find_Some_iff_prefix)
  with r q show "find_source rows k s = Some r" using tags_ok_unique [OF assms(1)] by metis
qed

lemma find_source_None:
  assumes "tags_ok ts" "rows = filter (\<lambda>r. tg_node r = n) ts"
  shows "find_source rows k s = None \<longleftrightarrow> (\<forall>r \<in> set ts. tag_key_of r = (n, s, k) \<longrightarrow> \<not> tg_valid r)"
  using find_source_iff [OF assms, of k s] by (cases "find_source rows k s") fastforce+

lemma map_of_map_filter:
  "map_of (List.map_filter (\<lambda>k. map_option (Pair k) (f k)) ks) k = (if k \<in> set ks then f k else None)"
  by (induction ks) (auto simp: List.map_filter_simps split: option.splits)

lemma map_of_effective: "map_of (effective_of rows) k = effective_at rows k"
proof (cases "k \<in> set (map tg_key (filter tg_valid rows))")
  case False
  then have "find_source rows k s = None" for s by (auto simp: find_source_def find_None_iff)
  then have "effective_at rows k = None" by (simp add: effective_at_def or_else_def)
  with False show ?thesis by (simp add: effective_of_def map_of_map_filter)
qed (simp add: effective_of_def map_of_map_filter)

lemma eff_value_sources:
  "eff_value rows k = or_else (map_option tg_value (find_source rows k ''center''))
     (or_else (map_option tg_value (find_source rows k ''node'')) (map_option tg_value (find_source rows k ''system'')))"
  by (auto simp: eff_value_def map_of_effective effective_at_def or_else_def Let_def option.map_comp comp_def split: option.split)

text \<open>A valid row is shown unless it is a node row below a center row.\<close>

lemma center_row_valid: "tag_row_ok r \<Longrightarrow> tg_source r = ''center'' \<Longrightarrow> tg_valid r"
  by (auto simp: tag_row_ok_def)

lemma sources: "tag_row_ok r \<Longrightarrow> tg_source r = ''center'' \<or> tg_source r = ''node'' \<or> tg_source r = ''system''"
  by (auto simp: tag_row_ok_def)

lemma system_key_alone:
  assumes "tags_ok ts" "r \<in> set ts" "q \<in> set ts" "tg_key r = tg_key q" "tg_valid r" "tg_valid q"
    "tg_source r = ''system''"
  shows "tg_source q = ''system''"
  using tags_ok_row [OF assms(1,2)] tags_ok_row [OF assms(1,3)] assms(4-) valid_not_reserved
  by (auto simp: tag_row_ok_def)

lemma effective_rows:
  assumes "tags_ok ts"
  shows "r \<in> set (node_tags_effective ts) \<longleftrightarrow> r \<in> set ts \<and> tg_valid r \<and>
    (tg_source r = ''node'' \<longrightarrow> (\<forall>c \<in> set ts. tag_key_of c \<noteq> (tg_node r, ''center'', tg_key r)))"
  by (auto simp: node_tags_effective_def list_ex_iff tag_key_of_def)

lemma effective_rows_inj:
  assumes "tags_ok ts"
  shows "inj_on (\<lambda>r. (tg_node r, tg_key r)) (set (node_tags_effective ts))"
proof (rule inj_onI)
  fix r q assume r: "r \<in> set (node_tags_effective ts)" and q: "q \<in> set (node_tags_effective ts)"
    and k: "(tg_node r, tg_key r) = (tg_node q, tg_key q)"
  from r q have m: "r \<in> set ts" "q \<in> set ts" "tg_valid r" "tg_valid q" unfolding effective_rows [OF assms] by auto
  have "tg_source r = tg_source q"
  proof (cases "tg_source r = ''system'' \<or> tg_source q = ''system''")
    case True
    then show ?thesis using system_key_alone [OF assms m(1,2)] system_key_alone [OF assms m(2,1)] m(3,4) k by auto
  next
    case False
    then show ?thesis using sources [OF tags_ok_row [OF assms m(1)]] sources [OF tags_ok_row [OF assms m(2)]] r q k
      unfolding effective_rows [OF assms] by (auto simp: tag_key_of_def)
  qed
  with k show "r = q" by (intro tags_ok_unique [OF assms m(1,2)]) (simp add: tag_key_of_def)
qed

lemma distinct_tags: "tags_ok ts \<Longrightarrow> distinct ts"
  by (auto simp: tags_ok_def distinct_map)

lemma effective_keys_distinct:
  assumes "tags_ok ts"
  shows "distinct (map tg_key (filter (\<lambda>t. tg_node t = n) (node_tags_effective ts)))"
proof -
  have "distinct (node_tags_effective ts)" using distinct_tags [OF assms] by (simp add: node_tags_effective_def)
  then show ?thesis using effective_rows_inj [OF assms] by (auto simp: distinct_map inj_on_def)
qed

lemma foldl_updates:
  "foldl (\<lambda>m t. m(f t \<mapsto> g t)) m xs = m ++ map_of (rev (map (\<lambda>t. (f t, g t)) xs))"
  by (induction xs arbitrary: m) (simp_all add: fun_upd_def map_add_def fun_eq_iff split: option.split)

lemma foldl_updates_iff:
  assumes "distinct (map f xs)"
  shows "foldl (\<lambda>m t. m(f t \<mapsto> g t)) Map.empty xs k = Some v \<longleftrightarrow> (\<exists>t \<in> set xs. f t = k \<and> g t = v)"
proof -
  have d: "distinct (map fst (rev (map (\<lambda>t. (f t, g t)) xs)))"
    using assms by (simp add: rev_map comp_def flip: rev_map)
  show ?thesis by (auto simp: foldl_updates map_of_eq_Some_iff [OF d])
qed

lemma eff_value_iff:
  assumes "tags_ok ts" "rows = filter (\<lambda>r. tg_node r = n) ts"
  shows "eff_value rows k = Some v \<longleftrightarrow>
    (\<exists>r \<in> set (node_tags_effective ts). tg_node r = n \<and> tg_key r = k \<and> tg_value r = v)" (is "_ \<longleftrightarrow> ?R")
proof
  assume e: "eff_value rows k = Some v"
  note F = find_source_iff [OF assms] and N = find_source_None [OF assms]
  show ?R
  proof (cases "find_source rows k ''center''")
    case (Some r)
    with e have "tg_value r = v" by (simp add: eff_value_sources or_else_def)
    moreover have "r \<in> set ts" "tag_key_of r = (n, ''center'', k)" "tg_valid r" using Some unfolding F by auto
    ultimately show ?thesis by (intro bexI [of _ r]) (auto simp: effective_rows [OF assms(1)] tag_key_of_def)
  next
    case None
    then have c: "\<And>r. r \<in> set ts \<Longrightarrow> tag_key_of r \<noteq> (n, ''center'', k)"
      unfolding N using center_row_valid tags_ok_row [OF assms(1)] by (fastforce simp: tag_key_of_def)
    from None e obtain r s where r: "find_source rows k s = Some r" "tg_value r = v"
      by (auto simp: eff_value_sources or_else_def split: option.splits)
    then have "r \<in> set ts" "tag_key_of r = (n, s, k)" "tg_valid r" unfolding F by auto
    with c r(2) show ?thesis by (intro bexI [of _ r]) (auto simp: effective_rows [OF assms(1)] tag_key_of_def)
  qed
next
  assume ?R
  then obtain r where r: "r \<in> set ts" "tg_valid r" "tg_node r = n" "tg_key r = k" "tg_value r = v"
    "tg_source r = ''node'' \<longrightarrow> (\<forall>c \<in> set ts. tag_key_of c \<noteq> (n, ''center'', k))"
    unfolding effective_rows [OF assms(1)] by (auto simp: effective_rows [OF assms(1)])
  note F = find_source_iff [OF assms] and N = find_source_None [OF assms]
  have here: "find_source rows k (tg_source r) = Some r" unfolding F using r by (simp add: tag_key_of_def)
  from sources [OF tags_ok_row [OF assms(1) r(1)]] show "eff_value rows k = Some v"
  proof (elim disjE)
    assume "tg_source r = ''center''"
    with here r(5) show ?thesis by (simp add: eff_value_sources or_else_def)
  next
    assume s: "tg_source r = ''node''"
    then have "find_source rows k ''center'' = None" unfolding N using r(6) by blast
    with s here r(5) show ?thesis by (simp add: eff_value_sources or_else_def)
  next
    assume s: "tg_source r = ''system''"
    have "find_source rows k s' = None" if "s' \<noteq> ''system''" for s'
      unfolding N using system_key_alone [OF assms(1) r(1)] r s that by (auto simp: tag_key_of_def)
    with s here r(5) show ?thesis by (simp add: eff_value_sources or_else_def)
  qed
qed

subsection \<open>The readings agree\<close>

lemma inventory_reads:
  assumes "tags_ok (t_tags db)"
  shows "inventory_tags (t_tags db) n k = eff_value (fetch_tags db n) k"
proof -
  have "inventory_tags (t_tags db) n k = Some v \<longleftrightarrow> eff_value (fetch_tags db n) k = Some v" for v
    unfolding inventory_tags_def foldl_updates_iff [OF effective_keys_distinct [OF assms]]
      eff_value_iff [OF assms fetch_tags_def] by auto
  then show ?thesis by (metis not_Some_eq)
qed

lemma list_reads:
  assumes "tags_ok (t_tags db)" "v \<in> set (list_nodes env db)"
  shows "nv_tags v k = eff_value (fetch_tags db (nv_id v)) k"
proof -
  let ?b = "sort_key (\<lambda>t. bucket_rank (tg_source t)) (filter (\<lambda>t. tg_node t = nv_id v) (node_tags_effective (t_tags db)))"
  have d: "distinct (map tg_key ?b)"
    using effective_keys_distinct [OF assms(1)] by (simp add: distinct_map)
  have "nv_tags v = foldl (\<lambda>m t. m(tg_key t \<mapsto> tg_value t)) Map.empty ?b"
    using assms(2) by (auto simp: list_nodes_def Let_def)
  then have "nv_tags v k = Some w \<longleftrightarrow> eff_value (fetch_tags db (nv_id v)) k = Some w" for w
    by (auto simp: foldl_updates_iff [OF d] eff_value_iff [OF assms(1) fetch_tags_def])
  then show ?thesis by (metis not_Some_eq)
qed

lemma inventory_prod:
  assumes "tags_ok (t_tags db)" "i \<in> set (load_inventory db)"
  shows "iv_prod i \<longleftrightarrow> counts_as_prod (fetch_tags db (iv_id i))"
  using assms(2) inventory_reads [OF assms(1)]
  by (auto simp: load_inventory_def Let_def counts_as_prod_def declared_prod_def list_ex_iff fetch_tags_def)

end
