(* ===== verification/Center_Tags_Bulk.thy ===== *)
theory Center_Tags_Bulk
  imports Center_Tags_Read
begin

text \<open>
  What the writing operations do to the rows of every node: a bulk change does what its dry run says,
  no node gets more than 32 center tags, and nothing that concerns a production node is written
  without the confirmation of the exact number of such nodes.
\<close>

subsection \<open>Writes\<close>

lemma find_eq_find_source:
  assumes "tags_ok (t_tags db)"
  shows "center_value (fetch_tags db n) k = map_option tg_value (find_source (fetch_tags db n) k ''center'')"
proof -
  have "find (\<lambda>r. tg_source r = ''center'' \<and> tg_key r = k) rows = find (\<lambda>r. tg_valid r \<and> tg_key r = k \<and> tg_source r = ''center'') rows"
    if "\<forall>r \<in> set rows. tag_row_ok r" for rows
    using that by (induction rows) (auto dest: center_row_valid)
  then show ?thesis using tags_ok_row [OF assms] by (simp add: center_value_def find_source_def fetch_tags_def)
qed

lemma find_source_insert:
  assumes "tags_ok (t_tags db)" "tag_row_ok row"
  shows "find_source (fetch_tags (insert_tag db row) n) k s =
    (if tag_key_of row = (n, s, k) then (if tg_valid row then Some row else None) else find_source (fetch_tags db n) k s)"
proof -
  have ok: "tags_ok (t_tags (insert_tag db row))" by (rule insert_tag_rows(1) [OF assms])
  have "find_source (fetch_tags (insert_tag db row) n) k s = Some r \<longleftrightarrow>
      (if tag_key_of row = (n, s, k) then (if tg_valid row then Some row else None) else find_source (fetch_tags db n) k s) = Some r" for r
    unfolding find_source_iff [OF ok fetch_tags_def] insert_tag_rows(2) [OF assms]
    using find_source_iff [OF assms(1) fetch_tags_def, of n k s r] by auto
  then show ?thesis by (metis not_Some_eq)
qed

lemma find_source_delete:
  "find_source (fetch_tags (delete_center db n0 key) n) k s =
    (if (n, s, k) = (n0, ''center'', key) then None else find_source (fetch_tags db n) k s)"
proof (cases "(n, s, k) = (n0, ''center'', key)")
  case True
  then show ?thesis
    by (auto simp: find_source_def fetch_tags_def delete_center_def delete_where_def find_None_iff)
next
  case False
  have skip: "find P (filter Q (filter R ts)) = find P (filter Q ts)" if "\<And>r. P r \<Longrightarrow> Q r \<Longrightarrow> R r"
    for P Q R and ts :: "tag_row list"
    using that by (induction ts) auto
  have "find_source (fetch_tags (delete_center db n0 key) n) k s = find_source (fetch_tags db n) k s"
    unfolding find_source_def fetch_tags_def delete_center_def delete_where_def
    using skip [of "\<lambda>r. tg_valid r \<and> tg_key r = k \<and> tg_source r = s" "\<lambda>r. tg_node r = n"
      "\<lambda>r. \<not> (tg_node r = n0 \<and> tg_source r = ''center'' \<and> tg_key r = key)" "t_tags db"] False by auto
  then show ?thesis by (simp only: False if_False)
qed

lemma find_source_audit [simp]:
  "fetch_tags (append_tag_audit env db a b c d e f g) n = fetch_tags db n"
  "fetch_tags (audit_on env db a m d) n = fetch_tags db n"
  "fetch_tags (db\<lparr>uuids_drawn := u\<rparr>) n = fetch_tags db n"
  by (simp_all add: fetch_tags_def)

definition over :: "str \<Rightarrow> (str \<times> str option) list \<Rightarrow> (str \<Rightarrow> tag_row option) \<Rightarrow> str \<Rightarrow> tag_row option" where
  "over n ov f k = (case map_of ov k of Some v \<Rightarrow> map_option (center_row n k) v | None \<Rightarrow> f k)"

lemma over_Nil [simp]: "over n [] f = f"
  by (simp add: over_def fun_eq_iff)

lemma over_Cons:
  assumes "key \<notin> fst ` set ov"
  shows "over n ((key, v) # ov) f = over n ov (f(key := map_option (center_row n key) v))"
proof -
  have "map_of ov key = None" using assms by (simp add: map_of_eq_None_iff)
  then show ?thesis by (auto simp: over_def fun_eq_iff split: option.splits)
qed

lemma apply_overlay_simps [simp]:
  "apply_overlay n rows [] = rows"
  "apply_overlay n rows ((key, v) # ov) = apply_overlay n (filter (\<lambda>r. \<not> (tg_source r = ''center'' \<and> tg_key r = key)) rows
     @ (case v of Some x \<Rightarrow> [center_row n key x] | None \<Rightarrow> [])) ov"
  by (simp_all add: apply_overlay_def)

lemma find_append: "find P (xs @ ys) = (case find P xs of Some x \<Rightarrow> Some x | None \<Rightarrow> find P ys)"
  by (induction xs) auto

lemma find_source_overlay_one:
  "find_source (filter (\<lambda>r. \<not> (tg_source r = ''center'' \<and> tg_key r = key)) rows
      @ (case v of Some x \<Rightarrow> [center_row n key x] | None \<Rightarrow> [])) k s =
   (if s = ''center'' \<and> k = key then map_option (center_row n key) v else find_source rows k s)"
proof -
  have "find (\<lambda>r. tg_valid r \<and> tg_key r = k \<and> tg_source r = s) (filter (\<lambda>r. \<not> (tg_source r = ''center'' \<and> tg_key r = key)) rows)
    = (if s = ''center'' \<and> k = key then None else find (\<lambda>r. tg_valid r \<and> tg_key r = k \<and> tg_source r = s) rows)"
    by (induction rows) auto
  then show ?thesis
    unfolding find_source_def find_append by (auto simp: center_row_def split: option.split)
qed

lemma find_source_overlay:
  assumes "distinct (map fst ov)"
  shows "find_source (apply_overlay n rows ov) k s =
    (if s = ''center'' then over n ov (\<lambda>k. find_source rows k ''center'') k else find_source rows k s)"
  using assms
proof (induction ov arbitrary: rows)
  case (Cons a ov)
  obtain key v where a: "a = (key, v)" by force
  with Cons have "key \<notin> fst ` set ov" by simp
  define rows1 where "rows1 = filter (\<lambda>r. \<not> (tg_source r = ''center'' \<and> tg_key r = key)) rows
      @ (case v of Some x \<Rightarrow> [center_row n key x] | None \<Rightarrow> [])"
  have one: "find_source rows1 k s = (if s = ''center'' \<and> k = key then map_option (center_row n key) v else find_source rows k s)" for k s
    unfolding rows1_def by (rule find_source_overlay_one)
  have "apply_overlay n rows (a # ov) = apply_overlay n rows1 ov" unfolding a apply_overlay_simps rows1_def ..
  moreover have "find_source (apply_overlay n rows1 ov) k s =
      (if s = ''center'' then over n ov (\<lambda>k. find_source rows1 k ''center'') k else find_source rows1 k s)"
    using Cons by simp
  moreover have "(\<lambda>k. find_source rows1 k ''center'') = (\<lambda>k. find_source rows k ''center'')(key := map_option (center_row n key) v)"
    by (simp add: one fun_eq_iff)
  ultimately show ?case using one over_Cons [OF \<open>key \<notin> fst ` set ov\<close>] by (simp add: a)
qed simp

lemma eff_value_cong: "(\<And>s. find_source rows k s = find_source rows' k s) \<Longrightarrow> eff_value rows k = eff_value rows' k"
  by (simp add: eff_value_sources)


subsection \<open>Carrying out a plan\<close>

definition write_of :: "plan_item \<Rightarrow> (str \<times> str option) option" where
  "write_of i =
     (if pi_action i \<in> {''added'', ''changed''} then map_option (\<lambda>v. (pi_key i, Some v)) (pi_write i)
      else if pi_action i = ''removed'' then Some (pi_key i, None) else None)"

definition write_ok :: "plan_item \<Rightarrow> bool" where
  "write_ok i \<longleftrightarrow> (\<forall>v. write_of i = Some (pi_key i, Some v) \<longrightarrow> validate_center_tag (pi_key i) v = Ok ())"

lemma write_of_key: "write_of i = Some (k, v) \<Longrightarrow> k = pi_key i"
  by (auto simp: write_of_def split: if_splits)

lemma delete_center_ok: "tags_ok (t_tags db) \<Longrightarrow> tags_ok (t_tags (delete_center db n k))"
  by (simp add: delete_center_def delete_tags_ok)

lemma apply_item_writes:
  "write_of i = Some (k, Some v) \<Longrightarrow> apply_item env m op prods db i = audit_on env (insert_tag db (center_row m (pi_key i) v)) ''tag.set'' m
     (ce_print env (tag_set_detail (pi_key i) (pi_old i) v (pi_before i) (pi_after i) (pi_node_value i) (Some op) prods))"
  "write_of i = Some (k, None) \<Longrightarrow> apply_item env m op prods db i = audit_on env (delete_center db m (pi_key i)) ''tag.removed'' m
     (ce_print env (tag_removed_detail (pi_key i) (pi_old i) (pi_after i) (Some op) prods))"
  "write_of i = None \<Longrightarrow> apply_item env m op prods db i = db"
  by (auto simp: apply_item_def write_of_def split: if_splits)

lemma apply_item_cases:
  obtains (set) v a b c where "write_of i = Some (pi_key i, Some v)"
      "apply_item env m op prods db i = audit_on env (insert_tag db (center_row m (pi_key i) v)) a b c"
  | (del) a b c where "write_of i = Some (pi_key i, None)"
      "apply_item env m op prods db i = audit_on env (delete_center db m (pi_key i)) a b c"
  | (none) "write_of i = None" "apply_item env m op prods db i = db"
proof -
  consider v where "write_of i = Some (pi_key i, Some v)" | "write_of i = Some (pi_key i, None)" | "write_of i = None"
  proof (cases "write_of i")
    case (Some w)
    then obtain v where "w = (pi_key i, v)" using write_of_key [of i "fst w" "snd w"] by (metis surjective_pairing)
    with Some show ?thesis using that by (cases v) simp_all
  qed (rule that)
  then show ?thesis
  proof cases
    case (1 v)
    from that(1) [OF 1 apply_item_writes(1) [OF 1]] show ?thesis .
  next
    case 2
    from that(2) [OF 2 apply_item_writes(2) [OF 2]] show ?thesis .
  next
    case 3
    from that(3) [OF 3 apply_item_writes(3) [OF 3]] show ?thesis .
  qed
qed

lemma apply_item_effect:
  assumes "tags_ok (t_tags db)" "write_ok i"
  shows "tags_ok (t_tags (apply_item env m op prods db i))"
    "find_source (fetch_tags (apply_item env m op prods db i) n) k s =
       (if n = m \<and> s = ''center'' then (case write_of i of
            Some w \<Rightarrow> if k = fst w then map_option (center_row m k) (snd w) else find_source (fetch_tags db n) k s
          | None \<Rightarrow> find_source (fetch_tags db n) k s)
        else find_source (fetch_tags db n) k s)" (is "?find")
proof -
  have "tags_ok (t_tags (apply_item env m op prods db i)) \<and> ?find"
  proof (cases rule: apply_item_cases [of i env m op prods db])
    case (set v a b c)
    then have r: "tag_row_ok (center_row m (pi_key i) v)" using assms(2) by (simp add: center_row_ok write_ok_def)
    have "tag_key_of (center_row m (pi_key i) v) = (m, ''center'', pi_key i)" "tg_valid (center_row m (pi_key i) v)"
      by (simp_all add: tag_key_of_def center_row_def)
    then show ?thesis unfolding set by (auto simp: insert_tag_rows(1) [OF assms(1) r] find_source_insert [OF assms(1) r])
  next
    case (del a b c)
    then show ?thesis using assms(1) by (auto simp: find_source_delete delete_center_ok)
  qed (use assms(1) in simp)
  then show "tags_ok (t_tags (apply_item env m op prods db i))" ?find by blast+
qed

lemma apply_items_effect:
  assumes "tags_ok (t_tags db)" "list_all write_ok items" "distinct (map fst (List.map_filter write_of items))"
  shows "tags_ok (t_tags (foldl (apply_item env m op prods) db items)) \<and>
    find_source (fetch_tags (foldl (apply_item env m op prods) db items) n) k s =
       (if n = m \<and> s = ''center'' then over m (List.map_filter write_of items) (\<lambda>k. find_source (fetch_tags db m) k ''center'') k
        else find_source (fetch_tags db n) k s)"
  using assms
proof (induction items arbitrary: db)
  case (Cons i items)
  define db1 where "db1 = apply_item env m op prods db i"
  have w: "write_ok i" using Cons.prems(2) by simp
  have db1: "tags_ok (t_tags db1)" unfolding db1_def by (rule apply_item_effect(1) [OF Cons.prems(1) w])
  have one: "find_source (fetch_tags db1 n) k s = (if n = m \<and> s = ''center'' then (case write_of i of
            Some w \<Rightarrow> if k = fst w then map_option (center_row m k) (snd w) else find_source (fetch_tags db n) k s
          | None \<Rightarrow> find_source (fetch_tags db n) k s)
        else find_source (fetch_tags db n) k s)" for n k s
    unfolding db1_def by (rule apply_item_effect(2) [OF Cons.prems(1) w])
  have d: "distinct (map fst (List.map_filter write_of items))" "list_all write_ok items"
    using Cons.prems by (auto simp: List.map_filter_simps split: option.splits)
  note IH = Cons.IH [OF db1 d(2,1)]
  have "over m (List.map_filter write_of items) (\<lambda>k. find_source (fetch_tags db1 m) k ''center'') k
    = over m (List.map_filter write_of (i # items)) (\<lambda>k. find_source (fetch_tags db m) k ''center'') k"
  proof (cases "write_of i")
    case None
    then show ?thesis by (simp add: one List.map_filter_simps)
  next
    case (Some w)
    obtain key v where kv: "w = (key, v)" by force
    have "key \<notin> fst ` set (List.map_filter write_of items)"
      using Cons.prems(3) Some kv by (simp add: List.map_filter_simps)
    from over_Cons [OF this, of m v] show ?thesis
      by (simp add: one Some kv List.map_filter_simps fun_upd_def cong: if_cong)
  qed
  with IH one show ?case by (simp add: db1_def [symmetric])
qed (simp add: List.map_filter_simps)


subsection \<open>Making a plan\<close>

text \<open>
  The invariant of the two loops of \<open>plan_node\<close>: the overlay is the writes of the items, one item per
  key, the center keys are those the overlay leaves, and the other items report no change.
\<close>

definition center_keys_of :: "tag_row list \<Rightarrow> str set" where
  "center_keys_of rows = tg_key ` set (filter (\<lambda>r. tg_source r = ''center'') rows)"

definition planning_ok :: "tag_row list \<Rightarrow> str list \<Rightarrow> planning \<Rightarrow> bool" where
  "planning_ok rows keys = (\<lambda>(ck, ov, items).
     map pi_key items = keys \<and> ov = List.map_filter write_of items \<and> list_all write_ok items
     \<and> ck = {k. case map_of ov k of Some v \<Rightarrow> v \<noteq> None | None \<Rightarrow> k \<in> center_keys_of rows} \<and> card ck \<le> MAX_CENTER_TAGS
     \<and> (\<forall>i \<in> set items. write_of i = None \<longrightarrow> pi_after i = eff_value rows (pi_key i) \<and> pi_action i \<notin> {''added'', ''changed'', ''removed''}))"

lemma map_filter_append: "List.map_filter f (xs @ ys) = List.map_filter f xs @ List.map_filter f ys"
  by (simp add: List.map_filter_def)

lemma write_keys: "fst ` set (List.map_filter write_of items) \<subseteq> pi_key ` set items"
  by (induction items) (auto simp: List.map_filter_simps dest: write_of_key split: option.splits)

lemma map_of_writes_None: "key \<notin> pi_key ` set items \<Longrightarrow> map_of (List.map_filter write_of items) key = None"
  using write_keys [of items] by (auto simp: map_of_eq_None_iff)

lemma map_of_writes_append:
  "key \<notin> pi_key ` set items \<Longrightarrow>
   map_of (List.map_filter write_of (items @ [i])) k =
     (case map_of (List.map_filter write_of items) k of Some v \<Rightarrow> Some v | None \<Rightarrow> map_of (List.map_filter write_of [i]) k)"
  by (simp add: map_filter_append map_add_def split: option.split)

lemma center_value_None: "center_value rows key = None \<longleftrightarrow> key \<notin> center_keys_of rows"
  by (auto simp: center_value_def find_None_iff center_keys_of_def)

lemma finite_center_keys [simp]: "finite {k. case map_of ov k of Some v \<Rightarrow> v \<noteq> None | None \<Rightarrow> k \<in> center_keys_of rows}"
proof (rule finite_subset)
  show "{k. case map_of ov k of Some v \<Rightarrow> v \<noteq> None | None \<Rightarrow> k \<in> center_keys_of rows} \<subseteq> fst ` set ov \<union> center_keys_of rows"
    by (auto split: option.splits) (metis fst_conv image_eqI map_of_SomeD)
  show "finite (fst ` set ov \<union> center_keys_of rows)" by (simp add: center_keys_of_def)
qed

lemma planning_extend:
  assumes "planning_ok rows keys (ck, ov, items)" "pi_key i \<notin> set keys" "write_ok i"
    "write_of i = None \<Longrightarrow> pi_after i = eff_value rows (pi_key i) \<and> pi_action i \<notin> {''added'', ''changed'', ''removed''}"
    "ck' = (case write_of i of None \<Rightarrow> ck | Some (k, v) \<Rightarrow> if v = None then ck - {k} else insert k ck)" "card ck' \<le> MAX_CENTER_TAGS"
    "ov' = ov @ (case write_of i of None \<Rightarrow> [] | Some w \<Rightarrow> [w])"
  shows "planning_ok rows (keys @ [pi_key i]) (ck', ov', items @ [i])"
proof -
  note I = assms(1) [unfolded planning_ok_def, simplified]
  have new: "pi_key i \<notin> pi_key ` set items" using I assms(2) by auto
  have ov': "ov' = List.map_filter write_of (items @ [i])"
    using I assms(7) by (simp add: map_filter_append List.map_filter_simps split: option.split)
  have "ck' = {k. case map_of ov' k of Some v \<Rightarrow> v \<noteq> None | None \<Rightarrow> k \<in> center_keys_of rows}"
    unfolding ov' map_of_writes_append [OF new]
    using I assms(5) map_of_writes_None [OF new] write_of_key [of i]
    by (auto simp: List.map_filter_simps split: option.splits if_splits)
  with I ov' assms(3,4,6) show ?thesis by (simp add: planning_ok_def)
qed

lemma plan_remove_ok:
  assumes "planning_ok rows keys p" "key \<notin> set keys" "\<And>r. r \<in> set rows \<Longrightarrow> tg_key r = key \<Longrightarrow> tg_source r \<noteq> ''system'' \<and> tag_row_ok r"
  shows "planning_ok rows (keys @ [key]) (plan_remove rows p key)"
proof -
  obtain ck ov items where p: "p = (ck, ov, items)" by (cases p)
  note E = planning_extend [OF assms(1) [unfolded p]]
  have card: "card ck \<le> MAX_CENTER_TAGS" using assms(1) unfolding p planning_ok_def by blast
  consider (rem) old where "center_value rows key = Some old"
    | (boot) r where "center_value rows key = None" "find (\<lambda>r. tg_key r = key \<and> tg_source r = ''node'') rows = Some r"
    | (nf) "center_value rows key = None" "find (\<lambda>r. tg_key r = key \<and> tg_source r = ''node'') rows = None"
    by (cases "center_value rows key"; cases "find (\<lambda>r. tg_key r = key \<and> tg_source r = ''node'') rows") auto
  then show ?thesis
  proof cases
    case rem
    have "card (ck - {key}) \<le> MAX_CENTER_TAGS" using card card_Diff1_le [of ck key] by linarith
    with rem assms(2) show ?thesis
      using E [of "(plan_item_of key ''removed'')\<lparr>pi_old := Some old, pi_node_value := valid_node_value rows key\<rparr>" "ck - {key}" "ov @ [(key, None)]"]
      by (simp add: p plan_remove_def write_of_def write_ok_def plan_item_of_def)
  next
    case boot
    with card assms(2) show ?thesis
      using E [of "(plan_item_of key ''not_changed_boot_reported'')\<lparr>pi_old := Some (tg_value r), pi_before := eff_value rows key,
        pi_after := eff_value rows key, pi_node_value := valid_node_value rows key\<rparr>" ck ov]
      by (simp add: p plan_remove_def write_of_def write_ok_def plan_item_of_def)
  next
    case nf
    have "find_source rows key s = None" for s
      using nf assms(3) sources by (fastforce simp: center_value_None center_keys_of_def find_source_def find_None_iff)
    then have "eff_value rows key = None" by (simp add: eff_value_sources or_else_def)
    with nf card assms(2) show ?thesis using E [of "plan_item_of key ''not_found''" ck ov]
      by (simp add: p plan_remove_def write_of_def write_ok_def plan_item_of_def)
  qed
qed

lemma plan_add_ok:
  assumes "planning_ok rows keys p" "key \<notin> set keys" "validate_center_tag key v = Ok ()"
  shows "planning_ok rows (keys @ [key]) (plan_add rows p (key, v))"
proof -
  obtain ck ov items where p: "p = (ck, ov, items)" by (cases p)
  note E = planning_extend [OF assms(1) [unfolded p]]
  have I: "card ck \<le> MAX_CENTER_TAGS" "keys = map pi_key items" "ov = List.map_filter write_of items"
    "ck = {k. case map_of ov k of Some v \<Rightarrow> v \<noteq> None | None \<Rightarrow> k \<in> center_keys_of rows}"
    using assms(1) unfolding p planning_ok_def by blast+
  let ?nv = "valid_node_value rows key" and ?eff = "eff_value rows key"
  consider (same) "center_value rows key = Some v" | (changed) old where "center_value rows key = Some old" "old \<noteq> v"
    | (full) "center_value rows key = None" "card ck \<ge> MAX_CENTER_TAGS" | (added) "center_value rows key = None" "card ck < MAX_CENTER_TAGS"
    by (cases "center_value rows key") fastforce+
  then show ?thesis
  proof cases
    case same
    with I(1) assms(2) show ?thesis
      using E [of "(plan_item_of key ''unchanged'')\<lparr>pi_old := Some v, pi_new := Some v, pi_before := ?eff, pi_after := ?eff, pi_node_value := ?nv\<rparr>" ck ov]
      by (simp add: p plan_add_def write_of_def write_ok_def plan_item_of_def Let_def)
  next
    case full
    with I(1) assms(2) show ?thesis
      using E [of "(plan_item_of key ''error'')\<lparr>pi_new := Some v, pi_error := Some ''tag_limit_exceeded'', pi_before := ?eff, pi_after := ?eff, pi_node_value := ?nv\<rparr>" ck ov]
      by (simp add: p plan_add_def write_of_def write_ok_def plan_item_of_def Let_def)
  next
    case changed
    have "key \<notin> pi_key ` set items" using assms(2) I(2) by auto
    then have "key \<in> ck"
      using changed center_value_None [of rows key] map_of_writes_None [of key items] by (simp add: I(3,4))
    then have "insert key ck = ck" by blast
    with changed I(1) assms(2,3) show ?thesis
      using E [of "(plan_item_of key ''changed'')\<lparr>pi_old := Some old, pi_new := Some v, pi_node_value := ?nv, pi_write := Some v\<rparr>" ck "ov @ [(key, Some v)]"]
      by (simp add: p plan_add_def write_of_def write_ok_def plan_item_of_def Let_def)
  next
    case added
    have "card (insert key ck) \<le> MAX_CENTER_TAGS" using added(2) by (simp add: I(4) card_insert_if)
    with added assms(2,3) show ?thesis
      using E [of "(plan_item_of key ''added'')\<lparr>pi_new := Some v, pi_node_value := ?nv, pi_write := Some v\<rparr>" "insert key ck" "ov @ [(key, Some v)]"]
      by (simp add: p plan_add_def write_of_def write_ok_def plan_item_of_def Let_def)
  qed
qed

lemma plan_removes_ok:
  assumes "planning_ok rows keys p" "distinct (keys @ remove)" "list_all (\<lambda>k. \<not> is_reserved_key k) remove"
    "\<forall>r \<in> set rows. tag_row_ok r"
  shows "planning_ok rows (keys @ remove) (foldl (plan_remove rows) p remove)"
  using assms(1-3)
proof (induction remove arbitrary: keys p)
  case (Cons k remove)
  have "tg_source r \<noteq> ''system'' \<and> tag_row_ok r" if "r \<in> set rows" "tg_key r = k" for r
    using that assms(4) Cons.prems(3) by (auto simp: tag_row_ok_def)
  from plan_remove_ok [OF Cons.prems(1) _ this] have "planning_ok rows (keys @ [k]) (plan_remove rows p k)"
    using Cons.prems(2) by auto
  from Cons.IH [OF this] Cons.prems show ?case by simp
qed simp

lemma plan_adds_ok:
  assumes "planning_ok rows keys p" "distinct (keys @ map fst add)" "list_all (\<lambda>(k, v). validate_center_tag k v = Ok ()) add"
  shows "planning_ok rows (keys @ map fst add) (foldl (plan_add rows) p add)"
  using assms
proof (induction add arbitrary: keys p)
  case (Cons a add)
  obtain k v where a: "a = (k, v)" by force
  have "planning_ok rows (keys @ [k]) (plan_add rows p a)"
    unfolding a using Cons.prems a by (intro plan_add_ok) auto
  from Cons.IH [OF this] Cons.prems a show ?case by simp
qed simp

text \<open>The plan of a node that exists.\<close>

lemma write_keys_distinct: "distinct (map pi_key items) \<Longrightarrow> distinct (map fst (List.map_filter write_of items))"
  using write_keys by (induction items) (auto simp: List.map_filter_simps dest!: write_of_key split: option.splits)

lemma map_of_sort_key:
  assumes "distinct (map fst ov)"
  shows "map_of (sort_key fst ov) = map_of ov" "distinct (map fst (sort_key fst ov))"
proof -
  show d: "distinct (map fst (sort_key fst ov))" using assms by (simp add: distinct_map)
  have "map_of (sort_key fst ov) k = Some v \<longleftrightarrow> map_of ov k = Some v" for k v
    using map_of_eq_Some_iff [OF d] map_of_eq_Some_iff [OF assms] by simp
  then show "map_of (sort_key fst ov) = map_of ov" by (metis not_Some_eq ext)
qed

definition plan_keys_ok :: "(str \<times> str) list \<Rightarrow> str list \<Rightarrow> bool" where
  "plan_keys_ok add remove \<longleftrightarrow> distinct (remove @ map fst add) \<and> list_all (\<lambda>k. \<not> is_reserved_key k) remove
     \<and> list_all (\<lambda>(k, v). validate_center_tag k v = Ok ()) add"

lemma plan_node_ok:
  assumes "plan_keys_ok add remove" "\<forall>r \<in> set rows. tag_row_ok r" "card (center_keys_of rows) \<le> MAX_CENTER_TAGS"
  obtains ck ov items where "planning_ok rows (remove @ map fst add) (ck, ov, items)"
    "np_prod (plan_node rows n True add remove) = (counts_as_prod rows \<or> counts_as_prod (apply_overlay n rows (sort_key fst ov)))"
    "np_items (plan_node rows n True add remove) = map (\<lambda>i. if pi_action i \<in> {''added'', ''changed'', ''removed''}
       then i\<lparr>pi_before := eff_value rows (pi_key i), pi_after := eff_value (apply_overlay n rows (sort_key fst ov)) (pi_key i)\<rparr> else i) items"
proof -
  have "planning_ok rows [] (center_keys_of rows, [], [])"
    using assms(3) by (simp add: planning_ok_def List.map_filter_simps)
  from plan_adds_ok [OF plan_removes_ok [OF this]] assms(1,2)
  have "planning_ok rows (remove @ map fst add) (foldl (plan_add rows) (foldl (plan_remove rows) (center_keys_of rows, [], []) remove) add)"
    by (simp add: plan_keys_ok_def)
  moreover obtain ck ov items where "foldl (plan_add rows) (foldl (plan_remove rows) (center_keys_of rows, [], []) remove) add = (ck, ov, items)"
    using prod_cases3 by blast
  ultimately show ?thesis
    by (intro that [of ck ov items]) (simp_all add: plan_node_def center_keys_of_def Let_def)
qed


subsection \<open>Plans on the table\<close>

lemma center_keys_find:
  "tags_ok (t_tags db) \<Longrightarrow> k \<in> center_keys_of (fetch_tags db n) \<longleftrightarrow> find_source (fetch_tags db n) k ''center'' \<noteq> None"
  using center_value_None [of "fetch_tags db n" k] by (simp add: find_eq_find_source)

definition other_rows :: "tag_row list \<Rightarrow> tag_row set" where
  "other_rows rows = {r \<in> set rows. tg_source r \<noteq> ''center''}"

lemma counts_as_prod_cong:
  assumes "other_rows rows = other_rows rows'" "eff_value rows ''env'' = eff_value rows' ''env''"
  shows "counts_as_prod rows = counts_as_prod rows'"
proof -
  have "list_ex (\<lambda>r. tg_source r = ''node'' \<and> \<not> tg_valid r \<and> P r) rows = (\<exists>r \<in> other_rows rows. tg_source r = ''node'' \<and> \<not> tg_valid r \<and> P r)" for P rows
    by (auto simp: other_rows_def list_ex_iff)
  note X = this
  show ?thesis unfolding counts_as_prod_def X assms ..
qed

lemma other_rows_put:
  "other_rows (filter (\<lambda>r. \<not> (tg_source r = ''center'' \<and> tg_key r = key)) rows
     @ (case v of Some x \<Rightarrow> [center_row n key x] | None \<Rightarrow> [])) = other_rows rows"
  by (cases v) (auto simp: other_rows_def center_row_def)

lemma other_rows_overlay: "other_rows (apply_overlay n rows ov) = other_rows rows"
proof (induction ov arbitrary: rows)
  case (Cons a ov)
  obtain key v where a: "a = (key, v)" by force
  show ?case unfolding a apply_overlay_simps Cons.IH by (rule other_rows_put)
qed simp

lemma other_rows_insert:
  assumes "tags_ok (t_tags db)" "tag_row_ok (center_row m key v)"
  shows "other_rows (fetch_tags (insert_tag db (center_row m key v)) n) = other_rows (fetch_tags db n)"
proof -
  have "r \<in> other_rows (fetch_tags (insert_tag db (center_row m key v)) n) \<longleftrightarrow> r \<in> other_rows (fetch_tags db n)" for r
    unfolding other_rows_def fetch_tags_def mem_Collect_eq set_filter insert_tag_rows(2) [OF assms]
    by (auto simp: center_row_def tag_key_of_def)
  then show ?thesis by blast
qed

lemma other_rows_delete: "other_rows (fetch_tags (delete_center db m key) n) = other_rows (fetch_tags db n)"
  by (auto simp: other_rows_def fetch_tags_def delete_center_def)

lemma other_rows_item:
  assumes "tags_ok (t_tags db)" "write_ok i"
  shows "other_rows (fetch_tags (apply_item env m op prods db i) n) = other_rows (fetch_tags db n)"
proof (cases rule: apply_item_cases [of i env m op prods db])
  case (set v a b c)
  then have "tag_row_ok (center_row m (pi_key i) v)" using assms(2) by (simp add: center_row_ok write_ok_def)
  then show ?thesis unfolding set using other_rows_insert [OF assms(1)] by simp
qed (simp_all add: other_rows_delete)

lemma other_rows_items:
  "tags_ok (t_tags db) \<Longrightarrow> list_all write_ok items \<Longrightarrow>
   other_rows (fetch_tags (foldl (apply_item env m op prods) db items) n) = other_rows (fetch_tags db n)"
  by (induction items arbitrary: db) (simp_all add: other_rows_item apply_item_effect(1))

definition noted :: "(str \<Rightarrow> str option) \<Rightarrow> (str \<Rightarrow> str option) \<Rightarrow> plan_item \<Rightarrow> plan_item" where
  "noted before after i = (if pi_action i \<in> {''added'', ''changed'', ''removed''}
     then i\<lparr>pi_before := before (pi_key i), pi_after := after (pi_key i)\<rparr> else i)"

lemma noted_simps [simp]: "write_of (noted f g i) = write_of i" "pi_key (noted f g i) = pi_key i" "write_ok (noted f g i) = write_ok i"
  by (auto simp: noted_def write_of_def write_ok_def)

lemma map_filter_map: "List.map_filter f (map g xs) = List.map_filter (\<lambda>x. f (g x)) xs"
  by (simp add: List.map_filter_def comp_def filter_map)

lemma apply_plan_effect:
  fixes env op prods
  assumes ok: "tags_ok (t_tags db)" and keys: "plan_keys_ok add remove"
    and few: "card (center_keys_of (fetch_tags db m)) \<le> MAX_CENTER_TAGS"
    and p: "p = plan_node (fetch_tags db m) m True add remove"
  defines "db' \<equiv> apply_plan env op prods db p"
  shows "tags_ok (t_tags db')"
    "n \<noteq> m \<Longrightarrow> find_source (fetch_tags db' n) k s = find_source (fetch_tags db n) k s"
    "other_rows (fetch_tags db' n) = other_rows (fetch_tags db n)"
    "k \<notin> set remove \<Longrightarrow> k \<notin> fst ` set add \<Longrightarrow> find_source (fetch_tags db' m) k s = find_source (fetch_tags db m) k s"
    "card (center_keys_of (fetch_tags db' m)) \<le> MAX_CENTER_TAGS"
    "np_prod p = (counts_as_prod (fetch_tags db m) \<or> counts_as_prod (fetch_tags db' m))"
    "\<forall>i \<in> set (np_items p). pi_after i = eff_value (fetch_tags db' m) (pi_key i)"
proof -
  let ?rows = "fetch_tags db m"
  have rows: "\<forall>r \<in> set ?rows. tag_row_ok r" using tags_ok_row [OF ok] by (simp add: fetch_tags_def)
  obtain ck ov items where I: "planning_ok ?rows (remove @ map fst add) (ck, ov, items)"
    and prod: "np_prod p = (counts_as_prod ?rows \<or> counts_as_prod (apply_overlay m ?rows (sort_key fst ov)))"
    and it: "np_items p = map (\<lambda>i. if pi_action i \<in> {''added'', ''changed'', ''removed''}
       then i\<lparr>pi_before := eff_value ?rows (pi_key i), pi_after := eff_value (apply_overlay m ?rows (sort_key fst ov)) (pi_key i)\<rparr> else i) items"
    unfolding p by (rule plan_node_ok [OF keys rows few])
  note I = I [unfolded planning_ok_def, simplified]
  let ?rows' = "apply_overlay m ?rows (sort_key fst ov)"
  have items: "np_items p = map (noted (eff_value ?rows) (eff_value ?rows')) items" by (simp add: it noted_def)
  have w: "List.map_filter write_of (np_items p) = ov" "list_all write_ok (np_items p)"
    using I by (simp_all add: items map_filter_map list.pred_map comp_def)
  have "distinct (map pi_key items)" using I keys by (simp add: plan_keys_ok_def)
  then have d: "distinct (map fst ov)" using I write_keys_distinct by blast
  have found: "np_found p" by (simp add: p plan_node_def Let_def split: prod.split)
  have node: "np_node p = m" by (simp add: p plan_node_def Let_def split: prod.split)
  have db': "db' = foldl (apply_item env m op prods) db (np_items p)"
    by (simp add: db'_def apply_plan_def found node)
  have E: "tags_ok (t_tags db')" "find_source (fetch_tags db' n) k s =
       (if n = m \<and> s = ''center'' then over m ov (\<lambda>k. find_source (fetch_tags db m) k ''center'') k
        else find_source (fetch_tags db n) k s)" for n k s
    using apply_items_effect [OF ok w(2)] w(1) d unfolding db' by simp_all
  have same: "find_source (fetch_tags db' m) k s = find_source ?rows' k s" for k s
    unfolding E(2) find_source_overlay [OF map_of_sort_key(2) [OF d]] by (simp add: over_def map_of_sort_key(1) [OF d])
  then have eff: "eff_value (fetch_tags db' m) k = eff_value ?rows' k" for k by (rule eff_value_cong)
  have others: "other_rows (fetch_tags db' n) = other_rows (fetch_tags db n)" for n
    unfolding db' by (rule other_rows_items [OF ok w(2)])
  show "tags_ok (t_tags db')" by (rule E(1))
  show "n \<noteq> m \<Longrightarrow> find_source (fetch_tags db' n) k s = find_source (fetch_tags db n) k s" by (simp add: E(2))
  show "other_rows (fetch_tags db' n) = other_rows (fetch_tags db n)" by (rule others)
  show "k \<notin> set remove \<Longrightarrow> k \<notin> fst ` set add \<Longrightarrow> find_source (fetch_tags db' m) k s = find_source (fetch_tags db m) k s"
  proof -
    assume "k \<notin> set remove" "k \<notin> fst ` set add"
    moreover have "set (map pi_key items) = set (remove @ map fst add)" using I by simp
    ultimately have "k \<notin> pi_key ` set items" by auto
    from map_of_writes_None [OF this] have "map_of ov k = None" using I by simp
    then show ?thesis by (simp add: E(2) over_def)
  qed
  have "k \<in> center_keys_of (fetch_tags db' m) \<longleftrightarrow> k \<in> ck" for k
  proof -
    have "k \<in> ck \<longleftrightarrow> (case map_of ov k of Some v \<Rightarrow> v \<noteq> None | None \<Rightarrow> k \<in> center_keys_of ?rows)" using I by blast
    then show ?thesis unfolding center_keys_find [OF E(1)] center_keys_find [OF ok] E(2)
      by (simp add: over_def split: option.split)
  qed
  then have "center_keys_of (fetch_tags db' m) = ck" by blast
  moreover have "card ck \<le> MAX_CENTER_TAGS" using I by blast
  ultimately show "card (center_keys_of (fetch_tags db' m)) \<le> MAX_CENTER_TAGS" by simp
  show "np_prod p = (counts_as_prod ?rows \<or> counts_as_prod (fetch_tags db' m))"
    using prod counts_as_prod_cong [of "fetch_tags db' m" ?rows'] others eff by (simp add: other_rows_overlay)
  show "\<forall>i \<in> set (np_items p). pi_after i = eff_value (fetch_tags db' m) (pi_key i)"
  proof
    fix j assume "j \<in> set (np_items p)"
    then obtain i where i: "i \<in> set items" "j = noted (eff_value ?rows) (eff_value ?rows') i" unfolding items by auto
    show "pi_after j = eff_value (fetch_tags db' m) (pi_key j)"
    proof (cases "write_of i")
      case None
      then have a: "pi_after i = eff_value ?rows (pi_key i)" "pi_action i \<notin> {''added'', ''changed'', ''removed''}"
        using I i(1) by auto
      have "map_of ov (pi_key i) = None"
      proof (rule ccontr)
        assume "map_of ov (pi_key i) \<noteq> None"
        then obtain v where "(pi_key i, v) \<in> set (List.map_filter write_of items)" using I by (auto dest: map_of_SomeD)
        then obtain q where "q \<in> set items" "write_of q = Some (pi_key i, v)"
          by (auto simp: List.map_filter_def)
        with None i(1) \<open>distinct (map pi_key items)\<close> write_of_key [of q] show False
          by (metis distinct_map inj_onD option.distinct(1))
      qed
      then have "find_source (fetch_tags db' m) (pi_key i) s = find_source ?rows (pi_key i) s" for s
        by (simp add: E(2) over_def)
      then have "eff_value (fetch_tags db' m) (pi_key i) = eff_value ?rows (pi_key i)" by (rule eff_value_cong)
      with a i(2) show ?thesis by (simp add: noted_def)
    next
      case (Some w')
      then have "pi_action i \<in> {''added'', ''changed'', ''removed''}" by (auto simp: write_of_def split: if_splits)
      with i(2) eff show ?thesis by (simp add: noted_def)
    qed
  qed
qed

end
