(* ===== verification/Center_Tags_Props.thy ===== *)
theory Center_Tags_Props
  imports Center_Tags_Bulk Targets_Correct
begin

text \<open>
  The properties of the tags: the dry run of a bulk change is exact, production nodes are guarded, and
  whatever is written the readings of a node's tags agree and the limits hold.
\<close>

subsection \<open>Other nodes\<close>

lemma fetch_insert_other: "n \<noteq> tg_node row \<Longrightarrow> fetch_tags (insert_tag db row) n = fetch_tags db n"
proof -
  assume n: "n \<noteq> tg_node row"
  have "filter (\<lambda>r. tg_node r = n) (map (\<lambda>r. if tag_key_of r = tag_key_of row then f r else r) ts) = filter (\<lambda>r. tg_node r = n) ts"
    if "\<And>r. tg_node (f r) = tg_node r" for f ts
    using n that by (induction ts) (auto simp: tag_key_of_def)
  with n show ?thesis by (simp add: fetch_tags_def insert_tag_def upsert_def)
qed

lemma fetch_delete_other: "n \<noteq> m \<Longrightarrow> fetch_tags (delete_center db m k) n = fetch_tags db n"
  by (auto simp: fetch_tags_def delete_center_def delete_where_def intro!: filter_cong)

lemma fetch_item_other: "n \<noteq> m \<Longrightarrow> fetch_tags (apply_item env m op prods db i) n = fetch_tags db n"
  by (simp add: apply_item_def fetch_insert_other fetch_delete_other center_row_def split: option.split)

lemma fetch_items_other: "n \<noteq> m \<Longrightarrow> fetch_tags (foldl (apply_item env m op prods) db items) n = fetch_tags db n"
  by (induction items arbitrary: db) (simp_all add: fetch_item_other)

lemma fetch_plan_other: "n \<noteq> np_node p \<Longrightarrow> fetch_tags (apply_plan env op prods db p) n = fetch_tags db n"
  by (simp add: apply_plan_def fetch_items_other)

subsection \<open>All plans of a bulk change\<close>

definition plan_of :: "(str \<times> str) list \<Rightarrow> str list \<Rightarrow> db \<Rightarrow> str \<Rightarrow> node_plan" where
  "plan_of add remove db n = plan_node (if node_exists db n then fetch_tags db n else []) n (node_exists db n) add remove"

lemma plan_of_same:
  "fetch_tags db n = fetch_tags db' n \<Longrightarrow> node_exists db n = node_exists db' n \<Longrightarrow> plan_of add remove db n = plan_of add remove db' n"
  by (simp add: plan_of_def)

lemma load_plans_map: "load_plans db ids add remove = map (plan_of add remove db) ids"
  by (simp add: load_plans_def plan_of_def Let_def)

lemma plan_of_node [simp]: "np_node (plan_of add remove db n) = n" "np_found (plan_of add remove db n) = node_exists db n"
  by (auto simp: plan_of_def plan_node_def Let_def split: prod.split)

definition few_center :: "db \<Rightarrow> bool" where
  "few_center db \<longleftrightarrow> (\<forall>n. center_count (fetch_tags db n) \<le> MAX_CENTER_TAGS)"

lemma center_count_card:
  assumes "tags_ok (t_tags db)"
  shows "center_count (fetch_tags db n) = card (center_keys_of (fetch_tags db n))"
proof -
  let ?c = "filter (\<lambda>r. tg_source r = ''center'') (fetch_tags db n)"
  have "inj_on tg_key (set ?c)"
    using tags_ok_unique [OF assms] by (auto simp: inj_on_def fetch_tags_def tag_key_of_def)
  then have "card (tg_key ` set ?c) = card (set ?c)" by (rule card_image)
  also have "\<dots> = length ?c" by (rule distinct_card) (use distinct_tags [OF assms] in \<open>simp add: fetch_tags_def\<close>)
  finally show ?thesis by (simp add: center_count_def center_keys_of_def)
qed

text \<open>What a plan that was carried out has done to its node.\<close>

definition plan_done :: "(str \<times> str) list \<Rightarrow> str list \<Rightarrow> node_plan \<Rightarrow> tag_row list \<Rightarrow> tag_row list \<Rightarrow> bool" where
  "plan_done add remove p rows rows' \<longleftrightarrow>
     (np_found p \<longrightarrow> np_prod p = (counts_as_prod rows \<or> counts_as_prod rows')
        \<and> (\<forall>i \<in> set (np_items p). pi_after i = eff_value rows' (pi_key i))
        \<and> card (center_keys_of rows') \<le> MAX_CENTER_TAGS)
     \<and> (\<not> np_found p \<longrightarrow> rows' = rows)
     \<and> (\<forall>k. k \<notin> set remove \<longrightarrow> k \<notin> fst ` set add \<longrightarrow> eff_value rows' k = eff_value rows k)"

lemma apply_plan_done:
  assumes "tags_ok (t_tags db)" "plan_keys_ok add remove" "few_center db"
  shows "tags_ok (t_tags (apply_plan env op prods db (plan_of add remove db n)))"
    "plan_done add remove (plan_of add remove db n) (fetch_tags db n) (fetch_tags (apply_plan env op prods db (plan_of add remove db n)) n)"
proof -
  let ?p = "plan_of add remove db n"
  have "tags_ok (t_tags (apply_plan env op prods db ?p))
    \<and> plan_done add remove ?p (fetch_tags db n) (fetch_tags (apply_plan env op prods db ?p) n)"
  proof (cases "node_exists db n")
    case True
    then have p: "?p = plan_node (fetch_tags db n) n True add remove" by (simp add: plan_of_def)
    have few: "card (center_keys_of (fetch_tags db n)) \<le> MAX_CENTER_TAGS"
      using assms(3) center_count_card [OF assms(1)] by (simp add: few_center_def)
    note E = apply_plan_effect [OF assms(1,2) few p]
    show ?thesis using True E(1,5,6,7) eff_value_cong [OF E(4)] by (simp add: plan_done_def)
  next
    case False
    then have "apply_plan env op prods db ?p = db" by (simp add: apply_plan_def)
    with False assms(1) show ?thesis by (simp add: plan_done_def)
  qed
  then show "tags_ok (t_tags (apply_plan env op prods db ?p))"
    "plan_done add remove ?p (fetch_tags db n) (fetch_tags (apply_plan env op prods db ?p) n)" by blast+
qed

lemma apply_plan_few:
  assumes "tags_ok (t_tags db)" "plan_keys_ok add remove" "few_center db"
  shows "few_center (apply_plan env op prods db (plan_of add remove db n))"
  unfolding few_center_def
proof
  fix m
  let ?db = "apply_plan env op prods db (plan_of add remove db n)"
  note D = apply_plan_done [OF assms, where env = env and op = op and prods = prods and n = n]
  show "center_count (fetch_tags ?db m) \<le> MAX_CENTER_TAGS"
  proof (cases "m = n \<and> node_exists db n")
    case True
    then show ?thesis using D center_count_card [OF D(1)] by (simp add: plan_done_def)
  next
    case False
    then have "fetch_tags ?db m = fetch_tags db m"
      using D(2) by (cases "m = n") (simp_all add: plan_done_def fetch_plan_other)
    then show ?thesis using assms(3) by (simp add: few_center_def)
  qed
qed

lemma apply_nodes: "t_nodes (apply_plan env op prods db p) = t_nodes db"
proof -
  have "t_nodes (apply_item env m op prods db i) = t_nodes db" for m db i
    by (simp add: apply_item_def audit_on_def insert_audit_def insert_tag_def delete_center_def split: option.split)
  then have "t_nodes (foldl (apply_item env m op prods) db items) = t_nodes db" for m items
    by (induction items arbitrary: db) simp_all
  then show ?thesis by (simp add: apply_plan_def)
qed

lemma apply_plans_done:
  fixes env op prods
  assumes "tags_ok (t_tags db)" "plan_keys_ok add remove" "few_center db" "distinct ids"
  defines "db' \<equiv> foldl (apply_plan env op prods) db (map (plan_of add remove db) ids)"
  shows "tags_ok (t_tags db') \<and> few_center db' \<and> (\<forall>n. n \<notin> set ids \<longrightarrow> fetch_tags db' n = fetch_tags db n)
    \<and> (\<forall>n \<in> set ids. plan_done add remove (plan_of add remove db n) (fetch_tags db n) (fetch_tags db' n))"
  using assms(1,3,4) unfolding db'_def
proof (induction ids arbitrary: db)
  case (Cons m ids)
  let ?p = "plan_of add remove db m"
  let ?db1 = "apply_plan env op prods db ?p"
  have same: "plan_of add remove ?db1 n = plan_of add remove db n" "fetch_tags ?db1 n = fetch_tags db n" if "n \<noteq> m" for n
  proof -
    show f: "fetch_tags ?db1 n = fetch_tags db n" by (rule fetch_plan_other) (simp add: that)
    show "plan_of add remove ?db1 n = plan_of add remove db n"
      by (rule plan_of_same [OF f]) (simp only: node_exists_def apply_nodes)
  qed
  have m: "m \<notin> set ids" "distinct ids" using Cons.prems by simp_all
  have "map (plan_of add remove db) ids = map (plan_of add remove ?db1) ids"
  proof (rule map_cong)
    show "plan_of add remove db x = plan_of add remove ?db1 x" if "x \<in> set ids" for x
      using m(1) that by (intro same(1) [symmetric]) blast
  qed simp
  then have eq: "foldl (apply_plan env op prods) db (map (plan_of add remove db) (m # ids))
    = foldl (apply_plan env op prods) ?db1 (map (plan_of add remove ?db1) ids)"
    by (simp only: list.map foldl_Cons)
  note D = apply_plan_done [OF Cons.prems(1) assms(2) Cons.prems(2), where env = env and op = op and prods = prods and n = m]
  note IH = Cons.IH [OF D(1) apply_plan_few [OF Cons.prems(1) assms(2) Cons.prems(2)] m(2)]
  show ?case unfolding eq
  proof (intro conjI allI impI ballI)
    fix n assume "n \<in> set (m # ids)"
    show "plan_done add remove (plan_of add remove db n) (fetch_tags db n)
      (fetch_tags (foldl (apply_plan env op prods) ?db1 (map (plan_of add remove ?db1) ids)) n)"
    proof (cases "n = m")
      case True
      then show ?thesis using IH m(1) D(2) by metis
    next
      case False
      then show ?thesis using IH same \<open>n \<in> set (m # ids)\<close> by (metis set_ConsD)
    qed
  qed (use IH same in auto)
qed simp


subsection \<open>The dry run of a bulk change is exact\<close>

lemma validate_bulk_keys_ok:
  assumes "validate_bulk_keys add remove = Ok ()" "distinct (map fst add)" "distinct remove"
  shows "plan_keys_ok add remove"
proof -
  have a: "validate_adds add = Ok () \<Longrightarrow> list_all (\<lambda>(k, v). validate_center_tag k v = Ok ()) add" for add
    by (induction add rule: validate_adds.induct) (auto split: sum.splits)
  have r: "validate_removes add remove = Ok () \<Longrightarrow> list_all (\<lambda>k. validate_center_tag k ''x'' = Ok () \<and> k \<notin> fst ` set add) remove" for remove
    by (induction remove) (auto split: sum.splits if_splits)
  have "validate_adds add = Ok ()" "validate_removes add remove = Ok ()"
    using assms(1) by (auto simp: validate_bulk_keys_def split: if_splits)
  with a r assms(2,3) show ?thesis
    using valid_not_reserved by (fastforce simp: plan_keys_ok_def list_all_iff)
qed

lemma bulk_steps:
  assumes "bulk env db body = (db', Ok rep)" "\<not> bk_dry_run body" "distinct (map fst (bk_add body))"
  obtains ids remove op db1 where "ids = sorted_unique (bk_node_ids body)" "remove = sorted_unique (bk_remove body)"
    "plan_keys_ok (bk_add body) remove" "t_tags db1 = t_tags db" "t_nodes db1 = t_nodes db"
    "let plans = map (plan_of (bk_add body) remove db) ids in
       ensure_prod (prod_ids_of plans) (bk_confirm body) = Ok ()
       \<and> rep = bulk_response_of (Some op) False plans
       \<and> t_tags db' = t_tags (foldl (apply_plan env op (prod_ids_of plans \<noteq> [])) db1 plans)
       \<and> bulk env db (body\<lparr>bk_dry_run := True\<rparr>) = (db, Ok (bulk_response_of None True plans))"
proof -
  define ids where "ids = sorted_unique (bk_node_ids body)"
  define remove where "remove = sorted_unique (bk_remove body)"
  have v: "validate_bulk_keys (bk_add body) remove = Ok ()"
    using assms(1) by (auto simp: bulk_def normalize_remove_def remove_def Let_def split: sum.splits)
  then have k: "plan_keys_ok (bk_add body) remove" using assms(3) by (intro validate_bulk_keys_ok) (simp_all add: remove_def)
  have n: "normalize_ids (bk_node_ids body) = Ok ids"
    using assms(1) v by (auto simp: bulk_def normalize_remove_def remove_def normalize_ids_def ids_def Let_def split: sum.splits if_splits)
  define plans where "plans = map (plan_of (bk_add body) remove db) ids"
  obtain op db1 where u: "new_uuid env db = (op, db1)" by force
  have v': "validate_bulk_keys (bk_add body) (sorted_unique (bk_remove body)) = Ok ()" using v by (simp add: remove_def)
  have plans: "map (plan_of (bk_add body) (sorted_unique (bk_remove body)) db) ids = plans" by (simp add: plans_def remove_def)
  have dry: "bulk env db (body\<lparr>bk_dry_run := True\<rparr>) = (db, Ok (bulk_response_of None True plans))"
    by (simp add: bulk_def normalize_remove_def v' n plans load_plans_map)
  have e: "ensure_prod (prod_ids_of plans) (bk_confirm body) = Ok ()"
    using assms(1,2) by (auto simp: bulk_def normalize_remove_def v' n plans load_plans_map Let_def split: sum.splits)
  have r: "rep = bulk_response_of (Some op) False plans"
    and t: "t_tags db' = t_tags (foldl (apply_plan env op (prod_ids_of plans \<noteq> [])) db1 plans)"
    using assms(1,2) by (auto simp: bulk_def normalize_remove_def v' n plans load_plans_map e Let_def u)
  have "t_tags db1 = t_tags db" "t_nodes db1 = t_nodes db" using u by (auto simp: new_uuid_def)
  with e r t dry k show ?thesis
    by (intro that [of ids remove db1 op]) (simp_all add: ids_def remove_def plans_def [unfolded remove_def ids_def, symmetric] Let_def)
qed

lemma prod_ids_plans:
  "prod_ids_of (map (plan_of add remove db) ids) = filter (\<lambda>n. np_prod (plan_of add remove db n)) ids"
  by (induction ids) (simp_all add: prod_ids_of_def)

lemma fetch_tags_cong: "t_tags db = t_tags db' \<Longrightarrow> fetch_tags db = fetch_tags db'"
  by (simp add: fetch_tags_def fun_eq_iff)

lemma plan_of_cong: "t_tags db = t_tags db' \<Longrightarrow> t_nodes db = t_nodes db' \<Longrightarrow> plan_of add remove db = plan_of add remove db'"
  by (intro ext plan_of_same) (simp_all add: fetch_tags_def node_exists_def)

lemma bulk_result:
  assumes "bulk env db body = (db', Ok rep)" "\<not> bk_dry_run body" "distinct (map fst (bk_add body))"
    "tags_ok (t_tags db)" "few_center db"
  obtains ids plans where "ids = sorted_unique (bk_node_ids body)" "tags_ok (t_tags db')" "few_center db'"
    "plans = map (plan_of (bk_add body) (sorted_unique (bk_remove body)) db) ids"
    "\<forall>n. n \<notin> set ids \<longrightarrow> fetch_tags db' n = fetch_tags db n"
    "\<forall>n \<in> set ids. plan_done (bk_add body) (sorted_unique (bk_remove body))
       (plan_of (bk_add body) (sorted_unique (bk_remove body)) db n) (fetch_tags db n) (fetch_tags db' n)"
    "ensure_prod (prod_ids_of plans) (bk_confirm body) = Ok ()"
    "\<exists>op. rep = bulk_response_of (Some op) False plans"
    "bulk env db (body\<lparr>bk_dry_run := True\<rparr>) = (db, Ok (bulk_response_of None True plans))"
proof -
  obtain ids remove op db1 where B: "ids = sorted_unique (bk_node_ids body)" "remove = sorted_unique (bk_remove body)"
    "plan_keys_ok (bk_add body) remove" "t_tags db1 = t_tags db" "t_nodes db1 = t_nodes db"
    "let plans = map (plan_of (bk_add body) remove db) ids in
       ensure_prod (prod_ids_of plans) (bk_confirm body) = Ok ()
       \<and> rep = bulk_response_of (Some op) False plans
       \<and> t_tags db' = t_tags (foldl (apply_plan env op (prod_ids_of plans \<noteq> [])) db1 plans)
       \<and> bulk env db (body\<lparr>bk_dry_run := True\<rparr>) = (db, Ok (bulk_response_of None True plans))"
    by (rule bulk_steps [OF assms(1-3)])
  define plans where "plans = map (plan_of (bk_add body) remove db) ids"
  have plans1: "plans = map (plan_of (bk_add body) remove db1) ids"
    unfolding plans_def plan_of_cong [OF B(4,5)] ..
  note Q = B(6) [unfolded Let_def, folded plans_def]
  have "tags_ok (t_tags db1)" "few_center db1" "distinct ids"
    using assms(4,5) B(1,4) fetch_tags_cong [OF B(4)] by (simp_all add: few_center_def)
  from apply_plans_done [OF this(1) B(3) this(2,3), of env op "prod_ids_of plans \<noteq> []", folded plans1]
  have D: "tags_ok (t_tags db')" "\<forall>n. center_count (fetch_tags db' n) \<le> MAX_CENTER_TAGS"
    "\<forall>n. n \<notin> set ids \<longrightarrow> fetch_tags db' n = fetch_tags db n"
    "\<forall>n \<in> set ids. plan_done (bk_add body) remove (plan_of (bk_add body) remove db n) (fetch_tags db n) (fetch_tags db' n)"
    unfolding few_center_def fetch_tags_cong [OF B(4)] plan_of_cong [OF B(4,5)]
    using Q fetch_tags_cong [of db' "foldl (apply_plan env op (prod_ids_of plans \<noteq> [])) db1 plans"] by simp_all
  show ?thesis
    by (rule that [OF B(1) D(1) _ plans_def [unfolded B(2)] D(3) D(4) [unfolded B(2)]]) (use Q D(2) in \<open>auto simp: few_center_def\<close>)
qed

lemma empty_key_unset:
  assumes "tags_ok (t_tags db)"
  shows "eff_value (fetch_tags db n) [] = None"
proof -
  have "validate_center_tag [] v \<noteq> Ok ()" "\<not> is_reserved_key []" for v
    by (simp_all add: validate_center_tag_def is_reserved_key_def key_ok_def starts_with_def)
  then have "tag_row_ok r \<Longrightarrow> tg_valid r \<Longrightarrow> tg_key r \<noteq> []" for r by (auto simp: tag_row_ok_def)
  then have "find_source (fetch_tags db n) [] s = None" for s
    using tags_ok_row [OF assms] by (auto simp: find_source_def find_None_iff fetch_tags_def)
  then show ?thesis by (simp add: eff_value_sources or_else_def)
qed



subsection \<open>One tag\<close>

lemma one_write:
  assumes "tags_ok (t_tags db)" "validate_center_tag k v = Ok ()"
  shows "tags_ok (t_tags (insert_tag db (center_row n k v)))"
    "find_source (fetch_tags (insert_tag db (center_row n k v)) n) k' s = find_source (apply_overlay n (fetch_tags db n) [(k, Some v)]) k' s"
    "counts_as_prod (fetch_tags (insert_tag db (center_row n k v)) n) = counts_as_prod (apply_overlay n (fetch_tags db n) [(k, Some v)])"
proof -
  have r: "tag_row_ok (center_row n k v)" using assms(2) by (rule center_row_ok)
  show "tags_ok (t_tags (insert_tag db (center_row n k v)))" by (rule insert_tag_rows(1) [OF assms(1) r])
  have d: "distinct (map fst [(k, Some v)])" by simp
  have key: "tag_key_of (center_row n k v) = (n, ''center'', k)" "tg_valid (center_row n k v)" for k
    by (simp_all add: tag_key_of_def center_row_def)
  show F: "find_source (fetch_tags (insert_tag db (center_row n k v)) n) k' s = find_source (apply_overlay n (fetch_tags db n) [(k, Some v)]) k' s" for k' s
    unfolding find_source_insert [OF assms(1) r] find_source_overlay [OF d] by (auto simp: key over_def)
  show "counts_as_prod (fetch_tags (insert_tag db (center_row n k v)) n) = counts_as_prod (apply_overlay n (fetch_tags db n) [(k, Some v)])"
    by (rule counts_as_prod_cong [OF _ eff_value_cong [OF F]])
      (simp only: other_rows_insert [OF assms(1) r] other_rows_overlay)
qed

lemma one_delete:
  shows "find_source (fetch_tags (delete_center db n k) n) k' s = find_source (apply_overlay n (fetch_tags db n) [(k, None)]) k' s"
    "counts_as_prod (fetch_tags (delete_center db n k) n) = counts_as_prod (apply_overlay n (fetch_tags db n) [(k, None)])"
proof -
  have d: "distinct (map fst [(k, None :: str option)])" by simp
  show F: "find_source (fetch_tags (delete_center db n k) n) k' s = find_source (apply_overlay n (fetch_tags db n) [(k, None)]) k' s" for k' s
    unfolding find_source_delete find_source_overlay [OF d] by (auto simp: over_def)
  show "counts_as_prod (fetch_tags (delete_center db n k) n) = counts_as_prod (apply_overlay n (fetch_tags db n) [(k, None)])"
    by (rule counts_as_prod_cong [OF _ eff_value_cong [OF F]])
      (simp only: other_rows_delete other_rows_overlay)
qed

lemma set_center_tag_Ok:
  assumes "set_center_tag env db n k body = (db', Ok r)"
  shows "validate_center_tag k (pt_value body) = Ok () \<and> node_exists db n
    \<and> ensure_single_prod n (fetch_tags db n) [(k, Some (pt_value body))] (pt_confirm body) = Ok ()
    \<and> (center_value (fetch_tags db n) k = None \<longrightarrow> center_count (fetch_tags db n) < MAX_CENTER_TAGS)
    \<and> (\<exists>d. db' = append_tag_audit env (insert_tag db (center_row n k (pt_value body))) ACTOR ACTOR ''tag.set'' ''node'' n (Some n) d)"
  using assms by (auto simp: set_center_tag_def Let_def simp del: apply_overlay_simps split: sum.splits if_splits)

lemma delete_center_tag_Ok:
  assumes "delete_center_tag env db n k confirm = (db', Ok r)"
  shows "node_exists db n \<and> ensure_single_prod n (fetch_tags db n) [(k, None)] confirm = Ok ()
    \<and> (\<exists>d. db' = append_tag_audit env (delete_center db n k) ACTOR ACTOR ''tag.removed'' ''node'' n (Some n) d)"
  using assms by (auto simp: delete_center_tag_def Let_def simp del: apply_overlay_simps split: sum.splits if_splits)

subsection \<open>Production nodes\<close>

text \<open>A write by an operator: what was confirmed and which nodes are named.\<close>

inductive operator_write :: "cenv \<Rightarrow> nat option \<Rightarrow> str list \<Rightarrow> db \<Rightarrow> db \<Rightarrow> bool" for env where
  one: "set_center_tag env db n k body = (db', Ok r) \<Longrightarrow> operator_write env (pt_confirm body) [n] db db'"
| remove: "delete_center_tag env db n k confirm = (db', Ok r) \<Longrightarrow> operator_write env confirm [n] db db'"
| many: "bulk env db body = (db', Ok rep) \<Longrightarrow> \<not> bk_dry_run body \<Longrightarrow> distinct (map fst (bk_add body)) \<Longrightarrow>
    operator_write env (bk_confirm body) (sorted_unique (bk_node_ids body)) db db'"

definition prod_around :: "db \<Rightarrow> db \<Rightarrow> str \<Rightarrow> bool" where
  "prod_around db db' n \<longleftrightarrow> node_exists db n \<and> (counts_as_prod (fetch_tags db n) \<or> counts_as_prod (fetch_tags db' n))"

lemma ensure_prod_Ok: "ensure_prod ids c = Ok () \<longleftrightarrow> ids = [] \<or> c = Some (length ids)"
  by (auto simp: ensure_prod_def)

lemma single_guard:
  assumes "ensure_single_prod n (fetch_tags db n) ov c = Ok ()"
    "counts_as_prod (fetch_tags db' n) = counts_as_prod (apply_overlay n (fetch_tags db n) ov)"
  shows "filter (prod_around db db') [n] = [] \<or> c = Some (length (filter (prod_around db db') [n]))"
  using assms by (auto simp: ensure_single_prod_def prod_around_def ensure_prod_Ok split: if_splits)

text \<open>
  C18. Nothing is written for a production node that was not confirmed: when a tag is set, removed
  or changed in bulk, the operator has confirmed exactly the number of the named nodes that count as
  production before or after the change, unless there is none; and no other node is touched.
\<close>

theorem production_writes_confirmed:
  assumes "operator_write env c ns db db'" "tags_ok (t_tags db)" "few_center db"
  shows "(filter (prod_around db db') ns = [] \<or> c = Some (length (filter (prod_around db db') ns)))
    \<and> (\<forall>n. n \<notin> set ns \<longrightarrow> fetch_tags db' n = fetch_tags db n)"
  using assms
proof (cases rule: operator_write.cases)
  case (one n k body r)
  from set_center_tag_Ok [OF one(3)] obtain d where S: "validate_center_tag k (pt_value body) = Ok ()"
    "ensure_single_prod n (fetch_tags db n) [(k, Some (pt_value body))] (pt_confirm body) = Ok ()"
    "db' = append_tag_audit env (insert_tag db (center_row n k (pt_value body))) ACTOR ACTOR ''tag.set'' ''node'' n (Some n) d" by blast
  have p: "counts_as_prod (fetch_tags db' n) = counts_as_prod (apply_overlay n (fetch_tags db n) [(k, Some (pt_value body))])"
    unfolding S(3) find_source_audit by (rule one_write(3) [OF assms(2) S(1)])
  have "fetch_tags db' m = fetch_tags db m" if "m \<noteq> n" for m
    unfolding S(3) find_source_audit by (rule fetch_insert_other) (simp add: center_row_def that)
  with single_guard [OF S(2) p] show ?thesis unfolding one(1,2) by simp
next
  case (remove n k r)
  from delete_center_tag_Ok [OF remove(2)] obtain d where S:
    "ensure_single_prod n (fetch_tags db n) [(k, None)] c = Ok ()"
    "db' = append_tag_audit env (delete_center db n k) ACTOR ACTOR ''tag.removed'' ''node'' n (Some n) d" by blast
  have p: "counts_as_prod (fetch_tags db' n) = counts_as_prod (apply_overlay n (fetch_tags db n) [(k, None)])"
    unfolding S(2) find_source_audit by (rule one_delete(2))
  have "fetch_tags db' m = fetch_tags db m" if "m \<noteq> n" for m
    unfolding S(2) find_source_audit by (rule fetch_delete_other [OF that])
  with single_guard [OF S(1) p] show ?thesis unfolding remove(1) by simp
next
  case (many body rep)
  obtain ids plans where B: "ids = ns"
    "plans = map (plan_of (bk_add body) (sorted_unique (bk_remove body)) db) ids"
    "\<forall>n. n \<notin> set ids \<longrightarrow> fetch_tags db' n = fetch_tags db n"
    "\<forall>n \<in> set ids. plan_done (bk_add body) (sorted_unique (bk_remove body))
       (plan_of (bk_add body) (sorted_unique (bk_remove body)) db n) (fetch_tags db n) (fetch_tags db' n)"
    "ensure_prod (prod_ids_of plans) c = Ok ()"
    using bulk_result [OF many(3-5) assms(2,3)] many(1,2) by metis
  have "np_prod (plan_of (bk_add body) (sorted_unique (bk_remove body)) db n) = prod_around db db' n" if "n \<in> set ids" for n
  proof (cases "node_exists db n")
    case True
    then show ?thesis using B(4) that by (simp add: plan_done_def prod_around_def)
  next
    case False
    then show ?thesis by (simp add: prod_around_def plan_of_def plan_node_def)
  qed
  then have "prod_ids_of plans = filter (prod_around db db') ns"
    unfolding B(1,2) [symmetric] prod_ids_plans by (simp add: B(2) prod_ids_plans cong: filter_cong)
  with B(1,3,5) show ?thesis by (simp add: ensure_prod_Ok)
qed

subsection \<open>Samples of bulk changes\<close>

definition sample_bulk :: bulk_body where
  "sample_bulk = \<lparr>bk_node_ids = [''web-2'', ''web-1''], bk_add = [(''role'', ''web'')], bk_remove = [''env''],
     bk_dry_run = False, bk_confirm = Some 1\<rparr>"

lemma sample_fleet_tags: "tags_ok (t_tags sample_fleet)" "few_center sample_fleet"
proof -
  have "validate_center_tag ''env'' ''prod'' = Ok ()" by code_simp
  then show "tags_ok (t_tags sample_fleet)" by (simp add: sample_fleet_def tags_ok_def tag_row_ok_def)
  have "center_count (fetch_tags sample_fleet n) \<le> length (t_tags sample_fleet)" for n
    by (simp add: center_count_def fetch_tags_def)
  then show "few_center sample_fleet"
    unfolding few_center_def by (rule allI [OF order_trans]) (simp add: sample_fleet_def MAX_CENTER_TAGS_def)
qed

lemma bulk_runs:
  assumes "validate_bulk_keys (bk_add body) (sorted_unique (bk_remove body)) = Ok ()" "normalize_ids (bk_node_ids body) = Ok ids"
    "ensure_prod (prod_ids_of (load_plans db ids (bk_add body) (sorted_unique (bk_remove body)))) (bk_confirm body) = Ok ()"
  shows "\<exists>db' rep. bulk env db body = (db', Ok rep)"
  by (auto simp: bulk_def normalize_remove_def assms Let_def split: prod.split)

lemma sample_bulk_runs: "\<exists>db' rep. bulk (sample_cenv 0) sample_fleet sample_bulk = (db', Ok rep)"
proof (rule bulk_runs)
  show "validate_bulk_keys (bk_add sample_bulk) (sorted_unique (bk_remove sample_bulk)) = Ok ()" by code_simp
  show "normalize_ids (bk_node_ids sample_bulk) = Ok [''web-1'', ''web-2'']" by code_simp
  show "ensure_prod (prod_ids_of (load_plans sample_fleet [''web-1'', ''web-2''] (bk_add sample_bulk)
      (sorted_unique (bk_remove sample_bulk)))) (bk_confirm sample_bulk) = Ok ()" by code_simp
qed

lemma sample_bulk_keys: "distinct (map fst (bk_add sample_bulk))" "\<not> bk_dry_run sample_bulk"
  by (simp_all add: sample_bulk_def)


lemma production_writes_confirmed_witness:
  "\<exists>db'. operator_write (sample_cenv 0) (Some 1) (sorted_unique (bk_node_ids sample_bulk)) sample_fleet db'
     \<and> length (filter (prod_around sample_fleet db') (sorted_unique (bk_node_ids sample_bulk))) \<in> {0, 1}"
proof -
  obtain db' rep where b: "bulk (sample_cenv 0) sample_fleet sample_bulk = (db', Ok rep)" using sample_bulk_runs by blast
  from operator_write.many [OF b sample_bulk_keys(2,1)]
  have w: "operator_write (sample_cenv 0) (Some 1) (sorted_unique (bk_node_ids sample_bulk)) sample_fleet db'" by (simp add: sample_bulk_def)
  from production_writes_confirmed [OF this sample_fleet_tags] w show ?thesis by auto
qed

end
