(* ===== verification/Center_Tags_Runs.thy ===== *)
theory Center_Tags_Runs
  imports Center_Tags_Props
begin

text \<open>
  Runs of the tag operations: registrations, the backfill at start-up and what operators write, in any
  order. The invariant of the table holds all along, and with it the readings agree.
\<close>

subsection \<open>Center rows under registration\<close>

definition centers :: "db \<Rightarrow> tag_row list" where
  "centers db = filter (\<lambda>r. tg_source r = ''center'') (t_tags db)"

lemma center_count_centers: "center_count (fetch_tags db n) = length (filter (\<lambda>r. tg_node r = n) (centers db))"
  by (simp add: center_count_def fetch_tags_def centers_def conj_commute)

lemma few_center_cong: "centers db = centers db' \<Longrightarrow> few_center db = few_center db'"
  by (simp add: few_center_def center_count_centers)

lemma centers_insert: "tg_source row \<noteq> ''center'' \<Longrightarrow> centers (insert_tag db row) = centers db"
proof -
  assume s: "tg_source row \<noteq> ''center''"
  have "filter (\<lambda>r. tg_source r = ''center'') (map (\<lambda>r. if tag_key_of r = tag_key_of row then f r else r) ts)
    = filter (\<lambda>r. tg_source r = ''center'') ts" if "\<And>r. tg_source (f r) = tg_source r" for f ts
    using s that by (induction ts) (auto simp: tag_key_of_def)
  with s show ?thesis by (simp add: centers_def insert_tag_def upsert_def)
qed

lemma centers_inserts:
  "list_all (\<lambda>row. tg_source row \<noteq> ''center'') rows \<Longrightarrow> centers (foldl insert_tag db rows) = centers db"
  by (induction rows arbitrary: db) (simp_all add: centers_insert)

lemma declared_not_center: "list_all (\<lambda>row. tg_source row \<noteq> ''center'') (map (declared_row n who) ts)"
  by (simp add: list_all_iff declared_row_def)

lemma system_not_center: "list_all (\<lambda>row. tg_source row \<noteq> ''center'') (map (system_row n who) ps)"
  by (auto simp: list_all_iff system_row_def)

lemma centers_audit [simp]: "centers (append_tag_audit env db a b c d e f g) = centers db"
  by (simp add: centers_def)

lemma centers_register: "centers (register_node_once env db n hn ver declared os arch) = centers db"
proof -
  have "filter (\<lambda>r. tg_source r = ''center'') (delete_where (\<lambda>r. tg_node r = n \<and> tg_source r \<in> {''node'', ''system''}) ts)
    = filter (\<lambda>r. tg_source r = ''center'') ts" for ts
    by (induction ts) (auto simp: delete_where_def)
  then have "centers (db1\<lparr>t_tags := delete_where (\<lambda>r. tg_node r = n \<and> tg_source r \<in> {''node'', ''system''}) (t_tags db1)\<rparr>) = centers db1" for db1
    unfolding centers_def by simp
  moreover have "centers (upsert_node env db n hn ver declared) = centers db" by (simp add: centers_def upsert_node_def Let_def)
  ultimately show ?thesis
    by (simp add: register_node_once_def Let_def centers_inserts declared_not_center system_not_center split: option.split)
qed

lemma centers_backfill: "centers (backfill env db) = centers db"
proof -
  have "centers (backfill_one_tx env db n) = centers db" for db n
    by (auto simp: backfill_one_tx_def Let_def centers_inserts declared_not_center centers_insert system_row_def split: option.split)
  then have "centers (foldl (backfill_one_tx env) db ns) = centers db" for ns
    by (induction ns arbitrary: db) simp_all
  then show ?thesis by (simp add: backfill_def)
qed

subsection \<open>Runs\<close>

inductive tag_step :: "cenv \<Rightarrow> db \<Rightarrow> db \<Rightarrow> bool" for env where
  register: "tag_step env db (fst (register_node env db attempts n hostname version declared os arch))"
| fill: "tag_step env db (backfill env db)"
| operate: "operator_write env c ns db db' \<Longrightarrow> tag_step env db db'"

lemma set_few_center:
  assumes "set_center_tag env db n k body = (db', Ok r)" "tags_ok (t_tags db)" "few_center db"
  shows "few_center db'"
  unfolding few_center_def
proof
  fix m
  from set_center_tag_Ok [OF assms(1)] obtain d where S: "validate_center_tag k (pt_value body) = Ok ()"
    "center_value (fetch_tags db n) k = None \<longrightarrow> center_count (fetch_tags db n) < MAX_CENTER_TAGS"
    "db' = append_tag_audit env (insert_tag db (center_row n k (pt_value body))) ACTOR ACTOR ''tag.set'' ''node'' n (Some n) d"
    by auto
  let ?db1 = "insert_tag db (center_row n k (pt_value body))"
  note ok = one_write(1) [OF assms(2) S(1), of n]
  show "center_count (fetch_tags db' m) \<le> MAX_CENTER_TAGS"
  proof (cases "m = n")
    case False
    then have "fetch_tags db' m = fetch_tags db m"
      unfolding S(3) find_source_audit by (intro fetch_insert_other) (simp add: center_row_def)
    with assms(3) show ?thesis by (simp add: few_center_def)
  next
    case True
    let ?K = "center_keys_of (fetch_tags db n)"
    have "center_keys_of (fetch_tags ?db1 n) = insert k ?K"
    proof (rule set_eqI)
      fix j
      have "find_source (fetch_tags ?db1 n) j ''center'' = over n [(k, Some (pt_value body))] (\<lambda>k. find_source (fetch_tags db n) k ''center'') j"
        unfolding one_write(2) [OF assms(2) S(1)] by (subst find_source_overlay) simp_all
      then show "j \<in> center_keys_of (fetch_tags ?db1 n) \<longleftrightarrow> j \<in> insert k ?K"
        unfolding center_keys_find [OF ok] using center_keys_find [OF assms(2), of j n] by (simp add: over_def)
    qed
    moreover have "finite ?K" by (simp add: center_keys_of_def)
    moreover have "card ?K \<le> MAX_CENTER_TAGS" "k \<notin> ?K \<longrightarrow> card ?K < MAX_CENTER_TAGS"
      using assms(3) S(2) by (simp_all add: few_center_def center_count_card [OF assms(2)] center_value_None)
    ultimately have "card (center_keys_of (fetch_tags ?db1 n)) \<le> MAX_CENTER_TAGS" by (auto simp: card_insert_if)
    then show ?thesis unfolding True S(3) find_source_audit by (simp add: center_count_card [OF ok])
  qed
qed

lemma delete_few_center:
  assumes "delete_center_tag env db n k c = (db', Ok r)" "few_center db"
  shows "few_center db'"
proof -
  from delete_center_tag_Ok [OF assms(1)] obtain d where S:
    "db' = append_tag_audit env (delete_center db n k) ACTOR ACTOR ''tag.removed'' ''node'' n (Some n) d" by blast
  have "center_count (fetch_tags db' m) \<le> center_count (fetch_tags db m)" for m
  proof -
    have "length (filter P (filter Q xs)) \<le> length (filter P xs)" for P Q and xs :: "tag_row list"
      by (induction xs) auto
    from this [of "\<lambda>r. tg_node r = m \<and> tg_source r = ''center''" "\<lambda>r. \<not> (tg_node r = n \<and> tg_source r = ''center'' \<and> tg_key r = k)" "t_tags db"]
    show ?thesis unfolding S find_source_audit
      by (simp add: center_count_def fetch_tags_def delete_center_def delete_where_def conj_ac)
  qed
  then show ?thesis using assms(2) le_trans unfolding few_center_def by blast
qed

lemma tag_step_ok:
  assumes "tag_step env db db'" "tags_ok (t_tags db)" "few_center db"
  shows "tags_ok (t_tags db') \<and> few_center db'"
  using assms
proof (cases rule: tag_step.cases)
  case (register attempts n hostname version declared os arch)
  then show ?thesis using assms(2,3) register_tags_ok few_center_cong [OF centers_register]
    by (simp add: register_node_def)
next
  case fill
  then show ?thesis using assms(2,3) backfill_tags_ok few_center_cong [OF centers_backfill] by simp
next
  case (operate c ns)
  then show ?thesis
  proof (cases rule: operator_write.cases)
    case (one n k body r)
    then show ?thesis using set_tags_ok [OF assms(2), of env n k body] set_few_center [OF one(3) assms(2,3)] by simp
  next
    case (remove n k r)
    then show ?thesis using delete_tag_ok [OF assms(2), of env n k c] delete_few_center [OF remove(2) assms(3)] by simp
  next
    case (many body rep)
    show ?thesis by (rule bulk_result [OF many(3-5) assms(2,3)]) blast
  qed
qed

lemma tag_steps_ok:
  "(tag_step env)\<^sup>*\<^sup>* db db' \<Longrightarrow> tags_ok (t_tags db) \<Longrightarrow> few_center db \<Longrightarrow> tags_ok (t_tags db') \<and> few_center db'"
  by (induction rule: rtranclp_induct) (use tag_step_ok in blast)+

text \<open>
  C16. All readings of a node's tags agree, whatever was registered, filled in and written before: the
  inventory targets are resolved on, the list of nodes and the rules of \<open>effective_of\<close> give every tag the
  same value; a node counts as production for targets exactly when it does for tag changes; and no
  node has more than 32 center tags.
\<close>

theorem tag_readings_agree:
  assumes "(tag_step env)\<^sup>*\<^sup>* empty_db db"
  shows "(\<forall>i \<in> set (load_inventory db). \<forall>k. iv_tags i k = eff_value (fetch_tags db (iv_id i)) k)
    \<and> (\<forall>v \<in> set (list_nodes env db). \<forall>k. nv_tags v k = eff_value (fetch_tags db (nv_id v)) k)
    \<and> (\<forall>i \<in> set (load_inventory db). iv_prod i \<longleftrightarrow> counts_as_prod (fetch_tags db (iv_id i)))
    \<and> (\<forall>n. center_count (fetch_tags db n) \<le> 32)"
proof -
  have "tags_ok (t_tags empty_db)" "few_center empty_db"
    by (simp_all add: empty_db_def tags_ok_def few_center_def center_count_def fetch_tags_def)
  from tag_steps_ok [OF assms this] have ok: "tags_ok (t_tags db)" "few_center db" by blast+
  show ?thesis
    using inventory_reads [OF ok(1)] list_reads [OF ok(1)] inventory_prod [OF ok(1)] ok(2)
    by (auto simp: few_center_def MAX_CENTER_TAGS_def load_inventory_def Let_def)
qed


lemma set_center_tag_runs:
  assumes "validate_center_tag k (pt_value body) = Ok ()" "node_exists db n" "pt_if_value body = None"
    "center_count (fetch_tags db n) < MAX_CENTER_TAGS"
    "ensure_single_prod n (fetch_tags db n) [(k, Some (pt_value body))] (pt_confirm body) = Ok ()"
  shows "\<exists>r. set_center_tag env db n k body = (fst (set_center_tag env db n k body), Ok r)"
  using assms by (simp add: set_center_tag_def Let_def)

definition sample_registered :: db where
  "sample_registered = fst (register_node (sample_cenv 0) empty_db (\<lambda>i. Commits) ''web-1'' ''web-1'' ''1.0.0''
     [(''env'', ''stage'')] ''linux'' ''x86_64'')"

definition sample_tagged :: db where
  "sample_tagged = fst (set_center_tag (sample_cenv 0) sample_registered ''web-1'' ''env''
     \<lparr>pt_value = ''prod'', pt_if_value = None, pt_confirm = Some 1\<rparr>)"

lemma tag_readings_agree_witness:
  "map iv_id (load_inventory sample_tagged) = [''web-1'']
   \<and> iv_tags (hd (load_inventory sample_tagged)) ''env'' = eff_value (fetch_tags sample_tagged ''web-1'') ''env''
   \<and> iv_prod (hd (load_inventory sample_tagged)) = counts_as_prod (fetch_tags sample_tagged ''web-1'')"
proof -
  let ?set = "set_center_tag (sample_cenv 0) sample_registered ''web-1'' ''env'' \<lparr>pt_value = ''prod'', pt_if_value = None, pt_confirm = Some 1\<rparr>"
  have 1: "tag_step (sample_cenv 0) empty_db sample_registered"
    unfolding sample_registered_def by (rule tag_step.register)
  have "\<exists>r. ?set = (fst ?set, Ok r)"
  proof (rule set_center_tag_runs)
    show "ensure_single_prod ''web-1'' (fetch_tags sample_registered ''web-1'') [(''env'', Some (pt_value \<lparr>pt_value = ''prod'', pt_if_value = None, pt_confirm = Some 1\<rparr>))]
      (pt_confirm \<lparr>pt_value = ''prod'', pt_if_value = None, pt_confirm = Some 1\<rparr>) = Ok ()" by code_simp
  qed code_simp+
  then obtain r where "?set = (sample_tagged, Ok r)" unfolding sample_tagged_def by blast
  then have "operator_write (sample_cenv 0) (Some 1) [''web-1''] sample_registered sample_tagged"
    using operator_write.one [of "sample_cenv 0" sample_registered "''web-1''" "''env''"] by fastforce
  then have 2: "tag_step (sample_cenv 0) sample_registered sample_tagged" by (rule tag_step.operate)
  have i: "map iv_id (load_inventory sample_tagged) = [''web-1'']" by code_simp
  then have h: "hd (load_inventory sample_tagged) \<in> set (load_inventory sample_tagged)" "iv_id (hd (load_inventory sample_tagged)) = ''web-1''"
    by auto
  have "(tag_step (sample_cenv 0))\<^sup>*\<^sup>* empty_db sample_tagged" using 1 2 by (meson converse_rtranclp_into_rtranclp rtranclp.rtrancl_refl)
  from tag_readings_agree [OF this] i h show ?thesis by metis
qed

subsection \<open>Deadlocks\<close>

text \<open>
  C34. The retries of a transaction that deadlocks come to an end: at most five attempts are made, with
  sleeps of 20, 40, 60 and 80 milliseconds between them, and the outcome is that of the first attempt
  that does not deadlock, or of the fifth.
\<close>

theorem retries_bounded:
  "with_retries attempts 0 =
     (let k = length (takeWhile (\<lambda>i. attempts i = Deadlocks) [0, 1, 2, 3])
      in (map (\<lambda>i. 20 * (i + 1)) [0..<k], attempts k = Commits))"
proof -
  have "with_retries attempts w = (if attempts w = Deadlocks \<and> w < 4
      then (20 * (w + 1) # fst (with_retries attempts (w + 1)), snd (with_retries attempts (w + 1))) else ([], attempts w = Commits))" for w
    by (subst with_retries.simps) (auto split: attempt.split prod.split)
  from this [of 0] this [of 1] this [of 2] this [of 3] this [of 4]
  show ?thesis by (simp add: Let_def upt_rec numeral_eq_Suc)
qed

end
