(* ===== verification/Desired.thy ===== *)
theory Desired
  imports Targets Skills
begin

text \<open>
  \<open>crates/novbot-center/src/skill_desired.rs\<close>: the set of skills each node is to have. Install, rollback
  and uninstall change the desired rows and the generation of the nodes they name, with one operation
  and one audit event. The crate \<open>semver\<close> is the argument \<open>sv\<close>; the wall clock, SHA-256 and
  \<open>serde_json\<close> are those of the database's environment. One transaction is one step here; what two
  transactions do to each other is the subject of \<open>Desired_Races\<close>.
\<close>

record 'v semver =
  sm_parse :: "str \<Rightarrow> 'v option"
  sm_less :: "'v \<Rightarrow> 'v \<Rightarrow> bool"
  sm_req :: "str \<Rightarrow> 'v \<Rightarrow> bool"

datatype desired_error =
    SkillUnknown
  | BuiltinReadOnly
  | VersionUnknown
  | VersionNotInstallable
  | CapabilitiesChanged
  | NoTargetNodes
  | NoPreviousVersion
  | SkillInUse "str list" "str list"
  | DesiredNodeUnknown
  | DesiredOperationUnknown
  | BundleUnknown
  | BundleExists
  | InvalidBundle str
  | DesiredBadRequest str
  | DesiredTarget target_error
  | DesiredInternal str

record selection =
  sl_node_ids :: "str list"
  sl_selector :: "(str \<times> str) list option"

fun dedupe :: "str list \<Rightarrow> str list" where
  "dedupe [] = []"
| "dedupe (i # ids) = i # filter (\<lambda>j. j \<noteq> i) (dedupe ids)"

definition selection_new :: "str list \<Rightarrow> (str \<times> str) list option \<Rightarrow> selection" where
  "selection_new node_ids sel = \<lparr>sl_node_ids = dedupe node_ids, sl_selector = sel\<rparr>"

definition is_blank :: "selection \<Rightarrow> bool" where
  "is_blank s = (sl_node_ids s = [] \<and> sl_selector s = None)"

text \<open>The fields of a request that name the nodes are shared by the three requests.\<close>

record aim_fields =
  af_node_ids :: "str list"
  af_selector :: "(str \<times> str) list option"
  af_target :: "target_body option"
  af_confirm :: "nat option"

record install_request =
  iq_version :: str
  iq_aim :: aim_fields
  iq_accepted :: "str option"
  iq_dry_run :: bool

record rollback_request =
  bq_aim :: aim_fields
  bq_to_version :: "str option"

record uninstall_request =
  uq_aim :: aim_fields
  uq_force :: bool

record per_node =
  pn_node :: str
  pn_outcome :: str
  pn_generation :: int

record change_response =
  cr_operation :: "str option"
  cr_resolution :: "str option"
  cr_dry_run :: bool
  cr_per_node :: "per_node list"

record install_plan =
  ip_skill :: str
  ip_version :: str
  ip_sha :: str
  ip_capabilities :: str
  ip_min_node :: "str option"
  ip_platforms :: "str list"

record skill_change =
  sg_skill :: str
  sg_operation :: "str option"
  sg_resolution :: "str option"
  sg_per_node :: "per_node list"

record target_view =
  tw_node :: str
  tw_exists :: bool
  tw_generation :: int

record 'v version_record =
  vr_version :: str
  vr_sha :: str
  vr_status :: str
  vr_min_node :: "str option"
  vr_platforms :: "str list"
  vr_capabilities :: str
  vr_semver :: "'v option"

record live_node =
  ln_id :: str
  ln_version :: str
  ln_labels :: "(str \<times> str) list"

record desired_snap =
  ds_version :: str
  ds_sha :: str

datatype slot = Missing str | Node live_node

fun slot_id :: "slot \<Rightarrow> str" where
  "slot_id (Missing i) = i"
| "slot_id (Node n) = ln_id n"

fun is_missing :: "slot \<Rightarrow> bool" where
  "is_missing (Missing i) = True"
| "is_missing (Node n) = False"

datatype action = Upsert str str | Delete

record desired_plan =
  dp_node :: str
  dp_outcome :: str
  dp_generation :: int
  dp_action :: "action option"
  dp_other :: bool

subsection \<open>Rules\<close>

definition is_builtin_name :: "str \<Rightarrow> bool" where
  "is_builtin_name name = (name \<in> set list_skills)"

definition trimmed :: "str option \<Rightarrow> str option" where
  "trimmed v = (case v of None \<Rightarrow> None | Some t \<Rightarrow> if trim t = [] then None else Some (trim t))"

definition node_too_old :: "'v semver \<Rightarrow> str \<Rightarrow> str option \<Rightarrow> bool" where
  "node_too_old sv node_version min_node =
     (case trimmed min_node of
        None \<Rightarrow> False
      | Some min_raw \<Rightarrow>
          (let node_raw = trim node_version in
           if node_raw = [] then False
           else (case (sm_parse sv node_raw, sm_parse sv min_raw) of
               (Some n, Some m) \<Rightarrow> sm_less sv n m | _ \<Rightarrow> False)))"

definition platform_unsupported :: "(str \<times> str) list \<Rightarrow> str list \<Rightarrow> bool" where
  "platform_unsupported labels platforms =
     (if platforms = [] then False
      else (case (trimmed (map_of labels ''os''), trimmed (map_of labels ''arch'')) of
          (Some os, Some arch) \<Rightarrow>
            \<not> list_ex (\<lambda>p. p = os @ ''/'' @ arch \<or> p = os @ ''-'' @ arch) platforms
        | _ \<Rightarrow> False))"

definition labels_match :: "(str \<times> str) list \<Rightarrow> (str \<times> str) list \<Rightarrow> bool" where
  "labels_match node want = list_all (\<lambda>(k, v). map_of node k = Some v) want"

definition accepted_hash :: "str \<Rightarrow> str option \<Rightarrow> (str, desired_error) result" where
  "accepted_hash stored provided =
     (let stored_norm = to_ascii_lowercase (trim stored) in
      case trimmed provided of
        None \<Rightarrow> Err CapabilitiesChanged
      | Some p \<Rightarrow> if \<not> eq_ignore_ascii_case p stored_norm then Err CapabilitiesChanged else Ok stored_norm)"

definition version_matches :: "'v semver \<Rightarrow> str \<Rightarrow> 'v \<Rightarrow> bool" where
  "version_matches sv req0 version =
     (let req = trim req0 in
      if req = [] then False
      else if req = ''*'' then True
      else (case sm_parse sv req of Some exact \<Rightarrow> version = exact | None \<Rightarrow> sm_req sv req version))"

text \<open>\<open>max_by\<close> keeps the last of the greatest.\<close>

definition max_semver :: "'v semver \<Rightarrow> 'v version_record list \<Rightarrow> 'v version_record option" where
  "max_semver sv rows =
     foldl (\<lambda>best r. case best of None \<Rightarrow> Some r
       | Some b \<Rightarrow> (case (vr_semver r, vr_semver b) of
           (Some x, Some y) \<Rightarrow> if sm_less sv x y then Some b else Some r
         | (None, Some y) \<Rightarrow> Some b | _ \<Rightarrow> Some r)) None rows"

definition highest_published :: "'v semver \<Rightarrow> str \<Rightarrow> 'v version_record list \<Rightarrow> 'v version_record option" where
  "highest_published sv req versions =
     max_semver sv (filter (\<lambda>r. vr_status r = ''published''
       \<and> (case vr_semver r of Some v \<Rightarrow> version_matches sv req v | None \<Rightarrow> False)) versions)"

definition previous_version :: "'v semver \<Rightarrow> 'v version_record list \<Rightarrow> 'v \<Rightarrow> 'v version_record option" where
  "previous_version sv versions current =
     max_semver sv (filter (\<lambda>r. vr_status r \<in> {''published'', ''deprecated''}
       \<and> (case vr_semver r of Some v \<Rightarrow> sm_less sv v current | None \<Rightarrow> False)) versions)"

subsection \<open>Reading\<close>

definition string_list :: "cenv \<Rightarrow> str option \<Rightarrow> str list" where
  "string_list env raw =
     (case raw of None \<Rightarrow> []
      | Some r \<Rightarrow> if trim r = [] then []
          else (case ce_parse env (trim r) of
              Some (JArr xs) \<Rightarrow> if list_all (\<lambda>x. as_str x \<noteq> None) xs then map (the \<circ> as_str) xs else []
            | _ \<Rightarrow> []))"

definition version_record_of :: "cenv \<Rightarrow> 'v semver \<Rightarrow> skill_version_row \<Rightarrow> 'v version_record" where
  "version_record_of env sv r =
     \<lparr>vr_version = sv_version r, vr_sha = trim (sv_sha r), vr_status = sv_status r,
      vr_min_node = trimmed (sv_min_node r), vr_platforms = string_list env (sv_platforms r),
      vr_capabilities = trim (sv_capabilities_sha r), vr_semver = sm_parse sv (sv_version r)\<rparr>"

definition load_versions :: "cenv \<Rightarrow> 'v semver \<Rightarrow> db \<Rightarrow> str \<Rightarrow> 'v version_record list" where
  "load_versions env sv db name = map (version_record_of env sv) (filter (\<lambda>r. sv_skill r = name) (t_versions db))"

definition require_versions :: "cenv \<Rightarrow> 'v semver \<Rightarrow> db \<Rightarrow> str \<Rightarrow> ('v version_record list, desired_error) result" where
  "require_versions env sv db name =
     (if name \<notin> set (t_skills db) then Err SkillUnknown else Ok (load_versions env sv db name))"

definition published_versions :: "cenv \<Rightarrow> 'v semver \<Rightarrow> db \<Rightarrow> str \<Rightarrow> 'v version_record list" where
  "published_versions env sv db name = (if name \<notin> set (t_skills db) then [] else load_versions env sv db name)"

definition parse_labels :: "cenv \<Rightarrow> str \<Rightarrow> (str \<times> str) list" where
  "parse_labels env raw =
     (case ce_parse env raw of
        Some (JObj fs) \<Rightarrow> List.map_filter (\<lambda>(k, v). map_option (Pair k) (as_str v)) fs
      | _ \<Rightarrow> [])"

definition load_live_nodes :: "cenv \<Rightarrow> db \<Rightarrow> live_node list" where
  "load_live_nodes env db =
     map (\<lambda>n. \<lparr>ln_id = nd_id n, ln_version = nd_version n, ln_labels = parse_labels env (nd_labels n)\<rparr>) (t_nodes db)"

text \<open>A \<open>HashMap\<close> from the rows: a later row of a node would replace an earlier one.\<close>

definition load_desired_map :: "db \<Rightarrow> str \<Rightarrow> str \<rightharpoonup> desired_snap" where
  "load_desired_map db skill =
     foldl (\<lambda>m r. m(de_node r \<mapsto> \<lparr>ds_version = de_version r, ds_sha = trim (de_sha r)\<rparr>)) Map.empty
       (filter (\<lambda>r. de_skill r = skill) (t_desired db))"

definition load_generation_map :: "db \<Rightarrow> str \<rightharpoonup> int" where
  "load_generation_map db = foldl (\<lambda>m (n, g). m(n \<mapsto> g)) Map.empty (t_sets db)"

definition generation_at :: "(str \<rightharpoonup> int) \<Rightarrow> str \<Rightarrow> int" where
  "generation_at gens n = unwrap_or (gens n) 0"

definition resolve_slots :: "live_node list \<Rightarrow> selection \<Rightarrow> slot list" where
  "resolve_slots nodes s =
     (let by_id = foldl (\<lambda>m n. m(ln_id n \<mapsto> n)) Map.empty nodes;
          ids = dedupe (sl_node_ids s)
      in map (\<lambda>i. case by_id i of Some n \<Rightarrow> Node n | None \<Rightarrow> Missing i) ids
         @ (case sl_selector s of
              None \<Rightarrow> []
            | Some labels \<Rightarrow> map Node (sort_key ln_id
                (filter (\<lambda>n. ln_id n \<notin> set ids \<and> labels_match (ln_labels n) labels) nodes))))"

definition prepare :: "cenv \<Rightarrow> db \<Rightarrow> selection \<Rightarrow> (slot list, desired_error) result" where
  "prepare env db s =
     (if is_blank s then Err NoTargetNodes
      else (let slots = resolve_slots (load_live_nodes env db) s
            in if slots = [] then Err NoTargetNodes else Ok slots))"

subsection \<open>Classifying\<close>

definition had_other :: "desired_snap option \<Rightarrow> str \<Rightarrow> bool" where
  "had_other desired target_version = (case desired of Some r \<Rightarrow> ds_version r \<noteq> target_version | None \<Rightarrow> False)"

definition same_desired :: "desired_snap \<Rightarrow> str \<Rightarrow> str \<Rightarrow> bool" where
  "same_desired desired version sha = (ds_version desired = version \<and> eq_ignore_ascii_case (ds_sha desired) (trim sha))"

definition missing_plan :: "str \<Rightarrow> desired_plan" where
  "missing_plan node_id =
     \<lparr>dp_node = node_id, dp_outcome = ''node_unknown'', dp_generation = 0, dp_action = None, dp_other = False\<rparr>"

definition hold :: "live_node \<Rightarrow> str \<Rightarrow> int \<Rightarrow> desired_snap option \<Rightarrow> str \<Rightarrow> desired_plan" where
  "hold node what generation desired target_version =
     \<lparr>dp_node = ln_id node, dp_outcome = what, dp_generation = generation, dp_action = None,
      dp_other = had_other desired target_version\<rparr>"

definition write_plan ::
    "live_node \<Rightarrow> int \<Rightarrow> desired_snap option \<Rightarrow> str \<Rightarrow> hub \<Rightarrow> bool \<Rightarrow> action \<Rightarrow> desired_plan" where
  "write_plan node current desired target_version h write act =
     \<lparr>dp_node = ln_id node, dp_outcome = (if is_connected h (ln_id node) then ''pending'' else ''queued''),
      dp_generation = (if write then current + 1 else current), dp_action = (if write then Some act else None),
      dp_other = had_other desired target_version\<rparr>"

definition classify_install ::
    "'v semver \<Rightarrow> (str \<rightharpoonup> desired_snap) \<Rightarrow> (str \<rightharpoonup> int) \<Rightarrow> install_plan \<Rightarrow> hub \<Rightarrow> bool \<Rightarrow> slot \<Rightarrow> desired_plan" where
  "classify_install sv desired_map gens plan h write s =
     (case s of
        Missing i \<Rightarrow> missing_plan i
      | Node node \<Rightarrow>
          (let desired = desired_map (ln_id node); current = generation_at gens (ln_id node)
           in if node_too_old sv (ln_version node) (ip_min_node plan)
              then hold node ''node_too_old'' current desired (ip_version plan)
              else if platform_unsupported (ln_labels node) (ip_platforms plan)
              then hold node ''platform_unsupported'' current desired (ip_version plan)
              else if (case desired of Some r \<Rightarrow> same_desired r (ip_version plan) (ip_sha plan) | None \<Rightarrow> False)
              then hold node ''already_installed'' current desired (ip_version plan)
              else write_plan node current desired (ip_version plan) h write (Upsert (ip_version plan) (ip_sha plan))))"

definition rollback_target ::
    "'v semver \<Rightarrow> 'v version_record option \<Rightarrow> 'v version_record list \<Rightarrow> desired_snap option \<Rightarrow> 'v version_record option" where
  "rollback_target sv explicit versions desired =
     (case explicit of
        Some e \<Rightarrow> Some e
      | None \<Rightarrow> (case desired of
            None \<Rightarrow> None
          | Some r \<Rightarrow> (case sm_parse sv (ds_version r) of
              None \<Rightarrow> None
            | Some cur \<Rightarrow> previous_version sv versions cur)))"

definition classify_rollback ::
    "'v semver \<Rightarrow> (str \<rightharpoonup> desired_snap) \<Rightarrow> (str \<rightharpoonup> int) \<Rightarrow> 'v version_record option \<Rightarrow> 'v version_record list \<Rightarrow> hub \<Rightarrow> slot
      \<Rightarrow> desired_plan" where
  "classify_rollback sv desired_map gens explicit versions h s =
     (case s of
        Missing i \<Rightarrow> missing_plan i
      | Node node \<Rightarrow>
          (let desired = desired_map (ln_id node); current = generation_at gens (ln_id node)
           in case rollback_target sv explicit versions desired of
                None \<Rightarrow> hold node ''no_previous_version'' current desired []
              | Some target \<Rightarrow>
                  if node_too_old sv (ln_version node) (vr_min_node target)
                  then hold node ''node_too_old'' current desired (vr_version target)
                  else if platform_unsupported (ln_labels node) (vr_platforms target)
                  then hold node ''platform_unsupported'' current desired (vr_version target)
                  else if (case desired of Some r \<Rightarrow> same_desired r (vr_version target) (vr_sha target) | None \<Rightarrow> False)
                  then hold node ''already_installed'' current desired (vr_version target)
                  else write_plan node current desired (vr_version target) h True (Upsert (vr_version target) (vr_sha target))))"

definition classify_uninstall :: "(str \<rightharpoonup> desired_snap) \<Rightarrow> (str \<rightharpoonup> int) \<Rightarrow> hub \<Rightarrow> slot \<Rightarrow> desired_plan" where
  "classify_uninstall desired_map gens h s =
     (case s of
        Missing i \<Rightarrow> missing_plan i
      | Node node \<Rightarrow>
          (let desired = desired_map (ln_id node); current = generation_at gens (ln_id node)
           in if desired = None then hold node ''already_installed'' current desired []
              else write_plan node current desired [] h True Delete))"

fun agreed_version :: "str option \<Rightarrow> desired_plan list \<Rightarrow> str option" where
  "agreed_version found [] = found"
| "agreed_version found (p # ps) =
     (case dp_action p of
        Some (Upsert version sha) \<Rightarrow>
          (case found of
             None \<Rightarrow> agreed_version (Some version) ps
           | Some previous \<Rightarrow> if previous \<noteq> version then None else agreed_version found ps)
      | _ \<Rightarrow> agreed_version found ps)"

definition rollback_version :: "'v version_record option \<Rightarrow> desired_plan list \<Rightarrow> str option" where
  "rollback_version explicit plans =
     (case explicit of Some e \<Rightarrow> Some (vr_version e) | None \<Rightarrow> agreed_version None plans)"

definition per_nodes :: "desired_plan list \<Rightarrow> per_node list" where
  "per_nodes plans = map (\<lambda>p. \<lparr>pn_node = dp_node p, pn_outcome = dp_outcome p, pn_generation = dp_generation p\<rparr>) plans"

definition missing_per_node :: "slot list \<Rightarrow> per_node list" where
  "missing_per_node slots = map (\<lambda>s. \<lparr>pn_node = slot_id s, pn_outcome = ''node_unknown'', pn_generation = 0\<rparr>) slots"

definition single_node_id :: "desired_plan list \<Rightarrow> str option" where
  "single_node_id plans =
     (case filter (\<lambda>p. dp_outcome p \<noteq> ''node_unknown'') plans of [p] \<Rightarrow> Some (dp_node p) | _ \<Rightarrow> None)"

definition audit_action :: "str \<Rightarrow> str" where
  "audit_action op_type =
     (if op_type = ''upgrade'' then ''skill.upgrade'' else if op_type = ''rollback'' then ''skill.rollback''
      else if op_type = ''uninstall'' then ''skill.uninstall'' else ''skill.install'')"

subsection \<open>Writing\<close>

definition set_generation :: "db \<Rightarrow> str \<Rightarrow> int \<Rightarrow> db" where
  "set_generation db node_id generation =
     db\<lparr>t_sets := upsert fst (node_id, generation) (\<lambda>r. (fst r, generation)) (t_sets db)\<rparr>"

definition desired_key :: "desired_row \<Rightarrow> str \<times> str" where
  "desired_key r = (de_node r, de_skill r)"

definition upsert_desired :: "db \<Rightarrow> str \<Rightarrow> str \<Rightarrow> str \<Rightarrow> str \<Rightarrow> str \<Rightarrow> db" where
  "upsert_desired db node_id skill version sha op =
     db\<lparr>t_desired := upsert desired_key
          \<lparr>de_node = node_id, de_skill = skill, de_version = version, de_sha = sha, de_operation = op\<rparr>
          (\<lambda>r. r\<lparr>de_version := version, de_sha := sha, de_operation := op\<rparr>) (t_desired db)\<rparr>"

definition delete_desired :: "db \<Rightarrow> str \<Rightarrow> str \<Rightarrow> db \<times> nat" where
  "delete_desired db node_id skill =
     (let P = (\<lambda>r. de_node r = node_id \<and> de_skill r = skill)
      in (db\<lparr>t_desired := delete_where P (t_desired db)\<rparr>, length (filter P (t_desired db))))"

definition write_one :: "str \<Rightarrow> str \<Rightarrow> db \<Rightarrow> desired_plan \<Rightarrow> db" where
  "write_one skill op db p =
     (case dp_action p of
        Some (Upsert version sha) \<Rightarrow> upsert_desired (set_generation db (dp_node p) (dp_generation p)) (dp_node p) skill version sha op
      | Some Delete \<Rightarrow>
          (let (db1, removed) = delete_desired db (dp_node p) skill
           in if removed > 0 then set_generation db1 (dp_node p) (dp_generation p) else db1)
      | None \<Rightarrow> db)"

definition per_node_json :: "per_node list \<Rightarrow> json" where
  "per_node_json ps = JArr (map (\<lambda>p. JObj [(''node_id'', JStr (pn_node p)), (''outcome'', JStr (pn_outcome p)),
     (''generation'', JInt (pn_generation p))]) ps)"

definition persist ::
    "cenv \<Rightarrow> db \<Rightarrow> str \<Rightarrow> str \<Rightarrow> str option \<Rightarrow> str option \<Rightarrow> bool \<Rightarrow> desired_plan list \<Rightarrow> frozen option
      \<Rightarrow> db \<times> str \<times> str option" where
  "persist env db skill op_type version capabilities force plans snapshot =
     (let (op, db1) = new_uuid env db;
          db2 = foldl (write_one skill op) db1 plans;
          per = per_nodes plans;
          db3 = db2\<lparr>t_operations := t_operations db2 @
            [\<lparr>so_id = op, so_type = op_type, so_skill = skill, so_version = version,
              so_targets = ce_print env (per_node_json per), so_capabilities = capabilities, so_force = force,
              so_at = ce_now env\<rparr>]\<rparr>;
          (rid, db4) = (case snapshot of
              None \<Rightarrow> (None, db3)
            | Some f \<Rightarrow> (let (i, d) = insert_resolution env db3 ''skill_operation'' op f None in (Some i, d)))
      in (append_skill_audit env db4 (audit_action op_type) skill (single_node_id plans)
            (ce_print env (JObj [(''operation_id'', JStr op), (''resolution_id'', jopt JStr rid), (''skill_name'', JStr skill),
               (''version'', jopt JStr version), (''per_node'', per_node_json per)])),
          op, rid))"

subsection \<open>The nodes a request names\<close>

record skill_aim =
  ai_selection :: selection
  ai_snapshot :: "frozen option"
  ai_confirm :: "nat option"
  ai_audit_id :: str

definition frozen_aim ::
    "cenv \<Rightarrow> db \<Rightarrow> hub \<Rightarrow> target_body \<Rightarrow> nat option \<Rightarrow> str \<Rightarrow> db \<times> (skill_aim, desired_error) result" where
  "frozen_aim env db h body confirm audit_id =
     (case check_submit env db h body confirm ''skill_operation'' audit_id of
        (db', Inl e) \<Rightarrow> (db', Err (DesiredTarget e))
      | (db', Inr f) \<Rightarrow> (db', Ok \<lparr>ai_selection = selection_new (fz_node_ids f) None, ai_snapshot = Some f,
          ai_confirm = confirm, ai_audit_id = audit_id\<rparr>))"

definition prepare_skill_aim ::
    "cenv \<Rightarrow> db \<Rightarrow> hub \<Rightarrow> aim_fields \<Rightarrow> str \<Rightarrow> db \<times> (skill_aim, desired_error) result" where
  "prepare_skill_aim env db h a audit_id =
     (if (case af_target a of Some t \<Rightarrow> has_mode t | None \<Rightarrow> False)
      then frozen_aim env db h (the (af_target a)) (af_confirm a) audit_id
      else if af_selector a \<noteq> None
      then (db, Ok \<lparr>ai_selection = selection_new (af_node_ids a) (af_selector a), ai_snapshot = None,
             ai_confirm = af_confirm a, ai_audit_id = audit_id\<rparr>)
      else if list_ex (\<lambda>i. trim i \<noteq> []) (af_node_ids a)
      then frozen_aim env db h \<lparr>tb_selector = None, tb_node_ids = Some (af_node_ids a), tb_exclude = [], tb_expected = None\<rparr>
             (af_confirm a) audit_id
      else (db, Err NoTargetNodes))"

definition guard_aim :: "cenv \<Rightarrow> db \<Rightarrow> slot list \<Rightarrow> skill_aim \<Rightarrow> db \<times> (unit, desired_error) result" where
  "guard_aim env db slots aim =
     (if ai_snapshot aim \<noteq> None then (db, Ok ())
      else (case ensure_prod_confirm env db (map slot_id (filter (\<lambda>s. \<not> is_missing s) slots)) (ai_confirm aim)
                 ''skill_operation'' (ai_audit_id aim) of
          (db', Inl e) \<Rightarrow> (db', Err (DesiredTarget e))
        | (db', Inr _) \<Rightarrow> (db', Ok ())))"

end
