(* ===== verification/Desired_Ops.thy ===== *)
theory Desired_Ops
  imports Desired
begin

text \<open>
  \<open>crates/novbot-center/src/skill_desired.rs\<close>, the operations: install, rollback and uninstall of a skill,
  what they answer, the listings of operations and of the audit log, the skills of a node, and the
  storing of a reported result with its event for denied capabilities.
\<close>

subsection \<open>Installing\<close>

definition install_plans ::
    "'v semver \<Rightarrow> db \<Rightarrow> install_plan \<Rightarrow> hub \<Rightarrow> bool \<Rightarrow> slot list \<Rightarrow> desired_plan list" where
  "install_plans sv db plan h write slots =
     map (classify_install sv (load_desired_map db (ip_skill plan)) (load_generation_map db) plan h write) slots"

definition preview_installs :: "'v semver \<Rightarrow> db \<Rightarrow> hub \<Rightarrow> install_plan list \<Rightarrow> slot list \<Rightarrow> skill_change list" where
  "preview_installs sv db h plans slots =
     map (\<lambda>plan. \<lparr>sg_skill = ip_skill plan, sg_operation = None, sg_resolution = None,
        sg_per_node = per_nodes (install_plans sv db plan h False slots)\<rparr>) plans"

definition write_install ::
    "cenv \<Rightarrow> 'v semver \<Rightarrow> db \<Rightarrow> hub \<Rightarrow> install_plan \<Rightarrow> slot list \<Rightarrow> frozen option \<Rightarrow> db \<times> skill_change" where
  "write_install env sv db h plan slots snapshot =
     (let node_plans = install_plans sv db plan h True slots;
          op_type = (if list_ex dp_other node_plans then ''upgrade'' else ''install'');
          (db', op, rid) =
            (if list_ex (\<lambda>p. dp_outcome p \<noteq> ''node_unknown'') node_plans
             then (let (d, i, r) = persist env db (ip_skill plan) op_type (Some (ip_version plan))
                          (Some (ip_capabilities plan)) False node_plans snapshot in (d, Some i, r))
             else (db, None, None))
      in (db', \<lparr>sg_skill = ip_skill plan, sg_operation = op, sg_resolution = rid, sg_per_node = per_nodes node_plans\<rparr>))"

fun write_installs ::
    "cenv \<Rightarrow> 'v semver \<Rightarrow> db \<Rightarrow> hub \<Rightarrow> install_plan list \<Rightarrow> slot list \<Rightarrow> frozen option \<Rightarrow> db \<times> skill_change list" where
  "write_installs env sv db h [] slots snapshot = (db, [])"
| "write_installs env sv db h (plan # plans) slots snapshot =
     (let (db1, change) = write_install env sv db h plan slots snapshot;
          (db2, changes) = write_installs env sv db1 h plans slots snapshot
      in (db2, change # changes))"

definition target_views :: "db \<Rightarrow> slot list \<Rightarrow> target_view list" where
  "target_views db slots =
     map (\<lambda>s. \<lparr>tw_node = slot_id s, tw_exists = \<not> is_missing s,
        tw_generation = (if is_missing s then 0 else generation_at (load_generation_map db) (slot_id s))\<rparr>) slots"

text \<open>The transaction of a read-only run is rolled back: the database is the one it started from.\<close>

definition apply_installs ::
    "cenv \<Rightarrow> 'v semver \<Rightarrow> db \<Rightarrow> hub \<Rightarrow> install_plan list \<Rightarrow> skill_aim \<Rightarrow> bool
      \<Rightarrow> db \<times> (skill_change list \<times> target_view list, desired_error) result" where
  "apply_installs env sv db h plans aim dry_run =
     (case prepare env db (ai_selection aim) of
        Inl e \<Rightarrow> (db, Err e)
      | Inr slots \<Rightarrow>
          (case guard_aim env db slots aim of
             (db', Inl e) \<Rightarrow> (db', Err e)
           | (db', Inr _) \<Rightarrow>
               if dry_run \<or> list_all is_missing slots \<or> plans = []
               then (db', Ok (preview_installs sv db' h plans slots, target_views db' slots))
               else (let (db2, changes) = write_installs env sv db' h plans slots (ai_snapshot aim)
                 in (db2, Ok (changes, target_views db2 slots)))))"

definition install ::
    "cenv \<Rightarrow> 'v semver \<Rightarrow> db \<Rightarrow> hub \<Rightarrow> str \<Rightarrow> install_request \<Rightarrow> db \<times> (change_response, desired_error) result" where
  "install env sv db h name body =
     (if is_builtin_name name then (db, Err BuiltinReadOnly)
      else (case require_versions env sv db name of
          Inl e \<Rightarrow> (db, Err e)
        | Inr versions \<Rightarrow>
           (case find (\<lambda>r. vr_version r = iq_version body) versions of
              None \<Rightarrow> (db, Err VersionUnknown)
            | Some version \<Rightarrow>
                if vr_status version \<in> {''deprecated'', ''yanked''} then (db, Err VersionNotInstallable)
                else (case accepted_hash (vr_capabilities version) (iq_accepted body) of
                    Inl e \<Rightarrow> (db, Err e)
                  | Inr capabilities \<Rightarrow>
                      (case prepare_skill_aim env db h (iq_aim body) name of
                         (db1, Inl e) \<Rightarrow> (db1, Err e)
                       | (db1, Inr aim) \<Rightarrow>
                           (let plan = \<lparr>ip_skill = name, ip_version = vr_version version, ip_sha = vr_sha version,
                                  ip_capabilities = capabilities, ip_min_node = vr_min_node version,
                                  ip_platforms = vr_platforms version\<rparr>
                            in case apply_installs env sv db1 h [plan] aim (iq_dry_run body) of
                                 (db2, Inl e) \<Rightarrow> (db2, Err e)
                               | (db2, Inr (changes, targets)) \<Rightarrow>
                                   (case changes of
                                      [] \<Rightarrow> (db2, Err (DesiredInternal ''install plan missing''))
                                    | change # _ \<Rightarrow> (db2, Ok
                                        \<lparr>cr_operation = sg_operation change, cr_resolution = sg_resolution change,
                                         cr_dry_run = iq_dry_run body, cr_per_node = sg_per_node change\<rparr>))))))))"

subsection \<open>Rolling back and uninstalling\<close>

definition missing_response :: "slot list \<Rightarrow> change_response" where
  "missing_response slots =
     \<lparr>cr_operation = None, cr_resolution = None, cr_dry_run = False, cr_per_node = missing_per_node slots\<rparr>"

definition written_response :: "str \<Rightarrow> str option \<Rightarrow> desired_plan list \<Rightarrow> change_response" where
  "written_response op rid plans =
     \<lparr>cr_operation = Some op, cr_resolution = rid, cr_dry_run = False, cr_per_node = per_nodes plans\<rparr>"

definition explicit_version ::
    "'v version_record list \<Rightarrow> str option \<Rightarrow> ('v version_record option, desired_error) result" where
  "explicit_version versions to_version =
     (case trimmed to_version of
        None \<Rightarrow> Ok None
      | Some v \<Rightarrow> (case find (\<lambda>r. vr_version r = v) versions of
            None \<Rightarrow> Err VersionUnknown
          | Some r \<Rightarrow> if vr_status r = ''yanked'' then Err VersionNotInstallable else Ok (Some r)))"

definition rollback ::
    "cenv \<Rightarrow> 'v semver \<Rightarrow> db \<Rightarrow> hub \<Rightarrow> str \<Rightarrow> rollback_request \<Rightarrow> db \<times> (change_response, desired_error) result" where
  "rollback env sv db h name body =
     (if is_builtin_name name then (db, Err BuiltinReadOnly)
      else (case require_versions env sv db name of
          Inl e \<Rightarrow> (db, Err e)
        | Inr versions \<Rightarrow>
           (case explicit_version versions (bq_to_version body) of
              Inl e \<Rightarrow> (db, Err e)
            | Inr explicit \<Rightarrow>
               (case prepare_skill_aim env db h (bq_aim body) name of
                  (db1, Inl e) \<Rightarrow> (db1, Err e)
                | (db1, Inr aim) \<Rightarrow>
                    (case prepare env db1 (ai_selection aim) of
                       Inl e \<Rightarrow> (db1, Err e)
                     | Inr slots \<Rightarrow>
                         (case guard_aim env db1 slots aim of
                            (db2, Inl e) \<Rightarrow> (db2, Err e)
                          | (db2, Inr _) \<Rightarrow>
                              if list_all is_missing slots then (db2, Ok (missing_response slots))
                              else (let plans = map (classify_rollback sv (load_desired_map db2 name)
                                          (load_generation_map db2) explicit versions h) slots
                                in if explicit = None
                                      \<and> list_all (\<lambda>p. dp_outcome p = ''no_previous_version'')
                                          (filter (\<lambda>p. dp_outcome p \<noteq> ''node_unknown'') plans)
                                   then (db2, Err NoPreviousVersion)
                                   else (let (db3, op, rid) = persist env db2 name ''rollback''
                                               (rollback_version explicit plans) None False plans (ai_snapshot aim)
                                     in (db3, Ok (written_response op rid plans))))))))))"

definition push_unique :: "str list \<Rightarrow> str \<Rightarrow> str list" where
  "push_unique out v = (if v \<noteq> [] \<and> v \<notin> set out then out @ [v] else out)"

definition str_field :: "json \<Rightarrow> str \<Rightarrow> str option" where
  "str_field v key = (case json_get v key of Some x \<Rightarrow> as_str x | None \<Rightarrow> None)"

definition json_items :: "cenv \<Rightarrow> str \<Rightarrow> json list" where
  "json_items env raw =
     (case ce_parse env raw of Some v \<Rightarrow> unwrap_or (as_array v) [] | None \<Rightarrow> [])"

definition spec_uses :: "str \<Rightarrow> json \<Rightarrow> bool" where
  "spec_uses skill spec =
     (str_field spec ''kind'' = Some ''skill''
      \<and> (case json_get spec ''params'' of Some params \<Rightarrow> str_field params ''skill'' | None \<Rightarrow> None) = Some skill)"

definition collect_spec_ids :: "cenv \<Rightarrow> str \<Rightarrow> str \<Rightarrow> str list \<Rightarrow> str list" where
  "collect_spec_ids env specs_json skill spec_ids =
     foldl (\<lambda>out spec. if spec_uses skill spec
         then (case str_field spec ''id'' of Some i \<Rightarrow> push_unique out i | None \<Rightarrow> out) else out)
       spec_ids (json_items env specs_json)"

definition collect_schedule_ids :: "cenv \<Rightarrow> str \<Rightarrow> str list \<Rightarrow> str list \<Rightarrow> str list" where
  "collect_schedule_ids env schedules_json spec_ids schedule_ids =
     foldl (\<lambda>out sch. case str_field sch ''spec_id'' of
         None \<Rightarrow> out
       | Some spec_id \<Rightarrow>
           if spec_id \<notin> set spec_ids then out
           else (case str_field sch ''id'' of
               Some i \<Rightarrow> if i \<noteq> [] then push_unique out i else push_unique out spec_id
             | None \<Rightarrow> push_unique out spec_id))
       schedule_ids (json_items env schedules_json)"

definition slot_configs :: "db \<Rightarrow> slot list \<Rightarrow> config_row list" where
  "slot_configs db slots =
     List.map_filter (\<lambda>s. if is_missing s then None else row_at cf_node (t_configs db) (slot_id s)) slots"

definition skill_in_use :: "cenv \<Rightarrow> db \<Rightarrow> slot list \<Rightarrow> str \<Rightarrow> str list \<times> str list" where
  "skill_in_use env db slots skill =
     (let spec_ids = foldl (\<lambda>ids c. collect_spec_ids env (cf_specs c) skill ids) [] (slot_configs db slots)
      in (spec_ids, foldl (\<lambda>ids c. collect_schedule_ids env (cf_schedules c) spec_ids ids) [] (slot_configs db slots)))"

definition uninstall ::
    "cenv \<Rightarrow> 'v semver \<Rightarrow> db \<Rightarrow> hub \<Rightarrow> str \<Rightarrow> uninstall_request \<Rightarrow> db \<times> (change_response, desired_error) result" where
  "uninstall env sv db h name body =
     (if is_builtin_name name then (db, Err BuiltinReadOnly)
      else (case require_versions env sv db name of
          Inl e \<Rightarrow> (db, Err e)
        | Inr versions \<Rightarrow>
           (case prepare_skill_aim env db h (uq_aim body) name of
              (db1, Inl e) \<Rightarrow> (db1, Err e)
            | (db1, Inr aim) \<Rightarrow>
                (case prepare env db1 (ai_selection aim) of
                   Inl e \<Rightarrow> (db1, Err e)
                 | Inr slots \<Rightarrow>
                     (case guard_aim env db1 slots aim of
                        (db2, Inl e) \<Rightarrow> (db2, Err e)
                      | (db2, Inr _) \<Rightarrow>
                          (let (spec_ids, schedule_ids) = skill_in_use env db2 slots name in
                           if list_all is_missing slots then (db2, Ok (missing_response slots))
                           else if \<not> uq_force body \<and> spec_ids \<noteq> []
                           then (db2, Err (SkillInUse spec_ids schedule_ids))
                           else (let plans = map (classify_uninstall (load_desired_map db2 name)
                                       (load_generation_map db2) h) slots;
                                     (db3, op, rid) = persist env db2 name ''uninstall'' None None (uq_force body)
                                       plans (ai_snapshot aim)
                             in (db3, Ok (written_response op rid plans)))))))))"

subsection \<open>Listings\<close>

record operation_view =
  ov_id :: str
  ov_type :: str
  ov_skill :: str
  ov_version :: "str option"
  ov_per_node :: json
  ov_capabilities :: "str option"
  ov_force :: bool
  ov_actor :: str
  ov_at :: nat

definition operation_view_of :: "cenv \<Rightarrow> skill_op_row \<Rightarrow> operation_view" where
  "operation_view_of env r =
     \<lparr>ov_id = so_id r, ov_type = so_type r, ov_skill = so_skill r, ov_version = so_version r,
      ov_per_node = unwrap_or (ce_parse env (so_targets r)) (JArr []),
      ov_capabilities = trimmed (so_capabilities r), ov_force = so_force r, ov_actor = ACTOR, ov_at = so_at r\<rparr>"

definition clamp_limit :: "int option \<Rightarrow> nat" where
  "clamp_limit limit = clamp_between 1 200 (unwrap_or limit 50)"

definition list_operations :: "cenv \<Rightarrow> db \<Rightarrow> int option \<Rightarrow> operation_view list" where
  "list_operations env db limit =
     map (operation_view_of env)
       (take (clamp_limit limit) (rev (sort_key (\<lambda>r. (so_at r, so_id r)) (t_operations db))))"

definition get_operation :: "cenv \<Rightarrow> db \<Rightarrow> str \<Rightarrow> (operation_view, desired_error) result" where
  "get_operation env db op =
     (case row_at so_id (t_operations db) op of
        None \<Rightarrow> Err DesiredOperationUnknown
      | Some r \<Rightarrow> Ok (operation_view_of env r))"

record audit_query =
  aq_action :: "str option"
  aq_node :: "str option"
  aq_since :: "str option"
  aq_limit :: "int option"

record audit_view =
  av_id :: nat
  av_at :: nat
  av_actor_type :: str
  av_actor :: str
  av_action :: str
  av_target_type :: str
  av_target :: str
  av_node :: "str option"
  av_detail :: json
  av_prev :: "str option"
  av_hash :: str

text \<open>The identifier of an event is its place in the log, from 1.\<close>

definition audit_view_of :: "cenv \<Rightarrow> nat \<times> audit_row \<Rightarrow> audit_view" where
  "audit_view_of env e =
     (let r = snd e in
      \<lparr>av_id = fst e, av_at = au_at r, av_actor_type = au_actor_type r, av_actor = au_actor r,
       av_action = au_action r, av_target_type = au_target_type r, av_target = au_target r,
       av_node = (case au_node r of Some n \<Rightarrow> if n = [] then None else Some n | None \<Rightarrow> None),
       av_detail = unwrap_or (ce_parse env (au_detail r)) (JStr (au_detail r)),
       av_prev = trimmed (au_prev r), av_hash = trim (au_hash r)\<rparr>)"

definition audit_selected :: "str option \<Rightarrow> str option \<Rightarrow> nat option \<Rightarrow> audit_row \<Rightarrow> bool" where
  "audit_selected action node since r =
     ((case action of Some a \<Rightarrow> au_action r = a | None \<Rightarrow> True)
      \<and> (case node of Some n \<Rightarrow> au_node r = Some n | None \<Rightarrow> True)
      \<and> (case since of Some t \<Rightarrow> t \<le> au_at r | None \<Rightarrow> True))"

text \<open>\<open>rfc3339\<close>: chrono's parser of a time stamp, to milliseconds.\<close>

definition parse_since :: "(str \<Rightarrow> nat option) \<Rightarrow> str \<Rightarrow> (nat, desired_error) result" where
  "parse_since rfc3339 raw =
     (case rfc3339 (trim raw) of
        Some t \<Rightarrow> Ok t | None \<Rightarrow> Err (DesiredBadRequest ''since must be RFC3339''))"

definition list_audit ::
    "cenv \<Rightarrow> (str \<Rightarrow> nat option) \<Rightarrow> db \<Rightarrow> audit_query \<Rightarrow> (audit_view list, desired_error) result" where
  "list_audit env rfc3339 db q =
     and_then (case aq_since q of
         None \<Rightarrow> Ok None
       | Some raw \<Rightarrow> and_then (parse_since rfc3339 raw) (\<lambda>t. Ok (Some t))) (\<lambda>since.
       Ok (map (audit_view_of env) (take (clamp_limit (aq_limit q)) (rev
         (filter (\<lambda>e. audit_selected (aq_action q) (aq_node q) since (snd e))
           (enumerate 1 (t_audit db)))))))"

subsection \<open>The skills of a node\<close>

definition derived_state :: "bool \<Rightarrow> str \<Rightarrow> int \<Rightarrow> actual_row option \<Rightarrow> str" where
  "derived_state online desired_sha gen actual =
     (case actual of
        Some a \<Rightarrow>
          if ac_state a = ''installed'' \<and> eq_ignore_ascii_case (trim (ac_sha a)) desired_sha then ''installed''
          else if ac_state a = ''failed'' \<and> ac_generation a = gen then ''failed''
          else if online then ''pending'' else ''queued''
      | None \<Rightarrow> if online then ''pending'' else ''queued'')"

record node_skill_item =
  ki_name :: str
  ki_source :: str
  ki_state :: str
  ki_desired :: "str option"
  ki_actual :: "str option"

record node_skills_response =
  kr_node :: str
  kr_generation :: int
  kr_applied :: int
  kr_items :: "node_skill_item list"

definition max_generation :: "actual_row list \<Rightarrow> int option" where
  "max_generation rows =
     foldl (\<lambda>m r. case m of None \<Rightarrow> Some (ac_generation r) | Some g \<Rightarrow> Some (max g (ac_generation r))) None rows"

definition node_skills :: "db \<Rightarrow> hub \<Rightarrow> str \<Rightarrow> (node_skills_response, desired_error) result" where
  "node_skills db h node_id =
     (if \<not> node_exists db node_id then Err DesiredNodeUnknown
      else (let gen = unwrap_or (map_option snd (row_at fst (t_sets db) node_id)) 0;
                actual_rows = filter (\<lambda>r. ac_node r = node_id) (t_actual db);
                actuals = foldl (\<lambda>m r. m(ac_skill r \<mapsto> r)) Map.empty actual_rows;
                online = is_connected h node_id
        in Ok \<lparr>kr_node = node_id, kr_generation = gen, kr_applied = unwrap_or (max_generation actual_rows) 0,
             kr_items =
               map (\<lambda>name. \<lparr>ki_name = name, ki_source = ''builtin'', ki_state = ''installed'',
                  ki_desired = None, ki_actual = None\<rparr>) list_skills
               @ map (\<lambda>r. \<lparr>ki_name = de_skill r, ki_source = ''hub'',
                    ki_state = derived_state online (trim (de_sha r)) gen (actuals (de_skill r)),
                    ki_desired = Some (de_version r), ki_actual = map_option ac_version (actuals (de_skill r))\<rparr>)
                   (sort_key de_skill (filter (\<lambda>r. de_node r = node_id) (t_desired db)))\<rparr>))"

record capability_info =
  ci_name :: str
  ci_scope :: "str option"
  ci_risk :: str

text \<open>The descriptions for the console are left out.\<close>

definition capability_catalog :: "capability_info list" where
  "capability_catalog =
     map (\<lambda>(n, s, r). \<lparr>ci_name = n, ci_scope = s, ci_risk = r\<rparr>)
       [(''fs.read'', Some ''path'', ''medium''), (''fs.stat'', Some ''path'', ''low''),
        (''fs.list'', Some ''path'', ''medium''), (''env.read'', Some ''env'', ''high''),
        (''net.listening_ports.read'', None, ''medium''), (''sys.info.read'', None, ''low''),
        (''sys.time_sync.read'', None, ''low''), (''sys.metrics.read'', None, ''low''),
        (''proc.list.read'', None, ''medium''), (''net.interfaces.read'', None, ''low'')]"

subsection \<open>Reported results\<close>

definition recorded_skill :: "json \<Rightarrow> (str \<times> json) list" where
  "recorded_skill payload =
     (case json_get payload ''skill'' of
        Some (JObj fs) \<Rightarrow> List.map_filter (\<lambda>key. case map_of fs key of
            Some v \<Rightarrow> if v = JNull then None else Some (key, v) | None \<Rightarrow> None) [''name'', ''version'', ''sha256'']
      | _ \<Rightarrow> [])"

definition denial_audit_detail :: "cenv \<Rightarrow> str \<Rightarrow> str \<Rightarrow> str \<Rightarrow> (str \<times> str) option" where
  "denial_audit_detail env run_id spec_id payload_json =
     (case ce_parse env payload_json of
        None \<Rightarrow> None
      | Some payload \<Rightarrow> (case json_get payload ''denials'' of
            Some (JArr denials) \<Rightarrow>
              if denials = [] then None
              else (let recorded = recorded_skill payload;
                        target = (case map_of recorded ''name'' of
                            Some (JStr name) \<Rightarrow> if name = [] then spec_id else name
                          | _ \<Rightarrow> spec_id)
                in Some (target, ce_print env (JObj
                     ([(''run_id'', JStr run_id), (''spec_id'', JStr spec_id), (''denials'', JArr denials)]
                      @ (if recorded = [] then [] else [(''skill'', JObj recorded)])))))
          | _ \<Rightarrow> None))"

definition is_denial_of :: "cenv \<Rightarrow> str \<Rightarrow> str \<Rightarrow> audit_row \<Rightarrow> bool" where
  "is_denial_of env node_id run_id r =
     (au_action r = ''skill.capability_denied'' \<and> au_node r = Some node_id
      \<and> (case ce_parse env (au_detail r) of Some v \<Rightarrow> str_field v ''run_id'' = Some run_id | None \<Rightarrow> False))"

definition denial_already_stored :: "cenv \<Rightarrow> db \<Rightarrow> str \<Rightarrow> str \<Rightarrow> bool" where
  "denial_already_stored env db node_id run_id = list_ex (is_denial_of env node_id run_id) (t_audit db)"

definition store_reported_result ::
    "cenv \<Rightarrow> db \<Rightarrow> str \<Rightarrow> str \<Rightarrow> str \<Rightarrow> str \<Rightarrow> str \<Rightarrow> nat \<Rightarrow> db \<times> (unit, desired_error) result" where
  "store_reported_result env db node_id run_id spec_id status payload_json observed_at =
     (case insert_result db node_id run_id spec_id status payload_json observed_at of
        Inl e \<Rightarrow> (db, Err (DesiredInternal e))
      | Inr db1 \<Rightarrow>
          (case denial_audit_detail env run_id spec_id payload_json of
             None \<Rightarrow> (db1, Ok ())
           | Some (target, detail_json) \<Rightarrow>
               if denial_already_stored env db1 node_id run_id then (db1, Ok ())
               else (append_node_audit env db1 node_id ''skill.capability_denied'' target detail_json, Ok ())))"

end
