(* ===== verification/Desired_Correct.thy ===== *)
theory Desired_Correct
  imports Desired_Ops Targets_Correct
begin

text \<open>
  The abstract view of the desired skills: for each node a generation and, for each skill, the version and
  digest it is to have. Install, rollback and uninstall are one abstract operation on it, \<open>want\<close>, which
  counts a change exactly when something changes.
\<close>

subsection \<open>The abstract fleet\<close>

type_synonym wish = "str \<times> str"

type_synonym fleet = "str \<Rightarrow> int \<times> (str \<rightharpoonup> wish)"

definition wish_of :: "desired_row \<Rightarrow> wish" where
  "wish_of r = (de_version r, norm_sha (de_sha r))"

definition fleet_of :: "db \<Rightarrow> fleet" where
  "fleet_of db n = (unwrap_or (map_option snd (row_at fst (t_sets db) n)) 0,
     \<lambda>s. map_option wish_of (row_at desired_key (t_desired db) (n, s)))"

definition want :: "str \<Rightarrow> wish option \<Rightarrow> str \<Rightarrow> fleet \<Rightarrow> fleet" where
  "want skill w n f = (if snd (f n) skill = w then f else f(n := (fst (f n) + 1, (snd (f n))(skill := w))))"

definition desired_ok :: "db \<Rightarrow> bool" where
  "desired_ok db = (distinct (map desired_key (t_desired db)) \<and> distinct (map fst (t_sets db))
     \<and> distinct (map nd_id (t_nodes db)))"

lemma want_other [simp]: "m \<noteq> n \<Longrightarrow> want skill w n f m = f m"
  by (simp add: want_def)

lemma fleet_of_cong: "t_sets db' = t_sets db \<Longrightarrow> t_desired db' = t_desired db \<Longrightarrow> fleet_of db' = fleet_of db"
  by (rule ext) (simp add: fleet_of_def)

lemma desired_ok_cong:
  "t_sets db' = t_sets db \<Longrightarrow> t_desired db' = t_desired db \<Longrightarrow> t_nodes db' = t_nodes db \<Longrightarrow> desired_ok db' = desired_ok db"
  by (simp add: desired_ok_def)

subsection \<open>The maps the code reads\<close>

lemma foldl_row_at:
  "distinct (map key rows) \<Longrightarrow> foldl (\<lambda>m r. m(key r \<mapsto> f r)) Map.empty rows k = map_option f (row_at key rows k)"
proof (induction rows rule: rev_induct)
  case (snoc r rows)
  then have "row_at key rows (key r) = None" by (simp add: row_at_None)
  with snoc show ?case by (auto simp: row_at_append split: option.splits)
qed simp

lemma row_at_filter_pair:
  "row_at de_node (filter (\<lambda>r. de_skill r = s) rows) n = row_at desired_key rows (n, s)"
  by (induction rows) (auto simp: desired_key_def)

lemma load_desired_map_at:
  assumes "desired_ok db"
  shows "load_desired_map db skill n =
    map_option (\<lambda>r. \<lparr>ds_version = de_version r, ds_sha = trim (de_sha r)\<rparr>) (row_at desired_key (t_desired db) (n, skill))"
proof -
  have "distinct (map de_node (filter (\<lambda>r. de_skill r = skill) rows))" if "distinct (map desired_key rows)" for rows
    using that by (induction rows) (auto simp: desired_key_def)
  with assms have "distinct (map de_node (filter (\<lambda>r. de_skill r = skill) (t_desired db)))"
    by (simp add: desired_ok_def)
  from foldl_row_at [OF this] show ?thesis by (simp add: load_desired_map_def row_at_filter_pair)
qed

lemma load_generation_at:
  assumes "desired_ok db"
  shows "generation_at (load_generation_map db) n = fst (fleet_of db n)"
proof -
  have "load_generation_map db = foldl (\<lambda>m r. m(fst r \<mapsto> snd r)) Map.empty (t_sets db)"
    unfolding load_generation_map_def by (rule arg_cong [where f = "\<lambda>g. foldl g Map.empty (t_sets db)"]) (auto simp: fun_eq_iff)
  with assms show ?thesis
    by (simp add: desired_ok_def generation_at_def fleet_of_def foldl_row_at)
qed

lemma desired_at_None: "desired_ok db \<Longrightarrow> load_desired_map db skill n = None \<longleftrightarrow> snd (fleet_of db n) skill = None"
  by (simp add: load_desired_map_at fleet_of_def)

lemma same_desired_wish:
  "desired_ok db \<Longrightarrow>
   (case load_desired_map db skill n of Some r \<Rightarrow> same_desired r version sha | None \<Rightarrow> False)
     \<longleftrightarrow> snd (fleet_of db n) skill = Some (version, norm_sha sha)"
  by (auto simp: load_desired_map_at fleet_of_def same_desired_def wish_of_def norm_sha_def eq_ignore_ascii_case_def
      split: option.splits)

subsection \<open>Writing\<close>

interpretation sets: keyed_table fst "\<lambda>k v. (k, v)" "\<lambda>v r. (fst r, v)"
  by unfold_locales simp_all

interpretation desireds: keyed_table desired_key
    "\<lambda>k (v, s, op). \<lparr>de_node = fst k, de_skill = snd k, de_version = v, de_sha = s, de_operation = op\<rparr>"
    "\<lambda>(v, s, op) r. r\<lparr>de_version := v, de_sha := s, de_operation := op\<rparr>"
  by unfold_locales (auto simp: desired_key_def split: prod.splits)

lemma set_generation_effect:
  assumes "desired_ok db"
  shows "fleet_of (set_generation db n g) = (fleet_of db)(n := (g, snd (fleet_of db n)))"
    "desired_ok (set_generation db n g)" "t_nodes (set_generation db n g) = t_nodes db"
proof -
  show "fleet_of (set_generation db n g) = (fleet_of db)(n := (g, snd (fleet_of db n)))"
    by (rule ext) (simp add: fleet_of_def set_generation_def sets.row_at_upsert split: option.splits)
  show "desired_ok (set_generation db n g)"
    using assms sets.upsert_distinct [of "t_sets db" n g] by (simp add: desired_ok_def set_generation_def)
qed (simp add: set_generation_def)

lemma upsert_desired_effect:
  assumes "desired_ok db"
  shows "fleet_of (upsert_desired db n skill v s op) =
      (fleet_of db)(n := (fst (fleet_of db n), (snd (fleet_of db n))(skill \<mapsto> (v, norm_sha s))))"
    "desired_ok (upsert_desired db n skill v s op)" "t_nodes (upsert_desired db n skill v s op) = t_nodes db"
proof -
  show "fleet_of (upsert_desired db n skill v s op) =
      (fleet_of db)(n := (fst (fleet_of db n), (snd (fleet_of db n))(skill \<mapsto> (v, norm_sha s))))"
    using desireds.row_at_upsert [of "(n, skill)" "(v, s, op)" "t_desired db"]
    by (intro ext prod_eqI) (auto simp: fleet_of_def upsert_desired_def wish_of_def fun_eq_iff split: option.splits)
  show "desired_ok (upsert_desired db n skill v s op)"
    using assms desireds.upsert_distinct [of "t_desired db" "(n, skill)" "(v, s, op)"]
    by (simp add: desired_ok_def upsert_desired_def)
qed (simp add: upsert_desired_def)

lemma delete_desired_effect:
  assumes "desired_ok db"
  shows "fleet_of (fst (delete_desired db n skill)) =
      (fleet_of db)(n := (fst (fleet_of db n), (snd (fleet_of db n))(skill := None)))"
    "desired_ok (fst (delete_desired db n skill))" "t_nodes (fst (delete_desired db n skill)) = t_nodes db"
    "snd (delete_desired db n skill) > 0 \<longleftrightarrow> snd (fleet_of db n) skill \<noteq> None"
proof -
  let ?P = "\<lambda>r. de_node r = n \<and> de_skill r = skill"
  have d: "distinct (map desired_key (t_desired db))" using assms by (simp add: desired_ok_def)
  have "row_at desired_key (delete_where ?P (t_desired db)) (m, s) =
      (if m = n \<and> s = skill then None else row_at desired_key (t_desired db) (m, s))" for m s
    using row_at_key [of desired_key "t_desired db" "(m, s)"]
    by (auto simp: row_at_delete [OF d] desired_key_def split: option.splits)
  then show "fleet_of (fst (delete_desired db n skill)) =
      (fleet_of db)(n := (fst (fleet_of db n), (snd (fleet_of db n))(skill := None)))"
    by (intro ext prod_eqI) (auto simp: fleet_of_def delete_desired_def Let_def fun_eq_iff)
  show "desired_ok (fst (delete_desired db n skill))"
    using assms by (simp add: desired_ok_def delete_desired_def Let_def)
  have "snd (fleet_of db n) skill = None \<longleftrightarrow> (n, skill) \<notin> desired_key ` set (t_desired db)"
    by (simp add: fleet_of_def row_at_None)
  then show "snd (delete_desired db n skill) > 0 \<longleftrightarrow> snd (fleet_of db n) skill \<noteq> None"
    by (auto simp: delete_desired_def Let_def desired_key_def image_iff filter_empty_conv)
qed (simp add: delete_desired_def Let_def)

definition plan_effect :: "str \<Rightarrow> desired_plan \<Rightarrow> fleet \<Rightarrow> fleet" where
  "plan_effect skill p f =
     (let n = dp_node p in
      case dp_action p of
        None \<Rightarrow> f
      | Some (Upsert v s) \<Rightarrow> f(n := (dp_generation p, (snd (f n))(skill \<mapsto> (v, norm_sha s))))
      | Some Delete \<Rightarrow> if snd (f n) skill = None then f else f(n := (dp_generation p, (snd (f n))(skill := None))))"

lemma write_one_effect:
  assumes "desired_ok db"
  shows "fleet_of (write_one skill op db p) = plan_effect skill p (fleet_of db)"
    "desired_ok (write_one skill op db p)" "t_nodes (write_one skill op db p) = t_nodes db"
proof -
  note e = set_generation_effect upsert_desired_effect delete_desired_effect
  have "fleet_of (write_one skill op db p) = plan_effect skill p (fleet_of db)
    \<and> desired_ok (write_one skill op db p) \<and> t_nodes (write_one skill op db p) = t_nodes db"
  proof (cases "dp_action p")
    case (Some a)
    show ?thesis
    proof (cases a)
      case (Upsert v s)
      with Some assms e(1,2) show ?thesis
        by (simp add: write_one_def plan_effect_def Let_def upsert_desired_effect set_generation_effect)
    next
      case Delete
      obtain db1 k where d: "delete_desired db (dp_node p) skill = (db1, k)" by (cases "delete_desired db (dp_node p) skill")
      from delete_desired_effect [OF assms, of "dp_node p" skill] have
        "fleet_of db1 = (fleet_of db)(dp_node p := (fst (fleet_of db (dp_node p)), (snd (fleet_of db (dp_node p)))(skill := None)))"
        "desired_ok db1" "t_nodes db1 = t_nodes db" "k > 0 \<longleftrightarrow> snd (fleet_of db (dp_node p)) skill \<noteq> None"
        unfolding d by simp_all
      moreover from this have "k = 0 \<Longrightarrow> fleet_of db1 = fleet_of db"
        by (metis (no_types, lifting) fun_upd_triv less_irrefl prod.collapse)
      ultimately show ?thesis using Some Delete d
        by (auto simp: write_one_def plan_effect_def Let_def set_generation_effect)
    qed
  qed (simp add: write_one_def plan_effect_def assms)
  then show "fleet_of (write_one skill op db p) = plan_effect skill p (fleet_of db)"
    "desired_ok (write_one skill op db p)" "t_nodes (write_one skill op db p) = t_nodes db" by simp_all
qed

lemma writes_effect:
  assumes "desired_ok db"
  shows "fleet_of (foldl (write_one skill op) db plans) = foldl (\<lambda>f p. plan_effect skill p f) (fleet_of db) plans
    \<and> desired_ok (foldl (write_one skill op) db plans) \<and> t_nodes (foldl (write_one skill op) db plans) = t_nodes db"
  using assms by (induction plans arbitrary: db) (simp_all add: write_one_effect)

lemma append_skill_audit_rows [simp]:
  "t_sets (append_skill_audit env db a t n d) = t_sets db" "t_desired (append_skill_audit env db a t n d) = t_desired db"
  "t_nodes (append_skill_audit env db a t n d) = t_nodes db" "t_versions (append_skill_audit env db a t n d) = t_versions db"
  "t_skills (append_skill_audit env db a t n d) = t_skills db"
  by (simp_all add: audit_writers insert_audit_def)

lemma insert_resolution_desired:
  "insert_resolution env db kind op f old = (i, d) \<Longrightarrow>
   t_sets d = t_sets db \<and> t_desired d = t_desired db \<and> t_nodes d = t_nodes db \<and> t_versions d = t_versions db
     \<and> t_skills d = t_skills db"
  by (auto simp: insert_resolution_def new_uuid_def Let_def audit_writers insert_audit_def)

lemma persist_effect:
  assumes "desired_ok db" "persist env db skill op_type version caps force plans snapshot = (db', op, rid)"
  shows "fleet_of db' = foldl (\<lambda>f p. plan_effect skill p f) (fleet_of db) plans \<and> desired_ok db' \<and> t_nodes db' = t_nodes db"
proof -
  obtain o1 db1 where u: "new_uuid env db = (o1, db1)" by (cases "new_uuid env db")
  then have f1: "t_sets db1 = t_sets db" "t_desired db1 = t_desired db" "t_nodes db1 = t_nodes db"
    by (auto simp: new_uuid_def)
  define db2 where "db2 = foldl (write_one skill o1) db1 plans"
  have "desired_ok db1" using assms(1) f1 by (simp add: desired_ok_def)
  from writes_effect [OF this, of skill o1 plans] f1
  have w: "fleet_of db2 = foldl (\<lambda>f p. plan_effect skill p f) (fleet_of db) plans" "desired_ok db2" "t_nodes db2 = t_nodes db"
    by (simp_all add: db2_def fleet_of_cong [of db1 db])
  have "t_sets db' = t_sets db2 \<and> t_desired db' = t_desired db2 \<and> t_nodes db' = t_nodes db2"
  proof (cases snapshot)
    case None
    with assms(2) show ?thesis by (auto simp: persist_def u db2_def Let_def)
  next
    case (Some f)
    obtain i d where r: "insert_resolution env (db2\<lparr>t_operations := t_operations db2 @
            [\<lparr>so_id = o1, so_type = op_type, so_skill = skill, so_version = version,
              so_targets = ce_print env (per_node_json (per_nodes plans)), so_capabilities = caps, so_force = force,
              so_at = ce_now env\<rparr>]\<rparr>) ''skill_operation'' o1 f None = (i, d)" by fastforce
    with Some assms(2) insert_resolution_desired [OF r] show ?thesis
      by (auto simp: persist_def u db2_def Let_def)
  qed
  with w show ?thesis using fleet_of_cong [of db' db2] desired_ok_cong [of db' db2] by simp
qed

subsection \<open>From plans to wishes\<close>

text \<open>The plan of a slot does to the fleet what the wish for its node does.\<close>

definition plan_wants :: "fleet \<Rightarrow> str \<Rightarrow> (str \<Rightarrow> wish option) \<Rightarrow> desired_plan \<Rightarrow> bool" where
  "plan_wants f skill w p =
     (let n = dp_node p in
      if dp_outcome p \<in> {''pending'', ''queued'', ''already_installed''}
      then plan_effect skill p f = want skill (w n) n f \<and> dp_generation p = fst (want skill (w n) n f n)
        \<and> (\<forall>g. g n = f n \<longrightarrow> plan_effect skill p g = want skill (w n) n g)
      else dp_action p = None \<and> (dp_outcome p = ''node_unknown'' \<or> dp_generation p = fst (f n)))"

definition addressed :: "per_node list \<Rightarrow> str list" where
  "addressed ps = map pn_node (filter (\<lambda>p. pn_outcome p \<in> {''pending'', ''queued'', ''already_installed''}) ps)"

definition want_all :: "str \<Rightarrow> (str \<Rightarrow> wish option) \<Rightarrow> str list \<Rightarrow> fleet \<Rightarrow> fleet" where
  "want_all skill w ns f = foldl (\<lambda>f n. want skill (w n) n f) f ns"

lemma want_all_other: "n \<notin> set ns \<Longrightarrow> want_all skill w ns f n = f n"
  by (induction ns arbitrary: f) (simp_all add: want_all_def)

lemma plans_want:
  assumes "\<forall>p \<in> set plans. plan_wants f0 skill w p" "distinct (map dp_node plans)" "\<forall>n \<in> dp_node ` set plans. f n = f0 n"
  shows "foldl (\<lambda>f p. plan_effect skill p f) f plans = want_all skill w (addressed (per_nodes plans)) f"
  using assms
proof (induction plans arbitrary: f)
  case (Cons p plans)
  let ?g = "plan_effect skill p f"
  have p: "plan_wants f0 skill w p" "f (dp_node p) = f0 (dp_node p)" using Cons.prems by simp_all
  have other: "?g n = f n" if "n \<noteq> dp_node p" for n
    using that by (auto simp: plan_effect_def Let_def split: option.splits action.splits)
  have "\<forall>n \<in> dp_node ` set plans. ?g n = f0 n"
  proof
    fix n assume n: "n \<in> dp_node ` set plans"
    have "dp_node p \<notin> dp_node ` set plans" using Cons.prems(2) by simp
    with n have "n \<noteq> dp_node p" by metis
    with other have "?g n = f n" by blast
    also have "f n = f0 n" using Cons.prems(3) n by auto
    finally show "?g n = f0 n" .
  qed
  then have rest: "foldl (\<lambda>f p. plan_effect skill p f) ?g plans = want_all skill w (addressed (per_nodes plans)) ?g"
    using Cons.prems(1,2) by (intro Cons.IH) simp_all
  show ?case
  proof (cases "dp_outcome p \<in> {''pending'', ''queued'', ''already_installed''}")
    case True
    with p have "?g = want skill (w (dp_node p)) (dp_node p) f" by (simp add: plan_wants_def Let_def)
    with rest True show ?thesis by (auto simp: per_nodes_def addressed_def want_all_def)
  next
    case False
    with p have "dp_action p = None" by (simp add: plan_wants_def Let_def)
    then have "?g = f" by (simp add: plan_effect_def)
    with rest False show ?thesis by (simp add: per_nodes_def addressed_def)
  qed
qed (simp add: want_all_def per_nodes_def addressed_def)

lemma plans_generation:
  assumes "\<forall>p \<in> set plans. plan_wants f skill w p" "distinct (map dp_node plans)" "p \<in> set plans" "dp_outcome p \<noteq> ''node_unknown''"
  shows "dp_generation p = fst (want_all skill w (addressed (per_nodes plans)) f (dp_node p))"
proof -
  let ?ad = "\<lambda>p. dp_outcome p \<in> {''pending'', ''queued'', ''already_installed''}"
  have ad: "addressed (per_nodes plans) = map dp_node (filter ?ad plans)"
    by (simp add: addressed_def per_nodes_def filter_map comp_def)
  have d: "distinct (addressed (per_nodes plans))" unfolding ad by (rule distinct_map_filter [OF assms(2)])
  have pw: "plan_wants f skill w p" using assms by simp
  have at: "want_all skill w ns f m = want skill (w m) m f m" if "m \<in> set ns" "distinct ns" for ns f m
    using that
  proof (induction ns arbitrary: f)
    case (Cons a ns)
    then show ?case
      by (cases "m = a") (auto simp: want_all_def want_all_other [unfolded want_all_def], auto simp: want_def)
  qed simp
  show ?thesis
  proof (cases "?ad p")
    case True
    then have "dp_node p \<in> set (addressed (per_nodes plans))" using assms(3) by (auto simp: ad)
    with pw True show ?thesis by (simp add: plan_wants_def Let_def at [OF _ d])
  next
    case False
    have "dp_node p \<notin> set (addressed (per_nodes plans))"
    proof
      assume "dp_node p \<in> set (addressed (per_nodes plans))"
      then obtain q where "q \<in> set plans" "?ad q" "dp_node q = dp_node p" by (auto simp: ad)
      with assms(2,3) have "q = p" by (metis distinct_map inj_on_def)
      with False \<open>?ad q\<close> show False by simp
    qed
    with pw False assms(4) show ?thesis by (simp add: plan_wants_def Let_def want_all_other)
  qed
qed

subsection \<open>The slots of a selection\<close>

lemma set_dedupe [simp]: "set (dedupe ids) = set ids"
  by (induction ids) auto

lemma distinct_dedupe [simp]: "distinct (dedupe ids)"
  by (induction ids) auto

lemma foldl_keyed: "foldl (\<lambda>m n. m(key n \<mapsto> n)) Map.empty rows k = Some r \<Longrightarrow> key r = k"
  by (induction rows rule: rev_induct) (auto split: if_splits)

lemma resolve_slots_distinct:
  assumes "distinct (map ln_id nodes)"
  shows "distinct (map slot_id (resolve_slots nodes s))"
proof -
  define by_id where "by_id = foldl (\<lambda>m n. m(ln_id n \<mapsto> n)) Map.empty nodes"
  have k: "slot_id (case by_id i of Some n \<Rightarrow> Node n | None \<Rightarrow> Missing i) = i" for i
    using foldl_keyed [of ln_id nodes i, folded by_id_def] by (cases "by_id i") simp_all
  have m: "map slot_id (map Node xs) = map ln_id xs" for xs by simp
  have e: "distinct (map ln_id (sort_key ln_id (filter P nodes)))" for P
    using distinct_map_filter [OF assms, of P] by (metis distinct_map distinct_sort set_sort)
  define extra where "extra = (case sl_selector s of None \<Rightarrow> [] | Some labels \<Rightarrow> sort_key ln_id
      (filter (\<lambda>n. ln_id n \<notin> set (dedupe (sl_node_ids s)) \<and> labels_match (ln_labels n) labels) nodes))"
  have x: "distinct (map ln_id extra)" "ln_id ` set extra \<inter> set (dedupe (sl_node_ids s)) = {}"
    by (auto simp: extra_def e split: option.splits)
  have "map slot_id (resolve_slots nodes s) = dedupe (sl_node_ids s) @ map ln_id extra"
    unfolding resolve_slots_def by_id_def [symmetric] Let_def extra_def map_append map_map comp_def k
    by (simp split: option.splits)
  with x show ?thesis by auto
qed

lemma prepare_distinct:
  "desired_ok db \<Longrightarrow> prepare env db s = Ok slots \<Longrightarrow> distinct (map slot_id slots)"
  using resolve_slots_distinct [of "load_live_nodes env db" s]
  by (auto simp: prepare_def load_live_nodes_def desired_ok_def comp_def Let_def split: if_splits)

subsection \<open>Each classification expresses a wish\<close>

lemma classified_node [simp]:
  "dp_node (classify_install sv d g plan h write s) = slot_id s"
  "dp_node (classify_rollback sv d g explicit versions h s) = slot_id s"
  "dp_node (classify_uninstall d g h s) = slot_id s"
  by (cases s; simp add: classify_install_def classify_rollback_def classify_uninstall_def missing_plan_def hold_def
      write_plan_def Let_def split: option.splits)+

lemma missing_wants: "plan_wants f skill w (missing_plan i)"
  by (simp add: plan_wants_def missing_plan_def Let_def)

lemma hold_wants:
  "g = fst (f (ln_id node)) \<Longrightarrow> what \<notin> {''pending'', ''queued'', ''already_installed''} \<Longrightarrow>
   plan_wants f skill w (hold node what g d v)"
  by (simp add: plan_wants_def hold_def Let_def)

lemma held_wants:
  "g = fst (f (ln_id node)) \<Longrightarrow> snd (f (ln_id node)) skill = w (ln_id node) \<Longrightarrow>
   plan_wants f skill w (hold node ''already_installed'' g d v)"
  by (simp add: plan_wants_def hold_def Let_def want_def plan_effect_def)

lemma upsert_wants:
  "g = fst (f (ln_id node)) \<Longrightarrow> w (ln_id node) = Some (v, norm_sha s) \<Longrightarrow> snd (f (ln_id node)) skill \<noteq> w (ln_id node) \<Longrightarrow>
   plan_wants f skill w (write_plan node g d u h True (Upsert v s))"
  by (simp add: plan_wants_def write_plan_def Let_def want_def plan_effect_def)

lemma delete_wants:
  "g = fst (f (ln_id node)) \<Longrightarrow> w (ln_id node) = None \<Longrightarrow> snd (f (ln_id node)) skill \<noteq> None \<Longrightarrow>
   plan_wants f skill w (write_plan node g d u h True Delete)"
  by (auto simp: plan_wants_def write_plan_def Let_def want_def plan_effect_def)

lemma install_wants:
  assumes "desired_ok db"
  shows "plan_wants (fleet_of db) (ip_skill plan) (\<lambda>n. Some (ip_version plan, norm_sha (ip_sha plan)))
    (classify_install sv (load_desired_map db (ip_skill plan)) (load_generation_map db) plan h True s)"
proof (cases s)
  case (Node node)
  then show ?thesis
    unfolding classify_install_def Let_def
    by (simp add: same_desired_wish [OF assms] load_generation_at [OF assms] hold_wants held_wants upsert_wants)
qed (simp add: classify_install_def missing_wants)

definition rollback_wish ::
    "'v semver \<Rightarrow> 'v version_record option \<Rightarrow> 'v version_record list \<Rightarrow> desired_snap option \<Rightarrow> wish option" where
  "rollback_wish sv explicit versions d =
     map_option (\<lambda>t. (vr_version t, norm_sha (vr_sha t))) (rollback_target sv explicit versions d)"

lemma rollback_wants:
  assumes "desired_ok db"
  shows "plan_wants (fleet_of db) skill (\<lambda>n. rollback_wish sv explicit versions (load_desired_map db skill n))
    (classify_rollback sv (load_desired_map db skill) (load_generation_map db) explicit versions h s)"
proof (cases s)
  case (Node node)
  show ?thesis
  proof (cases "rollback_target sv explicit versions (load_desired_map db skill (ln_id node))")
    case None
    with Node show ?thesis by (simp add: classify_rollback_def load_generation_at [OF assms] hold_wants)
  next
    case (Some t)
    with Node show ?thesis
      unfolding classify_rollback_def Let_def
      by (simp add: same_desired_wish [OF assms] load_generation_at [OF assms] hold_wants held_wants upsert_wants
          rollback_wish_def)
  qed
qed (simp add: classify_rollback_def missing_wants)

lemma uninstall_wants:
  assumes "desired_ok db"
  shows "plan_wants (fleet_of db) skill (\<lambda>n. None)
    (classify_uninstall (load_desired_map db skill) (load_generation_map db) h s)"
proof (cases s)
  case (Node node)
  then show ?thesis
    by (auto simp: classify_uninstall_def Let_def desired_at_None [OF assms] load_generation_at [OF assms]
        intro: held_wants delete_wants)
qed (simp add: classify_uninstall_def missing_wants)

end
