(* ===== verification/Desired_Props.thy ===== *)
theory Desired_Props
  imports Desired_Correct
begin

text \<open>
  The properties of the requests that change what skills the nodes are to have: they refine the abstract
  fleet of \<open>Desired_Correct\<close>, the generation of a node identifies what it is to have, a dry run predicts
  the run, and a skill a node's configuration uses is only removed by force.
\<close>

subsection \<open>Refusals\<close>

definition audit_only :: "db \<Rightarrow> db \<Rightarrow> bool" where
  "audit_only db db' = (\<exists>rows. db' = db\<lparr>t_audit := t_audit db @ rows\<rparr>)"

lemma audit_only_refl [simp]: "audit_only db db"
  by (auto simp: audit_only_def intro: exI [of _ "[]"])

lemma audit_only_refuse: "audit_only db (refuse env db kind tid code sel ids)"
  using refuse_audits [of env db kind tid code sel ids] by (auto simp: audit_only_def)

lemma audit_only_frame:
  assumes "audit_only db db'"
  shows "t_sets db' = t_sets db" "t_desired db' = t_desired db" "t_nodes db' = t_nodes db"
    "t_versions db' = t_versions db" "t_skills db' = t_skills db" "fleet_of db' = fleet_of db" "desired_ok db' = desired_ok db"
  using assms by (auto simp: audit_only_def desired_ok_def intro!: fleet_of_cong)

lemma check_submit_cases:
  "check_submit env db h t c kind tid = (db', r) \<Longrightarrow> audit_only db db' \<and> (is_ok r \<longrightarrow> db' = db)"
  using check_submit_Err [of env db h t c kind tid db'] audit_only_refuse
  by (cases r) (auto simp: check_submit_Ok)

lemma frozen_aim_cases:
  "frozen_aim env db h body c tid = (db', r) \<Longrightarrow> audit_only db db' \<and> (is_ok r \<longrightarrow> db' = db)"
  using check_submit_cases [of env db h body c "''skill_operation''" tid]
  by (auto simp: frozen_aim_def split: prod.splits sum.splits)

lemma prepare_skill_aim_cases:
  "prepare_skill_aim env db h a tid = (db', r) \<Longrightarrow> audit_only db db' \<and> (is_ok r \<longrightarrow> db' = db)"
  by (auto simp: prepare_skill_aim_def dest: frozen_aim_cases split: if_splits)

lemma guard_aim_cases:
  "guard_aim env db slots aim = (db', r) \<Longrightarrow> audit_only db db' \<and> (is_ok r \<longrightarrow> db' = db)"
  by (auto simp: guard_aim_def ensure_prod_confirm_def Let_def audit_only_refuse split: if_splits)

subsection \<open>The three requests\<close>

datatype change = Install install_request | Rollback rollback_request | Uninstall uninstall_request

definition change_skill ::
    "cenv \<Rightarrow> 'v semver \<Rightarrow> db \<Rightarrow> hub \<Rightarrow> str \<Rightarrow> change \<Rightarrow> db \<times> (change_response, desired_error) result" where
  "change_skill env sv db h name c =
     (case c of
        Install b \<Rightarrow> install env sv db h name b
      | Rollback b \<Rightarrow> rollback env sv db h name b
      | Uninstall b \<Rightarrow> uninstall env sv db h name b)"

definition dry :: "change \<Rightarrow> bool" where
  "dry c = (case c of Install b \<Rightarrow> iq_dry_run b | _ \<Rightarrow> False)"

definition wish_in :: "cenv \<Rightarrow> 'v semver \<Rightarrow> db \<Rightarrow> str \<Rightarrow> change \<Rightarrow> str \<Rightarrow> wish option" where
  "wish_in env sv db name c n =
     (let versions = load_versions env sv db name in
      case c of
        Install b \<Rightarrow> map_option (\<lambda>v. (vr_version v, norm_sha (vr_sha v)))
          (find (\<lambda>r. vr_version r = iq_version b) versions)
      | Rollback b \<Rightarrow> (case explicit_version versions (bq_to_version b) of
            Inr e \<Rightarrow> rollback_wish sv e versions (load_desired_map db name n)
          | Inl _ \<Rightarrow> None)
      | Uninstall b \<Rightarrow> None)"

definition answered :: "db \<Rightarrow> db \<Rightarrow> str \<Rightarrow> (str \<Rightarrow> wish option) \<Rightarrow> per_node list \<Rightarrow> bool" where
  "answered db db' name w ps =
     (fleet_of db' = want_all name w (addressed ps) (fleet_of db) \<and> desired_ok db' \<and> distinct (map pn_node ps)
      \<and> (\<forall>p \<in> set ps. pn_outcome p \<noteq> ''node_unknown'' \<longrightarrow> pn_generation p = fst (fleet_of db' (pn_node p))))"

lemma persist_answered:
  assumes "desired_ok db" "persist env db name op_type version caps force (map C slots) snapshot = (db', op, rid)"
    "\<And>s. plan_wants (fleet_of db) name w (C s)" "\<And>s. dp_node (C s) = slot_id s" "distinct (map slot_id slots)"
  shows "answered db db' name w (per_nodes (map C slots))"
proof -
  have d: "distinct (map dp_node (map C slots))" using assms(4,5) by (simp add: comp_def)
  have w: "\<forall>p \<in> set (map C slots). plan_wants (fleet_of db) name w p" using assms(3) by simp
  have f: "fleet_of db' = want_all name w (addressed (per_nodes (map C slots))) (fleet_of db)" "desired_ok db'"
    using persist_effect [OF assms(1,2)] plans_want [OF w d] by simp_all
  have "distinct (map pn_node (per_nodes (map C slots)))" using d by (simp add: per_nodes_def comp_def)
  moreover have "pn_generation p = fst (fleet_of db' (pn_node p))"
    if "p \<in> set (per_nodes (map C slots))" "pn_outcome p \<noteq> ''node_unknown''" for p
  proof -
    from that obtain q where "q \<in> set (map C slots)" "p = \<lparr>pn_node = dp_node q, pn_outcome = dp_outcome q, pn_generation = dp_generation q\<rparr>"
      by (auto simp: per_nodes_def)
    with plans_generation [OF w d this(1)] that(2) f(1) show ?thesis by simp
  qed
  ultimately show ?thesis using f by (simp add: answered_def)
qed

lemma missing_answered:
  "desired_ok db \<Longrightarrow> distinct (map slot_id slots) \<Longrightarrow> answered db db name w (missing_per_node slots)"
  by (simp add: answered_def missing_per_node_def addressed_def want_all_def comp_def)

lemma unknown_answered:
  "desired_ok db \<Longrightarrow> distinct (map pn_node ps) \<Longrightarrow> \<forall>p \<in> set ps. pn_outcome p = ''node_unknown'' \<Longrightarrow> answered db db name w ps"
  by (simp add: answered_def addressed_def want_all_def)

subsection \<open>What a request writes\<close>

definition install_plan_of :: "str \<Rightarrow> 'v version_record \<Rightarrow> str \<Rightarrow> install_plan" where
  "install_plan_of name v caps = \<lparr>ip_skill = name, ip_version = vr_version v, ip_sha = vr_sha v,
     ip_capabilities = caps, ip_min_node = vr_min_node v, ip_platforms = vr_platforms v\<rparr>"

lemma apply_installs_Ok:
  assumes "apply_installs env sv db h plans aim d = (db', Ok r)"
  obtains slots where "prepare env db (ai_selection aim) = Ok slots" "guard_aim env db slots aim = (db, Ok ())"
    "(d \<or> list_all is_missing slots \<or> plans = []) \<and> db' = db \<and> fst r = preview_installs sv db h plans slots
     \<or> \<not> (d \<or> list_all is_missing slots \<or> plans = []) \<and> write_installs env sv db h plans slots (ai_snapshot aim) = (db', fst r)"
proof -
  from assms obtain slots where p: "prepare env db (ai_selection aim) = Ok slots"
    by (auto simp: apply_installs_def split: sum.splits)
  with assms obtain db1 u where g: "guard_aim env db slots aim = (db1, Ok u)"
    by (auto simp: apply_installs_def split: sum.splits prod.splits)
  then have "db1 = db" using guard_aim_cases by fastforce
  with g have g': "guard_aim env db slots aim = (db, Ok ())" by simp
  show thesis
  proof (rule that [OF p g'])
    show "(d \<or> list_all is_missing slots \<or> plans = []) \<and> db' = db \<and> fst r = preview_installs sv db h plans slots
     \<or> \<not> (d \<or> list_all is_missing slots \<or> plans = []) \<and> write_installs env sv db h plans slots (ai_snapshot aim) = (db', fst r)"
      using assms by (auto simp: apply_installs_def p g' split: if_splits prod.splits)
  qed
qed

lemma install_Ok:
  assumes "install env sv db h name body = (db', Ok resp)"
  obtains v caps aim changes targets where "name \<in> set (t_skills db)"
    "find (\<lambda>r. vr_version r = iq_version body) (load_versions env sv db name) = Some v"
    "vr_status v \<notin> {''deprecated'', ''yanked''}" "accepted_hash (vr_capabilities v) (iq_accepted body) = Ok caps"
    "prepare_skill_aim env db h (iq_aim body) name = (db, Ok aim)"
    "apply_installs env sv db h [install_plan_of name v caps] aim (iq_dry_run body) = (db', Ok (changes, targets))"
    "changes \<noteq> []" "cr_per_node resp = sg_per_node (hd changes)" "\<not> is_builtin_name name"
proof -
  from assms have n: "\<not> is_builtin_name name" "name \<in> set (t_skills db)"
    by (auto simp: install_def require_versions_def split: if_splits)
  with assms obtain v where v: "find (\<lambda>r. vr_version r = iq_version body) (load_versions env sv db name) = Some v"
      "vr_status v \<notin> {''deprecated'', ''yanked''}"
    by (auto simp: install_def require_versions_def split: option.splits if_splits)
  with assms n obtain caps where c: "accepted_hash (vr_capabilities v) (iq_accepted body) = Ok caps"
    by (auto simp: install_def require_versions_def split: sum.splits)
  with assms n v obtain db1 aim where a: "prepare_skill_aim env db h (iq_aim body) name = (db1, Ok aim)"
    by (auto simp: install_def require_versions_def split: sum.splits prod.splits)
  then have d: "db1 = db" using prepare_skill_aim_cases by fastforce
  with assms n v c a obtain db2 changes targets where
    i: "apply_installs env sv db h [install_plan_of name v caps] aim (iq_dry_run body) = (db2, Ok (changes, targets))"
    by (auto simp: install_def require_versions_def install_plan_of_def Let_def split: sum.splits prod.splits)
  from assms n v c a [unfolded d] i obtain ch chs where
    "changes = ch # chs" "db2 = db'" "cr_per_node resp = sg_per_node ch"
    by (auto simp: install_def require_versions_def install_plan_of_def Let_def split: list.splits)
  with n v c a d i that show thesis by simp
qed

lemma install_outcome_known:
  "dp_outcome (classify_install sv x y plan h w s) = ''node_unknown'' \<longleftrightarrow> is_missing s"
  by (cases s) (simp_all add: classify_install_def missing_plan_def hold_def write_plan_def Let_def)

lemma install_answered:
  assumes ok: "desired_ok db" and i: "install env sv db h name body = (db', Ok resp)" and d: "\<not> iq_dry_run body"
  shows "answered db db' name (wish_in env sv db name (Install body)) (cr_per_node resp)"
proof -
  from i obtain v caps aim changes targets where
    v: "find (\<lambda>r. vr_version r = iq_version body) (load_versions env sv db name) = Some v" and
    a: "apply_installs env sv db h [install_plan_of name v caps] aim (iq_dry_run body) = (db', Ok (changes, targets))" and
    r: "cr_per_node resp = sg_per_node (hd changes)"
    by (rule install_Ok)
  let ?plan = "install_plan_of name v caps"
  from a obtain slots where s: "prepare env db (ai_selection aim) = Ok slots" and
    c: "(iq_dry_run body \<or> list_all is_missing slots \<or> [?plan] = []) \<and> db' = db
        \<and> fst (changes, targets) = preview_installs sv db h [?plan] slots
      \<or> \<not> (iq_dry_run body \<or> list_all is_missing slots \<or> [?plan] = [])
        \<and> write_installs env sv db h [?plan] slots (ai_snapshot aim) = (db', fst (changes, targets))"
    by (rule apply_installs_Ok)
  have dist: "distinct (map slot_id slots)" by (rule prepare_distinct [OF ok s])
  have w: "wish_in env sv db name (Install body) = (\<lambda>n. Some (ip_version ?plan, norm_sha (ip_sha ?plan)))"
    by (simp add: wish_in_def Let_def v install_plan_of_def fun_eq_iff)
  have skill: "ip_skill ?plan = name" by (simp add: install_plan_of_def)
  from c d consider "list_all is_missing slots \<and> db' = db \<and> changes = preview_installs sv db h [?plan] slots"
    | "\<not> list_all is_missing slots \<and> write_installs env sv db h [?plan] slots (ai_snapshot aim) = (db', changes)"
    by (metis fst_conv list.distinct(1))
  then show ?thesis
  proof cases
    assume m: "list_all is_missing slots \<and> db' = db \<and> changes = preview_installs sv db h [?plan] slots"
    then have "dp_outcome (classify_install sv x y ?plan h False s) = ''node_unknown''" if "s \<in> set slots" for x y s
      using that by (simp add: list_all_iff install_outcome_known)
    with m show ?thesis unfolding r using dist
      by (auto simp: preview_installs_def install_plans_def per_nodes_def comp_def intro!: unknown_answered ok)
  next
    assume m: "\<not> list_all is_missing slots \<and> write_installs env sv db h [?plan] slots (ai_snapshot aim) = (db', changes)"
    define C where "C = classify_install sv (load_desired_map db name) (load_generation_map db) ?plan h True"
    have known: "list_ex (\<lambda>p. dp_outcome p \<noteq> ''node_unknown'') (map C slots)"
      using m by (simp add: list_ex_iff list_all_iff C_def install_outcome_known)
    obtain db2 op rid where p: "persist env db name (if list_ex dp_other (map C slots) then ''upgrade'' else ''install'')
        (Some (ip_version ?plan)) (Some (ip_capabilities ?plan)) False (map C slots) (ai_snapshot aim) = (db2, op, rid)"
      using prod_cases3 by blast
    from m p known have "db' = db2 \<and> sg_per_node (hd changes) = per_nodes (map C slots)"
      by (auto simp: write_install_def install_plans_def skill C_def [symmetric] Let_def)
    moreover have "answered db db2 name (\<lambda>n. Some (ip_version ?plan, norm_sha (ip_sha ?plan))) (per_nodes (map C slots))"
      by (rule persist_answered [OF ok p _ _ dist])
        (use install_wants [OF ok, of ?plan] in \<open>simp_all add: C_def skill\<close>)
    ultimately show ?thesis by (simp add: r w)
  qed
qed

definition rollback_plans ::
    "cenv \<Rightarrow> 'v semver \<Rightarrow> db \<Rightarrow> hub \<Rightarrow> str \<Rightarrow> 'v version_record option \<Rightarrow> slot list \<Rightarrow> desired_plan list" where
  "rollback_plans env sv db h name explicit slots = map (classify_rollback sv (load_desired_map db name)
     (load_generation_map db) explicit (load_versions env sv db name) h) slots"

definition uninstall_plans :: "db \<Rightarrow> hub \<Rightarrow> str \<Rightarrow> slot list \<Rightarrow> desired_plan list" where
  "uninstall_plans db h name slots =
     map (classify_uninstall (load_desired_map db name) (load_generation_map db) h) slots"

lemma rollback_Ok:
  assumes "rollback env sv db h name body = (db', Ok resp)"
  obtains explicit aim slots where
    "explicit_version (load_versions env sv db name) (bq_to_version body) = Ok explicit"
    "prepare_skill_aim env db h (bq_aim body) name = (db, Ok aim)" "prepare env db (ai_selection aim) = Ok slots"
    "list_all is_missing slots \<and> db' = db \<and> resp = missing_response slots
     \<or> (\<exists>op rid. persist env db name ''rollback'' (rollback_version explicit (rollback_plans env sv db h name explicit slots))
          None False (rollback_plans env sv db h name explicit slots)
          (ai_snapshot aim) = (db', op, rid)
        \<and> resp = written_response op rid (rollback_plans env sv db h name explicit slots))"
proof -
  from assms have n: "\<not> is_builtin_name name" "name \<in> set (t_skills db)"
    by (auto simp: rollback_def require_versions_def split: if_splits)
  with assms obtain explicit where e: "explicit_version (load_versions env sv db name) (bq_to_version body) = Ok explicit"
    by (auto simp: rollback_def require_versions_def split: sum.splits)
  with assms n obtain db1 aim where a: "prepare_skill_aim env db h (bq_aim body) name = (db1, Ok aim)"
    by (auto simp: rollback_def require_versions_def split: sum.splits prod.splits)
  then have d: "db1 = db" using prepare_skill_aim_cases by fastforce
  with assms n e a obtain slots where s: "prepare env db (ai_selection aim) = Ok slots"
    by (auto simp: rollback_def require_versions_def split: sum.splits)
  with assms n e a d obtain db2 u where g: "guard_aim env db slots aim = (db2, Ok u)"
    by (auto simp: rollback_def require_versions_def split: sum.splits prod.splits)
  then have d2: "db2 = db" using guard_aim_cases by fastforce
  show thesis
  proof (rule that [OF e a [unfolded d] s])
    let ?plans = "rollback_plans env sv db h name explicit slots"
    show "list_all is_missing slots \<and> db' = db \<and> resp = missing_response slots
      \<or> (\<exists>op rid. persist env db name ''rollback'' (rollback_version explicit ?plans) None False ?plans (ai_snapshot aim)
            = (db', op, rid) \<and> resp = written_response op rid ?plans)"
      using assms n e a [unfolded d] s g [unfolded d2]
      by (auto simp: rollback_def require_versions_def rollback_plans_def [symmetric] Let_def split: if_splits prod.splits)
  qed
qed

lemma uninstall_Ok:
  assumes "uninstall env sv db h name body = (db', Ok resp)"
  obtains aim slots where
    "prepare_skill_aim env db h (uq_aim body) name = (db, Ok aim)" "prepare env db (ai_selection aim) = Ok slots"
    "list_all is_missing slots \<and> db' = db \<and> resp = missing_response slots
     \<or> (uq_force body \<or> fst (skill_in_use env db slots name) = [])
       \<and> (\<exists>op rid. persist env db name ''uninstall'' None None (uq_force body)
            (uninstall_plans db h name slots) (ai_snapshot aim)
            = (db', op, rid)
         \<and> resp = written_response op rid (uninstall_plans db h name slots))"
proof -
  from assms have n: "\<not> is_builtin_name name" "name \<in> set (t_skills db)"
    by (auto simp: uninstall_def require_versions_def split: if_splits)
  with assms obtain db1 aim where a: "prepare_skill_aim env db h (uq_aim body) name = (db1, Ok aim)"
    by (auto simp: uninstall_def require_versions_def split: sum.splits prod.splits)
  then have d: "db1 = db" using prepare_skill_aim_cases by fastforce
  with assms n a obtain slots where s: "prepare env db (ai_selection aim) = Ok slots"
    by (auto simp: uninstall_def require_versions_def split: sum.splits)
  with assms n a d obtain db2 u where g: "guard_aim env db slots aim = (db2, Ok u)"
    by (auto simp: uninstall_def require_versions_def split: sum.splits prod.splits)
  then have d2: "db2 = db" using guard_aim_cases by fastforce
  obtain si hi where u: "skill_in_use env db slots name = (si, hi)" by (cases "skill_in_use env db slots name")
  show thesis
  proof (rule that [OF a [unfolded d] s])
    let ?plans = "uninstall_plans db h name slots"
    show "list_all is_missing slots \<and> db' = db \<and> resp = missing_response slots
      \<or> (uq_force body \<or> fst (skill_in_use env db slots name) = [])
        \<and> (\<exists>op rid. persist env db name ''uninstall'' None None (uq_force body) ?plans (ai_snapshot aim) = (db', op, rid)
           \<and> resp = written_response op rid ?plans)"
      using assms n a [unfolded d] s g [unfolded d2]
      by (auto simp: uninstall_def require_versions_def uninstall_plans_def [symmetric] u Let_def split: if_splits prod.splits)
  qed
qed

lemma rollback_answered:
  assumes ok: "desired_ok db" and i: "rollback env sv db h name body = (db', Ok resp)"
  shows "answered db db' name (wish_in env sv db name (Rollback body)) (cr_per_node resp)"
proof -
  from i obtain explicit aim slots where
    e: "explicit_version (load_versions env sv db name) (bq_to_version body) = Ok explicit" and
    a: "prepare_skill_aim env db h (bq_aim body) name = (db, Ok aim)" and s: "prepare env db (ai_selection aim) = Ok slots" and
    c: "list_all is_missing slots \<and> db' = db \<and> resp = missing_response slots
     \<or> (\<exists>op rid. persist env db name ''rollback'' (rollback_version explicit (rollback_plans env sv db h name explicit slots))
          None False (rollback_plans env sv db h name explicit slots)
          (ai_snapshot aim) = (db', op, rid)
        \<and> resp = written_response op rid (rollback_plans env sv db h name explicit slots))"
    by (rule rollback_Ok)
  have dist: "distinct (map slot_id slots)" by (rule prepare_distinct [OF ok s])
  have w: "wish_in env sv db name (Rollback body)
      = (\<lambda>n. rollback_wish sv explicit (load_versions env sv db name) (load_desired_map db name n))"
    by (simp add: wish_in_def Let_def e fun_eq_iff)
  from c show ?thesis
  proof
    assume "list_all is_missing slots \<and> db' = db \<and> resp = missing_response slots"
    with missing_answered [OF ok dist] show ?thesis by (simp add: missing_response_def)
  next
    assume "\<exists>op rid. persist env db name ''rollback'' (rollback_version explicit (rollback_plans env sv db h name explicit slots))
          None False (rollback_plans env sv db h name explicit slots)
          (ai_snapshot aim) = (db', op, rid)
        \<and> resp = written_response op rid (rollback_plans env sv db h name explicit slots)"
    then obtain op rid where p: "persist env db name ''rollback'' (rollback_version explicit
          (rollback_plans env sv db h name explicit slots)) None False (rollback_plans env sv db h name explicit slots)
          (ai_snapshot aim) = (db', op, rid)"
      and r: "resp = written_response op rid (rollback_plans env sv db h name explicit slots)" by blast
    from persist_answered [OF ok p [unfolded rollback_plans_def] rollback_wants [OF ok] classified_node(2) dist]
    show ?thesis unfolding w r by (simp add: written_response_def rollback_plans_def)
  qed
qed

lemma uninstall_answered:
  assumes ok: "desired_ok db" and i: "uninstall env sv db h name body = (db', Ok resp)"
  shows "answered db db' name (wish_in env sv db name (Uninstall body)) (cr_per_node resp)"
proof -
  from i obtain aim slots where
    a: "prepare_skill_aim env db h (uq_aim body) name = (db, Ok aim)" and s: "prepare env db (ai_selection aim) = Ok slots" and
    c: "list_all is_missing slots \<and> db' = db \<and> resp = missing_response slots
     \<or> (uq_force body \<or> fst (skill_in_use env db slots name) = [])
       \<and> (\<exists>op rid. persist env db name ''uninstall'' None None (uq_force body)
            (uninstall_plans db h name slots) (ai_snapshot aim)
            = (db', op, rid)
         \<and> resp = written_response op rid (uninstall_plans db h name slots))"
    by (rule uninstall_Ok)
  have dist: "distinct (map slot_id slots)" by (rule prepare_distinct [OF ok s])
  have w: "wish_in env sv db name (Uninstall body) = (\<lambda>n. None)" by (simp add: wish_in_def Let_def fun_eq_iff)
  from c show ?thesis unfolding w
  proof
    assume "list_all is_missing slots \<and> db' = db \<and> resp = missing_response slots"
    with missing_answered [OF ok dist] show "answered db db' name (\<lambda>n. None) (cr_per_node resp)"
      by (simp add: missing_response_def)
  next
    assume "(uq_force body \<or> fst (skill_in_use env db slots name) = []) \<and>
      (\<exists>op rid. persist env db name ''uninstall'' None None (uq_force body) (uninstall_plans db h name slots) (ai_snapshot aim)
        = (db', op, rid) \<and> resp = written_response op rid (uninstall_plans db h name slots))"
    then obtain op rid where p: "persist env db name ''uninstall'' None None (uq_force body) (uninstall_plans db h name slots) (ai_snapshot aim)
        = (db', op, rid)" and r: "resp = written_response op rid (uninstall_plans db h name slots)" by blast
    from persist_answered [OF ok p [unfolded uninstall_plans_def] uninstall_wants [OF ok] classified_node(3) dist]
    show "answered db db' name (\<lambda>n. None) (cr_per_node resp)" unfolding r
      by (simp add: written_response_def uninstall_plans_def)
  qed
qed

subsection \<open>A request that fails or runs dry\<close>

lemma apply_installs_unwritten:
  assumes "apply_installs env sv db h plans aim d = (db', r)" "\<not> is_ok r \<or> d"
  shows "audit_only db db'"
proof (cases "prepare env db (ai_selection aim)")
  case (Inr slots)
  obtain db1 g where "guard_aim env db slots aim = (db1, g)" by (cases "guard_aim env db slots aim")
  with guard_aim_cases [OF this] assms Inr show ?thesis
    by (cases g) (auto simp: apply_installs_def split: if_splits prod.splits)
qed (use assms in \<open>auto simp: apply_installs_def\<close>)

lemma apply_installs_nonempty:
  assumes "apply_installs env sv db h [plan] aim d = (db', Ok (changes, targets))"
  shows "changes \<noteq> []"
proof -
  from assms obtain slots where "prepare env db (ai_selection aim) = Ok slots" "guard_aim env db slots aim = (db, Ok ())"
    "(d \<or> list_all is_missing slots \<or> [plan] = []) \<and> db' = db \<and> fst (changes, targets) = preview_installs sv db h [plan] slots
      \<or> \<not> (d \<or> list_all is_missing slots \<or> [plan] = [])
        \<and> write_installs env sv db h [plan] slots (ai_snapshot aim) = (db', fst (changes, targets))"
    by (rule apply_installs_Ok)
  then show ?thesis by (auto simp: preview_installs_def split: prod.splits)
qed

lemma install_unwritten:
  fixes sv :: "'v semver"
  assumes "install env sv db h name body = (db', r)" "\<not> is_ok r \<or> iq_dry_run body"
  shows "audit_only db db'"
proof -
  obtain db1 ra where a: "prepare_skill_aim env db h (iq_aim body) name = (db1, ra)"
    by (cases "prepare_skill_aim env db h (iq_aim body) name")
  show ?thesis
  proof (cases ra)
    case (Inl e)
    with assms(1) a have "db' = db \<or> db' = db1"
      by (auto simp: install_def split: if_splits sum.splits option.splits)
    with prepare_skill_aim_cases [OF a] show ?thesis by auto
  next
    case (Inr aim)
    with prepare_skill_aim_cases [OF a] have d: "db1 = db" by simp
    define P where "P = (\<exists>(v :: 'v version_record) caps r2. apply_installs env sv db h [install_plan_of name v caps] aim (iq_dry_run body)
      = (db', r2) \<and> (is_ok r2 \<longrightarrow> is_ok r \<or> fst (projr r2) = []))"
    have PI: P if "apply_installs env sv db h [install_plan_of name v caps] aim (iq_dry_run body) = (db', r2)"
        "is_ok r2 \<longrightarrow> is_ok r \<or> fst (projr r2) = []" for v :: "'v version_record" and caps r2
      using that unfolding P_def by blast
    have "db' = db \<or> P"
      using assms(1) a unfolding Inr d
      by (auto simp: install_def install_plan_of_def [symmetric] Let_def intro: PI
          split: if_splits sum.splits option.splits prod.splits list.splits)
    then consider "db' = db" | v :: "'v version_record" and caps r2 where
        "apply_installs env sv db h [install_plan_of name v caps] aim (iq_dry_run body) = (db', r2)"
        "is_ok r2 \<longrightarrow> is_ok r \<or> fst (projr r2) = []"
      unfolding P_def by blast
    then show ?thesis
    proof cases
      case (2 v caps r2)
      have "\<not> is_ok r2 \<or> iq_dry_run body"
      proof (rule ccontr)
        assume n: "\<not> (\<not> is_ok r2 \<or> iq_dry_run body)"
        then obtain changes targets where r2: "r2 = Ok (changes, targets)" by (cases r2) auto
        with apply_installs_nonempty 2(1) have "changes \<noteq> []" by metis
        with 2(2) r2 n assms(2) show False by simp
      qed
      with 2(1) show ?thesis by (rule apply_installs_unwritten)
    qed simp
  qed
qed

lemma rollback_failed:
  assumes "rollback env sv db h name body = (db', Err e)"
  shows "audit_only db db'"
proof -
  obtain db1 ra where a: "prepare_skill_aim env db h (bq_aim body) name = (db1, ra)"
    by (cases "prepare_skill_aim env db h (bq_aim body) name")
  show ?thesis
  proof (cases ra)
    case (Inl x)
    with assms a have "db' = db \<or> db' = db1"
      by (auto simp: rollback_def split: if_splits sum.splits)
    with prepare_skill_aim_cases [OF a] show ?thesis by auto
  next
    case (Inr aim)
    with prepare_skill_aim_cases [OF a] have d: "db1 = db" by simp
    have "db' = db \<or> (\<exists>slots r2. guard_aim env db slots aim = (db', r2))"
      using assms a unfolding Inr d
      by (auto simp: rollback_def Let_def split: if_splits sum.splits prod.splits)
    with guard_aim_cases show ?thesis by fastforce
  qed
qed

lemma uninstall_failed:
  assumes "uninstall env sv db h name body = (db', Err e)"
  shows "audit_only db db'"
proof -
  obtain db1 ra where a: "prepare_skill_aim env db h (uq_aim body) name = (db1, ra)"
    by (cases "prepare_skill_aim env db h (uq_aim body) name")
  show ?thesis
  proof (cases ra)
    case (Inl x)
    with assms a have "db' = db \<or> db' = db1"
      by (auto simp: uninstall_def split: if_splits sum.splits)
    with prepare_skill_aim_cases [OF a] show ?thesis by auto
  next
    case (Inr aim)
    with prepare_skill_aim_cases [OF a] have d: "db1 = db" by simp
    have "db' = db \<or> (\<exists>slots r2. guard_aim env db slots aim = (db', r2))"
      using assms a unfolding Inr d
      by (auto simp: uninstall_def Let_def split: if_splits sum.splits prod.splits)
    with guard_aim_cases show ?thesis by fastforce
  qed
qed

subsection \<open>Refinement\<close>

lemma change_answered:
  assumes "desired_ok db" "change_skill env sv db h name c = (db', Ok resp)" "\<not> dry c"
  shows "answered db db' name (wish_in env sv db name c) (cr_per_node resp)"
  using assms install_answered [OF assms(1)] rollback_answered [OF assms(1)] uninstall_answered [OF assms(1)]
  by (cases c) (simp_all add: change_skill_def dry_def)

lemma change_unwritten:
  assumes "change_skill env sv db h name c = (db', r)" "\<not> is_ok r \<or> dry c"
  shows "audit_only db db'"
proof (cases c)
  case (Install b)
  with assms show ?thesis using install_unwritten [of env sv db h name b db' r] by (simp add: change_skill_def dry_def)
next
  case (Rollback b)
  with assms obtain e where "r = Err e" by (cases r) (auto simp: dry_def)
  with Rollback assms rollback_failed show ?thesis by (simp add: change_skill_def)
next
  case (Uninstall b)
  with assms obtain e where "r = Err e" by (cases r) (auto simp: dry_def)
  with Uninstall assms uninstall_failed show ?thesis by (simp add: change_skill_def)
qed

text \<open>
  C5. Install, rollback and uninstall refine one abstract operation on the desired skills of the fleet. A
  request that succeeds gives every node its answer names as pending, queued or already installed exactly
  the version and digest asked for (or nothing, for an uninstall), counts one generation for exactly the nodes where
  that is a change, touches no other node and no other skill, and reports for every node the generation it
  now has. A request that fails, or is a dry run, changes nothing but the audit log.
\<close>

theorem skill_changes_refine_fleet:
  assumes "desired_ok db" "change_skill env sv db h name c = (db', r)"
  shows "(case r of
      Inr resp \<Rightarrow> \<not> dry c \<longrightarrow>
        fleet_of db' = want_all name (wish_in env sv db name c) (addressed (cr_per_node resp)) (fleet_of db)
        \<and> distinct (map pn_node (cr_per_node resp))
        \<and> (\<forall>p \<in> set (cr_per_node resp). pn_outcome p \<noteq> ''node_unknown'' \<longrightarrow>
              pn_generation p = fst (fleet_of db' (pn_node p)))
    | Inl e \<Rightarrow> True)
    \<and> (\<not> is_ok r \<or> dry c \<longrightarrow> (\<exists>rows. db' = db\<lparr>t_audit := t_audit db @ rows\<rparr>))
    \<and> desired_ok db'"
proof (cases "is_ok r \<and> \<not> dry c")
  case True
  then obtain resp where r: "r = Ok resp" by (cases r) auto
  with change_answered [OF assms(1) assms(2) [unfolded r]] True show ?thesis by (simp add: answered_def)
next
  case False
  then have "audit_only db db'" using change_unwritten [OF assms(2)] by blast
  moreover from audit_only_frame(7) [OF this] assms(1) have "desired_ok db'" by simp
  moreover have "\<not> is_ok r \<or> dry c" using False by blast
  ultimately show ?thesis by (cases r) (simp_all add: audit_only_def)
qed

definition sample_semver :: "nat semver" where
  "sample_semver = \<lparr>sm_parse = (\<lambda>s. Some (length s)), sm_less = (<), sm_req = (\<lambda>r v. False)\<rparr>"

definition sample_catalog :: db where
  "sample_catalog = empty_db\<lparr>t_nodes := map sample_node [''n1'', ''n2''], t_skills := [''disk''],
     t_versions := [\<lparr>sv_skill = ''disk'', sv_version = ''1.0'', sv_sha = ''AB'', sv_status = ''published'',
       sv_min_node = None, sv_platforms = None, sv_capabilities_sha = ''cd'', sv_abi = ''1'', sv_size = 1\<rparr>],
     t_sets := [(''n2'', 4)],
     t_desired := [\<lparr>de_node = ''n2'', de_skill = ''disk'', de_version = ''1.0'', de_sha = ''ab'', de_operation = ''o''\<rparr>]\<rparr>"

definition sample_install :: "bool \<Rightarrow> change" where
  "sample_install d = Install \<lparr>iq_version = ''1.0'',
     iq_aim = \<lparr>af_node_ids = [''n1''], af_selector = Some [], af_target = None, af_confirm = None\<rparr>,
     iq_accepted = Some ''CD'', iq_dry_run = d\<rparr>"

lemma sample_catalog_ok: "desired_ok sample_catalog"
  by (simp add: desired_ok_def sample_catalog_def desired_key_def sample_node_def)

lemma install_accepts:
  assumes "\<not> is_builtin_name name" "require_versions env sv db name = Ok vs"
    "find (\<lambda>r. vr_version r = iq_version body) vs = Some v" "vr_status v \<notin> {''deprecated'', ''yanked''}"
    "accepted_hash (vr_capabilities v) (iq_accepted body) = Ok caps"
    "prepare_skill_aim env db h (iq_aim body) name = (db, Ok aim)" "prepare env db (ai_selection aim) = Ok slots"
    "guard_aim env db slots aim = (db, Ok ())" "\<not> iq_dry_run body" "\<not> list_all is_missing slots"
  shows "fst (install env sv db h name body)
      = fst (write_install env sv db h (install_plan_of name v caps) slots (ai_snapshot aim))
    \<and> is_ok (snd (install env sv db h name body))"
  using assms
  by (auto simp: install_def apply_installs_def install_plan_of_def [symmetric] Let_def split: prod.splits list.splits)

definition sample_slots :: "slot list" where
  "sample_slots = [Node \<lparr>ln_id = ''n1'', ln_version = ''1.0.0'', ln_labels = []\<rparr>,
     Node \<lparr>ln_id = ''n2'', ln_version = ''1.0.0'', ln_labels = []\<rparr>]"

definition sample_version :: "nat version_record" where
  "sample_version = \<lparr>vr_version = ''1.0'', vr_sha = ''AB'', vr_status = ''published'', vr_min_node = None,
     vr_platforms = [], vr_capabilities = ''cd'', vr_semver = Some 3\<rparr>"

definition sample_written :: db where
  "sample_written = fst (write_install (sample_cenv 0) sample_semver sample_catalog hub_new
     (install_plan_of ''disk'' sample_version ''cd'') sample_slots None)"

lemma sample_install_runs:
  "\<exists>resp. change_skill (sample_cenv 0) sample_semver sample_catalog hub_new ''disk'' (sample_install False)
     = (sample_written, Ok resp)"
proof -
  let ?b = "\<lparr>iq_version = ''1.0'', iq_aim = \<lparr>af_node_ids = [''n1''], af_selector = Some [], af_target = None, af_confirm = None\<rparr>,
     iq_accepted = Some ''CD'', iq_dry_run = False\<rparr>"
  let ?i = "install (sample_cenv 0) sample_semver sample_catalog hub_new ''disk'' ?b"
  define aim where "aim = \<lparr>ai_selection = selection_new [''n1''] (Some []), ai_snapshot = None, ai_confirm = None, ai_audit_id = ''disk''\<rparr>"
  have a: "\<not> is_builtin_name ''disk''" by code_simp
  have v: "load_versions (sample_cenv 0) sample_semver sample_catalog ''disk'' = [sample_version]" by code_simp
  have b: "require_versions (sample_cenv 0) sample_semver sample_catalog ''disk'' = Ok [sample_version]"
    unfolding require_versions_def v by (simp add: sample_catalog_def)
  have c: "accepted_hash ''cd'' (Some ''CD'') = Ok ''cd''" by code_simp
  have p: "prepare_skill_aim (sample_cenv 0) sample_catalog hub_new (iq_aim ?b) ''disk'' = (sample_catalog, Ok aim)"
    by (simp add: prepare_skill_aim_def aim_def)
  have s: "prepare (sample_cenv 0) sample_catalog (ai_selection aim) = Ok sample_slots" unfolding aim_def by code_simp
  have pr: "prod_ids_among sample_catalog (map slot_id (filter (\<lambda>s. \<not> is_missing s) sample_slots)) = []" by code_simp
  have g: "guard_aim (sample_cenv 0) sample_catalog sample_slots aim = (sample_catalog, Ok ())"
    by (simp add: guard_aim_def ensure_prod_confirm_def pr)
  have "fst ?i = fst (write_install (sample_cenv 0) sample_semver sample_catalog hub_new
      (install_plan_of ''disk'' sample_version ''cd'') sample_slots (ai_snapshot aim)) \<and> is_ok (snd ?i)"
    by (rule install_accepts [OF a b _ _ _ p s g]) (simp_all add: sample_version_def sample_slots_def c)
  then have "fst ?i = sample_written" "is_ok (snd ?i)" by (simp_all add: sample_written_def aim_def)
  then show ?thesis unfolding change_skill_def sample_install_def
    by (cases ?i; cases "snd ?i") auto
qed

lemma skill_changes_refine_fleet_witness:
  "\<exists>resp. change_skill (sample_cenv 0) sample_semver sample_catalog hub_new ''disk'' (sample_install False)
        = (sample_written, Ok resp)
     \<and> fleet_of sample_written = want_all ''disk''
         (wish_in (sample_cenv 0) sample_semver sample_catalog ''disk'' (sample_install False))
         (addressed (cr_per_node resp)) (fleet_of sample_catalog)"
proof -
  obtain resp where r: "change_skill (sample_cenv 0) sample_semver sample_catalog hub_new ''disk'' (sample_install False)
      = (sample_written, Ok resp)"
    using sample_install_runs by blast
  have "\<not> dry (sample_install False)" by (simp add: dry_def sample_install_def)
  with skill_changes_refine_fleet [OF sample_catalog_ok r] r show ?thesis by auto
qed

subsection \<open>The generation identifies the desired skills\<close>

text \<open>
  A step is a request on a skill, or any other change of the database that leaves the two tables alone.
\<close>

inductive skill_step :: "'v semver \<Rightarrow> db \<Rightarrow> db \<Rightarrow> bool" for sv where
  change: "change_skill env sv db h name c = (db', r) \<Longrightarrow> skill_step sv db db'"
| other: "t_sets db' = t_sets db \<Longrightarrow> t_desired db' = t_desired db \<Longrightarrow> distinct (map nd_id (t_nodes db')) \<Longrightarrow>
    skill_step sv db db'"

definition counted :: "fleet \<Rightarrow> fleet \<Rightarrow> bool" where
  "counted f g = (\<forall>n. fst (f n) \<le> fst (g n) \<and> (fst (g n) = fst (f n) \<longrightarrow> snd (g n) = snd (f n)))"

lemma counted_refl [simp]: "counted f f"
  by (simp add: counted_def)

lemma counted_trans: "counted f g \<Longrightarrow> counted g k \<Longrightarrow> counted f k"
  unfolding counted_def by (metis (no_types) eq_iff order_trans)

lemma want_counted: "counted f (want skill w n f)"
  by (simp add: counted_def want_def)

lemma want_all_counted: "counted f (want_all skill w ns f)"
proof (induction ns arbitrary: f)
  case (Cons n ns)
  from counted_trans [OF want_counted Cons.IH] show ?case by (simp add: want_all_def)
qed (simp add: want_all_def)

lemma change_counted:
  assumes "desired_ok db" "change_skill env sv db h name c = (db', r)"
  shows "counted (fleet_of db) (fleet_of db') \<and> desired_ok db'"
proof (cases "is_ok r \<and> \<not> dry c")
  case True
  then obtain resp where r: "r = Ok resp" by (cases r) auto
  with change_answered [OF assms(1) assms(2) [unfolded r]] True show ?thesis by (simp add: answered_def want_all_counted)
next
  case False
  with change_unwritten [OF assms(2)] have a: "audit_only db db'" by blast
  from audit_only_frame(6,7) [OF a] assms(1) show ?thesis by simp
qed

lemma skill_step_counted:
  assumes "skill_step sv db db'" "desired_ok db"
  shows "counted (fleet_of db) (fleet_of db') \<and> desired_ok db'"
  using assms
proof cases
  case (change env h name c r)
  with change_counted [OF assms(2)] show ?thesis by blast
next
  case other
  then have "fleet_of db' = fleet_of db" by (intro fleet_of_cong)
  moreover have "desired_ok db'" using other assms(2) unfolding desired_ok_def by (simp only: simp_thms)
  ultimately show ?thesis by simp
qed


lemma sample_step: "skill_step sample_semver sample_catalog sample_written"
  using sample_install_runs skill_step.change by blast

lemma sample_fleet_after:
  "fst (fleet_of sample_written ''n1'') = 1" "fst (fleet_of sample_catalog ''n1'') = 0"
  "snd (fleet_of sample_written ''n1'') ''disk'' = Some (''1.0'', ''ab'')" "snd (fleet_of sample_catalog ''n1'') ''disk'' = None"
proof -
  have w: "t_desired sample_written = t_desired sample_catalog
      @ [\<lparr>de_node = ''n1'', de_skill = ''disk'', de_version = ''1.0'', de_sha = ''AB'', de_operation = []\<rparr>]"
    by code_simp
  have s: "t_sets sample_written = [(''n2'', 4), (''n1'', 1)]" by code_simp
  have n: "norm_sha ''AB'' = ''ab''" by code_simp
  show "fst (fleet_of sample_written ''n1'') = 1" by (simp add: fleet_of_def s)
  show "snd (fleet_of sample_written ''n1'') ''disk'' = Some (''1.0'', ''ab'')"
    by (simp add: fleet_of_def w row_at_append sample_catalog_def desired_key_def wish_of_def n)
qed (simp_all add: fleet_of_def sample_catalog_def desired_key_def)


subsection \<open>A dry run predicts the run\<close>

definition outcomes_of :: "per_node list \<Rightarrow> (str \<times> str) list" where
  "outcomes_of ps = map (\<lambda>p. (pn_node p, pn_outcome p)) ps"

definition predicts ::
    "(per_node list, desired_error) result \<Rightarrow> (per_node list, desired_error) result \<Rightarrow> bool" where
  "predicts a b = (case (a, b) of
       (Inr p, Inr q) \<Rightarrow> outcomes_of p = outcomes_of q | (Inl e, Inl e') \<Rightarrow> e = e' | _ \<Rightarrow> False)"

definition answer_nodes :: "(change_response, 'e) result \<Rightarrow> (per_node list, 'e) result" where
  "answer_nodes r = map_sum id cr_per_node r"

lemma classify_install_same:
  "dp_node (classify_install sv x y plan h True s) = dp_node (classify_install sv x y plan h False s)
   \<and> dp_outcome (classify_install sv x y plan h True s) = dp_outcome (classify_install sv x y plan h False s)"
  by (cases s) (simp_all add: classify_install_def missing_plan_def hold_def write_plan_def Let_def)

lemma outcomes_same:
  "outcomes_of (per_nodes (install_plans sv db plan h True slots)) = outcomes_of (per_nodes (install_plans sv db plan h False slots))"
  by (simp add: outcomes_of_def per_nodes_def install_plans_def classify_install_same)

lemma write_install_nodes:
  "sg_per_node (snd (write_install env sv db h plan slots snapshot)) = per_nodes (install_plans sv db plan h True slots)"
  by (simp add: write_install_def Let_def split: prod.splits)

lemma apply_installs_predicts:
  "predicts (map_sum id (\<lambda>x. sg_per_node (hd (fst x))) (snd (apply_installs env sv db h [plan] aim True)))
     (map_sum id (\<lambda>x. sg_per_node (hd (fst x))) (snd (apply_installs env sv db h [plan] aim False)))"
proof (cases "prepare env db (ai_selection aim)")
  case (Inr slots)
  obtain db1 g where g: "guard_aim env db slots aim = (db1, g)" by (cases "guard_aim env db slots aim")
  obtain db2 ch where w: "write_install env sv db1 h plan slots (ai_snapshot aim) = (db2, ch)"
    by (cases "write_install env sv db1 h plan slots (ai_snapshot aim)")
  with write_install_nodes have n: "sg_per_node ch = per_nodes (install_plans sv db1 plan h True slots)" by (metis snd_conv)
  show ?thesis
    using Inr g w n
    by (cases g) (auto simp: apply_installs_def predicts_def preview_installs_def outcomes_same)
qed (simp add: apply_installs_def predicts_def)

lemma install_predicts:
  "predicts (answer_nodes (snd (install env sv db h name (body\<lparr>iq_dry_run := True\<rparr>))))
     (answer_nodes (snd (install env sv db h name (body\<lparr>iq_dry_run := False\<rparr>))))"
proof (cases "is_builtin_name name \<or> \<not> is_ok (require_versions env sv db name)")
  case True
  then show ?thesis by (auto simp: install_def predicts_def answer_nodes_def is_ok_def split: sum.splits)
next
  case False
  then obtain vs where r: "\<not> is_builtin_name name" "require_versions env sv db name = Ok vs"
    by (cases "require_versions env sv db name") auto
  show ?thesis
  proof (cases "find (\<lambda>r. vr_version r = iq_version body) vs")
    case None
    with r show ?thesis by (simp add: install_def predicts_def answer_nodes_def)
  next
    case (Some v)
    show ?thesis
    proof (cases "vr_status v \<in> {''deprecated'', ''yanked''} \<or> \<not> is_ok (accepted_hash (vr_capabilities v) (iq_accepted body))")
      case True
      with r Some show ?thesis
        by (auto simp: install_def predicts_def answer_nodes_def is_ok_def split: sum.splits)
    next
      case False
      then obtain caps where c: "vr_status v \<notin> {''deprecated'', ''yanked''}"
          "accepted_hash (vr_capabilities v) (iq_accepted body) = Ok caps"
        by (cases "accepted_hash (vr_capabilities v) (iq_accepted body)") auto
      obtain db1 a where a: "prepare_skill_aim env db h (iq_aim body) name = (db1, a)"
        by (cases "prepare_skill_aim env db h (iq_aim body) name")
      show ?thesis
      proof (cases a)
        case (Inl e)
        with r Some c a show ?thesis by (simp add: install_def predicts_def answer_nodes_def)
      next
        case (Inr aim)
        define ap where "ap = apply_installs env sv db1 h [install_plan_of name v caps] aim"
        have i: "answer_nodes (snd (install env sv db h name (body\<lparr>iq_dry_run := d\<rparr>)))
            = map_sum id (\<lambda>x. sg_per_node (hd (fst x))) (snd (ap d))" for d
        proof -
          obtain db2 r2 where p: "ap d = (db2, r2)" by (cases "ap d")
          show ?thesis
          proof (cases r2)
            case (Inr ct)
            obtain changes targets where ct: "ct = (changes, targets)" by (cases ct)
            with p Inr have "changes \<noteq> []" unfolding ap_def using apply_installs_nonempty by metis
            then obtain ch chs where "changes = ch # chs" by (cases changes) auto
            with r Some c a p Inr ct \<open>a = Inr aim\<close> show ?thesis
              by (simp add: install_def answer_nodes_def install_plan_of_def [symmetric] ap_def)
          qed (use r Some c a p \<open>a = Inr aim\<close> in \<open>simp add: install_def answer_nodes_def install_plan_of_def [symmetric] ap_def\<close>)
        qed
        show ?thesis unfolding i ap_def by (rule apply_installs_predicts)
      qed
    qed
  qed
qed

text \<open>
  C35. The dry run of an install tells what the install would do: from the same state it gives the same error or
  the same outcome for the same nodes in the same order, and changes nothing but the audit log.
\<close>

theorem install_dry_run_predicts:
  "predicts (answer_nodes (snd (install env sv db h name (body\<lparr>iq_dry_run := True\<rparr>))))
     (answer_nodes (snd (install env sv db h name (body\<lparr>iq_dry_run := False\<rparr>))))
   \<and> (\<exists>rows. fst (install env sv db h name (body\<lparr>iq_dry_run := True\<rparr>)) = db\<lparr>t_audit := t_audit db @ rows\<rparr>)"
proof -
  have "audit_only db (fst (install env sv db h name (body\<lparr>iq_dry_run := True\<rparr>)))"
    by (rule install_unwritten [OF prod.collapse [symmetric]]) simp
  with install_predicts show ?thesis by (auto simp: audit_only_def)
qed

subsection \<open>What is desired comes from the catalog\<close>

lemma max_semver_member: "max_semver sv rows = Some r \<Longrightarrow> r \<in> set rows"
proof -
  define g where "g = (\<lambda>best (r :: 'a version_record). case best of None \<Rightarrow> Some r
       | Some b \<Rightarrow> (case (vr_semver r, vr_semver b) of
           (Some x, Some y) \<Rightarrow> if sm_less sv x y then Some b else Some r
         | (None, Some y) \<Rightarrow> Some b | _ \<Rightarrow> Some r))"
  have g: "g best r = best \<or> g best r = Some r" for best r
    by (cases best; cases "vr_semver r"; cases "vr_semver (the best)") (simp_all add: g_def)
  have "foldl g best rows = best \<or> (\<exists>r \<in> set rows. foldl g best rows = Some r)" for best
  proof (induction rows arbitrary: best)
    case (Cons a rows)
    from Cons.IH [of "g best a"] g [of best a] show ?case by (metis foldl_Cons list.set_intros)
  qed simp
  from this [of None] show "max_semver sv rows = Some r \<Longrightarrow> r \<in> set rows"
    unfolding max_semver_def g_def by auto
qed

text \<open>A wish the catalog backs: a version of the skill with this digest that may be given to nodes.\<close>

definition backed :: "db \<Rightarrow> str \<Rightarrow> wish \<Rightarrow> bool" where
  "backed db name w = list_ex (\<lambda>v. sv_skill v = name \<and> sv_version v = fst w \<and> norm_sha (sv_sha v) = snd w
     \<and> sv_status v \<noteq> ''yanked'') (t_versions db)"

lemma norm_sha_trim [simp]: "norm_sha (trim s) = norm_sha s"
  by (simp add: norm_sha_def)

lemma version_backed:
  "r \<in> set (load_versions env sv db name) \<Longrightarrow> vr_status r \<noteq> ''yanked'' \<Longrightarrow> backed db name (vr_version r, norm_sha (vr_sha r))"
  by (auto simp: load_versions_def version_record_of_def backed_def list_ex_iff)

lemma rollback_target_member:
  assumes "explicit_version versions v = Ok e" "rollback_target sv e versions d = Some t"
  shows "t \<in> set versions \<and> vr_status t \<noteq> ''yanked''"
proof (cases e)
  case (Some r)
  with assms show ?thesis by (auto simp: explicit_version_def rollback_target_def find_Some_iff split: option.splits if_splits)
next
  case None
  with assms(2) obtain cur where "previous_version sv versions cur = Some t"
    by (auto simp: rollback_target_def split: option.splits)
  from max_semver_member [OF this [unfolded previous_version_def]] show ?thesis by auto
qed

lemma wish_backed:
  assumes "change_skill env sv db h name c = (db', Ok resp)" "wish_in env sv db name c n = Some w"
  shows "backed db name w"
proof (cases c)
  case (Install b)
  with assms(1) have i: "install env sv db h name b = (db', Ok resp)" by (simp add: change_skill_def)
  obtain v where v: "find (\<lambda>r. vr_version r = iq_version b) (load_versions env sv db name) = Some v"
    "vr_status v \<notin> {''deprecated'', ''yanked''}"
    by (rule install_Ok [OF i])
  from v(1) have "v \<in> set (load_versions env sv db name)" by (auto simp: find_Some_iff)
  from version_backed [OF this] v assms(2) Install show ?thesis by (auto simp: wish_in_def)
next
  case (Rollback b)
  with assms(2) obtain e t where "explicit_version (load_versions env sv db name) (bq_to_version b) = Ok e"
      "rollback_target sv e (load_versions env sv db name) (load_desired_map db name n) = Some t"
      "w = (vr_version t, norm_sha (vr_sha t))"
    by (auto simp: wish_in_def rollback_wish_def Let_def split: sum.splits)
  with rollback_target_member version_backed show ?thesis by metis
qed (use assms(2) in \<open>simp add: wish_in_def Let_def\<close>)

lemma want_all_at:
  "snd (want_all skill w ns f n) s = snd (f n) s \<or> (s = skill \<and> snd (want_all skill w ns f n) s = w n)"
proof (induction ns arbitrary: f)
  case (Cons a ns)
  have "snd (want skill (w a) a f n) s = snd (f n) s \<or> (s = skill \<and> snd (want skill (w a) a f n) s = w n)"
    by (auto simp: want_def)
  with Cons.IH [of "want skill (w a) a f"] show ?case by (auto simp: want_all_def)
qed (simp add: want_all_def)

text \<open>
  C7. A node is only ever told to have what the catalog holds: when a request leaves a node with a version
  and digest it was not to have before, that is for the skill of the request, the catalog has a
  version of it with this digest that is not yanked, and an install of it has accepted exactly the capabilities
  stored with that version.
\<close>

theorem new_wishes_from_catalog:
  assumes "desired_ok db" "change_skill env sv db h name c = (db', r)"
    "snd (fleet_of db' n) s = Some w" "snd (fleet_of db n) s \<noteq> Some w"
  shows "s = name \<and> \<not> is_builtin_name name \<and> backed db name w
    \<and> (case c of Install b \<Rightarrow> (\<exists>v \<in> set (t_versions db). sv_skill v = name \<and> sv_version v = iq_version b
          \<and> (\<exists>a. iq_accepted b = Some a \<and> norm_sha a = norm_sha (sv_capabilities_sha v))) | _ \<Rightarrow> True)"
proof -
  have ok: "is_ok r \<and> \<not> dry c"
  proof (rule ccontr)
    assume "\<not> (is_ok r \<and> \<not> dry c)"
    with change_unwritten [OF assms(2)] have "audit_only db db'" by blast
    with audit_only_frame(6) assms(3,4) show False by metis
  qed
  then obtain resp where r: "r = Ok resp" by (cases r) auto
  from change_answered [OF assms(1) assms(2) [unfolded r]] ok
  have "fleet_of db' = want_all name (wish_in env sv db name c) (addressed (cr_per_node resp)) (fleet_of db)"
    by (simp add: answered_def)
  with want_all_at assms(3,4) have w: "s = name" "wish_in env sv db name c n = Some w" by metis+
  have "\<not> is_builtin_name name"
    using assms(2) r by (cases c) (auto simp: change_skill_def install_def rollback_def uninstall_def)
  moreover have "case c of Install b \<Rightarrow> (\<exists>v \<in> set (t_versions db). sv_skill v = name \<and> sv_version v = iq_version b
          \<and> (\<exists>a. iq_accepted b = Some a \<and> norm_sha a = norm_sha (sv_capabilities_sha v))) | _ \<Rightarrow> True"
  proof (cases c)
    case (Install b)
    with assms(2) r have i: "install env sv db h name b = (db', Ok resp)" by (simp add: change_skill_def)
    obtain v caps where v: "find (\<lambda>r. vr_version r = iq_version b) (load_versions env sv db name) = Some v"
      and a: "accepted_hash (vr_capabilities v) (iq_accepted b) = Ok caps"
      by (rule install_Ok [OF i])
    from v have "v \<in> set (load_versions env sv db name)" "vr_version v = iq_version b" by (auto simp: find_Some_iff)
    then obtain row where "row \<in> set (t_versions db)" "sv_skill row = name" "v = version_record_of env sv row"
        "vr_version v = iq_version b"
      by (auto simp: load_versions_def)
    with a Install show ?thesis
      by (auto simp: version_record_of_def accepted_hash_def trimmed_def eq_ignore_ascii_case_def norm_sha_def Let_def
          split: option.splits if_splits intro!: bexI [of _ row])
  qed simp_all
  ultimately show ?thesis using w wish_backed [OF assms(2) [unfolded r]] by blast
qed

lemma new_wishes_from_catalog_witness:
  "snd (fleet_of sample_written ''n1'') ''disk'' = Some (''1.0'', ''ab'') \<and> backed sample_catalog ''disk'' (''1.0'', ''ab'')"
proof -
  obtain resp where r: "change_skill (sample_cenv 0) sample_semver sample_catalog hub_new ''disk'' (sample_install False)
      = (sample_written, Ok resp)"
    using sample_install_runs by blast
  have "snd (fleet_of sample_catalog ''n1'') ''disk'' \<noteq> Some (''1.0'', ''ab'')" by (simp add: sample_fleet_after)
  from new_wishes_from_catalog [OF sample_catalog_ok r sample_fleet_after(3) this] sample_fleet_after(3) show ?thesis by blast
qed

subsection \<open>Skills in use\<close>

lemma push_unique_values: "set (push_unique out v) = (if v = [] then set out else insert v (set out))"
  by (auto simp: push_unique_def)

lemma collect_spec_ids_set:
  "set (collect_spec_ids env specs skill ids)
     = set ids \<union> {i. i \<noteq> [] \<and> (\<exists>spec \<in> set (json_items env specs). spec_uses skill spec \<and> str_field spec ''id'' = Some i)}"
proof -
  have "set (foldl (\<lambda>out spec. if spec_uses skill spec
         then (case str_field spec ''id'' of Some i \<Rightarrow> push_unique out i | None \<Rightarrow> out) else out) ids items)
     = set ids \<union> {i. i \<noteq> [] \<and> (\<exists>spec \<in> set items. spec_uses skill spec \<and> str_field spec ''id'' = Some i)}" for items
    by (induction items arbitrary: ids) (auto simp: push_unique_values split: option.splits)
  then show ?thesis by (simp add: collect_spec_ids_def)
qed

lemma skill_in_use_specs:
  "i \<in> set (fst (skill_in_use env db slots skill)) \<longleftrightarrow>
   i \<noteq> [] \<and> (\<exists>cfg \<in> set (slot_configs db slots). \<exists>spec \<in> set (json_items env (cf_specs cfg)).
      spec_uses skill spec \<and> str_field spec ''id'' = Some i)"
proof -
  have F: "set (foldl (\<lambda>ids c. collect_spec_ids env (cf_specs c) skill ids) ids cs) = set ids \<union>
      {i. i \<noteq> [] \<and> (\<exists>cfg \<in> set cs. \<exists>spec \<in> set (json_items env (cf_specs cfg)). spec_uses skill spec \<and> str_field spec ''id'' = Some i)}"
    for ids cs by (induction cs arbitrary: ids) (auto simp: collect_spec_ids_set)
  show ?thesis by (simp add: skill_in_use_def Let_def F)
qed

text \<open>
  C36. Without \<open>force\<close> no skill is taken from a node that uses it: when an uninstall succeeds, no named
  skill spec in the configuration of a node of its answer refers to the skill.
\<close>

theorem uninstall_keeps_used_skills:
  assumes "desired_ok db" "uninstall env sv db h name body = (db', Ok resp)" "\<not> uq_force body"
    "p \<in> set (cr_per_node resp)" "pn_outcome p \<noteq> ''node_unknown''" "row_at cf_node (t_configs db) (pn_node p) = Some cfg"
    "spec \<in> set (json_items env (cf_specs cfg))" "spec_uses name spec"
  shows "str_field spec ''id'' = None \<or> str_field spec ''id'' = Some []"
proof (rule ccontr)
  assume "\<not> (str_field spec ''id'' = None \<or> str_field spec ''id'' = Some [])"
  then obtain i where i: "str_field spec ''id'' = Some i" "i \<noteq> []" by auto
  obtain aim slots where a: "prepare_skill_aim env db h (uq_aim body) name = (db, Ok aim)"
    and s: "prepare env db (ai_selection aim) = Ok slots"
    and c: "list_all is_missing slots \<and> db' = db \<and> resp = missing_response slots
     \<or> (uq_force body \<or> fst (skill_in_use env db slots name) = [])
       \<and> (\<exists>op rid. persist env db name ''uninstall'' None None (uq_force body) (uninstall_plans db h name slots) (ai_snapshot aim)
            = (db', op, rid) \<and> resp = written_response op rid (uninstall_plans db h name slots))"
    by (rule uninstall_Ok [OF assms(2)])
  from c show False
  proof
    assume "list_all is_missing slots \<and> db' = db \<and> resp = missing_response slots"
    with assms(4,5) show False by (auto simp: missing_response_def missing_per_node_def)
  next
    assume u: "(uq_force body \<or> fst (skill_in_use env db slots name) = [])
       \<and> (\<exists>op rid. persist env db name ''uninstall'' None None (uq_force body) (uninstall_plans db h name slots) (ai_snapshot aim)
            = (db', op, rid) \<and> resp = written_response op rid (uninstall_plans db h name slots))"
    then have "cr_per_node resp = per_nodes (uninstall_plans db h name slots)" by (auto simp: written_response_def)
    with assms(4) obtain s where s: "s \<in> set slots" "slot_id s = pn_node p"
        "pn_outcome p = dp_outcome (classify_uninstall (load_desired_map db name) (load_generation_map db) h s)"
      by (auto simp: per_nodes_def uninstall_plans_def)
    with assms(5) have "\<not> is_missing s" by (cases s) (auto simp: classify_uninstall_def missing_plan_def)
    with s assms(6) have "cfg \<in> set (slot_configs db slots)"
      by (auto simp: slot_configs_def map_filter_members intro!: bexI [of _ s])
    with i assms(7,8) have "i \<in> set (fst (skill_in_use env db slots name))" by (auto simp: skill_in_use_specs)
    with u assms(3) show False by simp
  qed
qed

lemma uninstall_accepts:
  assumes "\<not> is_builtin_name name" "require_versions env sv db name = Ok vs"
    "prepare_skill_aim env db h (uq_aim body) name = (db, Ok aim)" "prepare env db (ai_selection aim) = Ok slots"
    "guard_aim env db slots aim = (db, Ok ())" "\<not> list_all is_missing slots" "fst (skill_in_use env db slots name) = []"
  shows "\<exists>db' resp. uninstall env sv db h name body = (db', Ok resp) \<and> cr_per_node resp = per_nodes (uninstall_plans db h name slots)"
  using assms
  by (auto simp: uninstall_def uninstall_plans_def [symmetric] written_response_def Let_def split: prod.splits)

definition nameless_spec :: json where
  "nameless_spec = JObj [(''kind'', JStr ''skill''), (''params'', JObj [(''skill'', JStr ''disk'')])]"

definition sample_using :: db where
  "sample_using = sample_catalog\<lparr>t_configs :=
     [\<lparr>cf_node = ''n2'', cf_generation = 1, cf_specs = ''S'', cf_schedules = ''[]''\<rparr>]\<rparr>"

definition specs_env :: cenv where
  "specs_env = (sample_cenv 0)\<lparr>ce_parse := (\<lambda>s. if s = ''S'' then Some (JArr [nameless_spec]) else Some (JObj []))\<rparr>"

definition sample_uninstall :: uninstall_request where
  "sample_uninstall = \<lparr>uq_aim = \<lparr>af_node_ids = [''n2''], af_selector = Some [(''os'', ''x'')], af_target = None, af_confirm = None\<rparr>,
     uq_force = False\<rparr>"

lemma uninstall_keeps_used_skills_witness:
  "\<exists>db' resp p. uninstall specs_env sample_semver sample_using hub_new ''disk'' sample_uninstall = (db', Ok resp)
     \<and> p \<in> set (cr_per_node resp) \<and> pn_node p = ''n2'' \<and> pn_outcome p = ''queued''
     \<and> spec_uses ''disk'' nameless_spec \<and> (str_field nameless_spec ''id'' = None \<or> str_field nameless_spec ''id'' = Some [])"
proof -
  define aim where "aim = \<lparr>ai_selection = selection_new [''n2''] (Some [(''os'', ''x'')]), ai_snapshot = None,
    ai_confirm = None, ai_audit_id = ''disk''\<rparr>"
  define slots where "slots = [Node \<lparr>ln_id = ''n2'', ln_version = ''1.0.0'', ln_labels = []\<rparr>]"
  have ok: "desired_ok sample_using" using sample_catalog_ok by (simp add: desired_ok_def sample_using_def)
  have a: "\<not> is_builtin_name ''disk''" by code_simp
  have b: "require_versions specs_env sample_semver sample_using ''disk''
      = Ok (load_versions specs_env sample_semver sample_using ''disk'')"
    by (simp add: require_versions_def sample_using_def sample_catalog_def)
  have p: "prepare_skill_aim specs_env sample_using hub_new (uq_aim sample_uninstall) ''disk'' = (sample_using, Ok aim)"
    by (simp add: prepare_skill_aim_def aim_def sample_uninstall_def)
  have s: "prepare specs_env sample_using (ai_selection aim) = Ok slots" unfolding aim_def slots_def by code_simp
  have pr: "prod_ids_among sample_using [''n2''] = []" by code_simp
  have g: "guard_aim specs_env sample_using slots aim = (sample_using, Ok ())"
    by (simp add: guard_aim_def ensure_prod_confirm_def slots_def pr)
  have u: "fst (skill_in_use specs_env sample_using slots ''disk'') = []" unfolding slots_def by code_simp
  obtain db' resp where run: "uninstall specs_env sample_semver sample_using hub_new ''disk'' sample_uninstall = (db', Ok resp)"
    and ps: "cr_per_node resp = per_nodes (uninstall_plans sample_using hub_new ''disk'' slots)"
    using uninstall_accepts [OF a b p s g _ u] by (auto simp: slots_def)
  have one: "per_nodes (uninstall_plans sample_using hub_new ''disk'' slots)
      = [\<lparr>pn_node = ''n2'', pn_outcome = ''queued'', pn_generation = 5\<rparr>]" unfolding slots_def by code_simp
  let ?p = "\<lparr>pn_node = ''n2'', pn_outcome = ''queued'', pn_generation = 5\<rparr>"
  have m: "?p \<in> set (cr_per_node resp)" by (simp add: ps one)
  have c: "row_at cf_node (t_configs sample_using) (pn_node ?p)
      = Some \<lparr>cf_node = ''n2'', cf_generation = 1, cf_specs = ''S'', cf_schedules = ''[]''\<rparr>"
    by (simp add: sample_using_def)
  have i: "nameless_spec \<in> set (json_items specs_env
      (cf_specs \<lparr>cf_node = ''n2'', cf_generation = 1, cf_specs = ''S'', cf_schedules = ''[]''\<rparr>))"
    by (simp add: json_items_def specs_env_def)
  have k: "spec_uses ''disk'' nameless_spec" by code_simp
  have f: "\<not> uq_force sample_uninstall" by (simp add: sample_uninstall_def)
  have o: "pn_outcome ?p \<noteq> ''node_unknown''" by simp
  show ?thesis
    using uninstall_keeps_used_skills [OF ok run f m o c i k] run m k
    by (intro exI [of _ db'] exI [of _ resp] exI [of _ ?p]) simp
qed

end
