(* ===== verification/Delivery.thy ===== *)
theory Delivery
  imports Desired_Props Hub
begin

text \<open>
  \<open>crates/novbot-center/src/skill_delivery.rs\<close> and \<open>artifact.rs\<close>: what a node is told to have, with a
  ticket for each package, the chunks in which a package is sent, and what the report of a node
  changes. The fresh tickets are the argument \<open>fresh\<close>, which gives the ticket for a place in the list.
  The table \<open>skill_versions\<close> of the migrations has no column \<open>signature_json\<close>, so the envelope is empty.
\<close>

subsection \<open>What a node is told\<close>

definition CHUNK_BYTES :: nat where "CHUNK_BYTES = 256 * 1024"

definition QUOTA :: int where "QUOTA = 256 * 1024 * 1024"

definition rejection_log :: "str \<Rightarrow> str" where
  "rejection_log reason = ''fetch ticket rejected reason='' @ reason"

definition skill_generation :: "db \<Rightarrow> str \<Rightarrow> int" where
  "skill_generation db node_id = unwrap_or (map_option snd (row_at fst (t_sets db) node_id)) 0"

record skill_ref =
  sr_name :: str
  sr_version :: str
  sr_sha :: str
  sr_size :: int
  sr_abi :: str
  sr_capabilities :: str
  sr_envelope :: str
  sr_ticket :: str

record skill_policy =
  po_max_concurrent :: int
  po_keep_previous :: int
  po_quota :: int
  po_max_timeout_ms :: int
  po_max_memory_mb :: int

record desired_skills =
  dk_generation :: int
  dk_skills :: "skill_ref list"
  dk_policy :: skill_policy

definition default_policy :: skill_policy where
  "default_policy = \<lparr>po_max_concurrent = 4, po_keep_previous = 2, po_quota = QUOTA, po_max_timeout_ms = 30000,
     po_max_memory_mb = 64\<rparr>"

text \<open>The inner join: a desired row without a version row in the catalog is left out.\<close>

definition joined_rows :: "db \<Rightarrow> str \<Rightarrow> (desired_row \<times> skill_version_row) list" where
  "joined_rows db node_id =
     concat (map (\<lambda>d. if de_skill d \<in> set (t_skills db)
         then map (Pair d) (filter (\<lambda>v. sv_skill v = de_skill d \<and> sv_version v = de_version d) (t_versions db)) else [])
       (sort_key de_skill (filter (\<lambda>d. de_node d = node_id) (t_desired db))))"

definition ref_of :: "str \<Rightarrow> desired_row \<times> skill_version_row \<Rightarrow> skill_ref" where
  "ref_of ticket = (\<lambda>(d, v).
     \<lparr>sr_name = de_skill d, sr_version = de_version d, sr_sha = to_ascii_lowercase (trim (de_sha d)), sr_size = sv_size v,
      sr_abi = sv_abi v, sr_capabilities = trim (sv_capabilities_sha v), sr_envelope = [], sr_ticket = ticket\<rparr>)"

fun issue_refs ::
    "nat \<Rightarrow> (nat \<Rightarrow> str) \<Rightarrow> str \<Rightarrow> nat \<Rightarrow> hub \<Rightarrow> (desired_row \<times> skill_version_row) list \<Rightarrow> hub \<times> skill_ref list" where
  "issue_refs now fresh node_id i h [] = (h, [])"
| "issue_refs now fresh node_id i h (row # rows) =
     (let r = ref_of (fresh i) row;
          h1 = issue_ticket now (fresh i) h node_id (sr_sha r);
          (h2, rs) = issue_refs now fresh node_id (Suc i) h1 rows
      in (h2, r # rs))"

definition build_desired :: "nat \<Rightarrow> (nat \<Rightarrow> str) \<Rightarrow> db \<Rightarrow> hub \<Rightarrow> str \<Rightarrow> hub \<times> desired_skills" where
  "build_desired now fresh db h node_id =
     (let (h', refs) = issue_refs now fresh node_id 0 h (joined_rows db node_id)
      in (h', \<lparr>dk_generation = skill_generation db node_id, dk_skills = refs, dk_policy = default_policy\<rparr>))"

text \<open>\<open>push_pending\<close>: each node once, only nodes that advertised an ABI and have a session.\<close>

fun push_nodes ::
    "nat \<Rightarrow> (str \<Rightarrow> nat \<Rightarrow> str) \<Rightarrow> db \<Rightarrow> (nat \<Rightarrow> bool) \<Rightarrow> str list \<Rightarrow> hub \<Rightarrow> hub \<times> (nat \<times> str \<times> desired_skills) list" where
  "push_nodes now fresh db alive [] h = (h, [])"
| "push_nodes now fresh db alive (n # ns) h =
     (if unwrap_or (skill_abi h n) [] = [] \<or> \<not> is_connected h n then push_nodes now fresh db alive ns h
      else (let (h1, d) = build_desired now (fresh n) db h n;
                (h2, sent) = push_nodes now fresh db alive ns h1
            in (h2, (case hub_send h1 alive n of Some tx \<Rightarrow> [(tx, n, d)] | None \<Rightarrow> []) @ sent)))"

definition push_pending ::
    "nat \<Rightarrow> (str \<Rightarrow> nat \<Rightarrow> str) \<Rightarrow> db \<Rightarrow> (nat \<Rightarrow> bool) \<Rightarrow> hub \<Rightarrow> str list \<Rightarrow> hub \<times> (nat \<times> str \<times> desired_skills) list" where
  "push_pending now fresh db alive h node_ids = push_nodes now fresh db alive (dedupe node_ids) h"

subsection \<open>Reports\<close>

record installed_skill =
  in_name :: str
  in_version :: str
  in_sha :: str
  in_state :: str
  in_reason :: str
  in_detail :: str
  in_attempts :: int
  in_previous :: "str list"

record skill_report =
  rp_node :: str
  rp_generation :: int
  rp_skills :: "installed_skill list"

type_synonym prior = "str \<rightharpoonup> str \<times> str \<times> str \<times> str"

definition prior_of :: "actual_row list \<Rightarrow> prior" where
  "prior_of rows = foldl (\<lambda>m r. m(ac_skill r \<mapsto>
     (ac_version r, to_ascii_lowercase (trim (ac_sha r)), ac_state r, unwrap_or (ac_reason r) []))) Map.empty rows"

definition nonempty_text :: "str \<Rightarrow> str option" where
  "nonempty_text s = (if s = [] then None else Some s)"

definition actual_of :: "cenv \<Rightarrow> str \<Rightarrow> int \<Rightarrow> installed_skill \<Rightarrow> actual_row" where
  "actual_of env node_id gen k =
     \<lparr>ac_node = node_id, ac_skill = in_name k, ac_version = in_version k, ac_sha = in_sha k, ac_state = in_state k,
      ac_reason = nonempty_text (in_reason k), ac_detail = nonempty_text (in_detail k), ac_attempts = in_attempts k,
      ac_previous = ce_print env (JArr (map JStr (in_previous k))), ac_generation = gen\<rparr>"

definition report_action :: "str \<Rightarrow> str option" where
  "report_action state =
     (if state = ''installed'' then Some ''skill.installed'' else if state = ''failed'' then Some ''skill.failed'' else None)"

definition unchanged :: "installed_skill \<Rightarrow> (str \<times> str \<times> str \<times> str) option \<Rightarrow> bool" where
  "unchanged k p = (p = Some (in_version k, to_ascii_lowercase (trim (in_sha k)), in_state k, in_reason k))"

definition maybe_audit ::
    "cenv \<Rightarrow> db \<Rightarrow> str \<Rightarrow> int \<Rightarrow> installed_skill \<Rightarrow> (str \<times> str \<times> str \<times> str) option \<Rightarrow> db" where
  "maybe_audit env db node_id gen k p =
     (case report_action (in_state k) of
        None \<Rightarrow> db
      | Some act \<Rightarrow>
          if unchanged k p then db
          else append_node_audit env db node_id act (in_name k) (ce_print env (JObj
            [(''version'', JStr (in_version k)), (''sha256'', JStr (to_ascii_lowercase (trim (in_sha k)))),
             (''state'', JStr (in_state k)), (''reason'', JStr (in_reason k)), (''applied_generation'', JInt gen),
             (''attempts'', JInt (in_attempts k))])))"

text \<open>The primary key of \<open>node_skills_actual\<close> is the node and the skill, and the node is a foreign key.\<close>

fun insert_actuals ::
    "cenv \<Rightarrow> str \<Rightarrow> int \<Rightarrow> prior \<Rightarrow> installed_skill list \<Rightarrow> db \<Rightarrow> (db, desired_error) result" where
  "insert_actuals env node_id gen p [] db = Ok db"
| "insert_actuals env node_id gen p (k # ks) db =
     (if \<not> node_exists db node_id then Err (DesiredInternal ''foreign key'')
      else if list_ex (\<lambda>r. ac_node r = node_id \<and> ac_skill r = in_name k) (t_actual db)
      then Err (DesiredInternal ''duplicate key'')
      else insert_actuals env node_id gen p ks
        (maybe_audit env (db\<lparr>t_actual := t_actual db @ [actual_of env node_id gen k]\<rparr>) node_id gen k (p (in_name k))))"

definition own_rows :: "db \<Rightarrow> str \<Rightarrow> actual_row list" where
  "own_rows db node_id = filter (\<lambda>r. ac_node r = node_id) (t_actual db)"

definition applied_max :: "actual_row list \<Rightarrow> int" where
  "applied_max rows = foldl (\<lambda>m r. max m (ac_generation r)) 0 rows"

definition apply_report :: "cenv \<Rightarrow> db \<Rightarrow> skill_report \<Rightarrow> db \<times> (unit, desired_error) result" where
  "apply_report env db rp =
     (let existing = own_rows db (rp_node rp) in
      if rp_generation rp < applied_max existing then (db, Ok ())
      else (case insert_actuals env (rp_node rp) (rp_generation rp) (prior_of existing) (rp_skills rp)
              (db\<lparr>t_actual := delete_where (\<lambda>r. ac_node r = rp_node rp) (t_actual db)\<rparr>) of
          Inl e \<Rightarrow> (db, Err e)
        | Inr db' \<Rightarrow> (db', Ok ())))"

subsection \<open>Chunks of a package\<close>

record artifact_chunk =
  ch_offset :: int
  ch_data :: str
  ch_total :: int

function chunk_loop :: "str \<Rightarrow> nat \<Rightarrow> artifact_chunk list" where
  "chunk_loop bytes cursor =
     (if cursor < length bytes
      then (let e = min (cursor + CHUNK_BYTES) (length bytes)
            in \<lparr>ch_offset = int cursor, ch_data = take (e - cursor) (drop cursor bytes), ch_total = int (length bytes)\<rparr>
               # chunk_loop bytes e)
      else [])"
  by pat_completeness auto

termination chunk_loop
  by (relation "measure (\<lambda>(bytes, cursor). length bytes - cursor)") (auto simp: CHUNK_BYTES_def)

declare chunk_loop.simps [simp del]

definition artifact_chunks :: "str \<Rightarrow> int \<Rightarrow> (artifact_chunk list, str) result" where
  "artifact_chunks bytes offset =
     (if offset < 0 then Err ''offset past artifact''
      else (let start = nat offset in
        if start > length bytes then Err ''offset past artifact''
        else if start = length bytes
        then Ok [\<lparr>ch_offset = offset, ch_data = [], ch_total = int (length bytes)\<rparr>]
        else Ok (chunk_loop bytes start)))"

end
