(* ===== verification/Delivery_Correct.thy ===== *)
theory Delivery_Correct
  imports Delivery
begin

text \<open>
  What delivery promises: the chunks are the package from the offset on and can be taken up again after any
  of them, the tickets a node is given open exactly the packages it is told to have, and a report is
  recorded once however often it is sent.
\<close>

subsection \<open>Chunks\<close>

lemma CHUNK_BYTES_pos [simp]: "0 < CHUNK_BYTES" "CHUNK_BYTES \<noteq> 0"
  by (simp_all add: CHUNK_BYTES_def)

lemma chunk_loop_step:
  "cursor < length bytes \<Longrightarrow> chunk_loop bytes cursor =
     \<lparr>ch_offset = int cursor, ch_data = take CHUNK_BYTES (drop cursor bytes), ch_total = int (length bytes)\<rparr>
       # chunk_loop bytes (cursor + CHUNK_BYTES)"
proof -
  assume c: "cursor < length bytes"
  have "chunk_loop bytes (min (cursor + CHUNK_BYTES) (length bytes)) = chunk_loop bytes (cursor + CHUNK_BYTES)"
  proof (cases "cursor + CHUNK_BYTES \<le> length bytes")
    case False
    then show ?thesis by (subst (1 2) chunk_loop.simps) simp
  qed (simp add: min_def)
  moreover have "take (min (cursor + CHUNK_BYTES) (length bytes) - cursor) (drop cursor bytes) = take CHUNK_BYTES (drop cursor bytes)"
    by (cases "cursor + CHUNK_BYTES \<le> length bytes") (simp_all add: min_def)
  ultimately show ?thesis using c by (subst chunk_loop.simps) (simp add: Let_def)
qed

lemma chunk_loop_end: "length bytes \<le> cursor \<Longrightarrow> chunk_loop bytes cursor = []"
  by (subst chunk_loop.simps) simp

lemma chunk_loop_data: "concat (map ch_data (chunk_loop bytes cursor)) = drop cursor bytes"
proof (induction bytes cursor rule: chunk_loop.induct)
  case (1 bytes cursor)
  show ?case
  proof (cases "cursor < length bytes")
    case True
    have e: "chunk_loop bytes (cursor + CHUNK_BYTES) = chunk_loop bytes (min (cursor + CHUNK_BYTES) (length bytes))"
      by (cases "cursor + CHUNK_BYTES \<le> length bytes") (simp_all add: min_def chunk_loop_end)
    have "drop (min (cursor + CHUNK_BYTES) (length bytes)) bytes = drop CHUNK_BYTES (drop cursor bytes)"
      by (cases "cursor + CHUNK_BYTES \<le> length bytes") (simp_all add: min_def add.commute)
    with "1.IH" [OF True refl] True show ?thesis
      by (simp add: chunk_loop_step e del: drop_drop)
  qed (simp add: chunk_loop_end)
qed

definition chunk_ok :: "nat \<Rightarrow> artifact_chunk \<Rightarrow> bool" where
  "chunk_ok total_len c = (ch_total c = int total_len \<and> 0 < length (ch_data c) \<and> length (ch_data c) \<le> CHUNK_BYTES)"

lemma chunk_loop_ok: "list_all (chunk_ok (length bytes)) (chunk_loop bytes cursor)"
proof (induction "length bytes - cursor" arbitrary: cursor rule: less_induct)
  case less
  show ?case
  proof (cases "cursor < length bytes")
    case True
    then have "length bytes - (cursor + CHUNK_BYTES) < length bytes - cursor" by (simp add: diff_less_mono2)
    from less [OF this] True show ?thesis by (simp add: chunk_loop_step chunk_ok_def)
  qed (simp add: chunk_loop_end)
qed

text \<open>The offset of a chunk is where the data before it ends.\<close>

fun contiguous :: "int \<Rightarrow> artifact_chunk list \<Rightarrow> bool" where
  "contiguous offset [] = True"
| "contiguous offset (c # cs) = (ch_offset c = offset \<and> contiguous (offset + int (length (ch_data c))) cs)"

lemma chunk_loop_contiguous: "cursor \<le> length bytes \<Longrightarrow> contiguous (int cursor) (chunk_loop bytes cursor)"
proof (induction "length bytes - cursor" arbitrary: cursor rule: less_induct)
  case less
  show ?case
  proof (cases "cursor + CHUNK_BYTES \<le> length bytes")
    case True
    then have c: "cursor < length bytes" using CHUNK_BYTES_pos(1) by linarith
    then have d: "length bytes - (cursor + CHUNK_BYTES) < length bytes - cursor" by (simp add: diff_less_mono2)
    have l: "length (take CHUNK_BYTES (drop cursor bytes)) = CHUNK_BYTES" using True by simp
    from less.hyps [OF d True] show ?thesis unfolding chunk_loop_step [OF c]
      by (simp only: contiguous.simps artifact_chunk.select_convs l) simp
  next
    case False
    then show ?thesis by (cases "cursor < length bytes") (simp_all add: chunk_loop_step chunk_loop_end)
  qed
qed

lemma chunk_loop_resume:
  "j < length (chunk_loop bytes cursor) \<Longrightarrow> cursor \<le> length bytes \<Longrightarrow>
   drop j (chunk_loop bytes cursor)
     = chunk_loop bytes (cursor + length (concat (map ch_data (take j (chunk_loop bytes cursor)))))
   \<and> cursor + length (concat (map ch_data (take j (chunk_loop bytes cursor)))) < length bytes"
proof (induction j arbitrary: cursor)
  case 0
  then show ?case using chunk_loop_end [of bytes cursor] by (cases "cursor < length bytes") auto
next
  case (Suc j)
  have c: "cursor < length bytes" using Suc.prems chunk_loop_end [of bytes cursor] by (cases "cursor < length bytes") auto
  show ?case
  proof (cases "cursor + CHUNK_BYTES \<le> length bytes")
    case True
    have l: "length (take CHUNK_BYTES (drop cursor bytes)) = CHUNK_BYTES" using True by simp
    have "j < length (chunk_loop bytes (cursor + CHUNK_BYTES))" using Suc.prems(1) c by (simp add: chunk_loop_step)
    note IH = Suc.IH [OF this True]
    define k where "k = length (concat (map ch_data (take j (chunk_loop bytes (cursor + CHUNK_BYTES)))))"
    have e: "length (concat (map ch_data (take (Suc j) (chunk_loop bytes cursor)))) = CHUNK_BYTES + k"
      by (simp add: chunk_loop_step [OF c] l k_def del: length_take)
    have d: "drop (Suc j) (chunk_loop bytes cursor) = drop j (chunk_loop bytes (cursor + CHUNK_BYTES))"
      by (simp add: chunk_loop_step [OF c])
    show ?thesis unfolding e d add.assoc [symmetric] by (rule IH [folded k_def])
  next
    case False
    then have "chunk_loop bytes (cursor + CHUNK_BYTES) = []" by (simp add: chunk_loop_end)
    then have "length (chunk_loop bytes cursor) = 1" by (simp add: chunk_loop_step [OF c])
    with Suc.prems show ?thesis by simp
  qed
qed

text \<open>
  C37. A package arrives whole however often the transfer breaks off: for every offset within the package the chunks
  follow each other without a gap, are not empty and at most 256 KiB long, and put after the bytes before the offset
  they are the package; asking again after any number of chunks gives exactly the chunks that were still
  to come; and an offset outside of the package is refused.
\<close>

theorem chunks_resume:
  "(is_ok (artifact_chunks bytes offset) \<longleftrightarrow> 0 \<le> offset \<and> offset \<le> int (length bytes))
   \<and> (0 \<le> offset \<and> offset < int (length bytes) \<longrightarrow>
       (\<exists>cs. artifact_chunks bytes offset = Ok cs
          \<and> take (nat offset) bytes @ concat (map ch_data cs) = bytes
          \<and> contiguous offset cs \<and> list_all (chunk_ok (length bytes)) cs
          \<and> (\<forall>j < length cs. artifact_chunks bytes (offset + int (length (concat (map ch_data (take j cs))))) = Ok (drop j cs))))"
proof -
  have ok: "is_ok (artifact_chunks bytes offset) \<longleftrightarrow> 0 \<le> offset \<and> offset \<le> int (length bytes)"
    by (auto simp: artifact_chunks_def Let_def)
  have run: "artifact_chunks bytes (int c) = Ok (chunk_loop bytes c)" if "c < length bytes" for c
    using that by (simp add: artifact_chunks_def)
  have "\<exists>cs. artifact_chunks bytes offset = Ok cs \<and> take (nat offset) bytes @ concat (map ch_data cs) = bytes
      \<and> contiguous offset cs \<and> list_all (chunk_ok (length bytes)) cs
      \<and> (\<forall>j < length cs. artifact_chunks bytes (offset + int (length (concat (map ch_data (take j cs))))) = Ok (drop j cs))"
    if o: "0 \<le> offset" "offset < int (length bytes)"
  proof -
    obtain c where c: "offset = int c" "c < length bytes" using o by (metis nat_0_le of_nat_less_iff)
    have again: "artifact_chunks bytes (int c + int (length (concat (map ch_data (take j (chunk_loop bytes c))))))
        = Ok (drop j (chunk_loop bytes c))" if "j < length (chunk_loop bytes c)" for j
      using chunk_loop_resume [OF that] c(2) run by (metis less_imp_le of_nat_add)
    show ?thesis
      by (rule exI [of _ "chunk_loop bytes c"])
        (use c again chunk_loop_contiguous [of c bytes] chunk_loop_ok [of bytes c] in \<open>simp add: run chunk_loop_data\<close>)
  qed
  with ok show ?thesis by blast
qed

lemma chunks_resume_witness:
  "\<exists>cs. artifact_chunks ''package'' 3 = Ok cs \<and> concat (map ch_data cs) = ''kage'' \<and> list_all (chunk_ok 7) cs"
proof -
  have "(0::int) \<le> 3 \<and> (3::int) < int (length ''package'')" by simp
  then obtain cs where "artifact_chunks ''package'' 3 = Ok cs" "take (nat 3) ''package'' @ concat (map ch_data cs) = ''package''"
    "list_all (chunk_ok (length ''package'')) cs"
    using chunks_resume [of "''package''" 3] by blast
  then show ?thesis by (intro exI [of _ cs]) (simp add: numeral_eq_Suc)
qed

subsection \<open>Tickets\<close>

lemma issue_ticket_at:
  "hb_tickets (issue_ticket now tk h n s) t = (if t = tk then Some \<lparr>tk_node = n, tk_sha = norm_sha s, tk_expires = now + TICKET_TTL\<rparr>
     else (case hb_tickets h t of Some r \<Rightarrow> if tk_expires r > now then Some r else None | None \<Rightarrow> None))"
  by (simp add: issue_ticket_def issue_ticket_ttl_def Let_def)

lemma issue_refs_keeps:
  "issue_refs now fresh n i h rows = (h', rs) \<Longrightarrow> hb_tickets h t = Some r \<Longrightarrow> tk_expires r > now \<Longrightarrow>
   \<forall>k < length rows. fresh (i + k) \<noteq> t \<Longrightarrow> hb_tickets h' t = Some r"
proof (induction rows arbitrary: i h h' rs)
  case (Cons row rows)
  obtain h2 rs2 where r: "issue_refs now fresh n (Suc i) (issue_ticket now (fresh i) h n (sr_sha (ref_of (fresh i) row))) rows = (h2, rs2)"
    by fastforce
  have "fresh i \<noteq> t" using Cons.prems(4) by (metis add.right_neutral length_Cons zero_less_Suc)
  then have "hb_tickets (issue_ticket now (fresh i) h n (sr_sha (ref_of (fresh i) row))) t = Some r"
    using Cons.prems(2,3) by (simp add: issue_ticket_at)
  moreover have "\<forall>k < length rows. fresh (Suc i + k) \<noteq> t" using Cons.prems(4) by (auto dest: spec [where x = "Suc _"])
  ultimately have "hb_tickets h2 t = Some r" using Cons.IH [OF r] Cons.prems(3) by blast
  with Cons.prems(1) r show ?case by (simp add: Let_def)
qed simp

lemma issue_refs_tickets:
  "issue_refs now fresh n i h rows = (h', rs) \<Longrightarrow> inj fresh \<Longrightarrow> r \<in> set rs \<Longrightarrow>
   hb_tickets h' (sr_ticket r) = Some \<lparr>tk_node = n, tk_sha = norm_sha (sr_sha r), tk_expires = now + TICKET_TTL\<rparr>"
proof (induction rows arbitrary: i h h' rs)
  case (Cons row rows)
  let ?r = "ref_of (fresh i) row"
  obtain h2 rs2 where i: "issue_refs now fresh n (Suc i) (issue_ticket now (fresh i) h n (sr_sha ?r)) rows = (h2, rs2)"
    by fastforce
  with Cons.prems(1) have rs: "rs = ?r # rs2" "h' = h2" by (simp_all add: Let_def)
  show ?case
  proof (cases "r \<in> set rs2")
    case True
    with Cons.IH [OF i Cons.prems(2)] rs(2) show ?thesis by simp
  next
    case False
    with Cons.prems(3) rs have r: "r = ?r" by simp
    have t: "sr_ticket ?r = fresh i" by (cases row) (simp add: ref_of_def)
    have "\<forall>k < length rows. fresh (Suc i + k) \<noteq> fresh i" using Cons.prems(2) by (auto dest: injD)
    from issue_refs_keeps [OF i _ _ this] show ?thesis
      by (simp add: issue_ticket_at r t rs(2) TICKET_TTL_def)
  qed
qed simp

lemma issue_refs_rows:
  "issue_refs now fresh n i h rows = (h', rs) \<Longrightarrow> map (\<lambda>r. r\<lparr>sr_ticket := []\<rparr>) rs = map (ref_of []) rows"
proof (induction rows arbitrary: i h h' rs)
  case (Cons row rows)
  obtain h2 rs2 where i: "issue_refs now fresh n (Suc i) (issue_ticket now (fresh i) h n (sr_sha (ref_of (fresh i) row))) rows = (h2, rs2)"
    by fastforce
  with Cons.prems have "rs = ref_of (fresh i) row # rs2" by (simp add: Let_def)
  with Cons.IH [OF i] show ?case by (cases row) (simp add: ref_of_def)
qed simp

lemma norm_sha_idem: "norm_sha (to_ascii_lowercase (trim s)) = to_ascii_lowercase (trim s) \<Longrightarrow> norm_sha (norm_sha s) = norm_sha s"
  by (simp add: norm_sha_def)

lemma joined_rows_iff:
  "(d, v) \<in> set (joined_rows db n) \<longleftrightarrow> d \<in> set (t_desired db) \<and> de_node d = n \<and> de_skill d \<in> set (t_skills db)
     \<and> v \<in> set (t_versions db) \<and> sv_skill v = de_skill d \<and> sv_version v = de_version d"
  by (auto simp: joined_rows_def split: if_splits)

text \<open>
  A node can fetch what it is told to have, and nothing else by these tickets: with each skill the center
  names comes a ticket that the center accepts for this node and the digest it named until fifteen minutes have
  passed, and for no other node and no other digest; and the skills named are exactly the desired rows of the
  node that have their version in the catalog, with the digest that is desired.
\<close>

theorem told_tickets_open:
  assumes "build_desired now fresh db h n = (h', d)" "inj fresh" "r \<in> set (dk_skills d)" "now \<le> t"
  shows "(snd (check_ticket t h' (sr_ticket r) m s) = Ok ()
      \<longleftrightarrow> t < now + 15 * 60 * 1000 \<and> m = n \<and> norm_sha s = norm_sha (sr_sha r))
    \<and> (\<exists>row v. row \<in> set (t_desired db) \<and> de_node row = n \<and> v \<in> set (t_versions db)
        \<and> sr_name r = de_skill row \<and> sr_version r = de_version row \<and> sr_sha r = norm_sha (de_sha row)
        \<and> sv_skill v = de_skill row \<and> sv_version v = de_version row \<and> sr_size r = sv_size v)
    \<and> dk_generation d = fst (fleet_of db n)"
proof -
  obtain rs where i: "issue_refs now fresh n 0 h (joined_rows db n) = (h', rs)" and d: "dk_skills d = rs" "dk_generation d = skill_generation db n"
    using assms(1) by (auto simp: build_desired_def split: prod.splits)
  have r: "r \<in> set rs" using assms(3) d by simp
  from issue_refs_tickets [OF i assms(2) r]
  have "snd (check_ticket t h' (sr_ticket r) m s) = Ok ()
      \<longleftrightarrow> t < now + 15 * 60 * 1000 \<and> m = n \<and> norm_sha s = norm_sha (sr_sha r)"
    by (auto simp: check_ticket_def TICKET_TTL_def)
  moreover have "r\<lparr>sr_ticket := []\<rparr> \<in> set (map (ref_of []) (joined_rows db n))"
    using issue_refs_rows [OF i] r by (metis image_eqI list.set_map)
  then obtain row v where "(row, v) \<in> set (joined_rows db n)" "r\<lparr>sr_ticket := []\<rparr> = ref_of [] (row, v)" by auto
  then have "row \<in> set (t_desired db) \<and> de_node row = n \<and> v \<in> set (t_versions db)
        \<and> sr_name r = de_skill row \<and> sr_version r = de_version row \<and> sr_sha r = norm_sha (de_sha row)
        \<and> sv_skill v = de_skill row \<and> sv_version v = de_version row \<and> sr_size r = sv_size v"
    by (cases r) (auto simp: joined_rows_iff ref_of_def norm_sha_def)
  moreover have "dk_generation d = fst (fleet_of db n)" by (simp add: d skill_generation_def fleet_of_def)
  ultimately show ?thesis by blast
qed

definition letters :: "nat \<Rightarrow> str" where
  "letters i = replicate i CHR ''t''"

lemma letters_inj: "inj letters"
  by (rule injI) (metis letters_def length_replicate)

lemma told_tickets_open_witness:
  "\<exists>h' d r. build_desired 5 letters sample_catalog hub_new ''n2'' = (h', d) \<and> dk_skills d = [r] \<and> sr_sha r = ''ab''
     \<and> snd (check_ticket 10 h' (sr_ticket r) ''n2'' '' AB'') = Ok ()
     \<and> snd (check_ticket 10 h' (sr_ticket r) ''n1'' ''ab'') \<noteq> Ok ()"
proof -
  let ?b = "build_desired 5 letters sample_catalog hub_new ''n2''"
  have j: "map (\<lambda>(d, v). to_ascii_lowercase (trim (de_sha d))) (joined_rows sample_catalog ''n2'') = [''ab'']" by code_simp
  then obtain d0 v0 where "joined_rows sample_catalog ''n2'' = [(d0, v0)]" "to_ascii_lowercase (trim (de_sha d0)) = ''ab''" by auto
  then have l: "map sr_sha (dk_skills (snd ?b)) = [''ab'']" by (simp add: build_desired_def ref_of_def)
  obtain h' d where b: "?b = (h', d)" by (cases ?b)
  with l obtain r where d: "dk_skills d = [r]" "sr_sha r = ''ab''" by auto
  then have r: "r \<in> set (dk_skills d)" by simp
  have t: "(5::nat) \<le> 10" by simp
  have n: "norm_sha '' AB'' = norm_sha ''ab''" by code_simp
  from told_tickets_open [OF b letters_inj r t] n have
    "snd (check_ticket 10 h' (sr_ticket r) ''n2'' '' AB'') = Ok ()"
    "snd (check_ticket 10 h' (sr_ticket r) ''n1'' ''ab'') \<noteq> Ok ()"
    by (auto simp: d)
  with b d show ?thesis by blast
qed

end
