(* ===== verification/Delivery_Reports.thy ===== *)
theory Delivery_Reports
  imports Delivery_Correct
begin

text \<open>
  Reports of nodes: what is recorded, that a report sent again changes nothing, that a stale report is
  ignored, and that the memory of what was applied is lost by a report without skills.
\<close>

subsection \<open>Recording\<close>

definition noteworthy :: "installed_skill \<Rightarrow> (str \<times> str \<times> str \<times> str) option \<Rightarrow> bool" where
  "noteworthy k p = (report_action (in_state k) \<noteq> None \<and> \<not> unchanged k p)"

lemma maybe_audit_rows:
  "\<exists>rows. maybe_audit env db n g k p = db\<lparr>t_audit := t_audit db @ rows\<rparr>
     \<and> length rows = (if noteworthy k p then 1 else 0) \<and> list_all (\<lambda>r. au_actor r = n \<and> au_node r = Some n) rows"
proof (cases "noteworthy k p")
  case True
  then show ?thesis
    by (auto simp: maybe_audit_def noteworthy_def audit_writers insert_audit_def)
next
  case False
  then have "maybe_audit env db n g k p = db" by (auto simp: maybe_audit_def noteworthy_def split: option.splits)
  then show ?thesis using False by (intro exI [of _ "[]"]) simp
qed

lemma insert_actuals_Ok:
  assumes "insert_actuals env n g p ks db = Ok db'"
  shows "(\<exists>rows. db' = db\<lparr>t_actual := t_actual db @ map (actual_of env n g) ks, t_audit := t_audit db @ rows\<rparr>
      \<and> length rows = length (filter (\<lambda>k. noteworthy k (p (in_name k))) ks)
      \<and> list_all (\<lambda>r. au_actor r = n \<and> au_node r = Some n) rows)
    \<and> distinct (map in_name ks) \<and> (\<forall>r \<in> set (t_actual db). ac_node r = n \<longrightarrow> ac_skill r \<notin> in_name ` set ks)
    \<and> (ks \<noteq> [] \<longrightarrow> node_exists db n)"
  using assms
proof (induction ks arbitrary: db)
  case Nil
  then show ?case by (auto intro!: exI [of _ "[]"])
next
  case (Cons k ks)
  let ?db1 = "db\<lparr>t_actual := t_actual db @ [actual_of env n g k]\<rparr>"
  obtain r1 where r1: "maybe_audit env ?db1 n g k (p (in_name k)) = ?db1\<lparr>t_audit := t_audit ?db1 @ r1\<rparr>"
      "length r1 = (if noteworthy k (p (in_name k)) then 1 else 0)" "list_all (\<lambda>r. au_actor r = n \<and> au_node r = Some n) r1"
    using maybe_audit_rows by blast
  from Cons.prems have e: "node_exists db n" and fresh: "\<not> list_ex (\<lambda>r. ac_node r = n \<and> ac_skill r = in_name k) (t_actual db)"
    and i: "insert_actuals env n g p ks (?db1\<lparr>t_audit := t_audit ?db1 @ r1\<rparr>) = Ok db'"
    by (auto simp: r1(1) split: if_splits)
  from Cons.IH [OF i] obtain r2 where r2:
      "db' = ?db1\<lparr>t_audit := t_audit ?db1 @ r1\<rparr>\<lparr>t_actual := t_actual ?db1 @ map (actual_of env n g) ks,
         t_audit := (t_audit ?db1 @ r1) @ r2\<rparr>"
      "length r2 = length (filter (\<lambda>k. noteworthy k (p (in_name k))) ks)"
      "list_all (\<lambda>r. au_actor r = n \<and> au_node r = Some n) r2"
      "distinct (map in_name ks)"
      "\<forall>r \<in> set (t_actual db @ [actual_of env n g k]). ac_node r = n \<longrightarrow> ac_skill r \<notin> in_name ` set ks"
    by auto
  have d: "db' = db\<lparr>t_actual := t_actual db @ map (actual_of env n g) (k # ks), t_audit := t_audit db @ (r1 @ r2)\<rparr>"
    unfolding r2(1) by (cases db) simp
  have "length (r1 @ r2) = length (filter (\<lambda>k. noteworthy k (p (in_name k))) (k # ks))" using r1(2) r2(2) by simp
  moreover have "in_name k \<notin> in_name ` set ks" using r2(5) by (auto simp: actual_of_def)
  moreover have "\<forall>r \<in> set (t_actual db). ac_node r = n \<longrightarrow> ac_skill r \<notin> in_name ` set (k # ks)"
    using r2(5) fresh by (auto simp: list_ex_iff)
  ultimately show ?case using d e r1(3) r2(3,4) by (intro conjI exI [of _ "r1 @ r2"]) auto
qed

lemma insert_actuals_same:
  assumes "distinct (map in_name ks)" "\<forall>r \<in> set (t_actual db). ac_node r = n \<longrightarrow> ac_skill r \<notin> in_name ` set ks"
    "ks \<noteq> [] \<longrightarrow> node_exists db n" "\<forall>k \<in> set ks. unchanged k (p (in_name k))"
  shows "insert_actuals env n g p ks db = Ok (db\<lparr>t_actual := t_actual db @ map (actual_of env n g) ks\<rparr>)"
  using assms
proof (induction ks arbitrary: db)
  case (Cons k ks)
  let ?db1 = "db\<lparr>t_actual := t_actual db @ [actual_of env n g k]\<rparr>"
  have m: "maybe_audit env ?db1 n g k (p (in_name k)) = ?db1"
    using Cons.prems(4) by (simp add: maybe_audit_def split: option.splits)
  have "\<not> list_ex (\<lambda>r. ac_node r = n \<and> ac_skill r = in_name k) (t_actual db)" using Cons.prems(2) by (auto simp: list_ex_iff)
  moreover have "insert_actuals env n g p ks ?db1 = Ok (?db1\<lparr>t_actual := t_actual ?db1 @ map (actual_of env n g) ks\<rparr>)"
    by (rule Cons.IH) (use Cons.prems in \<open>auto simp: actual_of_def node_exists_def\<close>)
  ultimately show ?case using Cons.prems(3) by (simp add: m)
qed simp

lemma applied_max_const:
  "\<forall>r \<in> set rows. ac_generation r = g \<Longrightarrow> 0 \<le> g \<Longrightarrow> applied_max rows = (if rows = [] then 0 else g)"
proof -
  assume c: "\<forall>r \<in> set rows. ac_generation r = g" and g: "0 \<le> g"
  have "foldl (\<lambda>m r. max m (ac_generation r)) m rows = (if rows = [] then m else max m g)" for m
    using c by (induction rows arbitrary: m) auto
  then show ?thesis using g by (simp add: applied_max_def)
qed

lemma applied_max_nonneg: "0 \<le> applied_max rows"
proof -
  have "m \<le> foldl (\<lambda>m r. max m (ac_generation r)) m rows" for m
  proof (induction rows arbitrary: m)
    case (Cons a rows)
    from Cons.IH [of "max m (ac_generation a)"] show ?case by simp
  qed simp
  then show ?thesis by (simp add: applied_max_def)
qed

lemma prior_of_at:
  "distinct (map ac_skill rows) \<Longrightarrow> r \<in> set rows \<Longrightarrow> prior_of rows (ac_skill r)
     = Some (ac_version r, to_ascii_lowercase (trim (ac_sha r)), ac_state r, unwrap_or (ac_reason r) [])"
  unfolding prior_of_def by (simp add: foldl_row_at row_at_distinct)

definition recorded :: "cenv \<Rightarrow> db \<Rightarrow> skill_report \<Rightarrow> db \<Rightarrow> bool" where
  "recorded env db rp db' = (\<exists>rows.
     db' = db\<lparr>t_actual := filter (\<lambda>r. ac_node r \<noteq> rp_node rp) (t_actual db)
              @ map (actual_of env (rp_node rp) (rp_generation rp)) (rp_skills rp), t_audit := t_audit db @ rows\<rparr>
     \<and> length rows = length (filter (\<lambda>k. noteworthy k (prior_of (own_rows db (rp_node rp)) (in_name k))) (rp_skills rp))
     \<and> list_all (\<lambda>r. au_actor r = rp_node rp \<and> au_node r = Some (rp_node rp)) rows)"

lemma apply_report_Ok:
  assumes "apply_report env db rp = (db', Ok u)"
  shows "(rp_generation rp < applied_max (own_rows db (rp_node rp)) \<and> db' = db)
    \<or> (applied_max (own_rows db (rp_node rp)) \<le> rp_generation rp \<and> recorded env db rp db'
       \<and> distinct (map in_name (rp_skills rp)) \<and> (rp_skills rp \<noteq> [] \<longrightarrow> node_exists db (rp_node rp)))"
proof (cases "rp_generation rp < applied_max (own_rows db (rp_node rp))")
  case True
  with assms show ?thesis by (simp add: apply_report_def Let_def)
next
  case False
  let ?db1 = "db\<lparr>t_actual := delete_where (\<lambda>r. ac_node r = rp_node rp) (t_actual db)\<rparr>"
  from False assms have i: "insert_actuals env (rp_node rp) (rp_generation rp) (prior_of (own_rows db (rp_node rp))) (rp_skills rp) ?db1 = Ok db'"
    by (auto simp: apply_report_def Let_def split: sum.splits)
  from insert_actuals_Ok [OF i] obtain rows where
    "db' = ?db1\<lparr>t_actual := t_actual ?db1 @ map (actual_of env (rp_node rp) (rp_generation rp)) (rp_skills rp),
        t_audit := t_audit ?db1 @ rows\<rparr>"
    "length rows = length (filter (\<lambda>k. noteworthy k (prior_of (own_rows db (rp_node rp)) (in_name k))) (rp_skills rp))"
    "list_all (\<lambda>r. au_actor r = rp_node rp \<and> au_node r = Some (rp_node rp)) rows"
    "distinct (map in_name (rp_skills rp))" "rp_skills rp \<noteq> [] \<longrightarrow> node_exists ?db1 (rp_node rp)"
    by blast
  with False show ?thesis by (auto simp: recorded_def delete_where_def node_exists_def)
qed

lemma recorded_own:
  "recorded env db rp db' \<Longrightarrow> own_rows db' (rp_node rp) = map (actual_of env (rp_node rp) (rp_generation rp)) (rp_skills rp)"
  by (auto simp: recorded_def own_rows_def filter_empty_conv actual_of_def)

lemma report_again:
  assumes "apply_report env db rp = (db', Ok u)"
  shows "apply_report (env\<lparr>ce_now := t\<rparr>) db' rp = (db', Ok ())"
proof -
  let ?n = "rp_node rp" and ?g = "rp_generation rp" and ?ks = "rp_skills rp" and ?e = "env\<lparr>ce_now := t\<rparr>"
  consider "?g < applied_max (own_rows db ?n)" "db' = db"
    | "applied_max (own_rows db ?n) \<le> ?g" "recorded env db rp db'" "distinct (map in_name ?ks)" "?ks \<noteq> [] \<longrightarrow> node_exists db ?n"
    using apply_report_Ok [OF assms] by blast
  then show ?thesis
  proof cases
    case 1
    then show ?thesis by (simp add: apply_report_def)
  next
    case 2
    have own: "own_rows db' ?n = map (actual_of env ?n ?g) ?ks" by (rule recorded_own [OF 2(2)])
    have act: "actual_of ?e = actual_of env" by (simp add: actual_of_def fun_eq_iff)
    have g: "0 \<le> ?g" using 2(1) applied_max_nonneg order_trans by blast
    have "applied_max (own_rows db' ?n) = (if ?ks = [] then 0 else ?g)"
      unfolding own using applied_max_const [of "map (actual_of env ?n ?g) ?ks" ?g] g by (auto simp: actual_of_def)
    then have fresh: "\<not> ?g < applied_max (own_rows db' ?n)" using g by auto
    have dk: "distinct (map ac_skill (own_rows db' ?n))" using 2(3) by (simp add: own comp_def actual_of_def)
    have un: "\<forall>k \<in> set ?ks. unchanged k (prior_of (own_rows db' ?n) (in_name k))"
    proof
      fix k assume "k \<in> set ?ks"
      then have "actual_of env ?n ?g k \<in> set (own_rows db' ?n)" by (simp add: own)
      from prior_of_at [OF dk this] show "unchanged k (prior_of (own_rows db' ?n) (in_name k))"
        by (simp add: actual_of_def unchanged_def nonempty_text_def)
    qed
    define rest where "rest = filter (\<lambda>r. ac_node r \<noteq> ?n) (t_actual db)"
    have ta: "t_actual db' = rest @ map (actual_of env ?n ?g) ?ks" using 2(2) by (auto simp: recorded_def rest_def)
    have del: "delete_where (\<lambda>r. ac_node r = ?n) (t_actual db') = rest"
      by (simp add: ta delete_where_def rest_def filter_empty_conv actual_of_def)
    have "?ks \<noteq> [] \<longrightarrow> node_exists (db'\<lparr>t_actual := rest\<rparr>) ?n"
      using 2(2,4) by (auto simp: recorded_def node_exists_def)
    then have "insert_actuals ?e ?n ?g (prior_of (own_rows db' ?n)) ?ks (db'\<lparr>t_actual := rest\<rparr>)
        = Ok (db'\<lparr>t_actual := rest\<rparr>\<lparr>t_actual := t_actual (db'\<lparr>t_actual := rest\<rparr>) @ map (actual_of ?e ?n ?g) ?ks\<rparr>)"
      by (intro insert_actuals_same 2(3) un) (auto simp: rest_def)
    moreover have "db'\<lparr>t_actual := rest\<rparr>\<lparr>t_actual := t_actual (db'\<lparr>t_actual := rest\<rparr>) @ map (actual_of ?e ?n ?g) ?ks\<rparr> = db'"
      by (simp add: act ta [symmetric])
    ultimately show ?thesis using fresh by (simp add: apply_report_def Let_def del)
  qed
qed

lemma insert_actuals_total:
  "distinct (map in_name ks) \<Longrightarrow> \<forall>r \<in> set (t_actual db). ac_node r = n \<longrightarrow> ac_skill r \<notin> in_name ` set ks \<Longrightarrow>
   node_exists db n \<Longrightarrow> is_ok (insert_actuals env n g p ks db)"
proof (induction ks arbitrary: db)
  case (Cons k ks)
  let ?db1 = "db\<lparr>t_actual := t_actual db @ [actual_of env n g k]\<rparr>"
  obtain rows where m: "maybe_audit env ?db1 n g k (p (in_name k)) = ?db1\<lparr>t_audit := t_audit ?db1 @ rows\<rparr>"
    using maybe_audit_rows by blast
  have "\<not> list_ex (\<lambda>r. ac_node r = n \<and> ac_skill r = in_name k) (t_actual db)" using Cons.prems(2) by (auto simp: list_ex_iff)
  moreover have "is_ok (insert_actuals env n g p ks (?db1\<lparr>t_audit := t_audit ?db1 @ rows\<rparr>))"
    by (rule Cons.IH) (use Cons.prems in \<open>auto simp: actual_of_def node_exists_def\<close>)
  ultimately show ?case using Cons.prems(3) by (simp add: m)
qed simp

lemma first_report_accepted:
  assumes "distinct (map in_name (rp_skills rp))" "node_exists db (rp_node rp)" "own_rows db (rp_node rp) = []" "0 \<le> rp_generation rp"
  shows "\<exists>db'. apply_report env db rp = (db', Ok ())"
proof -
  let ?db1 = "db\<lparr>t_actual := delete_where (\<lambda>r. ac_node r = rp_node rp) (t_actual db)\<rparr>"
  have "is_ok (insert_actuals env (rp_node rp) (rp_generation rp) (prior_of []) (rp_skills rp) ?db1)"
    by (rule insert_actuals_total) (use assms in \<open>simp_all add: node_exists_def\<close>)
  then obtain db' where "insert_actuals env (rp_node rp) (rp_generation rp) (prior_of []) (rp_skills rp) ?db1 = Ok db'"
    by (metis is_ok_simps(2) sumE)
  with assms(3,4) show ?thesis by (simp add: apply_report_def applied_max_def)
qed


lemma sample_node_exists: "node_exists sample_catalog ''n1''" "own_rows sample_catalog ''n1'' = []"
  by (simp_all add: node_exists_def own_rows_def sample_catalog_def sample_node_def empty_db_def)

definition sample_report :: "int \<Rightarrow> (str \<times> str) list \<Rightarrow> skill_report" where
  "sample_report g ks = \<lparr>rp_node = ''n1'', rp_generation = g, rp_skills = map (\<lambda>(k, st).
     \<lparr>in_name = k, in_version = ''1.0'', in_sha = ''ab'', in_state = st, in_reason = [], in_detail = [],
      in_attempts = 1, in_previous = []\<rparr>) ks\<rparr>"


subsection \<open>What a report without skills forgets\<close>

text \<open>
  The generation a node has applied is only remembered in the rows of its skills: after a report of
  generation five that has no skills (the last one was uninstalled) a late report of generation four is
  accepted, and the center shows a skill as installed that the node no longer has.
\<close>

lemma empty_report_forgets:
  "\<exists>db1 db2. apply_report (sample_cenv 0) sample_catalog (sample_report 5 []) = (db1, Ok ())
     \<and> apply_report (sample_cenv 0) db1 (sample_report 4 [(''disk'', ''installed'')]) = (db2, Ok ())
     \<and> own_rows db2 ''n1'' = map (actual_of (sample_cenv 0) ''n1'' 4) (rp_skills (sample_report 4 [(''disk'', ''installed'')]))"
proof -
  have a: "apply_report (sample_cenv 0) sample_catalog (sample_report 5 []) = (sample_catalog, Ok ())"
    by (simp add: apply_report_def own_rows_def sample_catalog_def empty_db_def sample_report_def applied_max_def delete_where_def)
  obtain db2 where b: "apply_report (sample_cenv 0) sample_catalog (sample_report 4 [(''disk'', ''installed'')]) = (db2, Ok ())"
    using first_report_accepted [of "sample_report 4 [(''disk'', ''installed'')]"] sample_node_exists by (auto simp: sample_report_def)
  have "applied_max (own_rows sample_catalog ''n1'') = 0"
    by (simp add: own_rows_def sample_catalog_def empty_db_def applied_max_def)
  then have "recorded (sample_cenv 0) sample_catalog (sample_report 4 [(''disk'', ''installed'')]) db2"
    using apply_report_Ok [OF b] by (simp add: sample_report_def)
  from recorded_own [OF this] a b show ?thesis by (auto simp: sample_report_def)
qed

end
