(* ===== verification/Session.thy ===== *)
theory Session
  imports Center_Tags_Runs Delivery_Reports
begin

text \<open>
  \<open>crates/novbot-center/src/grpc.rs\<close>: the control sessions of the nodes. A session is known by the number
  of its push channel. The state \<open>world\<close> is the database, the hub and the sessions that run; one step is one
  turn of the loop of one session. \<open>ss_room\<close> is how many messages the client still takes before it goes away,
  which the center learns only when a send fails; \<open>ss_out\<close> is what has been sent. What is outside is the
  record \<open>senv\<close>: the clock, fresh tickets and message numbers, the reading of a time stamp by \<open>chrono\<close>,
  transient failures of the database, and the text of an error.
\<close>

subsection \<open>The gate\<close>

record ready_gate =
  rg_timeout :: nat
  rg_bound_at :: "nat option"
  rg_ready :: bool

definition gate_new :: "nat \<Rightarrow> ready_gate" where
  "gate_new timeout = \<lparr>rg_timeout = timeout, rg_bound_at = None, rg_ready = False\<rparr>"

definition on_bound :: "ready_gate \<Rightarrow> nat \<Rightarrow> ready_gate" where
  "on_bound g now = (if rg_ready g \<or> rg_bound_at g \<noteq> None then g else g\<lparr>rg_bound_at := Some now\<rparr>)"

definition on_node_ready :: "ready_gate \<Rightarrow> int \<Rightarrow> int \<Rightarrow> ready_gate \<times> bool" where
  "on_node_ready g acked_gen center_gen =
     (if rg_ready g \<or> acked_gen < center_gen then (g, False) else (g\<lparr>rg_ready := True\<rparr>, True))"

definition gate_deadline :: "ready_gate \<Rightarrow> nat option" where
  "gate_deadline g = (if rg_ready g then None else map_option (\<lambda>t. t + rg_timeout g) (rg_bound_at g))"

definition on_timeout :: "ready_gate \<Rightarrow> nat \<Rightarrow> ready_gate \<times> bool" where
  "on_timeout g now =
     (if rg_ready g then (g, False)
      else (case gate_deadline g of
          Some due \<Rightarrow> if now \<ge> due then (g\<lparr>rg_ready := True\<rparr>, True) else (g, False)
        | None \<Rightarrow> (g, False)))"

subsection \<open>Messages\<close>

record register_request =
  rq_node :: str
  rq_token :: str
  rq_hostname :: str
  rq_version :: str
  rq_tags :: "(str \<times> str) list"
  rq_os :: str
  rq_arch :: str
  rq_abi :: str

record result_request =
  rt_node :: str
  rt_run :: str
  rt_spec :: str
  rt_status :: str
  rt_payload :: str
  rt_observed_ms :: int

datatype client_body =
    CRegister register_request
  | CHeartbeat str
  | CPullConfig str
  | CReportResult result_request
  | CPullSkills str
  | CSkillState skill_report
  | CNodeReady str int
  | CAck str

record client_message =
  cm_request :: str
  cm_body :: "client_body option"

datatype server_body =
    SRegister str bool str
  | SHeartbeat bool int int
  | SPullConfig int str str
  | SReportResult bool
  | SDispatch str str str
  | SDesired desired_skills
  | SAck str bool str
  | SError str str

record server_message =
  sm_request :: str
  sm_body :: server_body

definition err_msg :: "str \<Rightarrow> str \<Rightarrow> str \<Rightarrow> server_message" where
  "err_msg request_id code message = \<lparr>sm_request = request_id, sm_body = SError code message\<rparr>"

text \<open>\<open>NodeReady\<close> and \<open>Ack\<close> must not bind a session.\<close>

definition client_node_id :: "client_message \<Rightarrow> str option" where
  "client_node_id msg =
     (case cm_body msg of
        Some (CRegister r) \<Rightarrow> Some (rq_node r)
      | Some (CHeartbeat n) \<Rightarrow> Some n
      | Some (CPullConfig n) \<Rightarrow> Some n
      | Some (CReportResult r) \<Rightarrow> Some (rt_node r)
      | Some (CPullSkills n) \<Rightarrow> Some n
      | Some (CSkillState r) \<Rightarrow> Some (rp_node r)
      | Some (CNodeReady _ _) \<Rightarrow> None
      | Some (CAck _) \<Rightarrow> None
      | None \<Rightarrow> None)"

record senv =
  se_env :: cenv
  se_instant :: nat
  se_ticket :: "nat \<Rightarrow> str"
  se_fresh :: "nat \<Rightarrow> str"
  se_attempts :: "nat \<Rightarrow> attempt"
  se_chrono :: "int \<Rightarrow> nat option"
  se_text :: "desired_error \<Rightarrow> str"
  se_register_error :: str

subsection \<open>Handling a message\<close>

type_synonym center = "db \<times> hub"

definition handle_register :: "senv \<Rightarrow> str option \<Rightarrow> str \<Rightarrow> center \<Rightarrow> register_request \<Rightarrow> center \<times> server_message \<times> str option" where
  "handle_register e expected request_id = (\<lambda>(db, h) r.
     if (case expected of Some tok \<Rightarrow> tok \<noteq> [] \<and> rq_token r \<noteq> tok | None \<Rightarrow> False)
     then ((db, h), \<lparr>sm_request = request_id, sm_body = SRegister (rq_node r) False ''invalid bootstrap token''\<rparr>, None)
     else (case register_node (se_env e) db (se_attempts e) (rq_node r) (rq_hostname r) (rq_version r) (rq_tags r) (rq_os r) (rq_arch r) of
         (db1, True) \<Rightarrow>
           ((requeue_in_flight_for_node db1 (rq_node r), note_abi (hub_evict h (rq_node r)) (rq_node r) (rq_abi r)),
            \<lparr>sm_request = request_id, sm_body = SRegister (rq_node r) True ''registered''\<rparr>, Some (rq_node r))
       | (db1, False) \<Rightarrow>
           ((db1, h), \<lparr>sm_request = request_id, sm_body = SRegister (rq_node r) False (se_register_error e)\<rparr>, None)))"

definition handle_heartbeat :: "senv \<Rightarrow> str \<Rightarrow> center \<Rightarrow> str \<Rightarrow> center \<times> server_message \<times> str option" where
  "handle_heartbeat e request_id = (\<lambda>(db, h) n.
     (let db1 = touch_node (se_env e) db n
      in ((db1, h),
          \<lparr>sm_request = request_id, sm_body = SHeartbeat True (config_generation (se_env e) db1 n) (skill_generation db1 n)\<rparr>,
          Some n)))"

definition handle_pull_skills :: "senv \<Rightarrow> str \<Rightarrow> center \<Rightarrow> str \<Rightarrow> center \<times> server_message \<times> str option" where
  "handle_pull_skills e request_id = (\<lambda>(db, h) n.
     if unwrap_or (skill_abi h n) [] = []
     then ((db, h), err_msg request_id ''node_too_old'' ''node did not advertise a skill abi'', Some n)
     else (case build_desired (se_instant e) (se_ticket e) db h n of
         (h1, d) \<Rightarrow> ((db, h1), \<lparr>sm_request = request_id, sm_body = SDesired d\<rparr>, Some n)))"

definition handle_skill_state :: "senv \<Rightarrow> str \<Rightarrow> center \<Rightarrow> skill_report \<Rightarrow> center \<times> server_message \<times> str option" where
  "handle_skill_state e request_id = (\<lambda>(db, h) report.
     (case apply_report (se_env e) db report of
        (db1, Inr _) \<Rightarrow> ((db1, h), \<lparr>sm_request = request_id, sm_body = SAck request_id True ''ok''\<rparr>, Some (rp_node report))
      | (db1, Inl x) \<Rightarrow> ((db1, h), err_msg request_id ''db'' (se_text e x), Some (rp_node report))))"

definition handle_pull_config :: "senv \<Rightarrow> str \<Rightarrow> center \<Rightarrow> str \<Rightarrow> center \<times> server_message \<times> str option" where
  "handle_pull_config e request_id = (\<lambda>(db, h) n.
     (let db1 = touch_node (se_env e) db n
      in ((db1, h),
          \<lparr>sm_request = request_id, sm_body = (case get_config (se_env e) db1 n of
              Some c \<Rightarrow> SPullConfig (cf_generation c) (cf_specs c) (cf_schedules c)
            | None \<Rightarrow> SPullConfig 0 ''[]'' ''[]'')\<rparr>,
          Some n)))"

definition handle_report_result :: "senv \<Rightarrow> str \<Rightarrow> center \<Rightarrow> result_request \<Rightarrow> center \<times> server_message \<times> str option" where
  "handle_report_result e request_id = (\<lambda>(db, h) r.
     (case store_reported_result (se_env e) db (rt_node r) (rt_run r) (rt_spec r) (rt_status r) (rt_payload r)
             (unwrap_or (se_chrono e (rt_observed_ms r)) (ce_now (se_env e))) of
        (db1, Inr _) \<Rightarrow> ((ack_pending_dispatch db1 (rt_node r) (rt_run r), h),
            \<lparr>sm_request = request_id, sm_body = SReportResult True\<rparr>, Some (rt_node r))
      | (db1, Inl _) \<Rightarrow> ((db1, h), \<lparr>sm_request = request_id, sm_body = SReportResult False\<rparr>, Some (rt_node r))))"

definition handle :: "senv \<Rightarrow> str option \<Rightarrow> center \<Rightarrow> client_message \<Rightarrow> center \<times> server_message \<times> str option" where
  "handle e expected c msg =
     (let request_id = cm_request msg in
      case cm_body msg of
        None \<Rightarrow> (c, err_msg request_id ''empty'' ''missing body'', None)
      | Some (CRegister r) \<Rightarrow> handle_register e expected request_id c r
      | Some (CHeartbeat n) \<Rightarrow> handle_heartbeat e request_id c n
      | Some (CPullSkills n) \<Rightarrow> handle_pull_skills e request_id c n
      | Some (CSkillState report) \<Rightarrow> handle_skill_state e request_id c report
      | Some (CPullConfig n) \<Rightarrow> handle_pull_config e request_id c n
      | Some (CReportResult r) \<Rightarrow> handle_report_result e request_id c r
      | Some (CNodeReady _ _) \<Rightarrow> (c, \<lparr>sm_request = request_id, sm_body = SAck request_id True ''ok''\<rparr>, None)
      | Some (CAck of_request) \<Rightarrow> (c, \<lparr>sm_request = request_id, sm_body = SAck of_request True ''ok''\<rparr>, None))"

subsection \<open>Delivering the queue\<close>

text \<open>The rows in order until a send fails; the unsent rows are put back.\<close>

definition dispatch_message :: "(nat \<Rightarrow> str) \<Rightarrow> nat \<Rightarrow> claimed_dispatch \<Rightarrow> server_message" where
  "dispatch_message fresh i row = \<lparr>sm_request = fresh i, sm_body = SDispatch (cd_run row) (cd_spec row) (cd_params row)\<rparr>"

fun send_rows :: "(nat \<Rightarrow> str) \<Rightarrow> nat \<Rightarrow> db \<Rightarrow> nat \<Rightarrow> claimed_dispatch list \<Rightarrow> db \<times> server_message list" where
  "send_rows fresh i db room [] = (db, [])"
| "send_rows fresh i db room (row # rows) =
     (if room = 0 then (requeue_pending_dispatches db (map cd_id (row # rows)), [])
      else (let (db', sent) = send_rows fresh (Suc i) db (room - 1) rows in (db', dispatch_message fresh i row # sent)))"

record session =
  ss_bound :: "str option"
  ss_gate :: ready_gate
  ss_room :: nat
  ss_inbox :: "server_message list"
  ss_out :: "server_message list"

definition session_new :: "nat \<Rightarrow> nat \<Rightarrow> session" where
  "session_new timeout room = \<lparr>ss_bound = None, ss_gate = gate_new timeout, ss_room = room, ss_inbox = [], ss_out = []\<rparr>"

definition tx_send :: "session \<Rightarrow> server_message \<Rightarrow> session \<times> bool" where
  "tx_send s m = (if ss_room s = 0 then (s, False)
     else (s\<lparr>ss_room := ss_room s - 1, ss_out := ss_out s @ [m]\<rparr>, True))"

definition flush_pending :: "senv \<Rightarrow> db \<Rightarrow> str \<Rightarrow> session \<Rightarrow> db \<times> session \<times> nat" where
  "flush_pending e db node_id s =
     (let (db1, rows) = claim_pending_dispatches (se_env e) db node_id PENDING_DISPATCH_ACK_TIMEOUT;
          (db2, sent) = send_rows (se_fresh e) 0 db1 (ss_room s) rows
      in (db2, s\<lparr>ss_room := ss_room s - length sent, ss_out := ss_out s @ sent\<rparr>, length sent))"

definition activate_ready :: "senv \<Rightarrow> nat \<Rightarrow> center \<Rightarrow> str \<Rightarrow> session \<Rightarrow> center \<times> session \<times> nat" where
  "activate_ready e push = (\<lambda>(db, h) node_id s.
     (case flush_pending e db node_id s of (db1, s1, n) \<Rightarrow> ((db1, hub_register h node_id push), s1, n)))"

definition flush_for_timeout :: "senv \<Rightarrow> nat \<Rightarrow> center \<Rightarrow> str \<Rightarrow> session \<Rightarrow> center \<times> session" where
  "flush_for_timeout e push c node_id s = (case activate_ready e push c node_id s of (c1, s1, _) \<Rightarrow> (c1, s1))"

definition apply_node_ready :: "senv \<Rightarrow> nat \<Rightarrow> center \<Rightarrow> str \<Rightarrow> int \<Rightarrow> session \<Rightarrow> center \<times> session \<times> bool" where
  "apply_node_ready e push c node_id acked_gen s =
     (case on_node_ready (ss_gate s) acked_gen (config_generation (se_env e) (fst c) node_id) of
        (g, True) \<Rightarrow> (case activate_ready e push c node_id (s\<lparr>ss_gate := g\<rparr>) of (c1, s1, _) \<Rightarrow> (c1, s1, True))
      | (g, False) \<Rightarrow> (c, s, False))"

subsection \<open>The loop of a session\<close>

record world =
  w_db :: db
  w_hub :: hub
  w_sessions :: "nat \<rightharpoonup> session"

definition world_center :: "world \<Rightarrow> center" where
  "world_center w = (w_db w, w_hub w)"

definition put_world :: "world \<Rightarrow> nat \<Rightarrow> center \<Rightarrow> session option \<Rightarrow> world" where
  "put_world w sid c s = w\<lparr>w_db := fst c, w_hub := snd c, w_sessions := (w_sessions w)(sid := s)\<rparr>"

definition release :: "nat \<Rightarrow> center \<Rightarrow> str option \<Rightarrow> center" where
  "release push = (\<lambda>(db, h) bound. case bound of
     None \<Rightarrow> (db, h)
   | Some old \<Rightarrow> (requeue_in_flight_for_node db old, hub_unregister h old push))"

definition bind_node :: "senv \<Rightarrow> nat \<Rightarrow> nat \<Rightarrow> center \<Rightarrow> session \<Rightarrow> str option \<Rightarrow> center \<times> session" where
  "bind_node e timeout push c s node_id =
     (case node_id of
        None \<Rightarrow> (c, s)
      | Some nid \<Rightarrow>
          if ss_bound s = Some nid then (c, s)
          else (release push c (ss_bound s),
                s\<lparr>ss_bound := Some nid, ss_gate := on_bound (gate_new timeout) (se_instant e)\<rparr>))"

definition node_ready_of :: "client_message \<Rightarrow> (str \<times> int) option" where
  "node_ready_of msg = (case cm_body msg of Some (CNodeReady n g) \<Rightarrow> Some (n, g) | _ \<Rightarrow> None)"

definition ready_step :: "senv \<Rightarrow> nat \<Rightarrow> center \<Rightarrow> session \<Rightarrow> client_message \<Rightarrow> center \<times> session \<times> bool" where
  "ready_step e push c s msg =
     (case node_ready_of msg of
        Some (ready_nid, acked_gen) \<Rightarrow>
          if ss_bound s = Some ready_nid then apply_node_ready e push c ready_nid acked_gen s else (c, s, False)
      | None \<Rightarrow> (c, s, False))"

definition drain_step :: "senv \<Rightarrow> center \<Rightarrow> session \<Rightarrow> bool \<Rightarrow> center \<times> session" where
  "drain_step e c s flushed =
     (case ss_bound s of
        Some nid \<Rightarrow>
          if rg_ready (ss_gate s) \<and> \<not> flushed
          then (case flush_pending e (fst c) nid s of (db1, s1, _) \<Rightarrow> ((db1, snd c), s1))
          else (c, s)
      | None \<Rightarrow> (c, s))"

definition end_session :: "nat \<Rightarrow> world \<Rightarrow> center \<Rightarrow> session \<Rightarrow> world" where
  "end_session sid w c s = put_world w sid (release sid c (ss_bound s)) None"

definition reply_or_end :: "nat \<Rightarrow> world \<Rightarrow> center \<Rightarrow> session \<Rightarrow> server_message \<Rightarrow> world" where
  "reply_or_end sid w c s m =
     (case tx_send s m of (s1, True) \<Rightarrow> put_world w sid c (Some s1) | (s1, False) \<Rightarrow> end_session sid w c s1)"

record center_config =
  cc_token :: "str option"
  cc_timeout :: nat

definition frame_turn ::
    "center_config \<Rightarrow> senv \<Rightarrow> nat \<Rightarrow> center \<Rightarrow> session \<Rightarrow> client_message \<Rightarrow> center \<times> session \<times> server_message" where
  "frame_turn cfg e push c s msg =
     (let (c1, reply, node_id) = handle e (cc_token cfg) c msg;
          (c2, s2) = bind_node e (cc_timeout cfg) push c1 s node_id;
          (c3, s3, flushed) = ready_step e push c2 s2 msg;
          (c4, s4) = drain_step e c3 s3 flushed
      in (c4, s4, reply))"

definition on_frame :: "center_config \<Rightarrow> senv \<Rightarrow> nat \<Rightarrow> world \<Rightarrow> session \<Rightarrow> client_message \<Rightarrow> world" where
  "on_frame cfg e sid w s msg =
     (case frame_turn cfg e sid (world_center w) s msg of (c, s1, reply) \<Rightarrow> reply_or_end sid w c s1 reply)"

text \<open>
  \<open>Frame\<close> is a message of the client, \<open>Closed\<close> the end of its stream or an error on it, \<open>Pushed\<close> a message in the push
  channel, \<open>Deadline\<close> the timer.
\<close>

datatype session_event = Frame client_message | Closed | Pushed | Deadline

definition on_push :: "nat \<Rightarrow> world \<Rightarrow> session \<Rightarrow> world" where
  "on_push sid w s =
     (case ss_inbox s of
        [] \<Rightarrow> w
      | m # ms \<Rightarrow> reply_or_end sid w (world_center w) (s\<lparr>ss_inbox := ms\<rparr>) m)"

definition on_deadline :: "senv \<Rightarrow> nat \<Rightarrow> world \<Rightarrow> session \<Rightarrow> world" where
  "on_deadline e sid w s =
     (case gate_deadline (ss_gate s) of
        None \<Rightarrow> w
      | Some due \<Rightarrow>
          if se_instant e < due then w
          else (case on_timeout (ss_gate s) (max (se_instant e) due) of
              (g, True) \<Rightarrow>
                (let s1 = s\<lparr>ss_gate := g\<rparr> in
                 case ss_bound s of
                   Some nid \<Rightarrow> (case flush_for_timeout e sid (world_center w) nid s1 of (c2, s2) \<Rightarrow> put_world w sid c2 (Some s2))
                 | None \<Rightarrow> put_world w sid (world_center w) (Some s1))
            | (g, False) \<Rightarrow> w))"

fun session_step :: "center_config \<Rightarrow> senv \<Rightarrow> nat \<Rightarrow> session_event \<Rightarrow> world \<Rightarrow> world" where
  "session_step cfg e sid ev w =
     (case w_sessions w sid of
        None \<Rightarrow> w
      | Some s \<Rightarrow>
          (case ev of
             Frame msg \<Rightarrow> on_frame cfg e sid w s msg
           | Closed \<Rightarrow> end_session sid w (world_center w) s
           | Pushed \<Rightarrow> on_push sid w s
           | Deadline \<Rightarrow> on_deadline e sid w s))"

declare session_step.simps [simp del]

subsection \<open>Fetching a package\<close>

datatype status = PermissionDenied str | NotFound str | OutOfRange str

definition artifact_get :: "db \<Rightarrow> str \<Rightarrow> str option" where
  "artifact_get db sha256 = map_option ar_data (row_at ar_sha (t_artifacts db) sha256)"

definition fetch_artifact ::
    "nat \<Rightarrow> center \<Rightarrow> str \<Rightarrow> str \<Rightarrow> str \<Rightarrow> int \<Rightarrow> center \<times> (artifact_chunk list, status) result" where
  "fetch_artifact now = (\<lambda>(db, h) node_id sha256 ticket offset.
     (case check_ticket now h ticket node_id sha256 of
        (h1, Inl reason) \<Rightarrow> ((db, h1), Err (PermissionDenied ''fetch ticket rejected''))
      | (h1, Inr _) \<Rightarrow> ((db, h1),
          (case artifact_get db (trim sha256) of
             None \<Rightarrow> Err (NotFound ''artifact not found'')
           | Some bytes \<Rightarrow> (case artifact_chunks bytes offset of Inl m \<Rightarrow> Err (OutOfRange m) | Inr cs \<Rightarrow> Ok cs)))))"

end
