(* ===== verification/Session_Correct.thy ===== *)
theory Session_Correct
  imports Session
begin

text \<open>
  The sessions of the nodes: a node is registered for live messages only with a session that is bound to it
  and ready, a session gets queued work only when it is ready, and what it becomes ready by.
\<close>

subsection \<open>Worlds\<close>

definition alive_in :: "world \<Rightarrow> nat \<Rightarrow> bool" where
  "alive_in w tx = (w_sessions w tx \<noteq> None)"

text \<open>
  What can happen: sessions open and take their turns, another part of the center puts a message into the channel of a
  node, and requests change the database, the tickets and the ABIs, but not the registered channels.
\<close>

inductive reachable :: "center_config \<Rightarrow> world \<Rightarrow> bool" for cfg where
  start: "hb_inner h = Map.empty \<Longrightarrow> reachable cfg \<lparr>w_db = db, w_hub = h, w_sessions = Map.empty\<rparr>"
| opened: "reachable cfg w \<Longrightarrow> w_sessions w sid = None \<Longrightarrow>
    reachable cfg (w\<lparr>w_sessions := (w_sessions w)(sid \<mapsto> session_new (cc_timeout cfg) room)\<rparr>)"
| turn: "reachable cfg w \<Longrightarrow> reachable cfg (session_step cfg e sid ev w)"
| put: "reachable cfg w \<Longrightarrow> hub_send (w_hub w) (alive_in w) n = Some tx \<Longrightarrow> w_sessions w tx = Some s \<Longrightarrow>
    reachable cfg (w\<lparr>w_sessions := (w_sessions w)(tx \<mapsto> s\<lparr>ss_inbox := ss_inbox s @ [m]\<rparr>)\<rparr>)"
| outside: "reachable cfg w \<Longrightarrow> hb_inner h = hb_inner (w_hub w) \<Longrightarrow> reachable cfg (w\<lparr>w_db := db, w_hub := h\<rparr>)"

definition gate_sound :: "nat \<Rightarrow> session \<Rightarrow> bool" where
  "gate_sound timeout s \<longleftrightarrow> rg_timeout (ss_gate s) = timeout \<and> (ss_bound s = None \<longleftrightarrow> rg_bound_at (ss_gate s) = None)
     \<and> (rg_ready (ss_gate s) \<longrightarrow> ss_bound s \<noteq> None)"

text \<open>The channels a session may have in the hub, and what a turn does to those of others.\<close>

definition owns :: "nat \<Rightarrow> hub \<Rightarrow> session \<Rightarrow> bool" where
  "owns sid h s \<longleftrightarrow> (\<forall>n. hb_inner h n = Some sid \<longrightarrow> ss_bound s = Some n \<and> rg_ready (ss_gate s))"

definition others_kept :: "nat \<Rightarrow> hub \<Rightarrow> hub \<Rightarrow> bool" where
  "others_kept sid h h' \<longleftrightarrow> (\<forall>n tx. tx \<noteq> sid \<longrightarrow> hb_inner h' n = Some tx \<longrightarrow> hb_inner h n = Some tx)"

lemma others_kept_refl [simp]: "others_kept sid h h"
  by (simp add: others_kept_def)

lemma others_kept_trans: "others_kept sid h1 h2 \<Longrightarrow> others_kept sid h2 h3 \<Longrightarrow> others_kept sid h1 h3"
  by (simp add: others_kept_def)

lemma session_cong:
  assumes "ss_bound s' = ss_bound s" "ss_gate s' = ss_gate s"
  shows "gate_sound timeout s' = gate_sound timeout s" "owns sid h s' = owns sid h s"
  using assms by (simp_all add: gate_sound_def owns_def)

lemma map_le_Some: "m \<subseteq>\<^sub>m m' \<Longrightarrow> m k = Some v \<Longrightarrow> m' k = Some v"
  by (metis domI map_le_def)

lemma map_le_others: "hb_inner h' \<subseteq>\<^sub>m hb_inner h \<Longrightarrow> others_kept sid h h'"
  by (auto simp: others_kept_def dest: map_le_Some)

lemma map_le_owns: "hb_inner h' \<subseteq>\<^sub>m hb_inner h \<Longrightarrow> owns sid h s \<Longrightarrow> owns sid h' s"
  by (auto simp: owns_def dest: map_le_Some)

lemma upd_None_le: "m(k := None) \<subseteq>\<^sub>m m"
  by (simp add: map_le_def)

subsection \<open>The parts of a turn\<close>

lemma issue_refs_inner: "hb_inner (fst (issue_refs now fresh n i h rows)) = hb_inner h"
  by (induction rows arbitrary: i h) (simp_all add: Let_def case_prod_beta issue_ticket_def issue_ticket_ttl_def)

lemma build_desired_inner: "build_desired now fresh db h n = (h', d) \<Longrightarrow> hb_inner h' = hb_inner h"
  using issue_refs_inner [of now fresh n 0 h "joined_rows db n"] by (auto simp: build_desired_def split: prod.splits)

text \<open>A message changes the hub by an eviction, an advertised ABI, or new tickets.\<close>

lemma handle_center:
  assumes "handle e tok (db, h) msg = (c', reply, nid)"
  shows "hb_inner (snd c') = hb_inner h \<or> (\<exists>r. cm_body msg = Some (CRegister r) \<and> hb_inner (snd c') = (hb_inner h)(rq_node r := None))"
proof (cases "cm_body msg")
  case (Some b)
  then show ?thesis
  proof (cases b)
    case (CRegister r)
    with assms Some show ?thesis
      by (auto simp: handle_def Let_def handle_register_def hub_evict_def note_abi_def split: if_splits prod.splits bool.splits)
  next
    case (CPullSkills n)
    with assms Some show ?thesis
      by (auto simp: handle_def Let_def handle_pull_skills_def dest: build_desired_inner split: if_splits prod.splits)
  next
    case (CSkillState r)
    with assms Some show ?thesis
      by (auto simp: handle_def Let_def handle_skill_state_def split: prod.splits sum.splits)
  next
    case (CReportResult r)
    with assms Some show ?thesis
      by (auto simp: handle_def Let_def handle_report_result_def split: prod.splits sum.splits)
  qed (use assms Some in \<open>auto simp: handle_def Let_def handle_heartbeat_def handle_pull_config_def\<close>)
qed (use assms in \<open>auto simp: handle_def Let_def\<close>)

lemma handle_inner:
  "handle e tok c msg = (c', reply, nid) \<Longrightarrow> hb_inner (snd c') \<subseteq>\<^sub>m hb_inner (snd c)"
  using handle_center [of e tok "fst c" "snd c" msg c' reply nid] upd_None_le by fastforce

lemma release_inner: "hb_inner (snd (release push c bound)) \<subseteq>\<^sub>m hb_inner (snd c)"
  by (cases c) (auto simp: release_def hub_unregister_def upd_None_le split: option.splits)

lemma release_own: "hb_inner (snd (release push c (Some n))) n \<noteq> Some push"
  by (cases c) (auto simp: release_def hub_unregister_def split: option.splits)

lemma bind_node_keeps:
  assumes "bind_node e timeout push c s nid = (c', s')" "owns push (snd c) s" "gate_sound timeout s"
  shows "others_kept push (snd c) (snd c')" "owns push (snd c') s'" "gate_sound timeout s'"
    "rg_ready (ss_gate s') \<Longrightarrow> rg_ready (ss_gate s) \<and> ss_bound s' = ss_bound s" "ss_out s' = ss_out s" "ss_room s' = ss_room s"
    "ss_inbox s' = ss_inbox s"
proof -
  have "others_kept push (snd c) (snd c') \<and> owns push (snd c') s' \<and> gate_sound timeout s'
    \<and> (rg_ready (ss_gate s') \<longrightarrow> rg_ready (ss_gate s) \<and> ss_bound s' = ss_bound s)
    \<and> ss_out s' = ss_out s \<and> ss_room s' = ss_room s \<and> ss_inbox s' = ss_inbox s"
  proof (cases "\<exists>n. nid = Some n \<and> ss_bound s \<noteq> Some n")
    case False
    then have "c' = c" "s' = s" using assms(1) by (auto simp: bind_node_def split: option.splits)
    then show ?thesis using assms(2,3) by simp
  next
    case True
    then obtain n where e: "c' = release push c (ss_bound s)"
      "s' = s\<lparr>ss_bound := Some n, ss_gate := on_bound (gate_new timeout) (se_instant e)\<rparr>"
      using assms(1) by (auto simp: bind_node_def)
    have "hb_inner (snd c') m \<noteq> Some push" for m
    proof
      assume a: "hb_inner (snd c') m = Some push"
      then have "hb_inner (snd c) m = Some push" unfolding e(1) by (rule map_le_Some [OF release_inner])
      then have "ss_bound s = Some m" using assms(2) by (simp add: owns_def)
      with a show False using release_own [of push c m] unfolding e(1) by simp
    qed
    moreover have "others_kept push (snd c) (snd c')" unfolding e(1) by (rule map_le_others [OF release_inner])
    ultimately show ?thesis by (simp add: e(2) owns_def gate_sound_def gate_new_def on_bound_def)
  qed
  then show "others_kept push (snd c) (snd c')" "owns push (snd c') s'" "gate_sound timeout s'"
    "rg_ready (ss_gate s') \<Longrightarrow> rg_ready (ss_gate s) \<and> ss_bound s' = ss_bound s" "ss_out s' = ss_out s" "ss_room s' = ss_room s"
    "ss_inbox s' = ss_inbox s"
    by simp_all
qed

lemma flush_pending_keeps:
  "flush_pending e db n s = (db', s', k) \<Longrightarrow> ss_bound s' = ss_bound s \<and> ss_gate s' = ss_gate s \<and> ss_inbox s' = ss_inbox s"
  by (auto simp: flush_pending_def split: prod.splits)

lemma activate_ready_keeps:
  assumes "activate_ready e push c n s = (c', s', k)" "owns push (snd c) s" "ss_bound s = Some n" "rg_ready (ss_gate s)"
  shows "others_kept push (snd c) (snd c') \<and> owns push (snd c') s' \<and> ss_bound s' = ss_bound s \<and> ss_gate s' = ss_gate s"
  using assms flush_pending_keeps
  by (cases c) (fastforce simp: activate_ready_def hub_register_def others_kept_def owns_def split: prod.splits if_splits)

lemma ready_step_keeps:
  assumes "ready_step e push c s msg = (c', s', fl)" "owns push (snd c) s" "gate_sound timeout s"
  shows "others_kept push (snd c) (snd c') \<and> owns push (snd c') s' \<and> gate_sound timeout s' \<and> ss_bound s' = ss_bound s"
proof (cases "c' = c \<and> s' = s")
  case True
  with assms show ?thesis by simp
next
  case False
  then obtain n g k where n: "ss_bound s = Some n"
    and a: "activate_ready e push c n (s\<lparr>ss_gate := (ss_gate s)\<lparr>rg_ready := True\<rparr>\<rparr>) = (c', s', k)"
    using assms(1)
    by (auto simp: ready_step_def apply_node_ready_def on_node_ready_def split: option.splits if_splits prod.splits bool.splits)
  have "owns push (snd c) (s\<lparr>ss_gate := (ss_gate s)\<lparr>rg_ready := True\<rparr>\<rparr>)" using assms(2) by (auto simp: owns_def)
  from activate_ready_keeps [OF a this] n assms(3) show ?thesis by (auto simp: gate_sound_def)
qed

lemma drain_step_keeps:
  assumes "drain_step e c s fl = (c', s')"
  shows "snd c' = snd c \<and> ss_bound s' = ss_bound s \<and> ss_gate s' = ss_gate s"
  using assms flush_pending_keeps by (fastforce simp: drain_step_def split: option.splits if_splits prod.splits)

lemma frame_turn_keeps:
  assumes "frame_turn cfg e sid c s msg = (c', s', reply)" "owns sid (snd c) s" "gate_sound (cc_timeout cfg) s"
  shows "others_kept sid (snd c) (snd c') \<and> owns sid (snd c') s' \<and> gate_sound (cc_timeout cfg) s'"
proof -
  obtain c1 nid c2 s2 c3 s3 fl where t: "handle e (cc_token cfg) c msg = (c1, reply, nid)"
    "bind_node e (cc_timeout cfg) sid c1 s nid = (c2, s2)" "ready_step e sid c2 s2 msg = (c3, s3, fl)"
    "drain_step e c3 s3 fl = (c', s')"
    using assms(1) by (auto simp: frame_turn_def split: prod.splits)
  note h = handle_inner [OF t(1)]
  note b = bind_node_keeps [OF t(2) map_le_owns [OF h assms(2)] assms(3)]
  note r = ready_step_keeps [OF t(3) b(2,3)] and d = drain_step_keeps [OF t(4)]
  have "others_kept sid (snd c) (snd c3)" using map_le_others [OF h] b(1) r others_kept_trans by blast
  moreover have "owns sid (snd c') s' \<and> gate_sound (cc_timeout cfg) s'" using r d session_cong [of s' s3] by auto
  ultimately show ?thesis using d by simp
qed

subsection \<open>The invariant\<close>

definition hub_sound :: "center_config \<Rightarrow> world \<Rightarrow> bool" where
  "hub_sound cfg w \<longleftrightarrow>
     (\<forall>n tx. hb_inner (w_hub w) n = Some tx \<longrightarrow>
        (\<exists>s. w_sessions w tx = Some s \<and> ss_bound s = Some n \<and> rg_ready (ss_gate s)))
     \<and> (\<forall>sid s. w_sessions w sid = Some s \<longrightarrow> gate_sound (cc_timeout cfg) s)"

lemma hub_soundD:
  assumes "hub_sound cfg w"
  shows "hb_inner (w_hub w) n = Some tx \<Longrightarrow> \<exists>s. w_sessions w tx = Some s \<and> ss_bound s = Some n \<and> rg_ready (ss_gate s)"
    "w_sessions w sid = Some s \<Longrightarrow> gate_sound (cc_timeout cfg) s"
  using assms by (auto simp: hub_sound_def)

lemma hub_soundI:
  assumes "\<And>n tx. hb_inner (w_hub w) n = Some tx \<Longrightarrow> \<exists>s. w_sessions w tx = Some s \<and> ss_bound s = Some n \<and> rg_ready (ss_gate s)"
    "\<And>sid s. w_sessions w sid = Some s \<Longrightarrow> gate_sound (cc_timeout cfg) s"
  shows "hub_sound cfg w"
  using assms by (auto simp: hub_sound_def)

lemma put_world_simps [simp]:
  "w_hub (put_world w sid c s) = snd c" "w_db (put_world w sid c s) = fst c"
  "w_sessions (put_world w sid c s) tx = (if tx = sid then s else w_sessions w tx)"
  by (simp_all add: put_world_def)

lemma hub_sound_put:
  assumes "hub_sound cfg w" "others_kept sid (w_hub w) (snd c)" "owns sid (snd c) s" "gate_sound (cc_timeout cfg) s"
  shows "hub_sound cfg (put_world w sid c (Some s))"
proof (rule hub_soundI)
  fix n tx assume "hb_inner (w_hub (put_world w sid c (Some s))) n = Some tx"
  then have n: "hb_inner (snd c) n = Some tx" by simp
  show "\<exists>x. w_sessions (put_world w sid c (Some s)) tx = Some x \<and> ss_bound x = Some n \<and> rg_ready (ss_gate x)"
  proof (cases "tx = sid")
    case True
    with n assms(3) show ?thesis by (simp add: owns_def)
  next
    case False
    with n assms(2) have "hb_inner (w_hub w) n = Some tx" by (simp add: others_kept_def)
    from hub_soundD(1) [OF assms(1) this] False show ?thesis by simp
  qed
next
  fix tx x assume "w_sessions (put_world w sid c (Some s)) tx = Some x"
  then show "gate_sound (cc_timeout cfg) x" using hub_soundD(2) [OF assms(1)] assms(4) by (auto split: if_splits)
qed

lemma hub_sound_end:
  assumes "hub_sound cfg w" "others_kept sid (w_hub w) (snd c)" "owns sid (snd c) s"
  shows "hub_sound cfg (end_session sid w c s)"
  unfolding end_session_def
proof (rule hub_soundI)
  let ?c = "release sid c (ss_bound s)"
  fix n tx assume "hb_inner (w_hub (put_world w sid ?c None)) n = Some tx"
  then have n: "hb_inner (snd ?c) n = Some tx" by simp
  then have c: "hb_inner (snd c) n = Some tx" using map_le_Some [OF release_inner] by blast
  have tx: "tx \<noteq> sid"
  proof
    assume "tx = sid"
    with c assms(3) have "ss_bound s = Some n" by (simp add: owns_def)
    with n \<open>tx = sid\<close> show False using release_own by simp
  qed
  with c assms(2) have "hb_inner (w_hub w) n = Some tx" by (simp add: others_kept_def)
  from hub_soundD(1) [OF assms(1) this] tx
  show "\<exists>x. w_sessions (put_world w sid ?c None) tx = Some x \<and> ss_bound x = Some n \<and> rg_ready (ss_gate x)" by simp
next
  fix tx x assume "w_sessions (put_world w sid (release sid c (ss_bound s)) None) tx = Some x"
  then show "gate_sound (cc_timeout cfg) x" using hub_soundD(2) [OF assms(1)] by (auto split: if_splits)
qed

lemma tx_send_keeps: "tx_send s m = (s', ok) \<Longrightarrow> ss_bound s' = ss_bound s \<and> ss_gate s' = ss_gate s"
  by (auto simp: tx_send_def split: if_splits)

lemma hub_sound_reply:
  assumes "hub_sound cfg w" "others_kept sid (w_hub w) (snd c)" "owns sid (snd c) s" "gate_sound (cc_timeout cfg) s"
  shows "hub_sound cfg (reply_or_end sid w c s m)"
proof -
  obtain s1 ok where t: "tx_send s m = (s1, ok)" by fastforce
  note k = tx_send_keeps [OF t]
  have "owns sid (snd c) s1" "gate_sound (cc_timeout cfg) s1" using assms k by (auto simp: owns_def gate_sound_def)
  with assms t show ?thesis by (cases ok) (simp_all add: reply_or_end_def hub_sound_put hub_sound_end)
qed

lemma hub_sound_owns: "hub_sound cfg w \<Longrightarrow> w_sessions w sid = Some s \<Longrightarrow> owns sid (w_hub w) s \<and> gate_sound (cc_timeout cfg) s"
  by (force simp: hub_sound_def owns_def)

lemma on_deadline_sound:
  assumes "hub_sound cfg w" "w_sessions w sid = Some s"
  shows "hub_sound cfg (on_deadline e sid w s)"
proof (cases "on_deadline e sid w s = w")
  case False
  then obtain n c2 s2 k where n: "ss_bound s = Some n" and
      a: "activate_ready e sid (world_center w) n (s\<lparr>ss_gate := (ss_gate s)\<lparr>rg_ready := True\<rparr>\<rparr>) = (c2, s2, k)"
      and d: "on_deadline e sid w s = put_world w sid c2 (Some s2)"
    using hub_sound_owns [OF assms]
    by (auto simp: on_deadline_def on_timeout_def gate_deadline_def flush_for_timeout_def Let_def gate_sound_def
        split: option.splits if_splits prod.splits)
  have "owns sid (snd (world_center w)) (s\<lparr>ss_gate := (ss_gate s)\<lparr>rg_ready := True\<rparr>\<rparr>)"
    using hub_sound_owns [OF assms] by (auto simp: owns_def world_center_def)
  from activate_ready_keeps [OF a this] n hub_sound_owns [OF assms] show ?thesis unfolding d
    by (intro hub_sound_put assms(1)) (auto simp: gate_sound_def world_center_def)
qed (use assms in simp)

lemma session_step_sound: "hub_sound cfg w \<Longrightarrow> hub_sound cfg (session_step cfg e sid ev w)"
proof (cases "w_sessions w sid")
  case (Some s)
  assume i: "hub_sound cfg w"
  note o = hub_sound_owns [OF i Some]
  show ?thesis
  proof (cases ev)
    case (Frame msg)
    obtain c s1 reply where f: "frame_turn cfg e sid (world_center w) s msg = (c, s1, reply)" by (metis prod_cases3)
    from frame_turn_keeps [OF f] o have "others_kept sid (w_hub w) (snd c) \<and> owns sid (snd c) s1 \<and> gate_sound (cc_timeout cfg) s1"
      by (simp add: world_center_def)
    then show ?thesis using i Some Frame f by (simp add: session_step.simps on_frame_def hub_sound_reply)
  next
    case Closed
    then show ?thesis using i Some o by (simp add: session_step.simps hub_sound_end world_center_def)
  next
    case Pushed
    have "owns sid (snd (world_center w)) (s\<lparr>ss_inbox := x\<rparr>) \<and> gate_sound (cc_timeout cfg) (s\<lparr>ss_inbox := x\<rparr>)" for x
      using o by (auto simp: owns_def gate_sound_def world_center_def)
    then show ?thesis using i Some Pushed
      by (auto simp: session_step.simps on_push_def world_center_def intro!: hub_sound_reply split: list.splits)
  next
    case Deadline
    then show ?thesis using i Some by (simp add: session_step.simps on_deadline_sound)
  qed
qed (simp add: session_step.simps)

lemma reachable_sound: "reachable cfg w \<Longrightarrow> hub_sound cfg w"
proof (induction rule: reachable.induct)
  case (start h db)
  then show ?case by (simp add: hub_sound_def)
next
  case (opened w sid room)
  then have "hb_inner (w_hub w) n \<noteq> Some sid" for n unfolding hub_sound_def by force
  with opened show ?case by (auto simp: hub_sound_def session_new_def gate_new_def gate_sound_def)
next
  case (put w n tx s m)
  then show ?case by (fastforce simp: hub_sound_def gate_sound_def)
next
  case (outside w h db)
  then show ?case by (simp add: hub_sound_def)
qed (rule session_step_sound)

end
