(* ===== verification/Session_Flush.thy ===== *)
theory Session_Flush
  imports Session_Correct
begin

text \<open>
  Queued work in a session: what one delivery of the queue sends and what stays in the queue, what a session must have
  done before it gets any, that the deadline delivers the queue in any case, what the end of an
  old session does to the deliveries of a new one, and what a ticket opens.
\<close>

subsection \<open>One delivery of the queue\<close>

definition queued_for :: "cenv \<Rightarrow> db \<Rightarrow> str \<Rightarrow> pending_row list" where
  "queued_for env db n =
     sort_key pd_id (filter (\<lambda>r. pd_node r = n \<and> claimable (ce_now env) PENDING_DISPATCH_ACK_TIMEOUT r) (t_pending db))"

definition claimed_of :: "cenv \<Rightarrow> pending_row \<Rightarrow> claimed_dispatch" where
  "claimed_of env r = \<lparr>cd_id = pd_id r, cd_run = pd_run r, cd_spec = pd_spec r, cd_params = reprint env (JObj []) (pd_params r)\<rparr>"

definition dispatch_body :: "cenv \<Rightarrow> pending_row \<Rightarrow> server_body" where
  "dispatch_body env r = SDispatch (pd_run r) (pd_spec r) (reprint env (JObj []) (pd_params r))"

lemma requeue_nil [simp]: "requeue_pending_dispatches db [] = db"
  by (simp add: requeue_pending_dispatches_def)

lemma send_rows_eq:
  "send_rows fresh i db room rows =
     (requeue_pending_dispatches db (map cd_id (drop room rows)),
      map (\<lambda>(j, r). dispatch_message fresh j r) (enumerate i (take room rows)))"
proof (induction rows arbitrary: i room)
  case (Cons row rows)
  then show ?case by (cases room) (simp_all add: case_prod_beta)
qed simp

lemma map_body_enumerate:
  "map sm_body (map (\<lambda>(j, r). dispatch_message fresh j r) (enumerate i rows)) = map (\<lambda>r. SDispatch (cd_run r) (cd_spec r) (cd_params r)) rows"
  by (induction rows arbitrary: i) (simp_all add: dispatch_message_def)

lemma claim_eq:
  "claim_pending_dispatches env db n PENDING_DISPATCH_ACK_TIMEOUT =
    (db\<lparr>t_pending := update_where (\<lambda>r. pd_node r = n \<and> claimable (ce_now env) PENDING_DISPATCH_ACK_TIMEOUT r)
         (\<lambda>r. r\<lparr>pd_in_flight := Some (ce_now env), pd_attempts := pd_attempts r + 1\<rparr>) (t_pending db)\<rparr>,
     map (claimed_of env) (queued_for env db n))"
  by (simp add: claim_pending_dispatches_def Let_def queued_for_def claimed_of_def comp_def)

lemma flush_pending_eq:
  "flush_pending e db n s =
    (let rows = queued_for (se_env e) db n; k = min (ss_room s) (length rows)
     in (requeue_pending_dispatches (fst (claim_pending_dispatches (se_env e) db n PENDING_DISPATCH_ACK_TIMEOUT))
           (map pd_id (drop k rows)),
         s\<lparr>ss_room := ss_room s - k,
           ss_out := ss_out s @ map (\<lambda>(j, r). dispatch_message (se_fresh e) j r) (enumerate 0 (map (claimed_of (se_env e)) (take k rows)))\<rparr>,
         k))"
proof -
  have d: "drop (ss_room s) rows = drop (min (ss_room s) (length rows)) rows" for rows :: "pending_row list"
    by (simp add: min_def)
  have t: "take (ss_room s) rows = take (min (ss_room s) (length rows)) rows" for rows :: "pending_row list"
    by (simp add: min_def)
  have c: "cd_id \<circ> claimed_of (se_env e) = pd_id" by (simp add: fun_eq_iff claimed_of_def)
  show ?thesis
    by (simp add: flush_pending_def claim_eq send_rows_eq Let_def take_map drop_map c d [symmetric] t [symmetric] min.commute)
qed

lemma queued_for_set: "r \<in> set (queued_for env db n) \<longleftrightarrow>
    r \<in> set (t_pending db) \<and> pd_node r = n \<and> claimable (ce_now env) PENDING_DISPATCH_ACK_TIMEOUT r"
  by (simp add: queued_for_def)

lemma queued_for_distinct: "distinct (map pd_id (t_pending db)) \<Longrightarrow> distinct (map pd_id (queued_for env db n))"
  by (simp add: queued_for_def distinct_map inj_on_def)

text \<open>
  C10. Delivering the queue loses nothing and sends in order: of the dispatches that wait for the node, in the order
  they were queued, the first are sent as far as the client takes them, each with its run, its spec and
  its parameters, and these and no others are in flight afterwards; the rest is free for the next
  delivery; dispatches of other nodes, or already in flight, are as before; and no row comes or goes.
\<close>

theorem queue_flushed_exactly:
  assumes "distinct (map pd_id (t_pending db))" "flush_pending e db n s = (db', s', k)"
  shows "k = min (ss_room s) (length (queued_for (se_env e) db n))
    \<and> map sm_body (ss_out s') = map sm_body (ss_out s) @ map (dispatch_body (se_env e)) (take k (queued_for (se_env e) db n))
    \<and> t_pending db' = map (\<lambda>r.
        if r \<in> set (take k (queued_for (se_env e) db n))
        then r\<lparr>pd_in_flight := Some (ce_now (se_env e)), pd_attempts := pd_attempts r + 1\<rparr>
        else if r \<in> set (queued_for (se_env e) db n)
        then r\<lparr>pd_in_flight := None, pd_attempts := pd_attempts r + 1\<rparr> else r) (t_pending db)"
proof -
  let ?rows = "queued_for (se_env e) db n"
  have k: "k = min (ss_room s) (length ?rows)" using assms(2) by (simp add: flush_pending_eq Let_def)
  have out: "ss_out s' = ss_out s @ map (\<lambda>(j, r). dispatch_message (se_fresh e) j r)
      (enumerate 0 (map (claimed_of (se_env e)) (take k ?rows)))"
    using assms(2) by (auto simp: flush_pending_eq Let_def)
  have b: "(\<lambda>r. SDispatch (cd_run r) (cd_spec r) (cd_params r)) \<circ> claimed_of (se_env e) = dispatch_body (se_env e)"
    by (simp add: fun_eq_iff claimed_of_def dispatch_body_def)
  have "map sm_body (ss_out s') = map sm_body (ss_out s) @ map (dispatch_body (se_env e)) (take k ?rows)"
    by (simp only: out map_append map_body_enumerate) (simp only: list.map_comp b)
  moreover have "t_pending db' = map (\<lambda>r.
        if r \<in> set (take k ?rows) then r\<lparr>pd_in_flight := Some (ce_now (se_env e)), pd_attempts := pd_attempts r + 1\<rparr>
        else if r \<in> set ?rows then r\<lparr>pd_in_flight := None, pd_attempts := pd_attempts r + 1\<rparr> else r) (t_pending db)"
  proof -
    have dist: "distinct (map pd_id (take k ?rows @ drop k ?rows))" using queued_for_distinct [OF assms(1)] by (simp only: append_take_drop_id)
    have same: "r = r'" if "pd_id r = pd_id r'" "r \<in> set (t_pending db)" "r' \<in> set (t_pending db)" for r r'
      using assms(1) that by (meson distinct_map inj_onD)
    have rest: "pd_id r \<in> pd_id ` set (drop k ?rows) \<longleftrightarrow> r \<in> set (drop k ?rows)" if "r \<in> set (t_pending db)" for r
    proof
      assume "pd_id r \<in> pd_id ` set (drop k ?rows)"
      then obtain x where x: "x \<in> set (drop k ?rows)" "pd_id r = pd_id x" by auto
      then have "x \<in> set (t_pending db)" using in_set_dropD queued_for_set by fast
      with same [OF x(2) that] x(1) show "r \<in> set (drop k ?rows)" by simp
    qed simp
    have split: "r \<in> set ?rows \<longleftrightarrow> r \<in> set (take k ?rows) \<or> r \<in> set (drop k ?rows)" for r
      by (metis Un_iff append_take_drop_id set_append)
    have disj: "r \<in> set (take k ?rows) \<Longrightarrow> r \<notin> set (drop k ?rows)" for r
      using dist unfolding map_append distinct_append by (metis disjoint_iff imageI list.set_map)
    have db': "db' = requeue_pending_dispatches (fst (claim_pending_dispatches (se_env e) db n PENDING_DISPATCH_ACK_TIMEOUT)) (map pd_id (drop k ?rows))"
      using assms(2) k by (simp add: flush_pending_eq Let_def)
    have "t_pending db' = map (\<lambda>r. if r \<in> set (drop k ?rows) then r\<lparr>pd_in_flight := None, pd_attempts := pd_attempts r + 1\<rparr>
        else if r \<in> set ?rows then r\<lparr>pd_in_flight := Some (ce_now (se_env e)), pd_attempts := pd_attempts r + 1\<rparr> else r) (t_pending db)"
    proof (cases "drop k ?rows = []")
      case True
      then show ?thesis by (auto simp: db' claim_eq update_where_def queued_for_set)
    next
      case False
      then show ?thesis using rest
        by (auto simp: db' claim_eq requeue_pending_dispatches_def update_where_def queued_for_set dest: in_set_dropD)
    qed
    also have "\<dots> = map (\<lambda>r.
        if r \<in> set (take k ?rows) then r\<lparr>pd_in_flight := Some (ce_now (se_env e)), pd_attempts := pd_attempts r + 1\<rparr>
        else if r \<in> set ?rows then r\<lparr>pd_in_flight := None, pd_attempts := pd_attempts r + 1\<rparr> else r) (t_pending db)"
      by (rule map_cong [OF refl]) (use split disj in auto)
    finally show ?thesis .
  qed
  ultimately show ?thesis using k by simp
qed

definition sample_senv :: "nat \<Rightarrow> senv" where
  "sample_senv now = \<lparr>se_env = sample_cenv now, se_instant = now, se_ticket = letters, se_fresh = letters,
     se_attempts = (\<lambda>_. Commits), se_chrono = (\<lambda>ms. Some (nat ms)), se_text = (\<lambda>_. ''error''), se_register_error = ''error''\<rparr>"

definition two_waiting :: db where
  "two_waiting = empty_db\<lparr>t_pending := map (\<lambda>i. \<lparr>pd_id = i, pd_node = ''n1'', pd_run = replicate i CHR ''r'', pd_spec = ''s'', pd_params = ''{}'',
     pd_in_flight = None, pd_attempts = 0\<rparr>) [1, 2]\<rparr>"

lemma queue_flushed_exactly_witness:
  "\<exists>db' s' k. flush_pending (sample_senv 9) two_waiting ''n1'' (session_new 10 1) = (db', s', k)
     \<and> k = 1 \<and> map pd_in_flight (t_pending db') = [Some 9, None]"
proof -
  obtain db' s' k where f: "flush_pending (sample_senv 9) two_waiting ''n1'' (session_new 10 1) = (db', s', k)" by (metis prod_cases3)
  have d: "distinct (map pd_id (t_pending two_waiting))" by (simp add: two_waiting_def)
  have q: "queued_for (sample_cenv 9) two_waiting ''n1'' = t_pending two_waiting"
    by (simp add: queued_for_def two_waiting_def claimable_def)
  have s: "se_env (sample_senv 9) = sample_cenv 9" by (simp add: sample_senv_def)
  note e = queue_flushed_exactly [OF d f]
  have k: "k = 1" using conjunct1 [OF e [unfolded s q]] by (simp add: session_new_def two_waiting_def)
  have "map pd_in_flight (t_pending db') = [Some 9, None]"
    using conjunct2 [OF conjunct2 [OF e [unfolded s k q]]] by (simp add: two_waiting_def sample_cenv_def)
  with k f show ?thesis by auto
qed

end
