(* ===== verification/Session_Props.thy ===== *)
theory Session_Props
  imports Session_Flush
begin

text \<open>
  Properties of whole turns: queued work waits for the configuration, the deadline delivers it in any case,
  the end of an old session hands out again what a new one has in flight, and a package can be
  transferred with the ticket the node was given.
\<close>

subsection \<open>Work waits\<close>

lemma flush_pending_out:
  assumes "flush_pending e db n s = (db', s', k)"
  shows "\<exists>sent. ss_out s' = ss_out s @ sent \<and> (\<forall>m \<in> set sent. \<exists>r \<in> set (t_pending db). pd_node r = n \<and> sm_body m = dispatch_body (se_env e) r)"
proof -
  let ?rows = "map (claimed_of (se_env e)) (take k (queued_for (se_env e) db n))"
  have "ss_out s' = ss_out s @ map (\<lambda>(j, r). dispatch_message (se_fresh e) j r) (enumerate 0 ?rows)"
    using assms by (auto simp: flush_pending_eq Let_def)
  moreover have "\<exists>r \<in> set (t_pending db). pd_node r = n \<and> sm_body m = dispatch_body (se_env e) r"
    if "m \<in> set (map (\<lambda>(j, r). dispatch_message (se_fresh e) j r) (enumerate 0 ?rows))" for m
  proof -
    have "sm_body m \<in> set (map sm_body (map (\<lambda>(j, r). dispatch_message (se_fresh e) j r) (enumerate 0 ?rows)))"
      using that by (metis imageI list.set_map)
    then obtain c where "c \<in> set ?rows" "sm_body m = SDispatch (cd_run c) (cd_spec c) (cd_params c)"
      unfolding map_body_enumerate by auto
    then obtain r where "r \<in> set (queued_for (se_env e) db n)" "sm_body m = dispatch_body (se_env e) r"
      by (auto simp: claimed_of_def dispatch_body_def dest: in_set_takeD)
    then show ?thesis by (auto simp: queued_for_set)
  qed
  ultimately show ?thesis by blast
qed

definition queued_in :: "cenv \<Rightarrow> db \<Rightarrow> str \<Rightarrow> server_message \<Rightarrow> bool" where
  "queued_in env db n m = list_ex (\<lambda>r. pd_node r = n \<and> sm_body m = dispatch_body env r) (t_pending db)"

lemma ready_step_spec:
  assumes "ready_step e push (db, h) s msg = (c', s', fl)"
  shows "(fl = False \<and> c' = (db, h) \<and> s' = s)
    \<or> (fl = True \<and> (\<exists>n g sent. cm_body msg = Some (CNodeReady n g) \<and> ss_bound s = Some n \<and> config_generation (se_env e) db n \<le> g
        \<and> ss_bound s' = Some n \<and> rg_ready (ss_gate s') \<and> ss_out s' = ss_out s @ sent \<and> list_all (queued_in (se_env e) db n) sent))"
proof (cases "cm_body msg")
  case (Some b)
  then show ?thesis
  proof (cases b)
    case (CNodeReady n g)
    show ?thesis
    proof (cases "ss_bound s = Some n \<and> \<not> rg_ready (ss_gate s) \<and> config_generation (se_env e) db n \<le> g")
      case True
      then obtain db1 s1 k where f: "flush_pending e db n (s\<lparr>ss_gate := (ss_gate s)\<lparr>rg_ready := True\<rparr>\<rparr>) = (db1, s1, k)"
        and r: "s' = s1" "fl = True"
        using assms Some CNodeReady
        by (auto simp: ready_step_def node_ready_of_def apply_node_ready_def on_node_ready_def activate_ready_def split: prod.splits)
      from flush_pending_out [OF f] flush_pending_keeps [OF f] True r Some CNodeReady show ?thesis
        by (force simp: queued_in_def list_ex_iff list_all_iff)
    next
      case False
      then show ?thesis using assms Some CNodeReady
        by (auto simp: ready_step_def node_ready_of_def apply_node_ready_def on_node_ready_def split: if_splits)
    qed
  qed (use assms Some in \<open>auto simp: ready_step_def node_ready_of_def\<close>)
qed (use assms in \<open>auto simp: ready_step_def node_ready_of_def\<close>)

lemma drain_step_spec:
  assumes "drain_step e (db, h) s fl = (c', s')"
  shows "s' = s \<or> (\<exists>n sent. ss_bound s = Some n \<and> rg_ready (ss_gate s) \<and> \<not> fl \<and> ss_bound s' = Some n \<and> rg_ready (ss_gate s')
      \<and> ss_out s' = ss_out s @ sent \<and> list_all (queued_in (se_env e) db n) sent)"
proof (cases "\<exists>n. ss_bound s = Some n \<and> rg_ready (ss_gate s) \<and> \<not> fl")
  case True
  then obtain n where n: "ss_bound s = Some n" "rg_ready (ss_gate s)" "\<not> fl" by blast
  obtain db1 s1 k where f: "flush_pending e db n s = (db1, s1, k)" by (metis prod_cases3)
  then have "s' = s1" using assms n by (simp add: drain_step_def)
  with flush_pending_out [OF f] flush_pending_keeps [OF f] n show ?thesis
    by (force simp: queued_in_def list_ex_iff list_all_iff)
next
  case False
  then have "s' = s" using assms by (auto simp: drain_step_def split: option.splits if_splits)
  then show ?thesis by simp
qed

lemma bind_node_ready:
  assumes "bind_node e timeout push c s nid = (c', s')"
  shows "(c' = c \<and> s' = s) \<or> (\<not> rg_ready (ss_gate s') \<and> ss_out s' = ss_out s)"
  using assms by (auto simp: bind_node_def on_bound_def gate_new_def split: option.splits if_splits)

lemma handle_node_ready:
  "cm_body msg = Some (CNodeReady n g) \<Longrightarrow> \<exists>reply. handle e tok c msg = (c, reply, None)"
  by (simp add: handle_def Let_def)


subsection \<open>Work is delivered\<close>

lemma deadline_delivers:
  assumes "w_sessions w sid = Some s" "gate_deadline (ss_gate s) = Some due" "due \<le> se_instant e" "ss_bound s = Some n"
    "length (queued_for (se_env e) (w_db w) n) \<le> ss_room s"
  shows "\<exists>s'. w_sessions (session_step cfg e sid Deadline w) sid = Some s' \<and> rg_ready (ss_gate s')
    \<and> hb_inner (w_hub (session_step cfg e sid Deadline w)) n = Some sid
    \<and> map sm_body (ss_out s') = map sm_body (ss_out s) @ map (dispatch_body (se_env e)) (queued_for (se_env e) (w_db w) n)"
proof -
  let ?s = "s\<lparr>ss_gate := (ss_gate s)\<lparr>rg_ready := True\<rparr>\<rparr>"
  obtain db1 s1 k where f: "flush_pending e (w_db w) n ?s = (db1, s1, k)" by (metis prod_cases3)
  have nr: "\<not> rg_ready (ss_gate s)" using assms(2) by (auto simp: gate_deadline_def)
  have o: "on_timeout (ss_gate s) (se_instant e) = ((ss_gate s)\<lparr>rg_ready := True\<rparr>, True)"
    using assms(2,3) nr by (simp add: on_timeout_def)
  have st: "session_step cfg e sid Deadline w = put_world w sid (db1, hub_register (w_hub w) n sid) (Some s1)"
    using assms(1-4) by (simp add: session_step.simps on_deadline_def o max_absorb1 flush_for_timeout_def activate_ready_def world_center_def f)
  have out: "ss_out s1 = ss_out s @ map (\<lambda>(j, r). dispatch_message (se_fresh e) j r)
      (enumerate 0 (map (claimed_of (se_env e)) (queued_for (se_env e) (w_db w) n)))"
    using f assms(5) by (auto simp: flush_pending_eq Let_def)
  have b: "(\<lambda>r. SDispatch (cd_run r) (cd_spec r) (cd_params r)) \<circ> claimed_of (se_env e) = dispatch_body (se_env e)"
    by (simp add: fun_eq_iff claimed_of_def dispatch_body_def)
  have "map sm_body (ss_out s1) = map sm_body (ss_out s) @ map (dispatch_body (se_env e)) (queued_for (se_env e) (w_db w) n)"
    by (simp only: out map_append map_body_enumerate) (simp only: list.map_comp b)
  moreover have "rg_ready (ss_gate s1)" using flush_pending_keeps [OF f] by simp
  ultimately show ?thesis by (simp add: st hub_register_def)
qed

lemma heartbeat_turn:
  assumes "ss_bound s = None" "rg_ready (ss_gate s) = False"
  shows "\<exists>reply. frame_turn cfg e sid (db, h) s \<lparr>cm_request = rq, cm_body = Some (CHeartbeat n)\<rparr>
    = ((touch_node (se_env e) db n, h), s\<lparr>ss_bound := Some n, ss_gate := on_bound (gate_new (cc_timeout cfg)) (se_instant e)\<rparr>, reply)"
  using assms
  by (simp add: frame_turn_def handle_def handle_heartbeat_def Let_def bind_node_def release_def ready_step_def node_ready_of_def
      drain_step_def on_bound_def gate_new_def)

lemma heartbeat_then_deadline:
  assumes "w_sessions w sid = Some (session_new (cc_timeout cfg) room)"
    "w1 = session_step cfg e1 sid (Frame \<lparr>cm_request = rq, cm_body = Some (CHeartbeat n)\<rparr>) w"
    "se_instant e1 + cc_timeout cfg \<le> se_instant e2" "length (queued_for (se_env e2) (w_db w1) n) < room"
  shows "\<exists>s'. w_sessions (session_step cfg e2 sid Deadline w1) sid = Some s' \<and> rg_ready (ss_gate s')
    \<and> hb_inner (w_hub (session_step cfg e2 sid Deadline w1)) n = Some sid
    \<and> map sm_body (tl (ss_out s')) = map (dispatch_body (se_env e2)) (queued_for (se_env e2) (w_db w1) n)
    \<and> t_pending (w_db w1) = t_pending (w_db w)"
proof -
  let ?s = "session_new (cc_timeout cfg) room"
  have "ss_bound ?s = None" "rg_ready (ss_gate ?s) = False" by (simp_all add: session_new_def gate_new_def)
  from heartbeat_turn [OF this, of cfg e1 sid "w_db w" "w_hub w" rq n] obtain reply where
    f: "frame_turn cfg e1 sid (w_db w, w_hub w) ?s \<lparr>cm_request = rq, cm_body = Some (CHeartbeat n)\<rparr>
      = ((touch_node (se_env e1) (w_db w) n, w_hub w),
         ?s\<lparr>ss_bound := Some n, ss_gate := on_bound (gate_new (cc_timeout cfg)) (se_instant e1)\<rparr>, reply)" by blast
  let ?s1 = "\<lparr>ss_bound = Some n, ss_gate = \<lparr>rg_timeout = cc_timeout cfg, rg_bound_at = Some (se_instant e1), rg_ready = False\<rparr>,
      ss_room = room - 1, ss_inbox = [], ss_out = [reply]\<rparr>"
  have w1: "w1 = put_world w sid (touch_node (se_env e1) (w_db w) n, w_hub w) (Some ?s1)"
  proof -
    have "w1 = reply_or_end sid w (touch_node (se_env e1) (w_db w) n, w_hub w)
        (?s\<lparr>ss_bound := Some n, ss_gate := on_bound (gate_new (cc_timeout cfg)) (se_instant e1)\<rparr>) reply"
      by (simp add: assms(1,2) session_step.simps on_frame_def world_center_def f)
    then show ?thesis using assms(4) by (simp add: reply_or_end_def tx_send_def session_new_def on_bound_def gate_new_def)
  qed
  have s1: "w_sessions w1 sid = Some ?s1" by (simp add: w1)
  have d: "gate_deadline (ss_gate ?s1) = Some (se_instant e1 + cc_timeout cfg)" by (simp add: gate_deadline_def)
  have b: "ss_bound ?s1 = Some n" by simp
  have l: "length (queued_for (se_env e2) (w_db w1) n) \<le> ss_room ?s1" using assms(4) by simp
  obtain s' where "w_sessions (session_step cfg e2 sid Deadline w1) sid = Some s'" "rg_ready (ss_gate s')"
    "hb_inner (w_hub (session_step cfg e2 sid Deadline w1)) n = Some sid"
    and m: "map sm_body (ss_out s') = map sm_body [reply] @ map (dispatch_body (se_env e2)) (queued_for (se_env e2) (w_db w1) n)"
    using deadline_delivers [OF s1 d assms(3) b l, of cfg] by auto
  moreover have "map sm_body (tl (ss_out s')) = map (dispatch_body (se_env e2)) (queued_for (se_env e2) (w_db w1) n)"
    using arg_cong [OF m, of tl] by (simp add: map_tl)
  moreover have "t_pending (w_db w1) = t_pending (w_db w)" by (simp add: w1 touch_node_def)
  ultimately show ?thesis by auto
qed

text \<open>
  C39. A node that never says it is ready gets its work all the same, once the time limit is over: a new session that
  has sent one heartbeat, nothing else, is registered for the node it named at the deadline, the sum of
  the time of the heartbeat and the limit, and is sent everything that is queued for it. No bootstrap token is
  asked for: it guards the message \<open>Register\<close> only, and the session need not send one.
\<close>

theorem heartbeat_session_gets_queue:
  assumes "w_sessions w sid = Some (session_new (cc_timeout cfg) room)"
    "w1 = session_step cfg e1 sid (Frame \<lparr>cm_request = rq, cm_body = Some (CHeartbeat n)\<rparr>) w"
    "se_instant e1 + cc_timeout cfg \<le> se_instant e2" "length (queued_for (se_env e2) (w_db w1) n) < room"
  shows "\<exists>s'. w_sessions (session_step cfg e2 sid Deadline w1) sid = Some s' \<and> rg_ready (ss_gate s')
    \<and> hb_inner (w_hub (session_step cfg e2 sid Deadline w1)) n = Some sid
    \<and> map sm_body (tl (ss_out s')) = map (dispatch_body (se_env e2)) (queued_for (se_env e2) (w_db w1) n)
    \<and> t_pending (w_db w1) = t_pending (w_db w)"
  using assms by (rule heartbeat_then_deadline)

definition pending_sample :: "str \<Rightarrow> nat option \<Rightarrow> pending_row" where
  "pending_sample n t = \<lparr>pd_id = 1, pd_node = n, pd_run = ''r'', pd_spec = ''s'', pd_params = ''{}'', pd_in_flight = t, pd_attempts = 0\<rparr>"

definition sample_config :: center_config where
  "sample_config = \<lparr>cc_token = Some ''secret'', cc_timeout = 10\<rparr>"

definition sample_world :: "nat option \<Rightarrow> world" where
  "sample_world t = \<lparr>w_db = empty_db\<lparr>t_nodes := [sample_node ''n1''], t_pending := [pending_sample ''n1'' t]\<rparr>, w_hub = hub_new,
     w_sessions = [7 \<mapsto> session_new 10 5]\<rparr>"

lemma sample_queued: "queued_for (sample_cenv t) (w_db w) ''n1'' = [pending_sample ''n1'' None]"
  if "t_pending (w_db w) = [pending_sample ''n1'' None]"
  using that by (simp add: queued_for_def pending_sample_def claimable_def)

lemma sample_session: "w_sessions (sample_world t) 7 = Some (session_new (cc_timeout sample_config) 5)"
  by (simp add: sample_world_def sample_config_def)

lemma sample_due: "se_instant (sample_senv 3) + cc_timeout sample_config \<le> se_instant (sample_senv 20)"
  by (simp add: sample_senv_def sample_config_def)

definition after_heartbeat :: world where
  "after_heartbeat = session_step sample_config (sample_senv 3) 7 (Frame \<lparr>cm_request = ''q'', cm_body = Some (CHeartbeat ''n1'')\<rparr>) (sample_world None)"

lemma sample_pending: "t_pending (w_db after_heartbeat) = [pending_sample ''n1'' None]"
  by (simp add: after_heartbeat_def session_step.simps sample_world_def on_frame_def frame_turn_def handle_def handle_heartbeat_def Let_def
      world_center_def bind_node_def session_new_def release_def ready_step_def node_ready_of_def drain_step_def on_bound_def gate_new_def
      reply_or_end_def tx_send_def touch_node_def)

lemma sample_room: "length (queued_for (se_env (sample_senv 20)) (w_db after_heartbeat) ''n1'') < 5"
  using sample_queued [OF sample_pending] by (simp add: sample_senv_def)

lemma heartbeat_session_gets_queue_witness:
  "\<exists>s'. w_sessions (session_step sample_config (sample_senv 20) 7 Deadline after_heartbeat) 7 = Some s'
      \<and> map sm_body (tl (ss_out s')) = [dispatch_body (sample_cenv 20) (pending_sample ''n1'' None)]"
  using heartbeat_session_gets_queue [OF sample_session after_heartbeat_def sample_due sample_room] sample_queued [OF sample_pending]
  by (auto simp: sample_senv_def)


definition started_world :: world where
  "started_world = session_step sample_config (sample_senv 20) 7 Deadline after_heartbeat"

lemma started_reachable: "reachable sample_config started_world"
proof -
  have "reachable sample_config (sample_world None)"
    using reachable.opened [OF reachable.start [of hub_new sample_config "w_db (sample_world None)"], of 7 5]
    by (simp add: sample_world_def hub_new_def sample_config_def)
  then show ?thesis unfolding started_world_def after_heartbeat_def by (intro reachable.turn)
qed

text \<open>
  C9. A live message for a node reaches only a session of this node that may have it: in every world that can arise
  from sessions opening, taking turns in any order, rebinding and ending, while requests change the
  database and the tickets, the channel the hub delivers a message for a node into is that of a running session which
  is bound to this very node and ready; and of two nodes no channel is shared.
\<close>

theorem live_messages_reach_ready:
  assumes "reachable cfg w" "hb_inner (w_hub w) n = Some tx"
  shows "(\<exists>s. w_sessions w tx = Some s \<and> ss_bound s = Some n \<and> rg_ready (ss_gate s) \<and> rg_bound_at (ss_gate s) \<noteq> None)
    \<and> hub_send (w_hub w) (alive_in w) n = Some tx
    \<and> (\<forall>m. hb_inner (w_hub w) m = Some tx \<longrightarrow> m = n)"
proof -
  note i = reachable_sound [OF assms(1)]
  from hub_soundD(1) [OF i assms(2)] obtain s where
    s: "w_sessions w tx = Some s" "ss_bound s = Some n" "rg_ready (ss_gate s)" by blast
  have "rg_bound_at (ss_gate s) \<noteq> None" using hub_soundD(2) [OF i s(1)] s(2) by (auto simp: gate_sound_def)
  moreover have "\<forall>m. hb_inner (w_hub w) m = Some tx \<longrightarrow> m = n" proof (intro allI impI)
    fix m assume "hb_inner (w_hub w) m = Some tx"
    from hub_soundD(1) [OF i this] s show "m = n" by auto
  qed
  moreover have "hub_send (w_hub w) (alive_in w) n = Some tx" using s assms(2) by (simp add: hub_send_def alive_in_def)
  ultimately show ?thesis using s by blast
qed

lemma live_messages_reach_ready_witness:
  "hb_inner (w_hub started_world) ''n1'' = Some 7
   \<and> (\<exists>s. w_sessions started_world 7 = Some s \<and> ss_bound s = Some ''n1'' \<and> rg_ready (ss_gate s))"
proof -
  have h: "hb_inner (w_hub started_world) ''n1'' = Some 7"
    using heartbeat_then_deadline [OF sample_session after_heartbeat_def sample_due sample_room] by (auto simp: started_world_def)
  with live_messages_reach_ready [OF started_reachable h] show ?thesis by blast
qed

subsection \<open>The end of an old session\<close>

lemma requeue_queued:
  "queued_for env (requeue_in_flight_for_node db n) n
     = sort_key pd_id (map (\<lambda>r. r\<lparr>pd_in_flight := None\<rparr>) (filter (\<lambda>r. pd_node r = n) (t_pending db)))"
proof -
  have "filter (\<lambda>r. pd_node r = n \<and> claimable now timeout r)
          (update_where (\<lambda>r. pd_node r = n \<and> pd_in_flight r \<noteq> None) (\<lambda>r. r\<lparr>pd_in_flight := None\<rparr>) rows)
      = map (\<lambda>r. r\<lparr>pd_in_flight := None\<rparr>) (filter (\<lambda>r. pd_node r = n) rows)" for now timeout and rows :: "pending_row list"
    by (induction rows) (auto simp: update_where_def claimable_def)
  then show ?thesis by (simp add: queued_for_def requeue_in_flight_for_node_def)
qed

lemma closed_requeues:
  assumes "w_sessions w sid = Some s" "ss_bound s = Some n" "hb_inner (w_hub w) n \<noteq> Some sid"
  shows "session_step cfg e sid Closed w
    = w\<lparr>w_db := requeue_in_flight_for_node (w_db w) n, w_sessions := (w_sessions w)(sid := None)\<rparr>"
  using assms by (cases w) (simp add: session_step.simps end_session_def world_center_def release_def put_world_def unregister_other)

text \<open>
  C40. The end of an old session takes the deliveries of the new one back: when a node has a new session with its work in
  flight, and its old, half open session ends only now, the end finds that the channel in the hub is not its own
  and leaves it, but it puts all work of the node back in the queue; at the next delivery the center sends
  every dispatch of the node that has no result yet once more, however short ago it was sent.
\<close>

theorem late_end_redelivers:
  assumes "w_sessions w old = Some s0" "ss_bound s0 = Some n" "hb_inner (w_hub w) n = Some new" "new \<noteq> old"
    "flush_pending e (w_db (session_step cfg e0 old Closed w)) n s = (db', s', k)"
    "length (filter (\<lambda>r. pd_node r = n) (t_pending (w_db w))) \<le> ss_room s"
  shows "hb_inner (w_hub (session_step cfg e0 old Closed w)) = hb_inner (w_hub w)
    \<and> mset (map sm_body (ss_out s')) = mset (map sm_body (ss_out s))
        + mset (map (dispatch_body (se_env e)) (filter (\<lambda>r. pd_node r = n) (t_pending (w_db w))))"
proof -
  have c: "session_step cfg e0 old Closed w
      = w\<lparr>w_db := requeue_in_flight_for_node (w_db w) n, w_sessions := (w_sessions w)(old := None)\<rparr>"
    using assms(1-4) by (intro closed_requeues) auto
  let ?rows = "queued_for (se_env e) (requeue_in_flight_for_node (w_db w) n) n"
  have l: "length ?rows = length (filter (\<lambda>r. pd_node r = n) (t_pending (w_db w)))" by (simp add: requeue_queued)
  have out: "ss_out s' = ss_out s @ map (\<lambda>(j, r). dispatch_message (se_fresh e) j r) (enumerate 0 (map (claimed_of (se_env e)) ?rows))"
    using assms(5,6) l by (auto simp: c flush_pending_eq Let_def)
  have b: "(\<lambda>r. SDispatch (cd_run r) (cd_spec r) (cd_params r)) \<circ> claimed_of (se_env e) = dispatch_body (se_env e)"
    by (simp add: fun_eq_iff claimed_of_def dispatch_body_def)
  have "map sm_body (ss_out s') = map sm_body (ss_out s) @ map (dispatch_body (se_env e)) ?rows"
    by (simp only: out map_append map_body_enumerate) (simp only: list.map_comp b)
  moreover have "mset (map (dispatch_body (se_env e)) ?rows)
      = mset (map (dispatch_body (se_env e)) (filter (\<lambda>r. pd_node r = n) (t_pending (w_db w))))"
    by (simp add: requeue_queued image_mset.compositionality comp_def dispatch_body_def [abs_def])
  ultimately show ?thesis by (simp add: c)
qed

definition two_sessions :: world where
  "two_sessions = (sample_world (Some 20))\<lparr>w_hub := hub_register hub_new ''n1'' 8,
     w_sessions := [7 \<mapsto> (session_new 10 5)\<lparr>ss_bound := Some ''n1''\<rparr>, 8 \<mapsto> (session_new 10 5)\<lparr>ss_bound := Some ''n1''\<rparr>]\<rparr>"

lemma late_end_redelivers_witness:
  "\<exists>db' s' k. flush_pending (sample_senv 21) (w_db (session_step sample_config (sample_senv 21) 7 Closed two_sessions)) ''n1'' (session_new 10 5)
     = (db', s', k) \<and> map sm_body (ss_out s') = [dispatch_body (sample_cenv 21) (pending_sample ''n1'' (Some 20))]"
proof -
  obtain db' s' k where f: "flush_pending (sample_senv 21)
      (w_db (session_step sample_config (sample_senv 21) 7 Closed two_sessions)) ''n1'' (session_new 10 5) = (db', s', k)"
    by (metis prod_cases3)
  have w: "w_sessions two_sessions 7 = Some ((session_new 10 5)\<lparr>ss_bound := Some ''n1''\<rparr>)"
    "hb_inner (w_hub two_sessions) ''n1'' = Some 8" "(8::nat) \<noteq> 7" "ss_bound ((session_new 10 5)\<lparr>ss_bound := Some ''n1''\<rparr>) = Some ''n1''"
    by (simp_all add: two_sessions_def hub_register_def)
  have p: "t_pending (w_db two_sessions) = [pending_sample ''n1'' (Some 20)]" by (simp add: two_sessions_def sample_world_def)
  have r: "length (filter (\<lambda>r. pd_node r = ''n1'') (t_pending (w_db two_sessions))) \<le> ss_room (session_new 10 5)"
    by (simp add: p session_new_def)
  from late_end_redelivers [OF w(1,4,2,3) f r]
  have "mset (map sm_body (ss_out s')) = {#dispatch_body (sample_cenv 21) (pending_sample ''n1'' (Some 20))#}"
    by (simp add: p session_new_def sample_senv_def pending_sample_def)
  then have "map sm_body (ss_out s') = [dispatch_body (sample_cenv 21) (pending_sample ''n1'' (Some 20))]"
    by (metis mset_single_iff_right)
  with f show ?thesis by auto
qed

subsection \<open>Packages\<close>

lemma fetch_Ok:
  "snd (fetch_artifact now (db, h) m sha tk offset) = Ok cs \<longleftrightarrow>
     snd (check_ticket now h tk m sha) = Ok () \<and> (\<exists>bytes. artifact_get db (trim sha) = Some bytes \<and> artifact_chunks bytes offset = Ok cs)"
  by (auto simp: fetch_artifact_def split: prod.splits sum.splits option.splits)

lemma chunks_data: "artifact_chunks bytes offset = Ok cs \<Longrightarrow> concat (map ch_data cs) = drop (nat offset) bytes"
  by (auto simp: artifact_chunks_def chunk_loop_data Let_def split: if_splits)

text \<open>
  C11. A package gets to the node that is to have it, and to no other by this ticket: whatever the database holds by then,
  with the ticket it was given for a skill a transfer succeeds, from any offset, exactly for this node and the digest that was
  named, while fifteen minutes have not passed, when the package is stored and the offset lies within it; and what comes is the rest of the
  package from the offset on.
\<close>

theorem package_transfer:
  assumes "build_desired now fresh db h n = (h', d)" "inj fresh" "r \<in> set (dk_skills d)" "now \<le> t"
  shows "(is_ok (snd (fetch_artifact t (db2, h') m sha (sr_ticket r) offset))
      \<longleftrightarrow> t < now + 15 * 60 * 1000 \<and> m = n \<and> norm_sha sha = norm_sha (sr_sha r)
        \<and> (\<exists>bytes. artifact_get db2 (trim sha) = Some bytes \<and> 0 \<le> offset \<and> offset \<le> int (length bytes)))
    \<and> (snd (fetch_artifact t (db2, h') m sha (sr_ticket r) offset) = Ok cs
      \<longleftrightarrow> t < now + 15 * 60 * 1000 \<and> m = n \<and> norm_sha sha = norm_sha (sr_sha r)
        \<and> (\<exists>bytes. artifact_get db2 (trim sha) = Some bytes \<and> artifact_chunks bytes offset = Ok cs
             \<and> concat (map ch_data cs) = drop (nat offset) bytes))"
proof -
  obtain rs where i: "issue_refs now fresh n 0 h (joined_rows db n) = (h', rs)" and rs: "dk_skills d = rs"
    using assms(1) by (auto simp: build_desired_def split: prod.splits)
  from issue_refs_tickets [OF i assms(2)] assms(3) rs
  have c: "snd (check_ticket t h' (sr_ticket r) m sha) = Ok () \<longleftrightarrow> t < now + 15 * 60 * 1000 \<and> m = n \<and> norm_sha sha = norm_sha (sr_sha r)"
    by (auto simp: check_ticket_def TICKET_TTL_def)
  have ok: "is_ok x \<longleftrightarrow> (\<exists>cs. x = Ok cs)" for x :: "(artifact_chunk list, status) result" by (cases x) auto
  have r: "(\<exists>cs. artifact_chunks bytes offset = Ok cs) \<longleftrightarrow> 0 \<le> offset \<and> offset \<le> int (length bytes)" for bytes
    by (auto simp: artifact_chunks_def Let_def)
  have "is_ok (snd (fetch_artifact t (db2, h') m sha (sr_ticket r) offset))
      \<longleftrightarrow> t < now + 15 * 60 * 1000 \<and> m = n \<and> norm_sha sha = norm_sha (sr_sha r)
        \<and> (\<exists>bytes. artifact_get db2 (trim sha) = Some bytes \<and> 0 \<le> offset \<and> offset \<le> int (length bytes))"
    unfolding ok fetch_Ok c using r by blast
  moreover have "snd (fetch_artifact t (db2, h') m sha (sr_ticket r) offset) = Ok cs
      \<longleftrightarrow> t < now + 15 * 60 * 1000 \<and> m = n \<and> norm_sha sha = norm_sha (sr_sha r)
        \<and> (\<exists>bytes. artifact_get db2 (trim sha) = Some bytes \<and> artifact_chunks bytes offset = Ok cs
             \<and> concat (map ch_data cs) = drop (nat offset) bytes)"
    unfolding fetch_Ok c using chunks_data by blast
  ultimately show ?thesis by blast
qed

definition sample_stored :: db where
  "sample_stored = sample_catalog\<lparr>t_artifacts := [\<lparr>ar_sha = ''ab'', ar_size = 7, ar_data = ''package''\<rparr>]\<rparr>"

lemma sample_told:
  obtains h' d r where "build_desired 5 letters sample_catalog hub_new ''n2'' = (h', d)" "r \<in> set (dk_skills d)" "sr_sha r = ''ab''"
proof -
  let ?b = "build_desired 5 letters sample_catalog hub_new ''n2''"
  have "map (\<lambda>(d, v). to_ascii_lowercase (trim (de_sha d))) (joined_rows sample_catalog ''n2'') = [''ab'']" by code_simp
  then obtain d0 v0 where "joined_rows sample_catalog ''n2'' = [(d0, v0)]" "to_ascii_lowercase (trim (de_sha d0)) = ''ab''" by auto
  then have l: "map sr_sha (dk_skills (snd ?b)) = [''ab'']" by (simp add: build_desired_def ref_of_def)
  obtain h' d where b: "?b = (h', d)" by (cases ?b)
  with l obtain r where "dk_skills d = [r]" "sr_sha r = ''ab''" by auto
  with b that show thesis by simp
qed

lemma package_transfer_witness:
  "\<exists>h' d (r :: skill_ref). build_desired 5 letters sample_catalog hub_new ''n2'' = (h', d)
     \<and> is_ok (snd (fetch_artifact 10 (sample_stored, h') ''n2'' ''ab'' (sr_ticket r) 3))
     \<and> \<not> is_ok (snd (fetch_artifact 10 (sample_stored, h') ''n1'' ''ab'' (sr_ticket r) 3))"
proof -
  obtain h' d r where b: "build_desired 5 letters sample_catalog hub_new ''n2'' = (h', d)" and r: "r \<in> set (dk_skills d)" "sr_sha r = ''ab''"
    by (rule sample_told)
  have t: "(5::nat) \<le> 10" by simp
  have g: "artifact_get sample_stored (trim ''ab'') = Some ''package''" by code_simp
  from package_transfer [OF b letters_inj r(1) t, of sample_stored "''n2''" "''ab''" 3]
  have "is_ok (snd (fetch_artifact 10 (sample_stored, h') ''n2'' ''ab'' (sr_ticket r) 3))" using g r(2) by simp
  moreover from package_transfer [OF b letters_inj r(1) t, of sample_stored "''n1''" "''ab''" 3]
  have "\<not> is_ok (snd (fetch_artifact 10 (sample_stored, h') ''n1'' ''ab'' (sr_ticket r) 3))" by simp
  ultimately show ?thesis using b by blast
qed

end
