(* ===== verification/Spec2Isabelle.thy ===== *)
theory Spec2Isabelle
  imports Prelude Rust_Str Schedule Calendar Tags Selector Selector_Correct Path_Glob Deny Grants
    Json Observe Observe_Correct Wasi_Deny Host Host_Correct Run Run_Correct Skills Probe Probe_Correct
    Table Center_Db Queue Audit_Log Hub Targets Targets_Correct Target_Schedules Target_Entries
    Target_Schedules_Correct Target_Spares Target_Drift Center_Tags Center_Tags_Correct
    Center_Tags_Read Center_Tags_Bulk Center_Tags_Props Center_Tags_Runs
    Desired Desired_Ops Desired_Correct Desired_Props
    Delivery Delivery_Correct Delivery_Reports Session Session_Correct Session_Flush Session_Props
begin

text \<open>
  Novbot: a center keeps an inventory of nodes and their tags, authors probe schedules and signed
  skills, and dispatches work; a node agent runs the probes of its schedule and executes skills,
  WebAssembly components, inside a runtime that grants them only declared capabilities. This
  library models the parts of the program where its decisions are made and proves that they are
  the decisions the program promises.

  \<^bold>\<open>Conventions.\<close> A Rust string is a list of bytes, its UTF-8 encoding (\<open>str\<close>); lengths, offsets
  and the order of strings are the program's. Unsigned integers are \<open>nat\<close> with the bound, the
  saturation or the wrap written where the code has it; the fingerprint of a component is a
  64-bit word. \<open>Result\<close> is the sum \<open>('a, 'e) result\<close> with \<open>Ok\<close> and \<open>Err\<close>; a panic is \<open>None\<close> or
  the fault \<open>Panicked\<close>. What the operating system, \<open>serde_json\<close>, the WebAssembly engine or a
  hash function answers is an argument of the definitions that ask for it.

  \<^bold>\<open>Shared base.\<close>
  \<^item> \<open>Prelude\<close>: names of types, hint collections, generic lemmas on results, lists and sorting.
  \<^item> \<open>Rust_Str\<close>: the part of Rust's library on strings and integer parsing the program calls.
  \<^item> \<open>Json\<close>: the values of \<open>serde_json\<close>.

  \<^bold>\<open>novbot-core\<close> (\<open>crates/novbot-core/src\<close>).
  \<^item> \<open>Schedule\<close>, \<open>Calendar\<close> (\<open>schedule.rs\<close>): which schedules are due at a time. The cron field matcher
    decides membership in the set a field denotes, \<open>due_specs\<close> returns exactly the due specs, a
    cron schedule fires at most once a minute, and the conversion of days is the Gregorian
    calendar.
  \<^item> \<open>Tags\<close>, \<open>Selector\<close>, \<open>Selector_Correct\<close> (\<open>tags.rs\<close>): the tag format, the classification of what a
    node declares, and the selector language: parser, canonical text, evaluation. Accepted
    selectors are well formed and their canonical text parses back to the same meaning. The
    locale \<open>checked_token\<close> is the contract keys and values share.
  \<^item> \<open>Skills\<close> (\<open>spec.rs\<close>, \<open>skill.rs\<close>, \<open>retry.rs\<close>): probe definitions, built-in skills, the report spool,
    which is a queue on a file.
  \<^item> \<open>Probe\<close>, \<open>Probe_Correct\<close> (\<open>probe.rs\<close>): the probes: which reach a shell, the bounded walk for
    world-writable paths, the sshd directives, listening ports.

  \<^bold>\<open>novbot-skill-runtime\<close> (\<open>crates/novbot-skill-runtime/src\<close>).
  \<^item> \<open>Path_Glob\<close> (\<open>path.rs\<close>), \<open>Deny\<close> (\<open>deny.rs\<close>), \<open>Grants\<close> (\<open>grant.rs\<close>): a path as the guest writes it is
    resolved to the path that is checked, matched against the globs of the grants, and then
    against the node's denylist. Matching is described by a declarative relation, the check by
    the set of reasons against a call.
  \<^item> \<open>Observe\<close>, \<open>Observe_Correct\<close> (\<open>observe.rs\<close>): the parsers of the kernel's text files and the reports
    built from them.
  \<^item> \<open>Wasi_Deny\<close> (\<open>wasi_deny.rs\<close>): the stubs for WASI imports; their answers are well typed errors.
  \<^item> \<open>Host\<close>, \<open>Host_Correct\<close> (\<open>host.rs\<close>): the context of a run and every host function. A listing is a
    prefix of the recursive listing; the worklist of \<open>list_dir\<close> terminates by a multiset order,
    since a frame is replaced by deeper ones. The locale \<open>capped_log\<close> is the contract of the two
    bounded records, denials and logs.
  \<^item> \<open>Run\<close>, \<open>Run_Correct\<close> (\<open>host.rs\<close>, \<open>lib.rs\<close>): one run. A guest is a tree of host calls, so every
    program is some guest and every run of it is a path; there is no fuel, and a run that is cut
    by its deadline is a tree that ends in an error. The served calls form a step relation
    \<open>serves\<close> with its invariants, from which follow what an output says of the calls made.

  \<^bold>\<open>novbot-center\<close> (\<open>crates/novbot-center/src\<close>).
  \<^item> \<open>Table\<close>, \<open>Center_Db\<close> (\<open>db.rs\<close>, \<open>migrations\<close>): the database, a record with one list of rows per
    table; the statements of the program are functions on it. The locale \<open>keyed_table\<close> is the contract
    of a table with a primary key, interpreted for nodes, configurations and tags.
  \<^item> \<open>Queue\<close> (\<open>db.rs\<close>): the queue of dispatches as a system of events: delivery at least once, and no
    second delivery within the time limit.
  \<^item> \<open>Audit_Log\<close> (\<open>targets.rs\<close>, \<open>tags.rs\<close>, \<open>skill_desired.rs\<close>): the hash chain, what it makes evident,
    and its concurrent writers with and without the lock.
  \<^item> \<open>Hub\<close> (\<open>hub.rs\<close>): the live sessions and the tickets for packages.
  \<^item> \<open>Targets\<close>, \<open>Targets_Correct\<close> (\<open>targets.rs\<close>): a target names nodes by a selector or by a list; a
    submission freezes them, with the checks before it; a dispatch queues one job per node.
  \<^item> \<open>Target_Schedules\<close>, \<open>Target_Entries\<close>, \<open>Target_Schedules_Correct\<close>, \<open>Target_Spares\<close>, \<open>Target_Drift\<close>
    (\<open>targets.rs\<close>): schedules for targets, written into the configurations of the nodes as entries
    with an origin. The step relation \<open>sched_step\<close> has every operation that touches them; its
    invariant says that tables and configurations do not contradict each other.
  \<^item> \<open>Center_Tags\<close>, \<open>Center_Tags_Correct\<close>, \<open>Center_Tags_Read\<close>, \<open>Center_Tags_Bulk\<close>, \<open>Center_Tags_Props\<close>,
    \<open>Center_Tags_Runs\<close> (\<open>tags.rs\<close>): the tags of the nodes from three sources, read in Rust and in SQL; the
    plan of a bulk change and what carrying it out does; the guard for production nodes.
  \<^item> \<open>Desired\<close>, \<open>Desired_Ops\<close>, \<open>Desired_Correct\<close>, \<open>Desired_Props\<close> (\<open>skill_desired.rs\<close>): the skills each
    node is to have. The three requests refine one operation on an abstract fleet, a map from
    nodes to a generation and the wished versions, from which follows that the generation
    identifies the wishes. The crate \<open>semver\<close> is a record of functions.
  \<^item> \<open>Delivery\<close>, \<open>Delivery_Correct\<close>, \<open>Delivery_Reports\<close> (\<open>skill_delivery.rs\<close>): what a node is told to have,
    with a ticket for each package that opens this package only; the chunks, which can be taken up
    again after any of them; the reports of the nodes, recorded once.
  \<^item> \<open>Session\<close>, \<open>Session_Correct\<close>, \<open>Session_Flush\<close>, \<open>Session_Props\<close> (\<open>grpc.rs\<close>): the control sessions. The world
    is the database, the hub and the running sessions; a step is one turn of one session. Over every
    reachable world a channel in the hub belongs to a ready session of its node. How many messages a
    client still takes is a number of the session the center does not see.

  \<^bold>\<open>Not modelled.\<close> Process start-up, sockets, HTTP and gRPC glue, the loss of the database connection and the console. The
  floating-point figures of reports are rationals, without rounding. Time passes only as the
  argument \<open>now\<close>. Text columns compare byte by byte, without the collation of the server, and a value too
  long for its column is not refused. The turns of two sessions do not overlap; concurrent runs share nothing in the model but the component cache.
\<close>

end
